(* ===== verification/Prelude.thy ===== *)
theory Prelude
  imports Main "HOL-Library.Word"
begin

text \<open>
  What every component of the development shares: pointers, the ways a run of the C code can
  end badly (\<open>fault\<close>), the state-and-fault monad in which the C functions are written,
  and a small calculus for two kinds of facts about such functions: that they keep an
  invariant (\<open>keep\<close>) and that they depend monotonically on the functions they call
  through pointers (\<open>calls_le\<close>). Nothing here is about meloop yet.
\<close>

unbundle bit_operations_syntax

section \<open>Pointers, bytes and return codes\<close>

type_synonym ptr = nat \<comment> \<open>an address; 0 is the null pointer\<close>
type_synonym byte = "8 word"
type_synonym u16 = "16 word"
type_synonym u32 = "32 word"
type_synonym u64 = "64 word"

abbreviation NULL :: ptr where "NULL \<equiv> 0"

text \<open>\<open>src/meloop/arrow.h\<close>: the two return codes of the library.\<close>

definition ERR :: int where "ERR = -1"
definition OK :: int where "OK = 0"

lemma ERR_OK [simp]: "ERR \<noteq> OK" "OK \<noteq> ERR" "ERR < 0" "\<not> OK < 0"
  by (simp_all add: ERR_def OK_def)

section \<open>Faults\<close>

text \<open>
  The memory of the model is split by the type of the objects (a typed heap); \<open>heap\<close>
  names the parts, so that a fault says what kind of object was misused.
\<close>

datatype heap = HElem | HCirc | HBag | HObj | HBlob

text \<open>
  How a call can fail to return to its caller: undefined behaviour of C (the first seven),
  a loop that never ends, the call depth that was allowed for function pointers is used up,
  or the process ends (\<open>err\<close>, \<open>exit\<close>).
\<close>

datatype fault =
    NullDeref heap
  | UseAfterFree heap
  | WildPointer heap
  | BadCast
  | BufferOverflow
  | SignedOverflow
  | Indeterminate
  | Diverges
  | OutOfFuel
  | Exit int

fun bag_fault :: "fault \<Rightarrow> bool" where
  "bag_fault (NullDeref h) = (h = HBag)"
| "bag_fault (UseAfterFree h) = (h = HBag)"
| "bag_fault (WildPointer h) = (h = HBag)"
| "bag_fault _ = False"

section \<open>The monad of the C functions\<close>

text \<open>
  A C function that returns an \<open>'a\<close> is a function from the state before the call to
  either a fault or the returned value and the state after the call.
\<close>

type_synonym ('w, 'a) m = "'w \<Rightarrow> fault + 'a \<times> 'w"

definition mret :: "'a \<Rightarrow> ('w, 'a) m" where
  "mret a = (\<lambda>w. Inr (a, w))"

definition mfail :: "fault \<Rightarrow> ('w, 'a) m" where
  "mfail f = (\<lambda>w. Inl f)"

definition mbind :: "('w, 'a) m \<Rightarrow> ('a \<Rightarrow> ('w, 'b) m) \<Rightarrow> ('w, 'b) m" where
  "mbind c k = (\<lambda>w. case c w of Inl f \<Rightarrow> Inl f | Inr (a, w') \<Rightarrow> k a w')"

definition mthen :: "('w, unit) m \<Rightarrow> ('w, 'b) m \<Rightarrow> ('w, 'b) m" where
  "mthen c d = mbind c (\<lambda>_. d)"

definition mgets :: "('w \<Rightarrow> 'a) \<Rightarrow> ('w, 'a) m" where
  "mgets g = (\<lambda>w. Inr (g w, w))"

definition mmod :: "('w \<Rightarrow> 'w) \<Rightarrow> ('w, unit) m" where
  "mmod g = (\<lambda>w. Inr ((), g w))"

definition mlift :: "('w \<Rightarrow> fault + 'a) \<Rightarrow> ('w, 'a) m" where
  "mlift g = (\<lambda>w. case g w of Inl f \<Rightarrow> Inl f | Inr a \<Rightarrow> Inr (a, w))"

text \<open>A block of statements, executed in order.\<close>

primrec mseq :: "('w, unit) m list \<Rightarrow> ('w, unit) m" where
  "mseq [] = mret ()"
| "mseq (c # cs) = mthen c (mseq cs)"

named_theorems mdefs "the monad's operations applied to a state"

lemma mret_apply [mdefs]: "mret a w = Inr (a, w)"
  by (simp add: mret_def)

lemma mfail_apply [mdefs]: "mfail f w = Inl f"
  by (simp add: mfail_def)

lemma mbind_apply [mdefs]:
  "mbind c k w = (case c w of Inl f \<Rightarrow> Inl f | Inr r \<Rightarrow> k (fst r) (snd r))"
  by (simp add: mbind_def split: sum.split prod.split)

lemma mthen_apply [mdefs]:
  "mthen c d w = (case c w of Inl f \<Rightarrow> Inl f | Inr r \<Rightarrow> d (snd r))"
  by (simp add: mthen_def mbind_apply)

lemma mgets_apply [mdefs]: "mgets g w = Inr (g w, w)"
  by (simp add: mgets_def)

lemma mmod_apply [mdefs]: "mmod g w = Inr ((), g w)"
  by (simp add: mmod_def)

lemma mlift_apply [mdefs]:
  "mlift g w = (case g w of Inl f \<Rightarrow> Inl f | Inr a \<Rightarrow> Inr (a, w))"
  by (simp add: mlift_def)

text \<open>The monad laws, and what a successful sequence has done on the way.\<close>

lemma mbind_mret [simp]: "mbind (mret a) k = k a"
  by (rule ext) (simp add: mdefs)

lemma mbind_right_mret [simp]: "mbind c mret = c"
  by (rule ext) (simp add: mdefs split: sum.split)

lemma mbind_assoc: "mbind (mbind c k) l = mbind c (\<lambda>a. mbind (k a) l)"
  by (rule ext) (simp add: mdefs split: sum.split)

text \<open>\<open>runs\<close>: how a sequence runs once its first part is known; the component theories add
  the runs of their operations.\<close>

named_theorems runs "runs of sequences whose first operation is known"

lemma mthen_mret [runs]: "mthen c (mret ()) = c"
  by (rule ext) (simp add: mdefs split: sum.split)

lemma mseq_one [runs]: "mseq [c] = c"
  by (simp add: mthen_mret)

lemma mseq_two [runs]: "mseq (c # d # cs) = mthen c (mseq (d # cs))"
  by simp

lemma mgets_bind [runs]: "mbind (mgets g) k w = k (g w) w"
  by (simp add: mdefs)

lemma mmod_then [runs]: "mthen (mmod g) d w = d (g w)"
  by (simp add: mdefs)

lemma mfail_bind [runs]: "mbind (mfail f) k w = Inl f"
  by (simp add: mdefs)

lemma bind_run: "c w = Inr (a, w') \<Longrightarrow> mbind c k w = k a w'"
  by (simp add: mdefs)

lemma then_run: "c w = Inr ((), w') \<Longrightarrow> mthen c d w = d w'"
  by (simp add: mdefs)

lemma mthen_mbind [runs]: "mthen (mbind c k) d = mbind c (\<lambda>a. mthen (k a) d)"
  by (simp add: mthen_def mbind_assoc)

lemma mthen_assoc [runs]: "mthen (mthen b c) d = mthen b (mthen c d)"
  by (simp add: mthen_def mbind_assoc)

lemma mbind_mthen [runs]: "mbind (mthen c d) k = mthen c (mbind d k)"
  by (simp add: mthen_def mbind_assoc)

declare mbind_assoc [runs]

lemma mbind_Inr_iff:
  "mbind c k w = Inr r \<longleftrightarrow> (\<exists>a w'. c w = Inr (a, w') \<and> k a w' = Inr r)"
  by (auto simp: mdefs split: sum.splits)

lemma mthen_Inr_iff:
  "mthen c d w = Inr r \<longleftrightarrow> (\<exists>w'. c w = Inr ((), w') \<and> d w' = Inr r)"
  by (auto simp: mthen_def mbind_Inr_iff)

section \<open>Keeping an invariant\<close>

text \<open>
  \<open>keep P F c\<close>: started in a state with \<open>P\<close>, the computation \<open>c\<close> either returns
  in a state with \<open>P\<close> or ends in a fault that \<open>F\<close> admits. With \<open>F = (\<lambda>_. True)\<close>
  it says that \<open>P\<close> is an invariant; with a smaller \<open>F\<close> it also excludes faults.
\<close>

definition keep :: "('w \<Rightarrow> bool) \<Rightarrow> (fault \<Rightarrow> bool) \<Rightarrow> ('w, 'a) m \<Rightarrow> bool" where
  "keep P F c \<longleftrightarrow> (\<forall>w. P w \<longrightarrow> (case c w of Inl f \<Rightarrow> F f | Inr r \<Rightarrow> P (snd r)))"

named_theorems keep_intros "rules that show that a computation keeps an invariant"

lemma keepI:
  assumes "\<And>w f. P w \<Longrightarrow> c w = Inl f \<Longrightarrow> F f"
    and "\<And>w a w'. P w \<Longrightarrow> c w = Inr (a, w') \<Longrightarrow> P w'"
  shows "keep P F c"
  unfolding keep_def
proof (intro allI impI)
  fix w assume "P w"
  with assms show "case c w of Inl f \<Rightarrow> F f | Inr r \<Rightarrow> P (snd r)"
    by (cases "c w") auto
qed

lemma keepD_Inr: "keep P F c \<Longrightarrow> P w \<Longrightarrow> c w = Inr (a, w') \<Longrightarrow> P w'"
  by (drule keep_def [THEN iffD1, THEN spec, of _ _ _ w]) simp

lemma keepD_Inl: "keep P F c \<Longrightarrow> P w \<Longrightarrow> c w = Inl f \<Longrightarrow> F f"
  by (drule keep_def [THEN iffD1, THEN spec, of _ _ _ w]) simp

lemma keep_weaken: "keep P F c \<Longrightarrow> (\<And>f. F f \<Longrightarrow> G f) \<Longrightarrow> keep P G c"
  by (rule keepI) (blast dest: keepD_Inl, blast dest: keepD_Inr)

lemma keepD: "keep P F c \<Longrightarrow> P w \<Longrightarrow> (case c w of Inl f \<Rightarrow> F f | Inr r \<Rightarrow> P (snd r))"
  by (simp add: keep_def)

lemma keep_mret [keep_intros]: "keep P F (mret a)"
  by (simp add: keep_def mdefs)

lemma keep_mgets [keep_intros]: "keep P F (mgets g)"
  by (simp add: keep_def mdefs)

lemma keep_mfail: "F f \<Longrightarrow> keep P F (mfail f)"
  by (simp add: keep_def mdefs)

lemma keep_mbind [keep_intros]:
  assumes "keep P F c" and "\<And>a. keep P F (k a)"
  shows "keep P F (mbind c k)"
proof (rule keepI)
  fix w f
  assume P: "P w" and f: "mbind c k w = Inl f"
  show "F f"
  proof (cases "c w")
    case (Inl g)
    with f keepD_Inl [OF assms(1) P] show ?thesis by (simp add: mdefs)
  next
    case (Inr r)
    with P have "P (snd r)"
      using keepD_Inr [OF assms(1), of w "fst r" "snd r"] by simp
    with f Inr keepD_Inl [OF assms(2)] show ?thesis by (simp add: mdefs)
  qed
next
  fix w a w'
  assume "P w" and "mbind c k w = Inr (a, w')"
  then show "P w'"
    by (auto simp: mbind_Inr_iff dest: keepD_Inr [OF assms(1)] keepD_Inr [OF assms(2)])
qed

lemma keep_mthen [keep_intros]:
  "keep P F c \<Longrightarrow> keep P F d \<Longrightarrow> keep P F (mthen c d)"
  by (simp add: mthen_def keep_mbind)

lemma keep_mseq_Nil [keep_intros]: "keep P F (mseq [])"
  by (simp add: keep_mret)

lemma keep_mseq_Cons [keep_intros]:
  "keep P F c \<Longrightarrow> keep P F (mseq cs) \<Longrightarrow> keep P F (mseq (c # cs))"
  by (simp add: keep_mthen)

lemma keep_if [keep_intros]:
  "(b \<Longrightarrow> keep P F c) \<Longrightarrow> (\<not> b \<Longrightarrow> keep P F d) \<Longrightarrow> keep P F (if b then c else d)"
  by simp

lemma keep_option [keep_intros]:
  "(x = None \<Longrightarrow> keep P F c) \<Longrightarrow> (\<And>a. x = Some a \<Longrightarrow> keep P F (k a)) \<Longrightarrow>
    keep P F (case x of None \<Rightarrow> c | Some a \<Rightarrow> k a)"
  by (cases x) simp_all

lemma keep_sum [keep_intros]:
  "(\<And>a. x = Inl a \<Longrightarrow> keep P F (c a)) \<Longrightarrow> (\<And>a. x = Inr a \<Longrightarrow> keep P F (k a)) \<Longrightarrow>
    keep P F (case x of Inl a \<Rightarrow> c a | Inr a \<Rightarrow> k a)"
  by (cases x) simp_all

lemma keep_prod [keep_intros]:
  "(\<And>a b. keep P F (k a b)) \<Longrightarrow> keep P F (case x of (a, b) \<Rightarrow> k a b)"
  by (cases x) simp

lemma keep_let [keep_intros]: "(\<And>a. keep P F (k a)) \<Longrightarrow> keep P F (let a = x in k a)"
  by simp

lemma keep_mmod: "(\<And>w. P w \<Longrightarrow> P (g w)) \<Longrightarrow> keep P F (mmod g)"
  by (simp add: keep_def mdefs)

lemma keep_mlift: "(\<And>w f. P w \<Longrightarrow> g w = Inl f \<Longrightarrow> F f) \<Longrightarrow> keep P F (mlift g)"
  by (auto simp: keep_def mdefs split: sum.splits)

section \<open>Monotonicity in the called functions\<close>

text \<open>
  A function that calls others through pointers takes the meaning \<open>call\<close> of such calls as
  a parameter. \<open>less_fuel c d\<close>: \<open>d\<close> agrees with \<open>c\<close> on every state from which
  \<open>c\<close> does not run out of call depth.
\<close>

definition less_fuel :: "('w, 'a) m \<Rightarrow> ('w, 'a) m \<Rightarrow> bool" where
  "less_fuel c d \<longleftrightarrow> (\<forall>w. c w = Inl OutOfFuel \<or> d w = c w)"

definition calls_le :: "('i \<Rightarrow> ('w, 'a) m) \<Rightarrow> ('i \<Rightarrow> ('w, 'a) m) \<Rightarrow> bool" where
  "calls_le f g \<longleftrightarrow> (\<forall>i. less_fuel (f i) (g i))"

named_theorems mono_intros "rules that show monotonicity in the called functions"

lemma less_fuel_refl [mono_intros]: "less_fuel c c"
  by (simp add: less_fuel_def)

lemma less_fuel_call: "calls_le f g \<Longrightarrow> less_fuel (f i) (g i)"
  by (simp add: calls_le_def)

lemma less_fuel_mbind [mono_intros]:
  assumes "less_fuel c c'" and "\<And>a. less_fuel (k a) (k' a)"
  shows "less_fuel (mbind c k) (mbind c' k')"
  unfolding less_fuel_def
proof
  fix w
  from assms(1) consider "c w = Inl OutOfFuel" | "c' w = c w"
    by (auto simp: less_fuel_def)
  then show "mbind c k w = Inl OutOfFuel \<or> mbind c' k' w = mbind c k w"
  proof cases
    case 1
    then show ?thesis by (simp add: mdefs)
  next
    case 2
    with assms(2) show ?thesis
      by (auto simp: mdefs less_fuel_def split: sum.split)
  qed
qed

lemma less_fuel_mthen [mono_intros]:
  "less_fuel c c' \<Longrightarrow> less_fuel d d' \<Longrightarrow> less_fuel (mthen c d) (mthen c' d')"
  by (simp add: mthen_def less_fuel_mbind)

lemma less_fuel_mseq_Nil [mono_intros]: "less_fuel (mseq []) (mseq [])"
  by (rule less_fuel_refl)

lemma less_fuel_mseq_Cons [mono_intros]:
  "less_fuel c c' \<Longrightarrow> less_fuel (mseq cs) (mseq cs') \<Longrightarrow>
    less_fuel (mseq (c # cs)) (mseq (c' # cs'))"
  by (simp add: less_fuel_mthen)

lemma less_fuel_if [mono_intros]:
  "less_fuel c c' \<Longrightarrow> less_fuel d d' \<Longrightarrow>
    less_fuel (if b then c else d) (if b then c' else d')"
  by simp

lemma less_fuel_option [mono_intros]:
  "less_fuel c c' \<Longrightarrow> (\<And>a. less_fuel (k a) (k' a)) \<Longrightarrow>
    less_fuel (case x of None \<Rightarrow> c | Some a \<Rightarrow> k a) (case x of None \<Rightarrow> c' | Some a \<Rightarrow> k' a)"
  by (cases x) simp_all

lemma less_fuel_sum [mono_intros]:
  "(\<And>a. less_fuel (c a) (c' a)) \<Longrightarrow> (\<And>a. less_fuel (k a) (k' a)) \<Longrightarrow>
    less_fuel (case x of Inl a \<Rightarrow> c a | Inr a \<Rightarrow> k a) (case x of Inl a \<Rightarrow> c' a | Inr a \<Rightarrow> k' a)"
  by (cases x) simp_all

lemma less_fuel_prod [mono_intros]:
  "(\<And>a b. less_fuel (k a b) (k' a b)) \<Longrightarrow>
    less_fuel (case x of (a, b) \<Rightarrow> k a b) (case x of (a, b) \<Rightarrow> k' a b)"
  by (cases x) simp

lemma less_fuel_Inr: "less_fuel c d \<Longrightarrow> c w = Inr r \<Longrightarrow> d w = Inr r"
  by (drule less_fuel_def [THEN iffD1, THEN spec, of _ _ w]) auto

lemma less_fuel_trans: "less_fuel c d \<Longrightarrow> less_fuel d e \<Longrightarrow> less_fuel c e"
  unfolding less_fuel_def
proof
  fix w
  assume "\<forall>w. c w = Inl OutOfFuel \<or> d w = c w" and "\<forall>w. d w = Inl OutOfFuel \<or> e w = d w"
  then have "c w = Inl OutOfFuel \<or> d w = c w" and "d w = Inl OutOfFuel \<or> e w = d w"
    by blast+
  then show "c w = Inl OutOfFuel \<or> e w = c w" by auto
qed

section \<open>Decimal text\<close>

text \<open>The digits that \<open>%d\<close> and \<open>%ld\<close> print.\<close>

fun dec_nat :: "nat \<Rightarrow> string" where
  "dec_nat n = (if n < 10 then [char_of (48 + n)] else dec_nat (n div 10) @ [char_of (48 + n mod 10)])"

declare dec_nat.simps [simp del]

definition dec_int :: "int \<Rightarrow> string" where
  "dec_int i = (if i < 0 then CHR ''-'' # dec_nat (nat (- i)) else dec_nat (nat i))"

lemma dec_nat_not_Nil [simp]: "dec_nat n \<noteq> []"
  by (subst dec_nat.simps) simp

lemma length_dec_nat_3: "n < 1000 \<Longrightarrow> length (dec_nat n) \<le> 3"
  by (simp add: dec_nat.simps [of n] dec_nat.simps [of "n div 10"]
      dec_nat.simps [of "n div 10 div 10"])

lemma length_dec_nat_5: "n < 100000 \<Longrightarrow> length (dec_nat n) \<le> 5"
  by (simp add: dec_nat.simps [of n] dec_nat.simps [of "n div 10"]
      dec_nat.simps [of "n div 10 div 10"] dec_nat.simps [of "n div 10 div 10 div 10"]
      dec_nat.simps [of "n div 10 div 10 div 10 div 10"])

end
