(* ===== verification/Store.thy ===== *)
theory Store
  imports Prelude
begin

text \<open>
  The typed heaps: one store per kind of C object, with the allocation, access, update and
  release that \<open>malloc\<close>, \<open>->\<close> and \<open>free\<close> give the code. An address is never
  reused, so an access after \<open>free\<close> is always seen as the fault \<open>UseAfterFree\<close>.
  The locale \<open>memory\<close> is the interface the components use; \<open>mem\<close> is its
  interpretation on the store.
\<close>

section \<open>The store\<close>

record 'a store =
  cells :: "ptr \<Rightarrow> 'a option"
  brk :: ptr \<comment> \<open>the next address to hand out\<close>

definition empty_store :: "'a store" where
  "empty_store = \<lparr>cells = (\<lambda>_. None), brk = 1\<rparr>"

definition bad_access :: "heap \<Rightarrow> 'a store \<Rightarrow> ptr \<Rightarrow> fault" where
  "bad_access h s p =
     (if p = NULL then NullDeref h else if p < brk s then UseAfterFree h else WildPointer h)"

definition get_cell :: "heap \<Rightarrow> 'a store \<Rightarrow> ptr \<Rightarrow> fault + 'a" where
  "get_cell h s p = (case cells s p of Some x \<Rightarrow> Inr x | None \<Rightarrow> Inl (bad_access h s p))"

definition put_cell :: "ptr \<Rightarrow> 'a \<Rightarrow> 'a store \<Rightarrow> 'a store" where
  "put_cell p x s = s\<lparr>cells := (cells s)(p \<mapsto> x)\<rparr>"

definition new_cell :: "'a \<Rightarrow> 'a store \<Rightarrow> ptr \<times> 'a store" where
  "new_cell x s = (brk s, s\<lparr>cells := (cells s)(brk s \<mapsto> x), brk := Suc (brk s)\<rparr>)"

definition del_cell :: "ptr \<Rightarrow> 'a store \<Rightarrow> 'a store" where
  "del_cell p s = s\<lparr>cells := (cells s)(p := None)\<rparr>"

definition store_ok :: "'a store \<Rightarrow> bool" where
  "store_ok s \<longleftrightarrow> 0 < brk s \<and> (\<forall>p. cells s p \<noteq> None \<longrightarrow> 0 < p \<and> p < brk s)"

lemma empty_store_ok [simp]: "store_ok empty_store"
  by (simp add: store_ok_def empty_store_def)

lemma cells_put [simp]: "cells (put_cell p x s) = (cells s)(p \<mapsto> x)"
  by (simp add: put_cell_def)

lemma brk_put [simp]: "brk (put_cell p x s) = brk s"
  by (simp add: put_cell_def)

lemma cells_del [simp]: "cells (del_cell p s) = (cells s)(p := None)"
  by (simp add: del_cell_def)

lemma brk_del [simp]: "brk (del_cell p s) = brk s"
  by (simp add: del_cell_def)

lemma new_cell_fst [simp]: "fst (new_cell x s) = brk s"
  by (simp add: new_cell_def)

lemma cells_new [simp]: "cells (snd (new_cell x s)) = (cells s)(brk s \<mapsto> x)"
  by (simp add: new_cell_def)

lemma brk_new [simp]: "brk (snd (new_cell x s)) = Suc (brk s)"
  by (simp add: new_cell_def)

lemma get_cell_Inr [simp]: "get_cell h s p = Inr x \<longleftrightarrow> cells s p = Some x"
  by (simp add: get_cell_def split: option.split)

lemma get_cell_Some: "cells s p = Some x \<Longrightarrow> get_cell h s p = Inr x"
  by simp

lemma get_put_same [simp]: "get_cell h (put_cell p x s) p = Inr x"
  by simp

lemma get_put_other [simp]: "q \<noteq> p \<Longrightarrow> get_cell h (put_cell p x s) q = get_cell h s q"
  by (simp add: get_cell_def bad_access_def split: option.split)

lemma get_cell_NULL: "store_ok s \<Longrightarrow> get_cell h s NULL = Inl (NullDeref h)"
  by (cases "cells s NULL") (force simp: get_cell_def bad_access_def store_ok_def)+

lemma bad_access_bag [simp]: "bag_fault (bad_access h s p) \<longleftrightarrow> h = HBag"
  by (simp add: bad_access_def)

lemma get_cell_Inl_bag: "get_cell h s p = Inl f \<Longrightarrow> bag_fault f \<longleftrightarrow> h = HBag"
  by (auto simp: get_cell_def split: option.splits)

section \<open>The interface of a memory\<close>

locale memory =
  fixes look :: "'s \<Rightarrow> ptr \<Rightarrow> 'a option"
    and alloc :: "'a \<Rightarrow> 's \<Rightarrow> ptr \<times> 's"
    and upd :: "ptr \<Rightarrow> 'a \<Rightarrow> 's \<Rightarrow> 's"
    and del :: "ptr \<Rightarrow> 's \<Rightarrow> 's"
    and ok :: "'s \<Rightarrow> bool"
  assumes alloc_fresh: "ok s \<Longrightarrow> look s (fst (alloc x s)) = None \<and> fst (alloc x s) \<noteq> NULL"
    and look_alloc: "look (snd (alloc x s)) = (look s)(fst (alloc x s) \<mapsto> x)"
    and ok_alloc: "ok s \<Longrightarrow> ok (snd (alloc x s))"
    and look_upd: "look (upd p x s) = (look s)(p \<mapsto> x)"
    and ok_upd: "ok s \<Longrightarrow> look s p \<noteq> None \<Longrightarrow> ok (upd p x s)"
    and look_del: "look (del p s) = (look s)(p := None)"
    and ok_del: "ok s \<Longrightarrow> ok (del p s)"
    and null_dead: "ok s \<Longrightarrow> look s NULL = None"
begin

lemma alloc_frame: "ok s \<Longrightarrow> look s p = Some y \<Longrightarrow> look (snd (alloc x s)) p = Some y"
  using alloc_fresh [of s x] by (auto simp: look_alloc)

lemma alloc_new_differs: "ok s \<Longrightarrow> look s p = Some y \<Longrightarrow> fst (alloc x s) \<noteq> p"
  using alloc_fresh [of s x] by auto

lemma del_alloc: "ok s \<Longrightarrow> look (del (fst (alloc x s)) (snd (alloc x s))) = look s"
  using alloc_fresh [of s x] by (auto simp: look_del look_alloc)

lemma live_not_null: "ok s \<Longrightarrow> look s p = Some y \<Longrightarrow> p \<noteq> NULL"
  using null_dead [of s] by (cases "p = NULL") simp_all

lemma del_other: "q \<noteq> p \<Longrightarrow> look (del p s) q = look s q"
  by (simp add: look_del)

text \<open>Releasing every object of a list leaves exactly the other objects.\<close>

lemma look_fold_del: "look (fold del ps s) q = (if q \<in> set ps then None else look s q)"
  by (induction ps arbitrary: s) (simp_all add: look_del)

end

interpretation mem: memory cells new_cell put_cell del_cell store_ok
  by unfold_locales (auto simp: store_ok_def less_Suc_eq)

lemmas new_cell_frame = mem.alloc_frame [simplified]

lemma fold_del_brk [simp]: "brk (fold del_cell ps s) = brk s"
  by (induction ps arbitrary: s) simp_all

lemma store_eqI: "cells s = cells t \<Longrightarrow> brk s = brk t \<Longrightarrow> s = (t :: 'a store)"
  by simp

end
