(* ===== verification/World.thy ===== *)
theory World
  imports Store
begin

text \<open>
  The state the library runs in: the C structs as records, the objects of the heap, the
  static variables of the modules, the operating system as a parameter, and the loads,
  stores and system calls that the component theories are written with.
\<close>

section \<open>Functions that are called through pointers\<close>

text \<open>
  A \<open>meloop_task\<close> is a function pointer. The model has a name for every arrow of the
  library; \<open>A_user n\<close> stands for a function of the program that uses the library, and
  so do the numbers of the error and connection callbacks.
\<close>

datatype task =
    A_read | A_write
  | A_piperead | A_pipewrite
  | A_timeropen | A_timersleep
  | A_randopen | A_randread | A_randenc
  | A_listen | A_accept | A_connect
  | A_tls | A_tlsread | A_tlswrite
  | A_tunopen
  | A_user nat

type_synonym errcb = nat
type_synonym conncb = nat

section \<open>Structs of the circuits and of the event module\<close>

datatype meloop_element_type = MLETSIMPLE | MLERFORK

text \<open>
  \<open>struct elementE\<close>; of its union the code only ever uses \<open>simple.next\<close>.
\<close>

record elementE =
  e_type :: meloop_element_type
  e_run :: task
  e_priv :: ptr
  e_last :: bool
  e_next :: ptr

text \<open>
  \<open>struct circuitS\<close>. \<open>newC\<close> leaves the field \<open>ptr\<close> uninitialised, which is
  \<open>None\<close> here.
\<close>

record circuitS =
  c_err :: "errcb option"
  c_current :: ptr
  c_nets :: ptr
  c_ptr :: "ptr option"

record bagS =
  b_fd :: int
  b_circuit :: ptr
  b_state :: ptr
  b_data :: ptr

text \<open>The static variables of \<open>ev.c\<close>.\<close>

record ev_state =
  epfd :: int
  epflags :: u32
  waitingbags :: int
  bags :: "ptr list"

section \<open>Structs of the data that arrows pass on\<close>

record stringS =
  s_blob :: ptr
  s_size :: u64

record fileS =
  f_ptr :: ptr
  f_data :: ptr
  f_fd :: int

text \<open>
  The part of \<open>struct sockaddr\<close> that is used as a \<open>struct sockaddr_in\<close>; port and
  address are kept as the code stores them, in network byte order.
\<close>

record sockaddr =
  sin_family :: u16
  sin_port :: u16
  sin_addr :: u32

record tcpconnS = fileS +
  localaddr :: sockaddr
  remoteaddr :: sockaddr

record pipeS =
  p_ptr :: ptr
  p_data :: ptr
  p_rfd :: int
  p_wfd :: int

record timerS =
  t_ptr :: ptr
  t_fd :: int
  t_status :: int

record tunS = fileS +
  tun_name :: string \<comment> \<open>the characters before the terminating zero\<close>
  tun_address :: string
  tun_destaddress :: string
  tun_netmask :: string
  addressB :: u32
  destaddressB :: u32
  netmaskB :: u32

section \<open>Structs of the private data of arrows\<close>

record ioP =
  epollflags :: u32
  readsize :: u64

record tcpserverP = ioP +
  bindaddr :: "string option"
  bindport :: u16
  bind_addr :: sockaddr
  backlog :: int
  client_connected :: "conncb option"

record tcpclientP = ioP +
  tc_hostname :: string
  tc_port :: string
  tc_connected :: "conncb option" \<comment> \<open>never called by the library\<close>
  tc_status :: int

record tlsclientP = tcpclientP +
  tls_ssl :: ptr
  tls_status :: int

record timerP =
  tp_epollflags :: u32
  clockid :: int
  tp_flags :: int
  interval_ns :: u64

record tunP = ioP +
  tap :: bool

section \<open>Objects and casts\<close>

datatype obj =
    O_string stringS
  | O_file fileS
  | O_tcpconn tcpconnS
  | O_pipe pipeS
  | O_timer timerS
  | O_tun tunS
  | O_ioP ioP
  | O_tcpserverP tcpserverP
  | O_tcpclientP tcpclientP
  | O_tlsclientP tlsclientP
  | O_timerP timerP
  | O_tunP tunP
  | O_ctx "ptr list" \<comment> \<open>a struct of the program whose members are pointers\<close>

text \<open>
  The casts the code relies on: a struct that starts with the members of another one may be
  used as it (\<open>struct tcpconnS\<close> and \<open>struct tunS\<close> as \<open>struct fileS\<close>, the
  private structs as \<open>struct ioP\<close>). A \<open>struct pipeS\<close> has the layout of a
  \<open>struct fileS\<close> with \<open>rfd\<close> in the place of \<open>fd\<close>, which
  \<open>examples/echoshell.c\<close> uses.
\<close>

fun as_file :: "obj \<Rightarrow> fileS option" where
  "as_file (O_file f) = Some f"
| "as_file (O_tcpconn c) = Some (fileS.truncate c)"
| "as_file (O_tun t) = Some (fileS.truncate t)"
| "as_file (O_pipe p) = Some \<lparr>f_ptr = p_ptr p, f_data = p_data p, f_fd = p_rfd p\<rparr>"
| "as_file _ = None"

fun with_fd :: "int \<Rightarrow> obj \<Rightarrow> obj" where
  "with_fd fd (O_file f) = O_file (f\<lparr>f_fd := fd\<rparr>)"
| "with_fd fd (O_tcpconn c) = O_tcpconn (c\<lparr>f_fd := fd\<rparr>)"
| "with_fd fd (O_tun t) = O_tun (t\<lparr>f_fd := fd\<rparr>)"
| "with_fd fd (O_pipe p) = O_pipe (p\<lparr>p_rfd := fd\<rparr>)"
| "with_fd fd ob = ob"

fun as_ioP :: "obj \<Rightarrow> ioP option" where
  "as_ioP (O_ioP i) = Some i"
| "as_ioP (O_tcpserverP s) = Some (ioP.truncate s)"
| "as_ioP (O_tcpclientP c) = Some (ioP.truncate c)"
| "as_ioP (O_tlsclientP t) = Some (ioP.truncate t)"
| "as_ioP (O_tunP t) = Some (ioP.truncate t)"
| "as_ioP _ = None"

fun as_tcpclientP :: "obj \<Rightarrow> tcpclientP option" where
  "as_tcpclientP (O_tcpclientP c) = Some c"
| "as_tcpclientP (O_tlsclientP t) = Some (tcpclientP.truncate t)"
| "as_tcpclientP _ = None"

fun with_status :: "int \<Rightarrow> obj \<Rightarrow> obj" where
  "with_status st (O_tcpclientP c) = O_tcpclientP (c\<lparr>tc_status := st\<rparr>)"
| "with_status st (O_tlsclientP t) = O_tlsclientP (t\<lparr>tc_status := st\<rparr>)"
| "with_status st ob = ob"

fun as_string :: "obj \<Rightarrow> stringS option" where
  "as_string (O_string s) = Some s" | "as_string _ = None"

fun as_tcpconn :: "obj \<Rightarrow> tcpconnS option" where
  "as_tcpconn (O_tcpconn c) = Some c" | "as_tcpconn _ = None"

fun as_pipe :: "obj \<Rightarrow> pipeS option" where
  "as_pipe (O_pipe p) = Some p" | "as_pipe _ = None"

fun as_timer :: "obj \<Rightarrow> timerS option" where
  "as_timer (O_timer t) = Some t" | "as_timer _ = None"

fun as_tun :: "obj \<Rightarrow> tunS option" where
  "as_tun (O_tun t) = Some t" | "as_tun _ = None"

fun as_tcpserverP :: "obj \<Rightarrow> tcpserverP option" where
  "as_tcpserverP (O_tcpserverP s) = Some s" | "as_tcpserverP _ = None"

fun as_tlsclientP :: "obj \<Rightarrow> tlsclientP option" where
  "as_tlsclientP (O_tlsclientP t) = Some t" | "as_tlsclientP _ = None"

fun as_timerP :: "obj \<Rightarrow> timerP option" where
  "as_timerP (O_timerP t) = Some t" | "as_timerP _ = None"

fun as_ctx :: "obj \<Rightarrow> ptr list option" where
  "as_ctx (O_ctx ps) = Some ps" | "as_ctx _ = None"

text \<open>The member \<open>ptr\<close> is the first one of every struct of data; programs read it through a
  \<open>struct fileS *\<close> whatever the struct is.\<close>

fun ptr_of :: "obj \<Rightarrow> ptr option" where
  "ptr_of (O_file f) = Some (f_ptr f)"
| "ptr_of (O_tcpconn c) = Some (f_ptr c)"
| "ptr_of (O_tun t) = Some (f_ptr t)"
| "ptr_of (O_pipe p) = Some (p_ptr p)"
| "ptr_of (O_timer t) = Some (t_ptr t)"
| "ptr_of _ = None"

fun as_tunP :: "obj \<Rightarrow> tunP option" where
  "as_tunP (O_tunP t) = Some t" | "as_tunP _ = None"

end
