(* ===== verification/Machine.thy ===== *)
theory Machine
  imports World
begin

text \<open>
  The machine under the library: errno and epoll constants of Linux, the operating system as
  a record of functions over a kernel state (a parameter of the whole development, nothing is
  assumed of it here), the state \<open>world\<close> of a process, and the memory accesses and
  system calls as operations of the monad. \<open>trace\<close> records the system calls in the order
  in which the code makes them; the code cannot read it.
\<close>

section \<open>Constants\<close>

definition ENOENT :: int where "ENOENT = 2"
definition EAGAIN :: int where "EAGAIN = 11"
definition EWOULDBLOCK :: int where "EWOULDBLOCK = 11"
definition EINPROGRESS :: int where "EINPROGRESS = 115"

definition EPOLLIN :: u32 where "EPOLLIN = 0x1"
definition EPOLLOUT :: u32 where "EPOLLOUT = 0x4"
definition EPOLLERR :: u32 where "EPOLLERR = 0x8"
definition EPOLLRDHUP :: u32 where "EPOLLRDHUP = 0x2000"
definition EPOLLONESHOT :: u32 where "EPOLLONESHOT = 0x40000000"
definition EPOLLET :: u32 where "EPOLLET = 0x80000000"

definition AF_INET :: int where "AF_INET = 2"
definition SOCK_STREAM :: int where "SOCK_STREAM = 1"
definition SOCK_DGRAM :: int where "SOCK_DGRAM = 2"
definition SOCK_NONBLOCK :: int where "SOCK_NONBLOCK = 0x800"
definition TFD_NONBLOCK :: int where "TFD_NONBLOCK = 0x800"
definition O_RDONLY :: int where "O_RDONLY = 0"
definition O_RDWR :: int where "O_RDWR = 2"
definition O_NONBLOCK :: int where "O_NONBLOCK = 0x800"
definition EXIT_FAILURE :: int where "EXIT_FAILURE = 1"

text \<open>\<open>ssize_t\<close> results are kept as the 64 bits that the C code holds.\<close>

definition MINUS1 :: u64 where "MINUS1 = -1"

section \<open>The operating system\<close>

datatype ctl_op = EPOLL_CTL_ADD | EPOLL_CTL_MOD | EPOLL_CTL_DEL

record itimerspec =
  it_interval_sec :: u64
  it_interval_nsec :: u64
  it_value_sec :: u64
  it_value_nsec :: u64

record addrinfo =
  ai_family :: int
  ai_socktype :: int
  ai_protocol :: int
  ai_addr :: sockaddr

text \<open>
  OpenSSL is a parameter as well. Its calls may change \<open>errno\<close>: they take the value before
  the call and give the one after it. \<open>os_SSL_read\<close> gives the return value and the bytes that were
  written to the buffer, \<open>os_SSL_write\<close> takes the length and the bytes, \<open>os_ERR_reason\<close> the text of an error code or the null pointer.
\<close>

datatype ssl_setting =
    Set_fd int | Set_connect_state | Set1_host string | Set_cipher_list string
  | Set_tlsext_host_name string | Set_hostflags

datatype ctx_setting =
    Library_init | Load_error_strings
  | Set_verify | Set_verify_depth int | Set_options | Load_verify_locations string

record 'k openssl =
  os_SSL_read :: "ptr \<Rightarrow> int \<Rightarrow> int \<Rightarrow> 'k \<Rightarrow> (int \<times> byte list) \<times> int \<times> 'k"
  os_SSL_write :: "ptr \<Rightarrow> int \<Rightarrow> byte list \<Rightarrow> int \<Rightarrow> 'k \<Rightarrow> int \<times> int \<times> 'k"
  os_SSL_connect :: "ptr \<Rightarrow> int \<Rightarrow> 'k \<Rightarrow> int \<times> int \<times> 'k"
  os_SSL_get_error :: "ptr \<Rightarrow> int \<Rightarrow> int \<Rightarrow> 'k \<Rightarrow> int \<times> int \<times> 'k"
  os_ERR_get_error :: "int \<Rightarrow> 'k \<Rightarrow> u64 \<times> int \<times> 'k"
  os_ERR_reason :: "u64 \<Rightarrow> string option"
  os_SSL_new :: "ptr \<Rightarrow> int \<Rightarrow> 'k \<Rightarrow> ptr \<times> int \<times> 'k"
  os_SSL_set :: "ssl_setting \<Rightarrow> ptr \<Rightarrow> int \<Rightarrow> 'k \<Rightarrow> int \<times> int \<times> 'k"
  os_SSLv23_method :: ptr
  os_SSL_CTX_new :: "ptr \<Rightarrow> int \<Rightarrow> 'k \<Rightarrow> ptr \<times> int \<times> 'k"
  os_SSL_CTX_set :: "ctx_setting \<Rightarrow> ptr \<Rightarrow> int \<Rightarrow> 'k \<Rightarrow> int \<times> int \<times> 'k"
  os_SSL_CTX_free :: "ptr \<Rightarrow> int \<Rightarrow> 'k \<Rightarrow> unit \<times> int \<times> 'k"

text \<open>
  Every call maps the kernel state to a result and the next kernel state. \<open>Inl e\<close> is the
  failure (return value -1) with error number \<open>e\<close>. \<open>os_freeaddrinfo\<close> maps the error
  number before the call to the one after it, because the library reads \<open>errno\<close> after it.
\<close>

record 'k os =
  os_malloc :: "'k \<Rightarrow> bool \<times> 'k"
  os_read :: "int \<Rightarrow> nat \<Rightarrow> 'k \<Rightarrow> (int + byte list) \<times> 'k"
  os_write :: "int \<Rightarrow> byte list \<Rightarrow> 'k \<Rightarrow> (int + nat) \<times> 'k"
  os_close :: "int \<Rightarrow> 'k \<Rightarrow> (int + unit) \<times> 'k"
  os_open :: "string \<Rightarrow> int \<Rightarrow> 'k \<Rightarrow> (int + int) \<times> 'k"
  os_epoll_create1 :: "int \<Rightarrow> 'k \<Rightarrow> (int + int) \<times> 'k"
  os_epoll_ctl :: "int \<Rightarrow> ctl_op \<Rightarrow> int \<Rightarrow> u32 \<Rightarrow> ptr \<Rightarrow> 'k \<Rightarrow> (int + unit) \<times> 'k"
  os_epoll_wait :: "int \<Rightarrow> nat \<Rightarrow> 'k \<Rightarrow> (int + (u32 \<times> ptr) list) \<times> 'k"
  os_timerfd_create :: "int \<Rightarrow> int \<Rightarrow> 'k \<Rightarrow> (int + int) \<times> 'k"
  os_timerfd_settime :: "int \<Rightarrow> int \<Rightarrow> itimerspec \<Rightarrow> 'k \<Rightarrow> (int + unit) \<times> 'k"
  os_socket :: "int \<Rightarrow> int \<Rightarrow> int \<Rightarrow> 'k \<Rightarrow> (int + int) \<times> 'k"
  os_reuseaddr :: "int \<Rightarrow> 'k \<Rightarrow> (int + unit) \<times> 'k"
  os_bind :: "int \<Rightarrow> sockaddr \<Rightarrow> 'k \<Rightarrow> (int + unit) \<times> 'k"
  os_listen :: "int \<Rightarrow> int \<Rightarrow> 'k \<Rightarrow> (int + unit) \<times> 'k"
  os_accept4 :: "int \<Rightarrow> int \<Rightarrow> 'k \<Rightarrow> (int + int \<times> sockaddr) \<times> 'k"
  os_connect :: "int \<Rightarrow> sockaddr \<Rightarrow> 'k \<Rightarrow> (int + unit) \<times> 'k"
  os_so_error :: "int \<Rightarrow> 'k \<Rightarrow> (int + int) \<times> 'k"
  os_getsockname :: "int \<Rightarrow> 'k \<Rightarrow> (int + sockaddr) \<times> 'k"
  os_getaddrinfo :: "string \<Rightarrow> string \<Rightarrow> 'k \<Rightarrow> addrinfo list option \<times> 'k"
  os_freeaddrinfo :: "int \<Rightarrow> int"
  os_tunsetiff :: "int \<Rightarrow> string \<Rightarrow> u16 \<Rightarrow> 'k \<Rightarrow> (int + string) \<times> 'k"
  os_siocsif :: "int \<Rightarrow> string \<Rightarrow> string \<Rightarrow> u32 \<Rightarrow> 'k \<Rightarrow> (int + unit) \<times> 'k"
  os_dprintf :: "int \<Rightarrow> string \<Rightarrow> 'k \<Rightarrow> (int + unit) \<times> 'k"
  os_strerror :: "int \<Rightarrow> string"
  os_sigaction :: "'k \<Rightarrow> (int + unit) \<times> 'k"
  os_ssl :: "'k openssl"

text \<open>The system calls as the trace shows them.\<close>

datatype sysev =
    SysRead int nat
  | SysWrite int "byte list"
  | SysClose int
  | SysOpen string
  | SysEpollCreate
  | SysEpollCtl ctl_op int
  | SysEpollWait
  | SysTimerCreate
  | SysTimerSet int
  | SysSocket int int
  | SysReuse int
  | SysBind int
  | SysListen int
  | SysAccept int
  | SysConnect int
  | SysSoError int
  | SysSockname int
  | SysResolve
  | SysIoctl int string
  | SysPrint int string
  | SysStdout string
  | SysSigaction
  | SslRead ptr
  | SslWrite ptr "byte list"
  | SslConnect ptr
  | SslError
  | SslNew
  | SslSet ssl_setting
  | SslCtxNew
  | SslCtxSet ctx_setting
  | SslCtxFree

section \<open>The process\<close>

datatype logging_verbosity =
  LOGGING_SILENT | LOGGING_ERROR | LOGGING_WARNING | LOGGING_INFO | LOGGING_DEBUG

record ('k, 'u) world =
  w_os :: "'k os"
  kern :: 'k
  trace :: "sysev list"
  errno :: int
  elems :: "elementE store"
  circs :: "circuitS store"
  bagh :: "bagS store"
  objs :: "obj store"
  blobs :: "byte list store"
  ev :: ev_state
  addrtemp :: string
  logging_fd :: int
  verbosity :: logging_verbosity
  ssl_ctx :: ptr
  usr :: 'u

type_synonym ('k, 'u, 'a) wm = "(('k, 'u) world, 'a) m"

section \<open>Memory accesses\<close>

definition load_elem :: "ptr \<Rightarrow> ('k, 'u, elementE) wm" where
  "load_elem p = mlift (\<lambda>w. get_cell HElem (elems w) p)"

definition load_circ :: "ptr \<Rightarrow> ('k, 'u, circuitS) wm" where
  "load_circ c = mlift (\<lambda>w. get_cell HCirc (circs w) c)"

definition set_current :: "ptr \<Rightarrow> ptr \<Rightarrow> ('k, 'u, unit) wm" where
  \<comment> \<open>\<open>c->current = p\<close>\<close>
  "set_current c p = mbind (load_circ c) (\<lambda>C.
     mmod (\<lambda>w. w\<lparr>circs := put_cell c (C\<lparr>c_current := p\<rparr>) (circs w)\<rparr>))"

definition load_bag :: "ptr \<Rightarrow> ('k, 'u, bagS) wm" where
  "load_bag b = mlift (\<lambda>w. get_cell HBag (bagh w) b)"

definition load_obj :: "ptr \<Rightarrow> ('k, 'u, obj) wm" where
  "load_obj p = mlift (\<lambda>w. get_cell HObj (objs w) p)"

definition store_obj :: "ptr \<Rightarrow> obj \<Rightarrow> ('k, 'u, unit) wm" where
  "store_obj p ob = mthen (mbind (load_obj p) (\<lambda>_. mret ()))
     (mmod (\<lambda>w. w\<lparr>objs := put_cell p ob (objs w)\<rparr>))"

definition load_as :: "(obj \<Rightarrow> 'a option) \<Rightarrow> ptr \<Rightarrow> ('k, 'u, 'a) wm" where
  \<comment> \<open>a load through a cast pointer\<close>
  "load_as cast p = mbind (load_obj p) (\<lambda>ob.
     case cast ob of None \<Rightarrow> mfail BadCast | Some a \<Rightarrow> mret a)"

definition change_obj :: "(obj \<Rightarrow> obj) \<Rightarrow> ptr \<Rightarrow> ('k, 'u, unit) wm" where
  "change_obj g p = mbind (load_obj p) (\<lambda>ob. store_obj p (g ob))"

definition load_blob :: "ptr \<Rightarrow> ('k, 'u, byte list) wm" where
  "load_blob b = mlift (\<lambda>w. get_cell HBlob (blobs w) b)"

definition store_blob :: "ptr \<Rightarrow> byte list \<Rightarrow> ('k, 'u, unit) wm" where
  "store_blob b bs = mthen (mbind (load_blob b) (\<lambda>_. mret ()))
     (mmod (\<lambda>w. w\<lparr>blobs := put_cell b bs (blobs w)\<rparr>))"

text \<open>\<open>f->data->size = size\<close>\<close>

definition set_size :: "ptr \<Rightarrow> u64 \<Rightarrow> ('k, 'u, unit) wm" where
  "set_size d n = mbind (load_as as_string d) (\<lambda>s. store_obj d (O_string (s\<lparr>s_size := n\<rparr>)))"

definition set_errno :: "int \<Rightarrow> ('k, 'u, unit) wm" where
  "set_errno e = mmod (\<lambda>w. w\<lparr>errno := e\<rparr>)"

section \<open>System calls\<close>

definition syscall :: "sysev \<Rightarrow> ('k os \<Rightarrow> 'k \<Rightarrow> (int + 'a) \<times> 'k) \<Rightarrow> ('k, 'u, int + 'a) wm" where
  "syscall e f = (\<lambda>w. let (r, k) = f (w_os w) (kern w) in
     Inr (r, w\<lparr>kern := k, trace := trace w @ [e],
       errno := (case r of Inl e \<Rightarrow> e | Inr _ \<Rightarrow> errno w)\<rparr>))"

definition sslcall ::
    "sysev \<Rightarrow> ('k openssl \<Rightarrow> int \<Rightarrow> 'k \<Rightarrow> 'a \<times> int \<times> 'k) \<Rightarrow> ('k, 'u, 'a) wm" where
  "sslcall sc f = (\<lambda>w. let (r, e, k) = f (os_ssl (w_os w)) (errno w) (kern w) in
     Inr (r, w\<lparr>kern := k, trace := trace w @ [sc], errno := e\<rparr>))"

text \<open>The value of a call that returns 0 or -1, and of one that returns a descriptor or -1.\<close>

definition res0 :: "int + unit \<Rightarrow> int" where
  "res0 r = (case r of Inl _ \<Rightarrow> -1 | Inr _ \<Rightarrow> 0)"

definition resfd :: "int + int \<Rightarrow> int" where
  "resfd r = (case r of Inl _ \<Rightarrow> -1 | Inr fd \<Rightarrow> fd)"

text \<open>\<open>malloc\<close> with the check that follows every use of it in the library:
  \<open>err(EXIT_FAILURE, "Out of memory")\<close>.\<close>

definition malloc_or_die :: "('k, 'u, unit) wm" where
  "malloc_or_die = (\<lambda>w. let (ok, k) = os_malloc (w_os w) (kern w) in
     if ok then Inr ((), w\<lparr>kern := k\<rparr>) else Inl (Exit EXIT_FAILURE))"

text \<open>
  \<open>read(fd, blob, count)\<close>: the bytes overwrite the start of the buffer; more bytes than
  the buffer holds is a buffer overflow. \<open>write(fd, blob, count)\<close> reads \<open>count\<close> bytes
  of the buffer.
\<close>

definition sys_read :: "int \<Rightarrow> ptr \<Rightarrow> u64 \<Rightarrow> ('k, 'u, u64) wm" where
  "sys_read fd blob count =
     mbind (syscall (SysRead fd (unat count)) (\<lambda>os. os_read os fd (unat count))) (\<lambda>r.
     case r of Inl _ \<Rightarrow> mret MINUS1
     | Inr bs \<Rightarrow> mbind (load_blob blob) (\<lambda>old.
         if length bs > length old then mfail BufferOverflow
         else mthen (store_blob blob (bs @ drop (length bs) old)) (mret (of_nat (length bs)))))"

definition sys_write :: "int \<Rightarrow> ptr \<Rightarrow> u64 \<Rightarrow> ('k, 'u, u64) wm" where
  "sys_write fd blob count =
     mbind (load_blob blob) (\<lambda>bs.
     if unat count > length bs then mfail BufferOverflow
     else mbind (syscall (SysWrite fd (take (unat count) bs))
                  (\<lambda>os. os_write os fd (take (unat count) bs))) (\<lambda>r.
       case r of Inl _ \<Rightarrow> mret MINUS1 | Inr n \<Rightarrow> mret (of_nat n)))"

definition sys_close :: "int \<Rightarrow> ('k, 'u, int) wm" where
  "sys_close fd = mbind (syscall (SysClose fd) (\<lambda>os. os_close os fd)) (\<lambda>r. mret (res0 r))"

definition sys_open :: "string \<Rightarrow> int \<Rightarrow> ('k, 'u, int) wm" where
  "sys_open path fl = mbind (syscall (SysOpen path) (\<lambda>os. os_open os path fl)) (\<lambda>r. mret (resfd r))"

definition epoll_ctl :: "int \<Rightarrow> ctl_op \<Rightarrow> int \<Rightarrow> u32 \<Rightarrow> ptr \<Rightarrow> ('k, 'u, int) wm" where
  "epoll_ctl ep cop fd evs p =
     mbind (syscall (SysEpollCtl cop fd) (\<lambda>os. os_epoll_ctl os ep cop fd evs p)) (\<lambda>r. mret (res0 r))"

text \<open>\<open>printf\<close> adds to the buffer of the stream \<open>stdout\<close>; nobody looks at its result.\<close>

definition printf :: "string \<Rightarrow> ('k, 'u, unit) wm" where
  "printf text = mmod (\<lambda>w. w\<lparr>trace := trace w @ [SysStdout text]\<rparr>)"

text \<open>Signed and unsigned comparison with 0 of a 64-bit value.\<close>

definition ssize_neg :: "u64 \<Rightarrow> bool" where
  "ssize_neg n \<longleftrightarrow> sint n < 0"

lemma ssize_neg_MINUS1 [simp]: "ssize_neg MINUS1"
  by (simp add: ssize_neg_def MINUS1_def)

lemma MINUS1_neq_0 [simp]: "MINUS1 \<noteq> 0"
  by (simp add: MINUS1_def)

lemma not_ssize_neg_of_nat: "n < 2 ^ 63 \<Longrightarrow> \<not> ssize_neg (of_nat n)"
  by (simp add: ssize_neg_def signed_of_nat signed_take_bit_int_eq_self)

end
