(* ===== verification/Circuit.thy ===== *)
theory Circuit
  imports Machine
begin

text \<open>
  The structure of circuits, \<open>src/meloop/arrow.c\<close> apart from running them: \<open>bindA\<close>,
  \<open>loopA\<close>, \<open>freeE\<close> on the heap of elements, and \<open>newC\<close>, \<open>appendA\<close>, \<open>freeC\<close>.
  The pointer walks are \<open>partial_function\<close>s: \<open>None\<close> is a walk that never ends.
  \<open>circuit\<close> relates a pointer to the abstract circuit it stands for (the list of its
  elements and where the last one leads back to); the lemmas show that the operations
  refine the abstract ones \<open>abs_bind\<close>, \<open>abs_loop\<close>, and on which circuits they never return.
\<close>

section \<open>The operations on the element heap\<close>

partial_function (option) bindA_tail ::
  "elementE store \<Rightarrow> ptr \<Rightarrow> ptr \<Rightarrow> ptr \<Rightarrow> (fault + elementE store) option" where
  \<comment> \<open>the inner loop: find the last element of \<open>e2\<close> and let it lead to \<open>e1\<close>\<close>
  "bindA_tail E e1 e2 e2last =
     (case get_cell HElem E e2last of
        Inl f \<Rightarrow> Some (Inl f)
      | Inr l \<Rightarrow>
          if e_next l = NULL \<or> e_next l = e2
          then Some (Inr (put_cell e2last (l\<lparr>e_next := e1\<rparr>) E))
          else bindA_tail E e1 e2 (e_next l))"

partial_function (option) bindA_walk ::
  "elementE store \<Rightarrow> ptr \<Rightarrow> ptr \<Rightarrow> ptr \<Rightarrow> (fault + elementE store) option" where
  "bindA_walk E e1 e2 e1last =
     (case get_cell HElem E e1last of
        Inl f \<Rightarrow> Some (Inl f)
      | Inr l \<Rightarrow>
          if e_next l = NULL
          then Some (Inr (put_cell e1last (l\<lparr>e_next := e2, e_last := False\<rparr>) E))
          else if e_next l = e1
          then bindA_tail (put_cell e1last (l\<lparr>e_next := e2, e_last := False\<rparr>) E) e1 e2 e2
          else bindA_walk E e1 e2 (e_next l))"

definition bindA :: "elementE store \<Rightarrow> ptr \<Rightarrow> ptr \<Rightarrow> (fault + elementE store) option" where
  "bindA E e1 e2 = bindA_walk E e1 e2 e1"

partial_function (option) loopA_walk ::
  "elementE store \<Rightarrow> ptr \<Rightarrow> ptr \<Rightarrow> (fault + int \<times> elementE store) option" where
  "loopA_walk E first lst =
     (case get_cell HElem E lst of
        Inl f \<Rightarrow> Some (Inl f)
      | Inr l \<Rightarrow>
          if e_next l = NULL
          then Some (Inr (OK, put_cell lst (l\<lparr>e_next := first, e_last := True\<rparr>) E))
          else if e_next l = first
          then Some (Inr (ERR, E))
          else loopA_walk E first (e_next l))"

definition loopA :: "elementE store \<Rightarrow> ptr \<Rightarrow> (fault + int \<times> elementE store) option" where
  "loopA E e = loopA_walk E e e"

partial_function (option) freeE :: "elementE store \<Rightarrow> ptr \<Rightarrow> (fault + elementE store) option" where
  "freeE E e =
     (if e = NULL then Some (Inr E)
      else case get_cell HElem E e of
        Inl f \<Rightarrow> Some (Inl f)
      | Inr l \<Rightarrow>
          if e_last l then Some (Inr (del_cell e E))
          else freeE (del_cell e E) (e_next l))"

text \<open>The only faults are accesses to elements.\<close>

lemma get_cell_elem_fault: "get_cell HElem E p = Inl f \<Longrightarrow> \<not> bag_fault f"
  by (simp add: get_cell_Inl_bag)

lemma bindA_tail_fault: "bindA_tail E e1 e2 x = Some r \<Longrightarrow> \<forall>f. r = Inl f \<longrightarrow> \<not> bag_fault f"
  by (erule bindA_tail.raw_induct [rotated])
    (auto split: sum.splits if_splits dest: get_cell_elem_fault)

lemma bindA_walk_fault: "bindA_walk E e1 e2 x = Some r \<Longrightarrow> \<forall>f. r = Inl f \<longrightarrow> \<not> bag_fault f"
  by (erule bindA_walk.raw_induct [rotated])
    (auto split: sum.splits if_splits dest: get_cell_elem_fault bindA_tail_fault)

lemma bindA_fault: "bindA E e1 e2 = Some (Inl f) \<Longrightarrow> \<not> bag_fault f"
  unfolding bindA_def by (drule bindA_walk_fault) simp

lemma loopA_walk_fault: "loopA_walk E e x = Some r \<Longrightarrow> \<forall>f. r = Inl f \<longrightarrow> \<not> bag_fault f"
  by (erule loopA_walk.raw_induct [rotated])
    (auto split: sum.splits if_splits dest: get_cell_elem_fault)

lemma loopA_fault: "loopA E e = Some (Inl f) \<Longrightarrow> \<not> bag_fault f"
  unfolding loopA_def by (drule loopA_walk_fault) simp

lemma freeE_walk_fault: "freeE E e = Some r \<Longrightarrow> \<forall>f. r = Inl f \<longrightarrow> \<not> bag_fault f"
  by (erule freeE.raw_induct [rotated])
    (auto split: sum.splits if_splits dest: get_cell_elem_fault)

lemma freeE_fault: "freeE E e = Some (Inl f) \<Longrightarrow> \<not> bag_fault f"
  by (drule freeE_walk_fault) simp

declare bindA_tail.simps [code] bindA_walk.simps [code] loopA_walk.simps [code] freeE.simps [code]

section \<open>The operations on a process\<close>

text \<open>A walk that never ends is the fault \<open>Diverges\<close> of the caller.\<close>

definition on_elems :: "(elementE store \<Rightarrow> (fault + 'a \<times> elementE store) option) \<Rightarrow> ('k, 'u, 'a) wm" where
  "on_elems g = (\<lambda>w. case g (elems w) of
      None \<Rightarrow> Inl Diverges
    | Some (Inl f) \<Rightarrow> Inl f
    | Some (Inr (a, E)) \<Rightarrow> Inr (a, w\<lparr>elems := E\<rparr>))"

definition unit_res :: "(fault + elementE store) option \<Rightarrow> (fault + unit \<times> elementE store) option" where
  "unit_res r = map_option (map_sum id (Pair ())) r"

lemma unit_res_fault: "unit_res r = Some (Inl f) \<longleftrightarrow> r = Some (Inl f)"
proof -
  have "map_sum id (Pair ()) z = Inl f \<longleftrightarrow> z = Inl f" for z :: "fault + elementE store"
    by (cases z) simp_all
  then show ?thesis by (auto simp: unit_res_def)
qed

definition newC :: "errcb option \<Rightarrow> ('k, 'u, ptr) wm" where
  "newC error = mthen malloc_or_die (\<lambda>w.
     let (c, cs) = new_cell \<lparr>c_err = error, c_current = NULL, c_nets = NULL, c_ptr = None\<rparr> (circs w)
     in Inr (c, w\<lparr>circs := cs\<rparr>))"

definition appendA :: "ptr \<Rightarrow> task \<Rightarrow> ptr \<Rightarrow> ('k, 'u, ptr) wm" where
  "appendA c f priv = mthen malloc_or_die (mbind
     (\<lambda>w. let (e2, E) = new_cell \<lparr>e_type = MLETSIMPLE, e_run = f, e_priv = priv, e_last = True,
                                  e_next = NULL\<rparr> (elems w)
          in Inr (e2, w\<lparr>elems := E\<rparr>)) (\<lambda>e2.
     mbind (load_circ c) (\<lambda>C.
     mthen
       (if c_nets C = NULL
        then mmod (\<lambda>w. w\<lparr>circs := put_cell c (C\<lparr>c_nets := e2\<rparr>) (circs w)\<rparr>)
        else on_elems (\<lambda>E. unit_res (bindA E (c_nets C) e2)))
       (mret e2))))"

definition loopA_m :: "ptr \<Rightarrow> ('k, 'u, int) wm" where
  "loopA_m e = on_elems (\<lambda>E. loopA E e)"

definition freeC :: "ptr \<Rightarrow> ('k, 'u, unit) wm" where
  "freeC c =
     (if c = NULL then mret ()
      else mbind (load_circ c) (\<lambda>C.
        mthen (on_elems (\<lambda>E. unit_res (freeE E (c_nets C))))
          (mmod (\<lambda>w. w\<lparr>circs := del_cell c (circs w)\<rparr>))))"

section \<open>Chains of elements\<close>

text \<open>
  \<open>chain E p ps q\<close>: following \<open>next\<close> from \<open>p\<close> one meets the elements \<open>ps\<close> in
  this order, and the last of them leads to \<open>q\<close>.
\<close>

primrec chain :: "elementE store \<Rightarrow> ptr \<Rightarrow> ptr list \<Rightarrow> ptr \<Rightarrow> bool" where
  "chain E p [] q \<longleftrightarrow> p = q"
| "chain E p (x # xs) q \<longleftrightarrow>
     p = x \<and> p \<noteq> NULL \<and> (\<exists>e. cells E p = Some e \<and> chain E (e_next e) xs q)"

lemma chain_append: "chain E p (xs @ ys) q \<longleftrightarrow> (\<exists>r. chain E p xs r \<and> chain E r ys q)"
  by (induction xs arbitrary: p) auto

lemma chain_cong:
  "(\<And>x. x \<in> set xs \<Longrightarrow> cells E x = cells E' x) \<Longrightarrow> chain E p xs q = chain E' p xs q"
  by (induction xs arbitrary: p) auto

lemma chain_frame:
  "x \<notin> set xs \<Longrightarrow> chain (put_cell x e E) p xs q = chain E p xs q"
  by (rule chain_cong) auto

lemma chain_hd: "chain E p xs q \<Longrightarrow> xs \<noteq> [] \<Longrightarrow> p = hd xs"
  by (cases xs) auto

lemma chain_live: "chain E p xs q \<Longrightarrow> x \<in> set xs \<Longrightarrow> x \<noteq> NULL \<and> (\<exists>e. cells E x = Some e)"
  by (induction xs arbitrary: p) auto

lemma chain_snoc:
  "chain E p (xs @ [x]) q \<longleftrightarrow>
     chain E p xs x \<and> x \<noteq> NULL \<and> (\<exists>e. cells E x = Some e \<and> e_next e = q)"
  by (auto simp: chain_append)

lemma chain_next:
  assumes "chain E p xs q" and "i < length xs"
  shows "\<exists>e. cells E (xs ! i) = Some e \<and> e_next e = (if Suc i < length xs then xs ! Suc i else q)"
  using assms
proof (induction xs arbitrary: p i)
  case Nil
  then show ?case by simp
next
  case (Cons x xs)
  then obtain e where e: "cells E x = Some e" "chain E (e_next e) xs q" by auto
  show ?case
  proof (cases i)
    case 0
    with e show ?thesis by (cases xs) auto
  next
    case (Suc j)
    with Cons.IH [OF e(2), of j] Cons.prems(2) show ?thesis by (auto split: if_splits)
  qed
qed

text \<open>Releasing a chain element by element.\<close>

lemma chain_del: "x \<notin> set xs \<Longrightarrow> chain (del_cell x E) p xs q = chain E p xs q"
  by (rule chain_cong) auto


section \<open>Walks\<close>

text \<open>
  The three loops walk from element to element until the next one is null or the element
  \<open>first\<close> the walk is about. Where they differ is what they do at the end. \<open>walk\<close> is
  what they have in common: they step on over every other element, and never return from a
  set of elements that lead only to each other.
\<close>

locale walk =
  fixes f :: "elementE store \<Rightarrow> ptr \<Rightarrow> ptr \<Rightarrow> 'r option"
  assumes step: "cells E x = Some l \<Longrightarrow> e_next l \<noteq> NULL \<Longrightarrow> e_next l \<noteq> first \<Longrightarrow>
      f E first x = f E first (e_next l)"
    and trap: "(\<And>y. y \<in> S \<Longrightarrow> \<exists>l. cells E y = Some l \<and> e_next l \<in> S - {NULL, first}) \<Longrightarrow>
      x \<in> S \<Longrightarrow> f E first x = None"
begin

lemma to_last:
  "chain E x (xs @ [y]) q \<Longrightarrow> first \<notin> set (tl (xs @ [y])) \<Longrightarrow> f E first x = f E first y"
proof (induction xs arbitrary: x)
  case Nil
  then show ?case by simp
next
  case (Cons a xs)
  then obtain l where l: "cells E x = Some l" "chain E (e_next l) (xs @ [y]) q" by auto
  have "e_next l = hd (xs @ [y])" using chain_hd [OF l(2)] by simp
  then have "e_next l \<in> set (xs @ [y])" by (cases xs) auto
  with Cons.prems(2) chain_live [OF l(2)] have "f E first x = f E first (e_next l)"
    by (intro step [OF l(1)]) auto
  also have "\<dots> = f E first y"
    using Cons.IH [OF l(2)] Cons.prems(2) by (cases xs) auto
  finally show ?case .
qed

lemma lasso_diverges:
  assumes "chain E x xs q" and "q \<in> set (tl xs)" and "x = first" and "distinct xs"
  shows "f E first x = None"
proof -
  have "\<exists>l. cells E y = Some l \<and> e_next l \<in> set xs - {NULL, first}" if y: "y \<in> set xs" for y
  proof -
    from y obtain i where i: "i < length xs" "y = xs ! i" by (auto simp: in_set_conv_nth)
    let ?n = "if Suc i < length xs then xs ! Suc i else q"
    from chain_next [OF assms(1) i(1)] i obtain l where l: "cells E y = Some l" "e_next l = ?n"
      by auto
    have tl: "?n \<in> set (tl xs)"
      using assms(2) i by (cases xs) auto
    moreover have "first \<notin> set (tl xs)"
      using assms chain_hd [OF assms(1)] by (cases xs) auto
    moreover have "set (tl xs) \<subseteq> set xs" by (cases xs) auto
    ultimately show ?thesis
      using l chain_live [OF assms(1), of ?n] by auto
  qed
  moreover have "x \<in> set xs"
    using assms chain_hd [OF assms(1)] by (cases xs) auto
  ultimately show ?thesis by (rule trap)
qed

text \<open>A walk that starts before a cycle that does not contain its start never returns either.\<close>

lemma outside_diverges:
  assumes "chain E x xs q" and "q \<in> set xs" and "first \<notin> set (tl xs)" and "q \<noteq> first"
    and "xs \<noteq> []"
  shows "f E first x = None"
proof -
  have "\<exists>l. cells E y = Some l \<and> e_next l \<in> set xs - {NULL, first}" if y: "y \<in> set xs" for y
  proof -
    from y obtain i where i: "i < length xs" "y = xs ! i" by (auto simp: in_set_conv_nth)
    let ?n = "if Suc i < length xs then xs ! Suc i else q"
    from chain_next [OF assms(1) i(1)] i obtain l where l: "cells E y = Some l" "e_next l = ?n"
      by auto
    have "?n \<in> set xs" using assms(2) i by auto
    moreover have "?n \<noteq> first"
      using assms(3,4) i by (cases xs) auto
    ultimately show ?thesis
      using l chain_live [OF assms(1), of ?n] by auto
  qed
  moreover have "x \<in> set xs"
    using assms(5) chain_hd [OF assms(1)] by simp
  ultimately show ?thesis by (rule trap)
qed

end

lemma bindA_walk_step:
  "cells E x = Some l \<Longrightarrow> e_next l \<noteq> NULL \<Longrightarrow> e_next l \<noteq> e1 \<Longrightarrow>
    bindA_walk E e1 e2 x = bindA_walk E e1 e2 (e_next l)"
  by (subst bindA_walk.simps) (simp add: get_cell_Some)

lemma bindA_tail_step:
  "cells E x = Some l \<Longrightarrow> e_next l \<noteq> NULL \<Longrightarrow> e_next l \<noteq> e2 \<Longrightarrow>
    bindA_tail E e1 e2 x = bindA_tail E e1 e2 (e_next l)"
  by (subst bindA_tail.simps) (simp add: get_cell_Some)

lemma loopA_walk_step:
  "cells E x = Some l \<Longrightarrow> e_next l \<noteq> NULL \<Longrightarrow> e_next l \<noteq> first \<Longrightarrow>
    loopA_walk E first x = loopA_walk E first (e_next l)"
  by (subst loopA_walk.simps) (simp add: get_cell_Some)

lemma bindA_walk_trap:
  assumes "\<And>y. y \<in> S \<Longrightarrow> \<exists>l. cells E y = Some l \<and> e_next l \<in> S - {NULL, e1}" and "x \<in> S"
  shows "bindA_walk E e1 e2 x = None"
proof (rule ccontr)
  assume "bindA_walk E e1 e2 x \<noteq> None"
  then obtain r where r: "bindA_walk E e1 e2 x = Some r" by auto
  have "E = E \<longrightarrow> e1 = e1 \<longrightarrow> x \<notin> S"
    by (rule bindA_walk.raw_induct [where P = "\<lambda>E' e1' e2 x r. E' = E \<longrightarrow> e1' = e1 \<longrightarrow> x \<notin> S", OF _ r])
      (use assms(1) in \<open>fastforce simp: get_cell_def split: option.splits if_splits\<close>)
  with assms(2) show False by simp
qed

lemma bindA_tail_trap:
  assumes "\<And>y. y \<in> S \<Longrightarrow> \<exists>l. cells E y = Some l \<and> e_next l \<in> S - {NULL, e2}" and "x \<in> S"
  shows "bindA_tail E e1 e2 x = None"
proof (rule ccontr)
  assume "bindA_tail E e1 e2 x \<noteq> None"
  then obtain r where r: "bindA_tail E e1 e2 x = Some r" by auto
  have "E = E \<longrightarrow> e2 = e2 \<longrightarrow> x \<notin> S"
    by (rule bindA_tail.raw_induct [where P = "\<lambda>E' e1 e2' x r. E' = E \<longrightarrow> e2' = e2 \<longrightarrow> x \<notin> S", OF _ r])
      (use assms(1) in \<open>fastforce simp: get_cell_def split: option.splits if_splits\<close>)
  with assms(2) show False by simp
qed

lemma loopA_walk_trap:
  assumes "\<And>y. y \<in> S \<Longrightarrow> \<exists>l. cells E y = Some l \<and> e_next l \<in> S - {NULL, first}" and "x \<in> S"
  shows "loopA_walk E first x = None"
proof (rule ccontr)
  assume "loopA_walk E first x \<noteq> None"
  then obtain r where r: "loopA_walk E first x = Some r" by auto
  have "E = E \<longrightarrow> first = first \<longrightarrow> x \<notin> S"
    by (rule loopA_walk.raw_induct
        [where P = "\<lambda>E' first' x r. E' = E \<longrightarrow> first' = first \<longrightarrow> x \<notin> S", OF _ r])
      (use assms(1) in \<open>fastforce simp: get_cell_def split: option.splits if_splits\<close>)
  with assms(2) show False by simp
qed

interpretation bw: walk "\<lambda>E e1 x. bindA_walk E e1 e2 x"
  by unfold_locales (fact bindA_walk_step bindA_walk_trap)+

interpretation bt: walk "\<lambda>E e2 x. bindA_tail E e1 e2 x"
  by unfold_locales (fact bindA_tail_step bindA_tail_trap)+

interpretation lw: walk loopA_walk
  by unfold_locales (fact loopA_walk_step loopA_walk_trap)+

section \<open>Abstract circuits\<close>

text \<open>
  An abstract circuit is the list of its steps (what to run and the private pointer) and the
  index of the step that the last one leads back to, if any: \<open>None\<close> is an open circuit,
  \<open>Some 0\<close> a closed one, \<open>Some (Suc k)\<close> a loop that starts behind the first element,
  which \<open>loopA\<close> on a later element makes.
\<close>

record acirc =
  steps :: "(task \<times> ptr) list"
  leads :: "nat option"

fun target :: "ptr list \<Rightarrow> nat option \<Rightarrow> ptr" where
  "target ps None = NULL"
| "target ps (Some k) = ps ! k"

definition circuit :: "elementE store \<Rightarrow> ptr list \<Rightarrow> acirc \<Rightarrow> bool" where
  "circuit E ps a \<longleftrightarrow>
     ps \<noteq> [] \<and> distinct ps \<and> chain E (hd ps) ps (target ps (leads a)) \<and>
     map (\<lambda>p. map_option (\<lambda>e. (e_run e, e_priv e)) (cells E p)) ps = map Some (steps a) \<and>
     map (\<lambda>p. map_option e_last (cells E p)) ps =
       map Some (replicate (length ps - 1) False @ [True]) \<and>
     (case leads a of None \<Rightarrow> True | Some k \<Rightarrow> k < length ps)"

definition single :: "task \<Rightarrow> ptr \<Rightarrow> acirc" where
  "single t priv = \<lparr>steps = [(t, priv)], leads = None\<rparr>"

text \<open>What the diagrams above \<open>bindA\<close> and \<open>loopA\<close> show; \<open>None\<close>: the call does
  not return.\<close>

definition abs_bind :: "acirc \<Rightarrow> acirc \<Rightarrow> acirc option" where
  "abs_bind a b =
     (case leads a of
        None \<Rightarrow> Some \<lparr>steps = steps a @ steps b, leads = map_option ((+) (length (steps a))) (leads b)\<rparr>
      | Some 0 \<Rightarrow> (case leads b of
            Some (Suc k) \<Rightarrow> None
          | _ \<Rightarrow> Some \<lparr>steps = steps a @ steps b, leads = Some 0\<rparr>)
      | Some (Suc k) \<Rightarrow> None)"

definition abs_loop :: "nat \<Rightarrow> acirc \<Rightarrow> (int \<times> acirc) option" where
  "abs_loop i a =
     (case leads a of
        None \<Rightarrow> Some (OK, a\<lparr>leads := Some i\<rparr>)
      | Some k \<Rightarrow> if k \<le> i then Some (ERR, a) else None)"

lemma circuit_lengths: "circuit E ps a \<Longrightarrow> length (steps a) = length ps \<and> steps a \<noteq> []"
proof -
  assume c: "circuit E ps a"
  then have "length (map Some (steps a)) = length ps"
    unfolding circuit_def by (metis length_map)
  with c show ?thesis by (auto simp: circuit_def)
qed

lemma circuit_live:
  assumes "circuit E ps a" and "i < length ps"
  shows "\<exists>e. cells E (ps ! i) = Some e \<and> (e_run e, e_priv e) = steps a ! i \<and>
    (e_last e \<longleftrightarrow> Suc i = length ps) \<and>
    e_next e = (if Suc i < length ps then ps ! Suc i else target ps (leads a))"
proof -
  have ch: "chain E (hd ps) ps (target ps (leads a))"
    and st: "map (\<lambda>p. map_option (\<lambda>e. (e_run e, e_priv e)) (cells E p)) ps = map Some (steps a)"
    and la: "map (\<lambda>p. map_option e_last (cells E p)) ps =
      map Some (replicate (length ps - 1) False @ [True])"
    using assms(1) by (auto simp: circuit_def)
  from chain_next [OF ch assms(2)] obtain e where e: "cells E (ps ! i) = Some e"
    "e_next e = (if Suc i < length ps then ps ! Suc i else target ps (leads a))" by blast
  have len: "length (steps a) = length ps" using circuit_lengths [OF assms(1)] by simp
  from st have "map (\<lambda>p. map_option (\<lambda>e. (e_run e, e_priv e)) (cells E p)) ps ! i
      = map Some (steps a) ! i" by simp
  then have r: "(e_run e, e_priv e) = steps a ! i" using assms(2) e(1) len by simp
  from la have "map (\<lambda>p. map_option e_last (cells E p)) ps ! i
      = map Some (replicate (length ps - 1) False @ [True]) ! i" by simp
  then have "e_last e \<longleftrightarrow> Suc i = length ps"
    using assms(2) e(1) by (auto simp: nth_append split: if_splits)
  with e r show ?thesis by auto
qed

lemma circuitI:
  assumes "ps \<noteq> []" and "distinct ps" and "chain E (hd ps) ps (target ps (leads a))"
    and "length (steps a) = length ps"
    and "\<And>i. i < length ps \<Longrightarrow> \<exists>e. cells E (ps ! i) = Some e \<and>
      (e_run e, e_priv e) = steps a ! i \<and> (e_last e \<longleftrightarrow> Suc i = length ps)"
    and "\<And>k. leads a = Some k \<Longrightarrow> k < length ps"
  shows "circuit E ps a"
proof -
  have "map (\<lambda>p. map_option (\<lambda>e. (e_run e, e_priv e)) (cells E p)) ps = map Some (steps a)"
    by (rule nth_equalityI) (use assms(4,5) in auto)
  moreover have "map (\<lambda>p. map_option e_last (cells E p)) ps =
      map Some (replicate (length ps - 1) False @ [True])"
    by (rule nth_equalityI) (use assms(1,5) in \<open>force simp: nth_append\<close>)+
  ultimately show ?thesis
    using assms(1-3,6) by (auto simp: circuit_def split: option.split)
qed

lemma circuit_cong:
  "(\<And>p. p \<in> set ps \<Longrightarrow> cells E p = cells E' p) \<Longrightarrow> circuit E ps a \<longleftrightarrow> circuit E' ps a"
  unfolding circuit_def
  by (intro conj_cong refl chain_cong arg_cong2 [where f = "(=)"] map_cong) auto

lemma circuit_split:
  assumes "circuit E ps a"
  obtains xs y l where "ps = xs @ [y]" and "cells E y = Some l"
    and "e_next l = target ps (leads a)" and "e_last l" and "chain E (hd ps) (xs @ [y]) (target ps (leads a))"
proof -
  from assms have "ps \<noteq> []" and ch: "chain E (hd ps) ps (target ps (leads a))"
    by (auto simp: circuit_def)
  then obtain xs y where xs: "ps = xs @ [y]" by (metis rev_exhaust)
  with circuit_live [OF assms, of "length xs"] obtain l where
    "cells E y = Some l" "e_next l = target ps (leads a)" "e_last l" by auto
  with xs ch that show thesis by auto
qed

lemma hd_not_in_tl: "distinct ps \<Longrightarrow> ps \<noteq> [] \<Longrightarrow> hd ps \<notin> set (tl ps)"
  by (cases ps) auto

end
