(* ===== verification/Circuit_Refine.thy ===== *)
theory Circuit_Refine
  imports Circuit
begin

text \<open>
  The operations of \<open>Circuit\<close> refine the operations on abstract circuits: what
  \<open>bindA\<close>, \<open>appendA\<close> and \<open>loopA\<close> do to the elements on the heap is what the diagrams
  in \<open>src/meloop/arrow.c\<close> show, they do not return exactly where \<open>abs_bind\<close> and
  \<open>abs_loop\<close> say so, and \<open>freeC\<close> releases every element once.
\<close>

section \<open>Parts of a chain\<close>

lemma chain_start: "chain E p xs q \<Longrightarrow> xs \<noteq> [] \<Longrightarrow> p \<noteq> NULL"
  by (cases xs) auto

lemma chain_drop:
  assumes "chain E p xs q" and "i < length xs"
  shows "chain E (xs ! i) (drop i xs) q"
proof -
  obtain r where r: "chain E r (drop i xs) q"
    using assms(1) chain_append [of E p "take i xs" "drop i xs" q] by auto
  with chain_hd [OF r] assms(2) show ?thesis by (simp add: hd_drop_conv_nth)
qed

lemma chain_segment:
  assumes "chain E p xs q" and "k \<le> i" and "i < length xs"
  shows "chain E (xs ! k) (take (i - k) (drop k xs)) (xs ! i)"
proof -
  have c: "chain E (xs ! k) (drop k xs) q" using chain_drop assms by simp
  have "drop k xs = take (i - k) (drop k xs) @ drop i xs"
    using assms(2) by (metis append_take_drop_id drop_drop le_add_diff_inverse2)
  with c obtain r where r: "chain E (xs ! k) (take (i - k) (drop k xs)) r"
    "chain E r (drop i xs) q" by (metis chain_append)
  with chain_hd [OF r(2)] assms(3) show ?thesis by (simp add: hd_drop_conv_nth)
qed

lemma segment_snoc:
  assumes "k < i" and "i \<le> length xs"
  shows "take (i - k) (drop k xs) = take (i - 1 - k) (drop k xs) @ [xs ! (i - 1)]"
proof -
  define n where "n = i - 1 - k"
  have n: "i - k = Suc n" "k + n = i - 1" "n < length (drop k xs)" using assms by (auto simp: n_def)
  show ?thesis
    unfolding n(1) n_def [symmetric]
    using assms nth_drop [of k xs n] by (simp add: take_Suc_conv_app_nth [OF n(3)] n(2))
qed

section \<open>Joining two circuits\<close>

lemma circuit_join:
  assumes a: "circuit E (xs @ [y]) a" and b: "circuit E (zs @ [z]) b"
    and disj: "set (xs @ [y]) \<inter> set (zs @ [z]) = {}"
    and l: "cells E y = Some l" and m: "cells E z = Some m"
    and E': "cells E' = (cells E)(y \<mapsto> l\<lparr>e_next := hd (zs @ [z]), e_last := False\<rparr>, z \<mapsto> m\<lparr>e_next := t\<rparr>)"
    and t: "t = target (xs @ y # zs @ [z]) (leads c)"
    and st: "steps c = steps a @ steps b"
    and k: "\<And>k. leads c = Some k \<Longrightarrow> k < length (xs @ y # zs @ [z])"
  shows "circuit E' (xs @ y # zs @ [z]) c"
proof (rule circuitI)
  have da: "distinct (xs @ [y])" and db: "distinct (zs @ [z])"
    and ca: "chain E (hd (xs @ [y])) (xs @ [y]) (target (xs @ [y]) (leads a))"
    and cb: "chain E (hd (zs @ [z])) (zs @ [z]) (target (zs @ [z]) (leads b))"
    using a b by (auto simp: circuit_def)
  then show "distinct (xs @ y # zs @ [z])" using disj by auto
  show "xs @ y # zs @ [z] \<noteq> []" by simp
  have "chain E' (hd (xs @ [y])) xs y = chain E (hd (xs @ [y])) xs y"
    by (rule chain_cong) (use da disj E' in auto)
  moreover have "chain E' (hd (zs @ [z])) zs z = chain E (hd (zs @ [z])) zs z"
    by (rule chain_cong) (use db disj E' in auto)
  ultimately have "chain E' (hd (xs @ [y])) (xs @ [y]) (hd (zs @ [z]))"
    and "chain E' (hd (zs @ [z])) (zs @ [z]) t"
    using ca cb E' disj by (auto simp: chain_snoc)
  then have "chain E' (hd (xs @ [y])) ((xs @ [y]) @ (zs @ [z])) t"
    by (subst chain_append) blast
  moreover have "hd (xs @ [y]) = hd (xs @ y # zs @ [z])" by (cases xs) auto
  ultimately show "chain E' (hd (xs @ y # zs @ [z])) (xs @ y # zs @ [z])
      (target (xs @ y # zs @ [z]) (leads c))"
    by (simp add: t)
  have la: "length (steps a) = Suc (length xs)" and lb: "length (steps b) = Suc (length zs)"
    using circuit_lengths [OF a] circuit_lengths [OF b] by auto
  then show "length (steps c) = length (xs @ y # zs @ [z])" by (simp add: st)
  fix i assume i: "i < length (xs @ y # zs @ [z])"
  show "\<exists>e. cells E' ((xs @ y # zs @ [z]) ! i) = Some e \<and> (e_run e, e_priv e) = steps c ! i \<and>
      (e_last e \<longleftrightarrow> Suc i = length (xs @ y # zs @ [z]))"
  proof (cases "i < Suc (length xs)")
    case True
    have p: "(xs @ y # zs @ [z]) ! i = (xs @ [y]) ! i" and s: "steps c ! i = steps a ! i"
      using True la st by (auto simp: nth_append)
    have "(xs @ [y]) ! i = y \<longleftrightarrow> i = length xs"
      using da True by (metis distinct_conv_nth length_append_singleton lessI nth_append_length)
    moreover have "(xs @ [y]) ! i \<noteq> z"
      using disj nth_mem [of i "xs @ [y]"] True by auto
    ultimately show ?thesis
      unfolding p s using circuit_live [OF a, of i] True l E' by (cases "i = length xs") auto
  next
    case False
    define j where "j = i - Suc (length xs)"
    have j: "j < length (zs @ [z])" "i = Suc (length xs) + j" using False i by (auto simp: j_def)
    have p: "(xs @ y # zs @ [z]) ! i = (zs @ [z]) ! j" and s: "steps c ! i = steps b ! j"
      using j la st by (auto simp: nth_append)
    have "(zs @ [z]) ! j = z \<longleftrightarrow> j = length zs"
      using db j by (metis distinct_conv_nth length_append_singleton lessI nth_append_length)
    moreover have "(zs @ [z]) ! j \<noteq> y"
      using disj nth_mem [of j "zs @ [z]"] j by auto
    ultimately show ?thesis
      unfolding p s using circuit_live [OF b, of j] j m E' by (cases "j = length zs") auto
  qed
next
  fix n assume "leads c = Some n"
  then show "n < length (xs @ y # zs @ [z])" by (rule k)
qed

section \<open>bindA\<close>

lemma bindA_open:
  assumes a: "circuit E ps a" and b: "circuit E qs b" and disj: "set ps \<inter> set qs = {}"
    and open_a: "leads a = None"
  shows "\<exists>E'. bindA E (hd ps) (hd qs) = Some (Inr E') \<and>
    circuit E' (ps @ qs) \<lparr>steps = steps a @ steps b,
      leads = map_option ((+) (length (steps a))) (leads b)\<rparr> \<and>
    (\<forall>p. p \<notin> set ps \<union> set qs \<longrightarrow> cells E' p = cells E p) \<and> brk E' = brk E"
proof -
  from circuit_split [OF a] obtain xs y l where ps: "ps = xs @ [y]" and y: "cells E y = Some l"
    "e_next l = NULL" and ch: "chain E (hd ps) (xs @ [y]) NULL"
    using open_a by (metis target.simps(1))
  from circuit_split [OF b] obtain zs z m where qs: "qs = zs @ [z]" and z: "cells E z = Some m"
    "e_next m = target qs (leads b)" by metis
  define E' where "E' = put_cell y (l\<lparr>e_next := hd qs, e_last := False\<rparr>) E"
  let ?c = "\<lparr>steps = steps a @ steps b, leads = map_option ((+) (length (steps a))) (leads b)\<rparr>"
  have "hd ps \<notin> set (tl (xs @ [y]))" using a ps by (metis circuit_def hd_not_in_tl)
  with bw.to_last [OF ch] have "bindA E (hd ps) (hd qs) = bindA_walk E (hd ps) (hd qs) y"
    by (simp add: bindA_def)
  also have "\<dots> = Some (Inr E')"
    by (subst bindA_walk.simps) (simp add: get_cell_Some y E'_def)
  finally have r: "bindA E (hd ps) (hd qs) = Some (Inr E')" .
  have yz: "y \<noteq> z" using disj ps qs by auto
  have la: "length (steps a) = length ps" using circuit_lengths [OF a] by simp
  have "circuit E' (xs @ y # zs @ [z]) ?c"
  proof (rule circuit_join [where l = l and m = m and t = "e_next m" and E = E and a = a and b = b])
    show "e_next m = target (xs @ y # zs @ [z]) (leads ?c)"
      using z(2) la ps qs by (cases "leads b") (auto simp: nth_append)
    show "k < length (xs @ y # zs @ [z])" if "leads ?c = Some k" for k
      using that b la ps qs by (auto simp: circuit_def)
  qed (use a b disj ps qs y z yz in \<open>auto simp: E'_def\<close>)
  with r show ?thesis by (auto simp: ps qs E'_def)
qed

lemma bindA_closed:
  assumes a: "circuit E ps a" and b: "circuit E qs b" and disj: "set ps \<inter> set qs = {}"
    and closed_a: "leads a = Some 0" and simple_b: "leads b = None \<or> leads b = Some 0"
  shows "\<exists>E'. bindA E (hd ps) (hd qs) = Some (Inr E') \<and>
    circuit E' (ps @ qs) \<lparr>steps = steps a @ steps b, leads = Some 0\<rparr> \<and>
    (\<forall>p. p \<notin> set ps \<union> set qs \<longrightarrow> cells E' p = cells E p) \<and> brk E' = brk E"
proof -
  have psn: "ps \<noteq> []" and qsn: "qs \<noteq> []" using a b by (auto simp: circuit_def)
  then have tgt: "target ps (leads a) = hd ps" by (simp add: closed_a hd_conv_nth)
  from circuit_split [OF a] obtain xs y l where ps: "ps = xs @ [y]" and y: "cells E y = Some l"
    "e_next l = hd ps" and ch: "chain E (hd ps) (xs @ [y]) (hd ps)"
    using tgt by metis
  from circuit_split [OF b] obtain zs z m where qs: "qs = zs @ [z]" and z: "cells E z = Some m"
    "e_next m = target qs (leads b)" and chb: "chain E (hd qs) (zs @ [z]) (target qs (leads b))"
    by metis
  define E1 where "E1 = put_cell y (l\<lparr>e_next := hd qs, e_last := False\<rparr>) E"
  define E' where "E' = put_cell z (m\<lparr>e_next := hd ps\<rparr>) E1"
  have yz: "y \<noteq> z" using disj ps qs by auto
  have live: "hd ps \<noteq> NULL" using chain_start [OF ch] by simp
  have "hd ps \<notin> set (tl (xs @ [y]))" using a ps by (metis circuit_def hd_not_in_tl)
  with bw.to_last [OF ch] have "bindA E (hd ps) (hd qs) = bindA_walk E (hd ps) (hd qs) y"
    by (simp add: bindA_def)
  also have "\<dots> = bindA_tail E1 (hd ps) (hd qs) (hd qs)"
    using live by (subst bindA_walk.simps) (simp add: get_cell_Some y E1_def)
  also have "\<dots> = bindA_tail E1 (hd ps) (hd qs) z"
  proof (rule bt.to_last)
    show "chain E1 (hd qs) (zs @ [z]) (target qs (leads b))"
      using chb disj ps qs unfolding E1_def by (subst chain_frame) auto
    show "hd qs \<notin> set (tl (zs @ [z]))" using b qs by (metis circuit_def hd_not_in_tl)
  qed
  also have "\<dots> = Some (Inr E')"
    using simple_b z yz qsn
    by (subst bindA_tail.simps) (auto simp: get_cell_Some E1_def E'_def hd_conv_nth)
  finally have r: "bindA E (hd ps) (hd qs) = Some (Inr E')" .
  have hd: "hd ps = (xs @ y # zs @ [z]) ! 0" by (simp add: ps nth_append hd_append hd_conv_nth)
  have "circuit E' (xs @ y # zs @ [z]) \<lparr>steps = steps a @ steps b, leads = Some 0\<rparr>"
    by (rule circuit_join [where l = l and m = m and t = "hd ps" and E = E and a = a and b = b])
      (use a b disj ps qs y z yz hd in \<open>auto simp: E1_def E'_def\<close>)
  with r show ?thesis by (auto simp: ps qs E'_def E1_def)
qed

lemma target_in_tl:
  "circuit E ps a \<Longrightarrow> leads a = Some (Suc k) \<Longrightarrow> target ps (leads a) \<in> set (tl ps)"
  by (cases ps) (auto simp: circuit_def)

lemma bindA_lasso:
  assumes a: "circuit E ps a" and "leads a = Some (Suc k)"
  shows "bindA E (hd ps) e2 = None"
  unfolding bindA_def
  by (rule bw.lasso_diverges [of E "hd ps" ps "target ps (leads a)"])
    (use assms target_in_tl [OF assms] in \<open>auto simp: circuit_def\<close>)

lemma bindA_closed_lasso:
  assumes a: "circuit E ps a" and b: "circuit E qs b" and disj: "set ps \<inter> set qs = {}"
    and closed_a: "leads a = Some 0" and lasso_b: "leads b = Some (Suc k)"
  shows "bindA E (hd ps) (hd qs) = None"
proof -
  have psn: "ps \<noteq> []" and qsn: "qs \<noteq> []" using a b by (auto simp: circuit_def)
  then have tgt: "target ps (leads a) = hd ps" by (simp add: closed_a hd_conv_nth)
  from circuit_split [OF a] obtain xs y l where ps: "ps = xs @ [y]" and y: "cells E y = Some l"
    "e_next l = hd ps" and ch: "chain E (hd ps) (xs @ [y]) (hd ps)"
    using tgt by metis
  let ?E1 = "put_cell y (l\<lparr>e_next := hd qs, e_last := False\<rparr>) E"
  have live: "hd ps \<noteq> NULL" using chain_start [OF ch] by simp
  have "hd ps \<notin> set (tl (xs @ [y]))" using a ps by (metis circuit_def hd_not_in_tl)
  with bw.to_last [OF ch] have "bindA E (hd ps) (hd qs) = bindA_walk E (hd ps) (hd qs) y"
    by (simp add: bindA_def)
  also have "\<dots> = bindA_tail ?E1 (hd ps) (hd qs) (hd qs)"
    using live by (subst bindA_walk.simps) (simp add: get_cell_Some y)
  also have "\<dots> = None"
  proof (rule bt.lasso_diverges)
    show "chain ?E1 (hd qs) qs (target qs (leads b))"
      using b disj ps by (subst chain_frame) (auto simp: circuit_def)
    show "target qs (leads b) \<in> set (tl qs)" by (rule target_in_tl [OF b lasso_b])
    show "distinct qs" using b by (simp add: circuit_def)
  qed simp
  finally show ?thesis .
qed

text \<open>\<open>bindA\<close> refines \<open>abs_bind\<close>.\<close>

lemma bindA_refines_aux:
  assumes "circuit E ps a" and "circuit E qs b" and "set ps \<inter> set qs = {}"
  shows "case abs_bind a b of
      None \<Rightarrow> bindA E (hd ps) (hd qs) = None
    | Some c \<Rightarrow> \<exists>E'. bindA E (hd ps) (hd qs) = Some (Inr E') \<and> circuit E' (ps @ qs) c \<and>
        (\<forall>p. p \<notin> set ps \<union> set qs \<longrightarrow> cells E' p = cells E p) \<and> brk E' = brk E"
proof (cases "leads a")
  case None
  with bindA_open [OF assms] show ?thesis by (simp add: abs_bind_def)
next
  case (Some k)
  show ?thesis
  proof (cases k)
    case 0
    with Some bindA_closed [OF assms] bindA_closed_lasso [OF assms] show ?thesis
      by (auto simp: abs_bind_def split: option.splits nat.splits)
  next
    case (Suc j)
    with Some bindA_lasso [OF assms(1)] show ?thesis by (simp add: abs_bind_def)
  qed
qed

section \<open>loopA\<close>

lemma circuit_drop_snoc:
  assumes "circuit E ps a" and "i < length ps"
  obtains xs y l where "drop i ps = xs @ [y]" and "cells E y = Some l" and "y = last ps"
    and "e_next l = target ps (leads a)" and "e_last l"
    and "chain E (ps ! i) (xs @ [y]) (target ps (leads a))" and "ps ! i \<notin> set (tl (xs @ [y]))"
proof -
  from circuit_split [OF assms(1)] obtain zs y l where ps: "ps = zs @ [y]" "cells E y = Some l"
    "e_next l = target ps (leads a)" "e_last l" by metis
  have d: "distinct (drop i ps)" using assms(1) by (simp add: circuit_def)
  have ch: "chain E (ps ! i) (drop i ps) (target ps (leads a))"
    using assms by (auto simp: circuit_def intro: chain_drop)
  from ps(1) assms(2) have x: "drop i ps = drop i zs @ [y]" by simp
  have "ps ! i = hd (drop i ps)" "drop i ps \<noteq> []" using assms(2) by (auto simp: hd_drop_conv_nth)
  then have "ps ! i \<notin> set (tl (drop i ps))" using hd_not_in_tl [OF d] by simp
  with ps ch x that [of "drop i zs" y l] show thesis by (metis last_snoc)
qed

lemma loopA_open:
  assumes c: "circuit E ps a" and i: "i < length ps" and o: "leads a = None"
  shows "\<exists>E'. loopA E (ps ! i) = Some (Inr (OK, E')) \<and> circuit E' ps (a\<lparr>leads := Some i\<rparr>) \<and>
    (\<forall>p. p \<notin> set ps \<longrightarrow> cells E' p = cells E p) \<and> brk E' = brk E"
proof -
  from circuit_drop_snoc [OF c i] obtain xs y l where xs: "drop i ps = xs @ [y]"
    and y: "cells E y = Some l" "y = last ps" "e_next l = NULL" "e_last l"
    and ch: "chain E (ps ! i) (xs @ [y]) NULL" "ps ! i \<notin> set (tl (xs @ [y]))"
    using o by (metis target.simps(1))
  define E' where "E' = put_cell y (l\<lparr>e_next := ps ! i, e_last := True\<rparr>) E"
  have "loopA E (ps ! i) = loopA_walk E (ps ! i) y"
    unfolding loopA_def by (rule lw.to_last [OF ch])
  also have "\<dots> = Some (Inr (OK, E'))"
    by (subst loopA_walk.simps) (simp add: get_cell_Some y(1,3) E'_def)
  finally have r: "loopA E (ps ! i) = Some (Inr (OK, E'))" .
  from circuit_split [OF c] obtain zs where ps: "ps = zs @ [y]" using y(2) by (metis last_snoc)
  have d: "distinct (zs @ [y])" and chp: "chain E (hd ps) (zs @ [y]) NULL"
    using c o ps by (auto simp: circuit_def)
  have fr: "chain E' (hd ps) zs y = chain E (hd ps) zs y"
    by (rule chain_cong) (use d in \<open>auto simp: E'_def\<close>)
  have "circuit E' ps (a\<lparr>leads := Some i\<rparr>)"
  proof (rule circuitI)
    show "chain E' (hd ps) ps (target ps (leads (a\<lparr>leads := Some i\<rparr>)))"
      using chp fr ps by (auto simp: chain_snoc E'_def)
    show "\<exists>e. cells E' (ps ! j) = Some e \<and> (e_run e, e_priv e) = steps (a\<lparr>leads := Some i\<rparr>) ! j \<and>
        (e_last e \<longleftrightarrow> Suc j = length ps)" if "j < length ps" for j
      using circuit_live [OF c that] y(1,4) by (auto simp: E'_def)
  qed (use c i circuit_lengths [OF c] in \<open>auto simp: circuit_def\<close>)
  with r y(1) ps show ?thesis by (auto simp: E'_def)
qed

lemma loopA_cycle:
  assumes c: "circuit E ps a" and i: "i < length ps" and k: "leads a = Some k" "k \<le> i"
  shows "loopA E (ps ! i) = Some (Inr (ERR, E))"
proof -
  have tgt: "target ps (leads a) = ps ! k" by (simp add: k)
  from circuit_drop_snoc [OF c i] obtain xs y l where y: "cells E y = Some l" "e_next l = ps ! k"
    and ch: "chain E (ps ! i) (xs @ [y]) (ps ! k)" "ps ! i \<notin> set (tl (xs @ [y]))"
    using tgt by metis
  have d: "distinct ps" and chp: "chain E (hd ps) ps (ps ! k)" using c tgt by (auto simp: circuit_def)
  have nz: "ps ! j \<noteq> NULL" if "j < length ps" for j
    using chain_live [OF chp] that nth_mem by blast
  have w: "loopA E (ps ! i) = loopA_walk E (ps ! i) y"
    unfolding loopA_def by (rule lw.to_last [OF ch])
  show ?thesis
  proof (cases "k = i")
    case True
    with w y nz [OF i] show ?thesis
      by (subst (asm) loopA_walk.simps) (simp add: get_cell_Some)
  next
    case False
    with k(2) have ki: "k < i" by simp
    then have "ps ! k \<noteq> ps ! i" using d i by (simp add: nth_eq_iff_index_eq)
    with w y nz [of k] ki i have "loopA E (ps ! i) = loopA_walk E (ps ! i) (ps ! k)"
      by (simp add: loopA_walk_step)
    also have "\<dots> = loopA_walk E (ps ! i) (ps ! (i - 1))"
    proof (rule lw.to_last)
      have "take (i - k) (drop k ps) = take (i - 1 - k) (drop k ps) @ [ps ! (i - 1)]"
        using ki i by (simp add: segment_snoc)
      with chain_segment [OF chp k(2) i]
      show "chain E (ps ! k) (take (i - 1 - k) (drop k ps) @ [ps ! (i - 1)]) (ps ! i)" by simp
      show "ps ! i \<notin> set (tl (take (i - 1 - k) (drop k ps) @ [ps ! (i - 1)]))"
      proof
        assume "ps ! i \<in> set (tl (take (i - 1 - k) (drop k ps) @ [ps ! (i - 1)]))"
        then have "ps ! i \<in> set (take (i - 1 - k) (drop k ps) @ [ps ! (i - 1)])"
          by (metis list.set_sel(2) tl_Nil)
        then have "ps ! i \<in> set (take (i - k) (drop k ps))"
          using ki i by (simp add: segment_snoc)
        then obtain j where "j < i - k" "ps ! (k + j) = ps ! i"
          using i by (auto simp: in_set_conv_nth)
        then show False using d i by (simp add: nth_eq_iff_index_eq)
      qed
    qed
    also have "\<dots> = Some (Inr (ERR, E))"
    proof -
      have "i - 1 < length ps" using i by simp
      from circuit_live [OF c this] ki i obtain e where
        "cells E (ps ! (i - 1)) = Some e" "e_next e = ps ! i" by auto
      with nz [OF i] show ?thesis
        by (subst loopA_walk.simps) (simp add: get_cell_Some)
    qed
    finally show ?thesis .
  qed
qed

lemma loopA_outside:
  assumes c: "circuit E ps a" and i: "i < length ps" and k: "leads a = Some k" "i < k"
  shows "loopA E (ps ! i) = None"
proof -
  have d: "distinct ps" and chp: "chain E (hd ps) ps (ps ! k)" and kl: "k < length ps"
    using c k by (auto simp: circuit_def)
  from circuit_drop_snoc [OF c i] obtain xs y where xs: "drop i ps = xs @ [y]"
    and n: "ps ! i \<notin> set (tl (drop i ps))" by metis
  show ?thesis
    unfolding loopA_def
  proof (rule lw.outside_diverges [OF chain_drop [OF chp i]])
    show "ps ! k \<in> set (drop i ps)"
      using k(2) kl by (auto simp: in_set_conv_nth intro!: exI [of _ "k - i"])
    show "ps ! k \<noteq> ps ! i" using d i k(2) kl by (simp add: nth_eq_iff_index_eq)
  qed (use n i in auto)
qed

text \<open>\<open>loopA\<close> refines \<open>abs_loop\<close>.\<close>

lemma loopA_refines_aux:
  assumes "circuit E ps a" and "i < length ps"
  shows "case abs_loop i a of
      None \<Rightarrow> loopA E (ps ! i) = None
    | Some (r, b) \<Rightarrow> \<exists>E'. loopA E (ps ! i) = Some (Inr (r, E')) \<and> circuit E' ps b \<and>
        (\<forall>p. p \<notin> set ps \<longrightarrow> cells E' p = cells E p) \<and> brk E' = brk E"
  using loopA_open [OF assms] loopA_cycle [OF assms] loopA_outside [OF assms] assms(1)
  by (auto simp: abs_loop_def split: option.split)

section \<open>freeE and freeC\<close>

lemma freeE_chain:
  assumes "chain E p xs q" and "distinct xs" and "xs \<noteq> []"
    and "\<And>i. i < length xs \<Longrightarrow> \<exists>e. cells E (xs ! i) = Some e \<and> (e_last e \<longleftrightarrow> Suc i = length xs)"
  shows "freeE E p = Some (Inr (fold del_cell xs E))"
  using assms
proof (induction xs arbitrary: E p)
  case Nil
  then show ?case by simp
next
  case (Cons x xs)
  from Cons.prems(1) obtain l where l: "p = x" "p \<noteq> NULL" "cells E p = Some l"
    "chain E (e_next l) xs q" by auto
  from Cons.prems(4) [of 0] l have la: "e_last l \<longleftrightarrow> xs = []" by auto
  show ?case
  proof (cases "xs = []")
    case True
    with l la show ?thesis by (subst freeE.simps) (simp add: get_cell_Some)
  next
    case False
    have "freeE (del_cell x E) (e_next l) = Some (Inr (fold del_cell xs (del_cell x E)))"
    proof (rule Cons.IH)
      show "chain (del_cell x E) (e_next l) xs q" using l Cons.prems(2) by (simp add: chain_del)
      show "\<exists>e. cells (del_cell x E) (xs ! i) = Some e \<and> (e_last e \<longleftrightarrow> Suc i = length xs)"
        if "i < length xs" for i
        using Cons.prems(2) Cons.prems(4) [of "Suc i"] that by auto
    qed (use Cons.prems False in auto)
    with l la False show ?thesis by (subst freeE.simps) (simp add: get_cell_Some)
  qed
qed

lemma freeE_circuit: "circuit E ps a \<Longrightarrow> freeE E (hd ps) = Some (Inr (fold del_cell ps E))"
  by (rule freeE_chain [where q = "target ps (leads a)"])
    (use circuit_live [of E ps a] in \<open>force simp: circuit_def\<close>)+

lemma freeE_NULL: "freeE E NULL = Some (Inr E)"
  by (subst freeE.simps) simp

section \<open>Circuits of a process\<close>

definition circuit_at :: "('k, 'u) world \<Rightarrow> ptr \<Rightarrow> ptr list \<Rightarrow> acirc \<Rightarrow> bool" where
  "circuit_at w c ps a \<longleftrightarrow> (\<exists>C. cells (circs w) c = Some C \<and>
     (if ps = [] then c_nets C = NULL \<and> steps a = [] \<and> leads a = None
      else c_nets C = hd ps \<and> circuit (elems w) ps a))"

definition abs_append :: "task \<Rightarrow> ptr \<Rightarrow> acirc \<Rightarrow> acirc option" where
  "abs_append t p a = (if steps a = [] then Some (single t p) else abs_bind a (single t p))"

lemma abs_append_eq:
  "abs_append t p a =
     (if steps a = [] then Some (single t p)
      else case leads a of
        None \<Rightarrow> Some (a\<lparr>steps := steps a @ [(t, p)]\<rparr>)
      | Some 0 \<Rightarrow> Some (a\<lparr>steps := steps a @ [(t, p)]\<rparr>)
      | Some (Suc k) \<Rightarrow> None)"
  by (auto simp: abs_append_def abs_bind_def single_def split: option.split nat.split)

lemma single_circuit:
  "store_ok E \<Longrightarrow> circuit (snd (new_cell \<lparr>e_type = MLETSIMPLE, e_run = t, e_priv = p, e_last = True,
      e_next = NULL\<rparr> E)) [brk E] (single t p)"
  by (simp add: circuit_def single_def store_ok_def)

lemma circuit_fresh: "store_ok E \<Longrightarrow> circuit E ps a \<Longrightarrow> brk E \<notin> set ps"
  using chain_live [of E "hd ps" ps "target ps (leads a)" "brk E"]
  by (auto simp: circuit_def store_ok_def)

lemma malloc_or_die_ok:
  "os_malloc (w_os w) (kern w) = (True, k) \<Longrightarrow> malloc_or_die w = Inr ((), w\<lparr>kern := k\<rparr>)"
  by (simp add: malloc_or_die_def)

lemma malloc_or_die_fail:
  "os_malloc (w_os w) (kern w) = (False, k) \<Longrightarrow> malloc_or_die w = Inl (Exit EXIT_FAILURE)"
  by (simp add: malloc_or_die_def)

text \<open>
  What the operations that build a circuit leave alone: \<open>extends c S n w w'\<close> says that the process differs
  at most in the elements \<open>S\<close>, the first element of the circuit \<open>c\<close>, and \<open>n\<close> calls of \<open>malloc\<close>.
\<close>

definition fed :: "'k os \<Rightarrow> 'k \<Rightarrow> 'k" where
  "fed os k = snd (os_malloc os k)"

definition same_data :: "('k, 'u) world \<Rightarrow> ('k, 'u) world \<Rightarrow> bool" where
  "same_data w w' \<longleftrightarrow> objs w' = objs w \<and> blobs w' = blobs w \<and> usr w' = usr w \<and> w_os w' = w_os w \<and>
     trace w' = trace w \<and> errno w' = errno w \<and> ev w' = ev w \<and> bagh w' = bagh w \<and>
     verbosity w' = verbosity w \<and> logging_fd w' = logging_fd w \<and> ssl_ctx w' = ssl_ctx w"

definition extends :: "ptr \<Rightarrow> ptr set \<Rightarrow> nat \<Rightarrow> ('k, 'u) world \<Rightarrow> ('k, 'u) world \<Rightarrow> bool" where
  "extends c S n w w' \<longleftrightarrow> same_data w w' \<and> kern w' = (fed (w_os w) ^^ n) (kern w) \<and>
     (\<forall>p. p \<notin> S \<longrightarrow> cells (elems w') p = cells (elems w) p) \<and> brk (elems w) \<le> brk (elems w') \<and>
     (\<forall>c'. c' \<noteq> c \<longrightarrow> cells (circs w') c' = cells (circs w) c') \<and> brk (circs w') = brk (circs w) \<and>
     (\<forall>C. cells (circs w) c = Some C \<longrightarrow>
       (\<exists>C'. cells (circs w') c = Some C' \<and> c_err C' = c_err C \<and> c_current C' = c_current C))"

lemma same_data_trans: "same_data w w' \<Longrightarrow> same_data w' w'' \<Longrightarrow> same_data w w''"
  by (simp add: same_data_def)

lemma extends_refl: "extends c S 0 w w"
  by (simp add: extends_def same_data_def)

lemma extends_os: "extends c S n w w' \<Longrightarrow> w_os w' = w_os w"
  by (simp add: extends_def same_data_def)

lemma extends_trans:
  assumes "extends c S n w w'" and "extends c T m w' w''" and "S \<subseteq> T"
  shows "extends c T (n + m) w w''"
proof -
  have k: "kern w'' = (fed (w_os w) ^^ (n + m)) (kern w)"
    using assms(1,2) by (simp add: extends_def same_data_def add.commute [of n m] funpow_add)
  have C: "\<exists>C'. cells (circs w'') c = Some C' \<and> c_err C' = c_err C \<and> c_current C' = c_current C"
    if "cells (circs w) c = Some C" for C
    using that assms(1,2) unfolding extends_def by metis
  show ?thesis
    using assms k C same_data_trans [of w w' w''] unfolding extends_def by (auto simp: subset_iff)
qed

lemma newC_ok:
  assumes "os_malloc (w_os w) (kern w) = (True, k)" and "store_ok (circs w)"
  shows "\<exists>w'. newC er w = Inr (brk (circs w), w') \<and> store_ok (circs w') \<and>
    circuit_at w' (brk (circs w)) [] \<lparr>steps = [], leads = None\<rparr> \<and> elems w' = elems w \<and>
    w_os w' = w_os w"
  using assms mem.ok_alloc [OF assms(2)]
  by (simp add: newC_def mdefs malloc_or_die_ok circuit_at_def new_cell_def)

lemma appendA_first:
  assumes m: "os_malloc (w_os w) (kern w) = (True, k)" and ok: "store_ok (elems w)"
    and c: "circuit_at w c [] a"
  shows "\<exists>w'. appendA c t p w = Inr (brk (elems w), w') \<and>
    circuit_at w' c [brk (elems w)] (single t p) \<and> store_ok (elems w') \<and> extends c {brk (elems w)} 1 w w'"
  using assms single_circuit [OF ok, of t p] mem.ok_alloc [OF ok]
  by (auto simp: appendA_def mdefs malloc_or_die_ok circuit_at_def load_circ_def get_cell_Some
      new_cell_def extends_def same_data_def fed_def)

lemma appendA_next:
  assumes m: "os_malloc (w_os w) (kern w) = (True, k)" and ok: "store_ok (elems w)"
    and c: "circuit_at w c ps a" and ps: "ps \<noteq> []"
  shows "case abs_append t p a of
      None \<Rightarrow> appendA c t p w = Inl Diverges
    | Some b \<Rightarrow> \<exists>w'. appendA c t p w = Inr (brk (elems w), w') \<and>
        circuit_at w' c (ps @ [brk (elems w)]) b \<and> store_ok (elems w') \<and>
        extends c (set (ps @ [brk (elems w)])) 1 w w'"
proof -
  define e where "e = \<lparr>e_type = MLETSIMPLE, e_run = t, e_priv = p, e_last = True, e_next = NULL\<rparr>"
  define E1 where "E1 = snd (new_cell e (elems w))"
  let ?n = "brk (elems w)"
  from c ps obtain C where C: "cells (circs w) c = Some C" "c_nets C = hd ps"
    and ci: "circuit (elems w) ps a" by (auto simp: circuit_at_def)
  have fr: "?n \<notin> set ps" by (rule circuit_fresh [OF ok ci])
  have nn: "hd ps \<noteq> NULL" using ci chain_start by (auto simp: circuit_def)
  have ci1: "circuit E1 ps a"
    using ci fr by (subst circuit_cong [of ps E1 "elems w"]) (auto simp: E1_def)
  have si: "circuit E1 [?n] (single t p)"
    unfolding E1_def e_def by (rule single_circuit [OF ok])
  have ok1: "store_ok E1" unfolding E1_def by (rule mem.ok_alloc [OF ok])
  have st: "steps a \<noteq> []" using circuit_lengths [OF ci] by simp
  have step: "appendA c t p w = (case on_elems (\<lambda>E. unit_res (bindA E (hd ps) ?n))
      (w\<lparr>kern := k, elems := E1\<rparr>) of Inl f \<Rightarrow> Inl f | Inr r \<Rightarrow> Inr (?n, snd r))"
    using nn by (simp add: appendA_def mdefs malloc_or_die_ok [OF m] load_circ_def get_cell_Some C
        E1_def e_def new_cell_def split: sum.split)
  have ref: "case abs_bind a (single t p) of
      None \<Rightarrow> bindA E1 (hd ps) ?n = None
    | Some b \<Rightarrow> \<exists>E'. bindA E1 (hd ps) ?n = Some (Inr E') \<and> circuit E' (ps @ [?n]) b \<and>
        (\<forall>q. q \<notin> set ps \<union> set [?n] \<longrightarrow> cells E' q = cells E1 q) \<and> brk E' = brk E1"
    using bindA_refines_aux [OF ci1 si] fr by (auto split: option.splits)
  show ?thesis
  proof (cases "abs_bind a (single t p)")
    case None
    with ref st step show ?thesis by (simp add: abs_append_def on_elems_def unit_res_def)
  next
    case (Some b)
    with ref obtain E' where E': "bindA E1 (hd ps) ?n = Some (Inr E')"
      "circuit E' (ps @ [?n]) b" "\<And>q. q \<notin> set ps \<union> {?n} \<Longrightarrow> cells E' q = cells E1 q"
      "brk E' = brk E1" by auto
    have "store_ok E'"
      unfolding store_ok_def
    proof (intro conjI allI impI)
      show "0 < brk E'" using ok1 E'(4) by (simp add: store_ok_def)
      fix q assume q: "cells E' q \<noteq> None"
      show "0 < q" "q < brk E'"
      proof (atomize (full), cases "q \<in> set ps \<union> {?n}")
        case True
        then have "\<exists>x. cells E1 q = Some x"
          using chain_live [of E1 "hd ps" ps "target ps (leads a)" q] ci1 si
          by (auto simp: circuit_def)
        then show "0 < q \<and> q < brk E'" using ok1 E'(4) by (auto simp: store_ok_def)
      next
        case False
        with E'(3,4) q ok1 show "0 < q \<and> q < brk E'" by (auto simp: store_ok_def)
      qed
    qed
    moreover have "extends c (set (ps @ [?n])) 1 w (w\<lparr>kern := k, elems := E'\<rparr>)"
      using E'(3,4) m by (auto simp: extends_def same_data_def fed_def E1_def)
    ultimately show ?thesis
      using Some E' st step ps C by (auto simp: abs_append_def on_elems_def unit_res_def circuit_at_def)
  qed
qed

section \<open>Building a circuit\<close>

text \<open>
  A program makes a circuit with a sequence of \<open>APPEND_A\<close> and \<open>loopA\<close> calls on the
  elements that earlier calls returned, as the \<open>main\<close> functions under \<open>examples/\<close> do.
\<close>

datatype build_cmd = Append task ptr | LoopAt nat

fun build :: "ptr \<Rightarrow> ptr list \<Rightarrow> build_cmd list \<Rightarrow> ('k, 'u, ptr list) wm" where
  "build c es [] = mret es"
| "build c es (Append t p # cmds) = mbind (appendA c t p) (\<lambda>e. build c (es @ [e]) cmds)"
| "build c es (LoopAt i # cmds) = mbind (loopA_m (es ! i)) (\<lambda>_. build c es cmds)"

fun abs_build :: "acirc \<Rightarrow> build_cmd list \<Rightarrow> acirc option" where
  "abs_build a [] = Some a"
| "abs_build a (Append t p # cmds) =
     (case abs_append t p a of None \<Rightarrow> None | Some b \<Rightarrow> abs_build b cmds)"
| "abs_build a (LoopAt i # cmds) =
     (case abs_loop i a of None \<Rightarrow> None | Some (r, b) \<Rightarrow> abs_build b cmds)"

text \<open>Every \<open>loopA\<close> is on an element that exists by then.\<close>

fun build_ok :: "nat \<Rightarrow> build_cmd list \<Rightarrow> bool" where
  "build_ok n [] = True"
| "build_ok n (Append t p # cmds) = build_ok (Suc n) cmds"
| "build_ok n (LoopAt i # cmds) = (i < n \<and> build_ok n cmds)"

definition malloc_total :: "'k os \<Rightarrow> bool" where
  "malloc_total os \<longleftrightarrow> (\<forall>k. fst (os_malloc os k))"

lemma malloc_totalD: "malloc_total os \<Longrightarrow> \<exists>k'. os_malloc os k = (True, k')"
  by (metis malloc_total_def prod.collapse)

lemma store_ok_live_cong:
  assumes "store_ok E" and "brk E' = brk E"
    and "\<And>p. p \<notin> S \<Longrightarrow> cells E' p = cells E p" and "\<And>p. p \<in> S \<Longrightarrow> cells E p \<noteq> None"
  shows "store_ok E'"
  using assms unfolding store_ok_def by metis

lemma loopA_m_refines:
  assumes ok: "store_ok (elems w)" and c: "circuit_at w c ps a" and i: "i < length ps"
  shows "case abs_loop i a of
      None \<Rightarrow> loopA_m (ps ! i) w = Inl Diverges
    | Some (r, b) \<Rightarrow> \<exists>w'. loopA_m (ps ! i) w = Inr (r, w') \<and> circuit_at w' c ps b \<and>
        store_ok (elems w') \<and> extends c (set ps) 0 w w'"
proof -
  from c i obtain C where C: "cells (circs w) c = Some C" "c_nets C = hd ps"
    and ci: "circuit (elems w) ps a" by (auto simp: circuit_at_def split: if_splits)
  note ref = loopA_refines_aux [OF ci i]
  show ?thesis
  proof (cases "abs_loop i a")
    case None
    with ref show ?thesis by (simp add: loopA_m_def on_elems_def)
  next
    case (Some rb)
    obtain r b where rb: "rb = (r, b)" by (cases rb)
    with Some ref obtain E' where E': "loopA (elems w) (ps ! i) = Some (Inr (r, E'))"
      "circuit E' ps b" "\<And>p. p \<notin> set ps \<Longrightarrow> cells E' p = cells (elems w) p" "brk E' = brk (elems w)"
      by auto
    have "store_ok E'"
      by (rule store_ok_live_cong [OF ok E'(4), of "set ps"])
        (use E'(3) ci chain_live in \<open>fastforce simp: circuit_def\<close>)+
    moreover have "extends c (set ps) 0 w (w\<lparr>elems := E'\<rparr>)"
      using E'(3,4) by (simp add: extends_def same_data_def)
    ultimately show ?thesis
      using Some rb E' C i by (auto simp: loopA_m_def on_elems_def circuit_at_def)
  qed
qed

fun appends :: "build_cmd list \<Rightarrow> nat" where
  "appends [] = 0"
| "appends (Append t p # cmds) = Suc (appends cmds)"
| "appends (LoopAt i # cmds) = appends cmds"

lemma build_refines_aux:
  assumes "malloc_total (w_os w)" and "store_ok (elems w)" and "circuit_at w c ps a"
    and "build_ok (length ps) cmds"
  shows "case abs_build a cmds of
      None \<Rightarrow> build c ps cmds w = Inl Diverges
    | Some b \<Rightarrow> \<exists>qs w'. build c ps cmds w = Inr (ps @ qs, w') \<and> circuit_at w' c (ps @ qs) b \<and>
        store_ok (elems w') \<and> extends c (set (ps @ qs)) (appends cmds) w w' \<and> (\<forall>p \<in> set qs. brk (elems w) \<le> p)"
  using assms
proof (induction cmds arbitrary: w ps a)
  case Nil
  then show ?case by (auto simp: mdefs extends_refl intro!: exI [of _ "[]"])
next
  case (Cons cmd cmds)
  show ?case
  proof (cases cmd)
    case (Append t p)
    obtain k where k: "os_malloc (w_os w) (kern w) = (True, k)"
      using malloc_totalD [OF Cons.prems(1)] by blast
    have st: "steps a = [] \<longleftrightarrow> ps = []"
      using Cons.prems(3) circuit_lengths by (auto simp: circuit_at_def split: if_splits)
    have ref: "case abs_append t p a of
        None \<Rightarrow> appendA c t p w = Inl Diverges
      | Some b \<Rightarrow> \<exists>w'. appendA c t p w = Inr (brk (elems w), w') \<and>
        circuit_at w' c (ps @ [brk (elems w)]) b \<and> store_ok (elems w') \<and>
        extends c (set (ps @ [brk (elems w)])) 1 w w'"
    proof (cases "ps = []")
      case True
      with appendA_first [OF k Cons.prems(2), of c a t p] Cons.prems(3) st
      show ?thesis by (simp add: abs_append_def)
    next
      case False
      then show ?thesis by (rule appendA_next [OF k Cons.prems(2,3)])
    qed
    show ?thesis
    proof (cases "abs_append t p a")
      case None
      with ref Append show ?thesis by (simp add: mdefs)
    next
      case (Some b)
      with ref obtain w' where w': "appendA c t p w = Inr (brk (elems w), w')"
        "circuit_at w' c (ps @ [brk (elems w)]) b" "store_ok (elems w')"
        "extends c (set (ps @ [brk (elems w)])) 1 w w'" by auto
      have "malloc_total (w_os w')" using Cons.prems(1) extends_os [OF w'(4)] by simp
      note IH = Cons.IH [OF this w'(3,2)]
      show ?thesis
      proof (cases "abs_build b cmds")
        case None
        with IH Cons.prems(4) Append Some w' show ?thesis by (simp add: mdefs)
      next
        case (Some d)
        then obtain qs w'' where w'': "build c (ps @ [brk (elems w)]) cmds w' = Inr ((ps @ [brk (elems w)]) @ qs, w'')"
          "circuit_at w'' c ((ps @ [brk (elems w)]) @ qs) d" "store_ok (elems w'')"
          "extends c (set ((ps @ [brk (elems w)]) @ qs)) (appends cmds) w' w''" "\<forall>p \<in> set qs. brk (elems w') \<le> p"
          using IH Cons.prems(4) Append by auto
        have "extends c (set ((ps @ [brk (elems w)]) @ qs)) (1 + appends cmds) w w''"
          by (rule extends_trans [OF w'(4) w''(4)]) auto
        moreover have "brk (elems w) \<le> brk (elems w')" using w'(4) by (simp add: extends_def)
        ultimately show ?thesis
          using Append \<open>abs_append t p a = Some b\<close> Some w' w'' by (auto simp: mdefs intro!: exI [of _ "brk (elems w) # qs"])
      qed
    qed
  next
    case (LoopAt i)
    with Cons.prems(4) have i: "i < length ps" by simp
    note ref = loopA_m_refines [OF Cons.prems(2,3) i]
    show ?thesis
    proof (cases "abs_loop i a")
      case None
      with ref LoopAt show ?thesis by (simp add: mdefs)
    next
      case (Some rb)
      obtain r b where rb: "rb = (r, b)" by (cases rb)
      with Some ref obtain w' where w': "loopA_m (ps ! i) w = Inr (r, w')"
        "circuit_at w' c ps b" "store_ok (elems w')" "extends c (set ps) 0 w w'" by auto
      have "malloc_total (w_os w')" using Cons.prems(1) extends_os [OF w'(4)] by simp
      note IH = Cons.IH [OF this w'(3,2)]
      show ?thesis
      proof (cases "abs_build b cmds")
        case None
        with IH Cons.prems(4) LoopAt Some rb w' show ?thesis by (simp add: mdefs)
      next
        case (Some d)
        then obtain qs w'' where w'': "build c ps cmds w' = Inr (ps @ qs, w'')"
          "circuit_at w'' c (ps @ qs) d" "store_ok (elems w'')"
          "extends c (set (ps @ qs)) (appends cmds) w' w''" "\<forall>p \<in> set qs. brk (elems w') \<le> p"
          using IH Cons.prems(4) LoopAt by auto
        have "extends c (set (ps @ qs)) (0 + appends cmds) w w''"
          by (rule extends_trans [OF w'(4) w''(4)]) simp
        moreover have "brk (elems w) \<le> brk (elems w')" using w'(4) by (simp add: extends_def)
        ultimately show ?thesis
          using LoopAt \<open>abs_loop i a = Some rb\<close> Some rb w' w'' by (auto simp: mdefs intro!: exI [of _ qs])
      qed
    qed
  qed
qed

lemma freeC_circuit:
  assumes "circuit_at w c ps a" and "c \<noteq> NULL"
  shows "freeC c w = Inr ((), w\<lparr>elems := fold del_cell ps (elems w), circs := del_cell c (circs w)\<rparr>)"
  using assms freeE_circuit [of "elems w" ps a] freeE_NULL [of "elems w"]
  by (auto simp: circuit_at_def freeC_def mdefs load_circ_def get_cell_Some on_elems_def unit_res_def
      split: if_splits)

end
