(* ===== verification/Arrow.thy ===== *)
theory Arrow
  imports Circuit_Refine
begin

text \<open>
  Running circuits: \<open>returnA\<close>, \<open>errorA\<close>, \<open>runA\<close> and \<open>meloop_priv_ptr\<close> of
  \<open>src/meloop/arrow.c\<close>. A call through a function pointer is an \<open>invocation\<close>; what it
  does is the parameter \<open>call\<close> of every function that makes one, so that these functions
  are defined before the arrows that they call. The theory \<open>Program\<close> ties the knot.
\<close>

section \<open>Calls through function pointers\<close>

datatype invocation =
    Run task ptr ptr ptr ptr \<comment> \<open>\<open>run(c, global, data, priv)\<close>\<close>
  | OnError errcb ptr ptr ptr "string option" \<comment> \<open>\<open>err(c, global, data, msg)\<close>\<close>
  | OnConn conncb ptr ptr int sockaddr \<comment> \<open>\<open>client_connected(c, state, fd, addr)\<close>\<close>

type_synonym ('k, 'u) calls = "invocation \<Rightarrow> ('k, 'u, unit) wm"

definition MELOOP_ERROR_BUFFSIZE :: nat where "MELOOP_ERROR_BUFFSIZE = 1024"

section \<open>The functions\<close>

definition returnA :: "('k, 'u) calls \<Rightarrow> ptr \<Rightarrow> ptr \<Rightarrow> ptr \<Rightarrow> ('k, 'u, unit) wm" where
  "returnA call c state data =
     mbind (load_circ c) (\<lambda>C.
     mbind (load_elem (c_current C)) (\<lambda>curr.
     if e_next curr = NULL then set_current c NULL
     else mthen (set_current c (e_next curr))
       (mbind (load_elem (e_next curr)) (\<lambda>next_e.
          call (Run (e_run next_e) c state data (e_priv next_e))))))"

text \<open>
  The message is the text that \<open>vsnprintf\<close> would write without a limit; it is cut to the
  buffer, whose last byte is the terminating zero. \<open>None\<close> is the null format.
\<close>

definition errorA :: "('k, 'u) calls \<Rightarrow> ptr \<Rightarrow> ptr \<Rightarrow> ptr \<Rightarrow> string option \<Rightarrow> ('k, 'u, unit) wm" where
  "errorA call c state data format =
     mbind (load_circ c) (\<lambda>C. mseq [
       case c_err C of
         Some f \<Rightarrow> call (OnError f c state data (map_option (take (MELOOP_ERROR_BUFFSIZE - 1)) format))
       | None \<Rightarrow> mret (),
       set_current c NULL])"

definition runA :: "('k, 'u) calls \<Rightarrow> ptr \<Rightarrow> ptr \<Rightarrow> ptr \<Rightarrow> ('k, 'u, unit) wm" where
  "runA call c state data =
     mbind (load_circ c) (\<lambda>C.
     mthen (if c_current C = NULL then set_current c (c_nets C) else mret ())
       (mbind (load_circ c) (\<lambda>C'.
        mbind (load_elem (c_current C')) (\<lambda>curr.
        call (Run (e_run curr) c state data (e_priv curr))))))"

definition meloop_priv_ptr :: "ptr \<Rightarrow> ('k, 'u, ptr) wm" where
  "meloop_priv_ptr c =
     mbind (load_circ c) (\<lambda>C. mbind (load_elem (c_current C)) (\<lambda>e. mret (e_priv e)))"

section \<open>What they do on a circuit\<close>

text \<open>
  \<open>at_step w c ps a i\<close>: the circuit \<open>c\<close> is built from the elements \<open>ps\<close>, stands for \<open>a\<close>,
  and its current element is number \<open>i\<close>.
\<close>

definition at_step :: "('k, 'u) world \<Rightarrow> ptr \<Rightarrow> ptr list \<Rightarrow> acirc \<Rightarrow> nat \<Rightarrow> bool" where
  "at_step w c ps a i \<longleftrightarrow> circuit (elems w) ps a \<and> i < length ps \<and>
     (\<exists>C. cells (circs w) c = Some C \<and> c_current C = ps ! i)"

definition idle :: "('k, 'u) world \<Rightarrow> ptr \<Rightarrow> bool" where
  "idle w c \<longleftrightarrow> (\<exists>C. cells (circs w) c = Some C \<and> c_current C = NULL)"

text \<open>The step after step \<open>i\<close> of an abstract circuit.\<close>

definition abs_next :: "acirc \<Rightarrow> nat \<Rightarrow> nat option" where
  "abs_next a i = (if Suc i < length (steps a) then Some (Suc i) else leads a)"

definition goto :: "ptr \<Rightarrow> ptr \<Rightarrow> ('k, 'u) world \<Rightarrow> ('k, 'u) world" where
  "goto c p w = w\<lparr>circs := put_cell c ((the (cells (circs w) c))\<lparr>c_current := p\<rparr>) (circs w)\<rparr>"

lemma goto_goto [simp]: "goto c p (goto c q w) = goto c p w"
  by (simp add: goto_def put_cell_def)

lemma set_current_eq: "cells (circs w) c = Some C \<Longrightarrow> set_current c p w = Inr ((), goto c p w)"
  by (simp add: set_current_def mdefs load_circ_def get_cell_Some goto_def)

lemma elems_goto [simp]: "elems (goto c p w) = elems w"
  by (simp add: goto_def)

lemma abs_next_less: "circuit E ps a \<Longrightarrow> abs_next a i = Some j \<Longrightarrow> j < length ps"
  using circuit_lengths [of E ps a]
  by (auto simp: abs_next_def circuit_def split: if_splits)

lemma at_step_goto:
  "at_step w c ps a i \<Longrightarrow> j < length ps \<Longrightarrow> at_step (goto c (ps ! j) w) c ps a j"
  by (auto simp: at_step_def goto_def)

lemma idle_goto: "at_step w c ps a i \<Longrightarrow> idle (goto c NULL w) c"
  by (auto simp: at_step_def idle_def goto_def)

lemma step_nonnull:
  "circuit E ps a \<Longrightarrow> i < length ps \<Longrightarrow> ps ! i \<noteq> NULL"
  using chain_live nth_mem by (auto simp: circuit_def)

text \<open>\<open>returnA\<close> continues with the next step of the abstract circuit, or leaves the circuit
  idle after the last one of an open circuit.\<close>

lemma returnA_step:
  assumes "at_step w c ps a i"
  shows "returnA call c s d w = (case abs_next a i of
      Some j \<Rightarrow> call (Run (fst (steps a ! j)) c s d (snd (steps a ! j))) (goto c (ps ! j) w)
    | None \<Rightarrow> Inr ((), goto c NULL w))"
proof -
  from assms obtain C where ci: "circuit (elems w) ps a" and i: "i < length ps"
    and C: "cells (circs w) c = Some C" "c_current C = ps ! i" by (auto simp: at_step_def)
  from circuit_live [OF ci i] obtain e where e: "cells (elems w) (ps ! i) = Some e"
    "e_next e = (if Suc i < length ps then ps ! Suc i else target ps (leads a))" by auto
  have len: "length (steps a) = length ps" using circuit_lengths [OF ci] by simp
  show ?thesis
  proof (cases "abs_next a i")
    case None
    then have "e_next e = NULL" using e len by (simp add: abs_next_def split: if_splits)
    with C e None show ?thesis
      by (simp add: returnA_def mdefs load_circ_def load_elem_def get_cell_Some set_current_eq)
  next
    case (Some j)
    have j: "j < length ps" by (rule abs_next_less [OF ci Some])
    have nx: "e_next e = ps ! j" using e len Some by (auto simp: abs_next_def split: if_splits)
    from circuit_live [OF ci j] obtain e' where e': "cells (elems w) (ps ! j) = Some e'"
      "(e_run e', e_priv e') = steps a ! j" by auto
    have "e_run e' = fst (steps a ! j)" "e_priv e' = snd (steps a ! j)"
      using e'(2) by (metis fst_conv, metis snd_conv)
    with C e e' nx Some step_nonnull [OF ci j] show ?thesis
      by (simp add: returnA_def mdefs load_circ_def load_elem_def get_cell_Some set_current_eq)
  qed
qed

lemma returnA_idle:
  assumes "idle w c" and "store_ok (elems w)"
  shows "returnA call c s d w = Inl (NullDeref HElem)"
  using assms
  by (auto simp: idle_def returnA_def mdefs load_circ_def load_elem_def get_cell_Some get_cell_NULL)

text \<open>\<open>runA\<close> starts an idle circuit at its first element and resumes another one where it is.\<close>

lemma runA_resume:
  assumes "at_step w c ps a i"
  shows "runA call c s d w = call (Run (fst (steps a ! i)) c s d (snd (steps a ! i))) w"
proof -
  from assms obtain C where ci: "circuit (elems w) ps a" and i: "i < length ps"
    and C: "cells (circs w) c = Some C" "c_current C = ps ! i" by (auto simp: at_step_def)
  from circuit_live [OF ci i] obtain e where e: "cells (elems w) (ps ! i) = Some e"
    "(e_run e, e_priv e) = steps a ! i" by auto
  have "e_run e = fst (steps a ! i)" "e_priv e = snd (steps a ! i)"
    using e(2) by (metis fst_conv, metis snd_conv)
  with C e step_nonnull [OF ci i] show ?thesis
    by (simp add: runA_def mdefs load_circ_def load_elem_def get_cell_Some)
qed

lemma runA_start:
  assumes "idle w c" and "circuit_at w c ps a" and "ps \<noteq> []"
  shows "runA call c s d w =
    call (Run (fst (steps a ! 0)) c s d (snd (steps a ! 0))) (goto c (ps ! 0) w)"
proof -
  from assms obtain C where ci: "circuit (elems w) ps a" and C: "cells (circs w) c = Some C"
    "c_current C = NULL" "c_nets C = ps ! 0"
    by (auto simp: idle_def circuit_at_def hd_conv_nth)
  from circuit_live [OF ci, of 0] assms(3) obtain e where e: "cells (elems w) (ps ! 0) = Some e"
    "(e_run e, e_priv e) = steps a ! 0" by auto
  have "e_run e = fst (steps a ! 0)" "e_priv e = snd (steps a ! 0)"
    using e(2) by (metis fst_conv, metis snd_conv)
  with C e show ?thesis
    by (simp add: runA_def mdefs load_circ_def load_elem_def get_cell_Some set_current_eq)
      (simp add: goto_def C mdefs get_cell_Some)
qed

lemma runA_empty:
  assumes "idle w c" and "circuit_at w c [] a" and "store_ok (elems w)"
  shows "runA call c s d w = Inl (NullDeref HElem)"
  using assms
  by (auto simp: idle_def circuit_at_def runA_def mdefs load_circ_def load_elem_def get_cell_Some
      set_current_eq get_cell_NULL goto_def)

text \<open>\<open>errorA\<close> calls the error function before it makes the circuit idle.\<close>

lemma errorA_eq:
  assumes "cells (circs w) c = Some C"
  shows "errorA call c s d msg w = (case c_err C of
      None \<Rightarrow> Inr ((), goto c NULL w)
    | Some f \<Rightarrow> (case call (OnError f c s d (map_option (take 1023) msg)) w of
        Inl x \<Rightarrow> Inl x
      | Inr r \<Rightarrow> set_current c NULL (snd r)))"
  using assms
  by (auto simp: errorA_def mdefs load_circ_def get_cell_Some set_current_eq
      MELOOP_ERROR_BUFFSIZE_def split: option.split sum.split)

lemma errorA_idle:
  assumes "errorA call c s d msg w = Inr (u, w')"
  shows "idle w' c"
proof -
  from assms obtain w1 where "set_current c NULL w1 = Inr ((), w')"
    by (auto simp: errorA_def mbind_Inr_iff mthen_Inr_iff mret_apply)
  then show ?thesis
    by (auto simp: set_current_def mdefs load_circ_def idle_def get_cell_def
        split: option.splits sum.splits)
qed

lemma meloop_priv_ptr_step:
  assumes "at_step w c ps a i"
  shows "meloop_priv_ptr c w = Inr (snd (steps a ! i), w)"
proof -
  from assms obtain C where ci: "circuit (elems w) ps a" and i: "i < length ps"
    and C: "cells (circs w) c = Some C" "c_current C = ps ! i" by (auto simp: at_step_def)
  from circuit_live [OF ci i] obtain e where "cells (elems w) (ps ! i) = Some e"
    "(e_run e, e_priv e) = steps a ! i" by auto
  with C show ?thesis
    by (simp add: meloop_priv_ptr_def mdefs load_circ_def load_elem_def get_cell_Some)
      (metis snd_conv)
qed

section \<open>Monotonicity\<close>

lemma less_fuel_returnA [mono_intros]:
  assumes "calls_le f g"
  shows "less_fuel (returnA f c s d) (returnA g c s d)"
  unfolding returnA_def by (intro mono_intros less_fuel_call [OF assms] assms)

lemma less_fuel_errorA [mono_intros]:
  assumes "calls_le f g"
  shows "less_fuel (errorA f c s d m) (errorA g c s d m)"
  unfolding errorA_def by (intro mono_intros less_fuel_call [OF assms] assms)

lemma less_fuel_runA [mono_intros]:
  assumes "calls_le f g"
  shows "less_fuel (runA f c s d) (runA g c s d)"
  unfolding runA_def by (intro mono_intros less_fuel_call [OF assms] assms)

end
