(* ===== verification/Ev.thy ===== *)
theory Ev
  imports Machine
begin

text \<open>
  \<open>src/meloop/ev.c\<close>: the table of waiting bags and the epoll instance. The table is
  modelled on \<open>ev_state\<close> alone (\<open>bags_remember\<close>, \<open>bags_clear\<close>), the functions that
  allocate, free or call epoll on the process. The locale \<open>bag_registry\<close> is what the event
  loop needs of the table; \<open>reg\<close> interprets it on the code's table. \<open>ev_ok\<close> is the
  invariant that ties the counter \<open>_waitingbags\<close>, the table and the heap of bags together.
\<close>

definition EV_MAXEVENTS :: nat where "EV_MAXEVENTS = 16"

text \<open>The static variables of the module when the program starts.\<close>

definition static_ev :: ev_state where
  "static_ev = \<lparr>epfd = -1, epflags = EPOLLONESHOT OR EPOLLRDHUP OR EPOLLERR, waitingbags = 0,
     bags = replicate EV_MAXEVENTS NULL\<rparr>"

section \<open>The table\<close>

text \<open>The loops over the table look for the first slot that holds a given pointer.\<close>

fun slot_from :: "ptr \<Rightarrow> nat \<Rightarrow> ptr list \<Rightarrow> nat option" where
  "slot_from p i [] = None"
| "slot_from p i (x # xs) = (if x = p then Some i else slot_from p (Suc i) xs)"

definition bags_remember :: "ptr \<Rightarrow> ev_state \<Rightarrow> int \<times> ev_state" where
  "bags_remember bag e = (case slot_from NULL 0 (bags e) of
     Some i \<Rightarrow> (int i, e\<lparr>bags := (bags e)[i := bag], waitingbags := waitingbags e + 1\<rparr>)
   | None \<Rightarrow> (ERR, e))"

text \<open>What \<open>meloop_bag_free\<close> does to the table once it has found slot \<open>i\<close>.\<close>

definition bags_clear :: "nat \<Rightarrow> ev_state \<Rightarrow> ev_state" where
  "bags_clear i e = e\<lparr>bags := (bags e)[i := NULL], waitingbags := waitingbags e - 1\<rparr>"

definition bags_forget :: "ptr \<Rightarrow> ev_state \<Rightarrow> ev_state" where
  "bags_forget bag e = (case slot_from bag 0 (bags e) of None \<Rightarrow> e | Some i \<Rightarrow> bags_clear i e)"

section \<open>Bags\<close>

definition set_ev :: "(ev_state \<Rightarrow> ev_state) \<Rightarrow> ('k, 'u, unit) wm" where
  "set_ev g = mmod (\<lambda>w. w\<lparr>ev := g (ev w)\<rparr>)"

text \<open>\<open>free(bag)\<close>; \<open>free(NULL)\<close> does nothing.\<close>

definition free_bag :: "ptr \<Rightarrow> ('k, 'u, unit) wm" where
  "free_bag bag = (if bag = NULL then mret ()
     else mbind (load_bag bag) (\<lambda>_. mmod (\<lambda>w. w\<lparr>bagh := del_cell bag (bagh w)\<rparr>)))"

definition meloop_bag_free :: "ptr \<Rightarrow> ('k, 'u, unit) wm" where
  "meloop_bag_free bag = mbind (mgets ev) (\<lambda>e.
     case slot_from bag 0 (bags e) of
       Some i \<Rightarrow> mseq [free_bag bag, set_ev (bags_clear i)]
     | None \<Rightarrow> mret ())"

primrec freeall_from :: "nat \<Rightarrow> nat \<Rightarrow> ('k, 'u, unit) wm" where
  \<comment> \<open>the loop of \<open>meloop_bags_freeall\<close> with \<open>n\<close> slots to go, at slot \<open>i\<close>\<close>
  "freeall_from i 0 = mret ()"
| "freeall_from i (Suc n) = mthen
     (mbind (mgets (\<lambda>w. bags (ev w) ! i)) (\<lambda>bag.
        if bag = NULL then mret ()
        else mseq [free_bag bag, set_ev (\<lambda>e. e\<lparr>bags := (bags e)[i := NULL]\<rparr>)]))
     (freeall_from (Suc i) n)"

definition meloop_bags_freeall :: "('k, 'u, unit) wm" where
  "meloop_bags_freeall = freeall_from 0 EV_MAXEVENTS"

definition meloop_bag_new :: "int \<Rightarrow> ptr \<Rightarrow> ptr \<Rightarrow> ptr \<Rightarrow> ('k, 'u, ptr) wm" where
  "meloop_bag_new fd c s data = mthen malloc_or_die (mbind
     (\<lambda>w. let (bag, B) = new_cell \<lparr>b_fd = fd, b_circuit = c, b_state = s, b_data = data\<rparr> (bagh w)
          in Inr (bag, w\<lparr>bagh := B\<rparr>)) (\<lambda>bag.
     mthen (set_ev (\<lambda>e. snd (bags_remember bag e))) (mret bag)))"

section \<open>The epoll instance\<close>

definition meloop_ev_init :: "u32 \<Rightarrow> ('k, 'u, unit) wm" where
  "meloop_ev_init flags = mbind (mgets (\<lambda>w. epfd (ev w))) (\<lambda>fd.
     if fd \<noteq> -1 then mret ()
     else mthen (set_ev (\<lambda>e. e\<lparr>epflags := epflags e OR flags\<rparr>))
       (mbind (syscall SysEpollCreate (\<lambda>os. os_epoll_create1 os 0)) (\<lambda>r. mseq [
          set_ev (\<lambda>e. e\<lparr>epfd := resfd r\<rparr>),
          if resfd r < 0 then mfail (Exit ERR) else mret (),
          set_ev (\<lambda>e. e\<lparr>waitingbags := 0\<rparr>),
          set_ev (\<lambda>e. e\<lparr>bags := replicate EV_MAXEVENTS NULL\<rparr>)])))"

definition meloop_ev_deinit :: "('k, 'u, unit) wm" where
  "meloop_ev_deinit = mbind (mgets (\<lambda>w. epfd (ev w))) (\<lambda>fd.
     mbind (sys_close fd) (\<lambda>_. mret ()))"

definition meloop_ev_arm :: "u32 \<Rightarrow> ptr \<Rightarrow> ('k, 'u, int) wm" where
  "meloop_ev_arm op bag =
     mbind (mgets ev) (\<lambda>e.
     mbind (load_bag bag) (\<lambda>b.
     mbind (epoll_ctl (epfd e) EPOLL_CTL_MOD (b_fd b) (epflags e OR op) bag) (\<lambda>r.
     if r \<noteq> OK then
       mbind (mgets errno) (\<lambda>en.
       if en = ENOENT then
         mthen (set_errno 0)
         (mbind (epoll_ctl (epfd e) EPOLL_CTL_ADD (b_fd b) (epflags e OR op) bag) (\<lambda>r2.
         if r2 \<noteq> OK then mret ERR else mret OK))
       else mret ERR)
     else mret OK)))"

definition meloop_ev_dearm :: "int \<Rightarrow> ('k, 'u, int) wm" where
  "meloop_ev_dearm fd = mbind (mgets (\<lambda>w. epfd (ev w))) (\<lambda>ep.
     mbind (epoll_ctl ep EPOLL_CTL_DEL fd 0 NULL) (\<lambda>r.
     if r \<noteq> OK then mret ERR else mret OK))"

definition meloop_ev_more :: "('k, 'u, int) wm" where
  "meloop_ev_more = mgets (\<lambda>w. waitingbags (ev w))"

text \<open>
  \<open>epoll_wait(_epfd, events, EV_MAXEVENTS, -1)\<close>: \<open>Inl\<close> is the return value -1, \<open>Inr\<close>
  the events that were written; more of them than the array of the caller holds is an overflow.
\<close>

definition meloop_ev_wait :: "('k, 'u, int + (u32 \<times> ptr) list) wm" where
  "meloop_ev_wait = mbind (mgets (\<lambda>w. epfd (ev w))) (\<lambda>ep.
     mbind (syscall SysEpollWait (\<lambda>os. os_epoll_wait os ep EV_MAXEVENTS)) (\<lambda>r.
     case r of Inl e \<Rightarrow> mret (Inl e)
     | Inr evs \<Rightarrow> if length evs > EV_MAXEVENTS then mfail BufferOverflow else mret (Inr evs)))"

section \<open>Slots\<close>

lemma slot_from_Some:
  "slot_from p i xs = Some j \<Longrightarrow> i \<le> j \<and> j < i + length xs \<and> xs ! (j - i) = p"
proof (induction xs arbitrary: i)
  case Nil
  then show ?case by simp
next
  case (Cons x xs)
  show ?case
  proof (cases "x = p")
    case True
    with Cons.prems show ?thesis by auto
  next
    case False
    with Cons.prems Cons.IH [of "Suc i"] have "Suc i \<le> j" "j < Suc i + length xs"
      "xs ! (j - Suc i) = p" by auto
    then show ?thesis by (auto simp: nth_Cons' Suc_diff_Suc)
  qed
qed

lemma slot_from_None: "slot_from p i xs = None \<longleftrightarrow> p \<notin> set xs"
  by (induction xs arbitrary: i) auto

lemma slot_Some: "slot_from p 0 xs = Some j \<Longrightarrow> j < length xs \<and> xs ! j = p"
  using slot_from_Some [of p 0 xs j] by simp

lemma slot_exists: "p \<in> set xs \<Longrightarrow> \<exists>j. slot_from p 0 xs = Some j \<and> j < length xs \<and> xs ! j = p"
  using slot_from_None [of p 0 xs] slot_Some by (cases "slot_from p 0 xs") auto

text \<open>The pointers in the table, without the empty slots.\<close>

definition used :: "ptr list \<Rightarrow> ptr list" where
  "used xs = filter (\<lambda>p. p \<noteq> NULL) xs"

lemma set_used: "set (used xs) = set xs - {NULL}"
  by (auto simp: used_def)

lemma used_split:
  assumes "j < length xs"
  shows "used xs = used (take j xs) @ used [xs ! j] @ used (drop (Suc j) xs)"
proof -
  have "used xs = used (take j xs @ xs ! j # drop (Suc j) xs)"
    by (rule arg_cong [OF id_take_nth_drop [OF assms]])
  then show ?thesis by (simp add: used_def)
qed

lemma used_update:
  assumes "j < length xs"
  shows "used (xs[j := p]) = used (take j xs) @ used [p] @ used (drop (Suc j) xs)"
  using assms by (simp add: upd_conv_take_nth_drop used_def)

lemma used_length: "length (used xs) \<le> length xs"
  by (simp add: used_def)

lemma used_full: "length (used xs) = length xs \<longleftrightarrow> NULL \<notin> set xs"
proof (cases "NULL \<in> set xs")
  case True
  then have "length (used xs) < length xs"
    unfolding used_def by (rule length_filter_less) simp
  with True show ?thesis by simp
next
  case False
  then have "used xs = xs" unfolding used_def by (intro filter_True ballI) metis
  with False show ?thesis by simp
qed

section \<open>The table as a registry\<close>

definition table_ok :: "ev_state \<Rightarrow> bool" where
  "table_ok e \<longleftrightarrow> length (bags e) = EV_MAXEVENTS \<and>
     waitingbags e = int (length (used (bags e))) \<and> distinct (used (bags e))"

definition registered :: "ev_state \<Rightarrow> ptr set" where
  "registered e = set (used (bags e))"

text \<open>
  What the waiting and the resuming side rely on: a pointer that was remembered is registered
  until it is forgotten, unless the registry was full; the count is the number of registered
  pointers.
\<close>

locale bag_registry =
  fixes remember :: "ptr \<Rightarrow> 's \<Rightarrow> int \<times> 's"
    and forget :: "ptr \<Rightarrow> 's \<Rightarrow> 's"
    and members :: "'s \<Rightarrow> ptr set"
    and count :: "'s \<Rightarrow> int"
    and cap :: nat
    and ok :: "'s \<Rightarrow> bool"
  assumes fin: "ok s \<Longrightarrow> finite (members s)"
    and count_card: "ok s \<Longrightarrow> count s = int (card (members s))"
    and bounded: "ok s \<Longrightarrow> card (members s) \<le> cap"
    and remember_room: "ok s \<Longrightarrow> card (members s) < cap \<Longrightarrow> p \<noteq> NULL \<Longrightarrow> p \<notin> members s \<Longrightarrow>
      fst (remember p s) \<noteq> ERR \<and> members (snd (remember p s)) = insert p (members s) \<and>
      ok (snd (remember p s))"
    and remember_full: "ok s \<Longrightarrow> card (members s) = cap \<Longrightarrow> remember p s = (ERR, s)"
    and forget_members: "ok s \<Longrightarrow> p \<noteq> NULL \<Longrightarrow>
      members (forget p s) = members s - {p} \<and> ok (forget p s)"
begin

lemma remember_ok: "ok s \<Longrightarrow> p \<noteq> NULL \<Longrightarrow> p \<notin> members s \<Longrightarrow> ok (snd (remember p s))"
  using remember_room [of s p] remember_full [of s p] bounded [of s]
  by (cases "card (members s) = cap") auto

lemma remember_subset:
  "ok s \<Longrightarrow> p \<noteq> NULL \<Longrightarrow> p \<notin> members s \<Longrightarrow> members (snd (remember p s)) \<subseteq> insert p (members s)"
  using remember_room [of s p] remember_full [of s p] bounded [of s]
  by (cases "card (members s) = cap") auto

lemma remember_count:
  "ok s \<Longrightarrow> p \<noteq> NULL \<Longrightarrow> p \<notin> members s \<Longrightarrow>
    count (snd (remember p s)) = (if count s < int cap then count s + 1 else count s)"
  using remember_room [of s p] remember_full [of s p] bounded [of s] count_card [of s]
    count_card [of "snd (remember p s)"] fin [of s]
  by (cases "card (members s) = cap") auto

lemma forget_count:
  assumes "ok s" and "p \<noteq> NULL"
  shows "count (forget p s) = (if p \<in> members s then count s - 1 else count s)"
proof -
  have "count (forget p s) = int (card (members s - {p}))"
    using forget_members [OF assms] count_card by metis
  moreover have "count s = int (card (members s))" by (rule count_card [OF assms(1)])
  moreover have "card (members s) > 0" if "p \<in> members s"
    using fin [OF assms(1)] that card_gt_0_iff by blast
  ultimately show ?thesis
    by (simp add: card_Diff_singleton_if of_nat_diff Suc_le_eq)
qed

lemma remember_forget:
  "ok s \<Longrightarrow> p \<noteq> NULL \<Longrightarrow> p \<notin> members s \<Longrightarrow>
    members (forget p (snd (remember p s))) = members s"
  using remember_room [of s p] remember_full [of s p] bounded [of s] forget_members [of s p]
    forget_members [of "snd (remember p s)" p]
  by (cases "card (members s) = cap") auto

lemma count_bounds: "ok s \<Longrightarrow> 0 \<le> count s \<and> count s \<le> int cap"
  using count_card [of s] bounded [of s] by simp

lemma count_zero: "ok s \<Longrightarrow> count s = 0 \<longleftrightarrow> members s = {}"
  using count_card [of s] fin [of s] by simp

end

lemma card_registered: "table_ok e \<Longrightarrow> card (registered e) = length (used (bags e))"
  by (simp add: table_ok_def registered_def distinct_card)

lemma remember_slot:
  assumes "slot_from NULL 0 (bags e) = Some j" and "p \<noteq> NULL"
  shows "bags_remember p e = (int j, e\<lparr>bags := (bags e)[j := p], waitingbags := waitingbags e + 1\<rparr>)"
    and "used ((bags e)[j := p]) = used (take j (bags e)) @ p # used (drop (Suc j) (bags e))"
    and "used (bags e) = used (take j (bags e)) @ used (drop (Suc j) (bags e))"
  using assms slot_Some [OF assms(1)] used_split [of j "bags e"] used_update [of j "bags e" p]
  by (simp_all add: bags_remember_def used_def)

lemma forget_slot:
  assumes "slot_from p 0 (bags e) = Some j" and "p \<noteq> NULL"
  shows "bags_forget p e = bags_clear j e"
    and "used ((bags e)[j := NULL]) = used (take j (bags e)) @ used (drop (Suc j) (bags e))"
    and "used (bags e) = used (take j (bags e)) @ p # used (drop (Suc j) (bags e))"
  using assms slot_Some [OF assms(1)] used_split [of j "bags e"] used_update [of j "bags e" NULL]
  by (simp_all add: bags_forget_def used_def)

lemma room_slot:
  assumes "table_ok e" and "card (registered e) < EV_MAXEVENTS"
  shows "\<exists>j. slot_from NULL 0 (bags e) = Some j"
proof -
  have "length (used (bags e)) \<noteq> length (bags e)"
    using assms card_registered [OF assms(1)] by (simp add: table_ok_def)
  then have "NULL \<in> set (bags e)" by (simp add: used_full)
  then show ?thesis using slot_exists by blast
qed

lemma full_no_slot:
  assumes "table_ok e" and "card (registered e) = EV_MAXEVENTS"
  shows "slot_from NULL 0 (bags e) = None"
proof -
  have "length (used (bags e)) = length (bags e)"
    using assms card_registered [OF assms(1)] by (simp add: table_ok_def)
  then show ?thesis by (simp add: used_full slot_from_None)
qed

interpretation reg: bag_registry bags_remember bags_forget registered waitingbags EV_MAXEVENTS table_ok
proof unfold_locales
  fix e :: ev_state and p :: ptr
  assume ok: "table_ok e"
  show "finite (registered e)" by (simp add: registered_def)
  show "waitingbags e = int (card (registered e))"
    using ok card_registered [OF ok] by (simp add: table_ok_def)
  show "card (registered e) \<le> EV_MAXEVENTS"
    using ok card_registered [OF ok] used_length [of "bags e"] by (simp add: table_ok_def)
  show "bags_remember p e = (ERR, e)" if "card (registered e) = EV_MAXEVENTS"
    using full_no_slot [OF ok that] by (simp add: bags_remember_def)
  show "fst (bags_remember p e) \<noteq> ERR \<and>
      registered (snd (bags_remember p e)) = insert p (registered e) \<and>
      table_ok (snd (bags_remember p e))"
    if room: "card (registered e) < EV_MAXEVENTS" and p: "p \<noteq> NULL" "p \<notin> registered e"
  proof -
    obtain j where j: "slot_from NULL 0 (bags e) = Some j" using room_slot [OF ok room] by blast
    show ?thesis
      using ok p remember_slot [OF j p(1)]
      by (auto simp: table_ok_def registered_def ERR_def)
  qed
  show "registered (bags_forget p e) = registered e - {p} \<and> table_ok (bags_forget p e)"
    if p: "p \<noteq> NULL"
  proof (cases "slot_from p 0 (bags e)")
    case None
    then have "p \<notin> registered e" by (simp add: registered_def set_used slot_from_None)
    with None ok show ?thesis by (simp add: bags_forget_def)
  next
    case (Some j)
    show ?thesis
      using ok forget_slot [OF Some p]
      by (auto simp: table_ok_def registered_def bags_clear_def)
  qed
qed

section \<open>The table and the heap of bags\<close>

definition ev_ok :: "('k, 'u) world \<Rightarrow> bool" where
  "ev_ok w \<longleftrightarrow> table_ok (ev w) \<and> store_ok (bagh w) \<and>
     (\<forall>p \<in> registered (ev w). cells (bagh w) p \<noteq> None)"

lemma registered_live:
  "ev_ok w \<Longrightarrow> p \<in> registered (ev w) \<Longrightarrow> p \<noteq> NULL \<and> p < brk (bagh w) \<and> (\<exists>b. cells (bagh w) p = Some b)"
  by (auto simp: ev_ok_def store_ok_def)

lemma fresh_bag: "ev_ok w \<Longrightarrow> brk (bagh w) \<noteq> NULL \<and> brk (bagh w) \<notin> registered (ev w)"
  using registered_live [of w "brk (bagh w)"] by (auto simp: ev_ok_def store_ok_def)

lemma meloop_bag_new_eq:
  assumes "os_malloc (w_os w) (kern w) = (True, k)"
  shows "meloop_bag_new fd c s d w = Inr (brk (bagh w),
    w\<lparr>kern := k,
      bagh := snd (new_cell \<lparr>b_fd = fd, b_circuit = c, b_state = s, b_data = d\<rparr> (bagh w)),
      ev := snd (bags_remember (brk (bagh w)) (ev w))\<rparr>)"
  using assms by (simp add: meloop_bag_new_def mdefs malloc_or_die_def set_ev_def new_cell_def)

lemma meloop_bag_new_cases:
  obtains (oom) "meloop_bag_new fd c s d w = Inl (Exit EXIT_FAILURE)"
  | (ok) k where "os_malloc (w_os w) (kern w) = (True, k)"
proof (cases "os_malloc (w_os w) (kern w)")
  case (Pair a k)
  with that show thesis
    by (cases a) (simp_all add: meloop_bag_new_def mdefs malloc_or_die_def)
qed

lemma ev_ok_bag_new:
  assumes "ev_ok w"
  shows "ev_ok (w\<lparr>kern := k, bagh := snd (new_cell b (bagh w)),
      ev := snd (bags_remember (brk (bagh w)) (ev w))\<rparr>)"
proof -
  let ?p = "brk (bagh w)"
  have t: "table_ok (ev w)" and s: "store_ok (bagh w)" using assms by (auto simp: ev_ok_def)
  note f = fresh_bag [OF assms]
  have "registered (snd (bags_remember ?p (ev w))) \<subseteq> insert ?p (registered (ev w))"
    using reg.remember_subset [OF t] f by blast
  then show ?thesis
    using reg.remember_ok [OF t] f mem.ok_alloc [OF s] assms by (auto simp: ev_ok_def)
qed

lemma keep_ev_ok_bag_new: "keep ev_ok (\<lambda>f. \<not> bag_fault f) (meloop_bag_new fd c s d)"
proof (rule keepI)
  fix w f
  assume "meloop_bag_new fd c s d w = Inl f"
  then show "\<not> bag_fault f"
    by (cases rule: meloop_bag_new_cases [of fd c s d w]) (auto simp: meloop_bag_new_eq)
next
  fix w a w'
  assume "ev_ok w" and "meloop_bag_new fd c s d w = Inr (a, w')"
  then show "ev_ok w'"
    by (cases rule: meloop_bag_new_cases [of fd c s d w]) (auto simp: meloop_bag_new_eq ev_ok_bag_new)
qed

text \<open>\<open>meloop_bag_free\<close> on a live bag: a registered bag is freed and its slot emptied; a
  bag that found no room in the table is not found there and stays allocated.\<close>

lemma meloop_bag_free_eq:
  assumes "ev_ok w" and "p \<noteq> NULL"
  shows "meloop_bag_free p w = (if p \<in> registered (ev w)
    then Inr ((), w\<lparr>bagh := del_cell p (bagh w), ev := bags_forget p (ev w)\<rparr>)
    else Inr ((), w))"
proof (cases "slot_from p 0 (bags (ev w))")
  case None
  then have "p \<notin> registered (ev w)" by (simp add: registered_def set_used slot_from_None)
  with None show ?thesis by (simp add: meloop_bag_free_def mdefs)
next
  case (Some j)
  then have "p \<in> registered (ev w)"
    using assms(2) slot_Some [OF Some] by (auto simp: registered_def set_used)
  with assms Some registered_live [OF assms(1), of p] show ?thesis
    by (auto simp: meloop_bag_free_def mdefs free_bag_def load_bag_def set_ev_def bags_forget_def
        get_cell_Some)
qed

lemma ev_ok_bag_free:
  assumes "ev_ok w" and "p \<noteq> NULL"
  shows "ev_ok (w\<lparr>bagh := del_cell p (bagh w), ev := bags_forget p (ev w)\<rparr>)"
proof -
  have t: "table_ok (ev w)" and s: "store_ok (bagh w)" using assms by (auto simp: ev_ok_def)
  show ?thesis
    using reg.forget_members [OF t assms(2)] mem.ok_del [OF s] assms(1)
    by (auto simp: ev_ok_def)
qed

lemma keep_ev_ok_bag_free: "p \<noteq> NULL \<Longrightarrow> keep ev_ok F (meloop_bag_free p)"
  by (rule keepI) (auto simp: meloop_bag_free_eq ev_ok_bag_free split: if_splits)

section \<open>Releasing every bag\<close>

lemma freeall_from_eq:
  assumes "store_ok (bagh w)" and "i + n = length (bags (ev w))"
    and "distinct (used (drop i (bags (ev w))))"
    and "\<forall>p \<in> set (used (drop i (bags (ev w)))). cells (bagh w) p \<noteq> None"
  shows "freeall_from i n w = Inr ((), w\<lparr>
      bagh := fold del_cell (used (drop i (bags (ev w)))) (bagh w),
      ev := (ev w)\<lparr>bags := take i (bags (ev w)) @ replicate n NULL\<rparr>\<rparr>)"
  using assms
proof (induction n arbitrary: i w)
  case 0
  then show ?case by (simp add: mdefs used_def)
next
  case (Suc n)
  define xs where "xs = bags (ev w)"
  have i: "i < length xs" using Suc.prems(2) by (simp add: xs_def)
  have dr: "drop i xs = xs ! i # drop (Suc i) xs" using i by (simp add: Cons_nth_drop_Suc)
  define w1 where "w1 = (if xs ! i = NULL then w else
     w\<lparr>bagh := del_cell (xs ! i) (bagh w), ev := (ev w)\<lparr>bags := xs[i := NULL]\<rparr>\<rparr>)"
  have step: "freeall_from i (Suc n) w = freeall_from (Suc i) n w1"
    using Suc.prems(4) dr
    by (auto simp: w1_def xs_def mdefs free_bag_def load_bag_def set_ev_def get_cell_Some used_def)
  have dr1: "drop (Suc i) (bags (ev w1)) = drop (Suc i) xs"
    by (simp add: w1_def xs_def)
  have len: "length (bags (ev w1)) = length xs" by (simp add: w1_def xs_def)
  have "freeall_from (Suc i) n w1 = Inr ((), w1\<lparr>
      bagh := fold del_cell (used (drop (Suc i) (bags (ev w1)))) (bagh w1),
      ev := (ev w1)\<lparr>bags := take (Suc i) (bags (ev w1)) @ replicate n NULL\<rparr>\<rparr>)"
  proof (rule Suc.IH)
    show "store_ok (bagh w1)" using Suc.prems(1) mem.ok_del by (auto simp: w1_def)
    show "Suc i + n = length (bags (ev w1))" using Suc.prems(2) len by (simp add: xs_def)
    show "distinct (used (drop (Suc i) (bags (ev w1))))"
      using Suc.prems(3) dr dr1 by (simp add: xs_def used_def split: if_splits)
    show "\<forall>p \<in> set (used (drop (Suc i) (bags (ev w1)))). cells (bagh w1) p \<noteq> None"
      using Suc.prems(3,4) dr dr1 by (auto simp: w1_def xs_def used_def split: if_splits)
  qed
  moreover have "take (Suc i) (bags (ev w1)) = take i xs @ [NULL]"
    using i by (auto simp: w1_def xs_def take_Suc_conv_app_nth)
  ultimately show ?case
    unfolding step using dr dr1
    by (auto simp: w1_def xs_def used_def)
qed

lemma meloop_bags_freeall_eq:
  assumes "ev_ok w"
  shows "meloop_bags_freeall w = Inr ((), w\<lparr>bagh := fold del_cell (used (bags (ev w))) (bagh w),
      ev := (ev w)\<lparr>bags := replicate EV_MAXEVENTS NULL\<rparr>\<rparr>)"
  unfolding meloop_bags_freeall_def
  by (subst freeall_from_eq) (use assms in \<open>auto simp: ev_ok_def table_ok_def registered_def\<close>)

end
