(* ===== verification/Io.thy ===== *)
theory Io
  imports Arrow Ev
begin

text \<open>
  \<open>src/meloop/io.c\<close>: waiting for a descriptor, reading, writing, and the event loop.
  The loop takes the number of rounds it may make as a parameter (\<open>OutOfFuel\<close> when they are
  used up); the pointer to the status variable is a function that reads it from the state, since
  signal handlers and callbacks may change it at any time.
\<close>

section \<open>The arrows\<close>

definition waitA :: "('k, 'u) calls \<Rightarrow> ptr \<Rightarrow> ptr \<Rightarrow> ptr \<Rightarrow> int \<Rightarrow> u32 \<Rightarrow> u32 \<Rightarrow> ('k, 'u, unit) wm" where
  "waitA call c s data fd op flags =
     mbind (meloop_bag_new fd c s data) (\<lambda>bag.
     mbind (meloop_ev_arm (op OR flags) bag) (\<lambda>r.
     if r \<noteq> 0 then errorA call c s data (Some ''meloop_ev_arm'') else mret ()))"

definition writeA :: "('k, 'u) calls \<Rightarrow> ptr \<Rightarrow> ptr \<Rightarrow> ptr \<Rightarrow> ptr \<Rightarrow> ('k, 'u, unit) wm" where
  "writeA call c s f priv =
     mbind (load_as as_file f) (\<lambda>fl.
     mbind (load_as as_string (f_data fl)) (\<lambda>st.
     mbind (sys_write (f_fd fl) (s_blob st) (s_size st)) (\<lambda>size.
     if ssize_neg size then
       mbind (mgets errno) (\<lambda>en.
       if en = EAGAIN \<or> en = EWOULDBLOCK then
         mbind (load_as as_ioP priv) (\<lambda>p. waitA call c s f (f_fd fl) EPOLLOUT (epollflags p))
       else errorA call c s f (Some ''write''))
     else returnA call c s f)))"

definition readA :: "('k, 'u) calls \<Rightarrow> ptr \<Rightarrow> ptr \<Rightarrow> ptr \<Rightarrow> ptr \<Rightarrow> ('k, 'u, unit) wm" where
  "readA call c s f priv =
     mbind (load_as as_file f) (\<lambda>fl.
     mbind (load_as as_string (f_data fl)) (\<lambda>st.
     mbind (load_as as_ioP priv) (\<lambda>p.
     mbind (sys_read (f_fd fl) (s_blob st) (readsize p)) (\<lambda>size.
     if size = 0 then errorA call c s f (Some ''EOF'')
     else if ssize_neg size then
       mbind (mgets errno) (\<lambda>en.
       if en = EAGAIN \<or> en = EWOULDBLOCK then
         waitA call c s f (f_fd fl) EPOLLIN (epollflags p)
       else errorA call c s f (Some ''read''))
     else mthen (set_size (f_data fl) size) (returnA call c s f)))))"

definition meloop_io_init :: "u32 \<Rightarrow> ('k, 'u, unit) wm" where
  "meloop_io_init flags = meloop_ev_init flags"

definition meloop_io_deinit :: "('k, 'u, unit) wm" where
  "meloop_io_deinit = mseq [meloop_ev_deinit, meloop_bags_freeall]"

section \<open>The event loop\<close>

text \<open>One turn of the inner loop: the bag is read and freed, then the circuit is told.\<close>

definition handle_event :: "('k, 'u) calls \<Rightarrow> u32 \<times> ptr \<Rightarrow> ('k, 'u, unit) wm" where
  "handle_event call e = (let events = fst e; bag = snd e in
     mbind (load_bag bag) (\<lambda>b.
     mthen (meloop_bag_free bag)
       (if events AND EPOLLRDHUP \<noteq> 0 then
          mbind (meloop_ev_dearm (b_fd b)) (\<lambda>_.
          mbind (sys_close (b_fd b)) (\<lambda>_.
          errorA call (b_circuit b) (b_state b) (b_data b) (Some ''Remote hanged up'')))
        else if events AND EPOLLERR \<noteq> 0 then
          mbind (meloop_ev_dearm (b_fd b)) (\<lambda>_.
          mbind (sys_close (b_fd b)) (\<lambda>_.
          errorA call (b_circuit b) (b_state b) (b_data b) (Some ''Connection Error'')))
        else runA call (b_circuit b) (b_state b) (b_data b))))"

definition handle_events :: "('k, 'u) calls \<Rightarrow> (u32 \<times> ptr) list \<Rightarrow> ('k, 'u, unit) wm" where
  "handle_events call evs = mseq (map (handle_event call) evs)"

definition keeps_going :: "(('k, 'u) world \<Rightarrow> int) option \<Rightarrow> ('k, 'u) world \<Rightarrow> bool" where
  \<comment> \<open>the condition of the while loop\<close>
  "keeps_going status w \<longleftrightarrow>
     (case status of None \<Rightarrow> True | Some rd \<Rightarrow> rd w > EXIT_FAILURE) \<and> waitingbags (ev w) \<noteq> 0"

primrec meloop_io_loop ::
  "nat \<Rightarrow> ('k, 'u) calls \<Rightarrow> (('k, 'u) world \<Rightarrow> int) option \<Rightarrow> ('k, 'u, int) wm" where
  "meloop_io_loop 0 call status = mfail OutOfFuel"
| "meloop_io_loop (Suc n) call status =
     mbind (mgets (keeps_going status)) (\<lambda>go.
     if \<not> go then mret OK
     else mbind meloop_ev_wait (\<lambda>r.
       case r of
         Inl _ \<Rightarrow> mret ERR
       | Inr evs \<Rightarrow>
           if evs = [] then mret OK
           else mthen (handle_events call evs) (meloop_io_loop n call status)))"

section \<open>Monotonicity\<close>

lemma less_fuel_waitA [mono_intros]:
  assumes "calls_le f g"
  shows "less_fuel (waitA f c s d fd op fl) (waitA g c s d fd op fl)"
  unfolding waitA_def by (intro mono_intros less_fuel_call [OF assms] assms)

lemma less_fuel_writeA [mono_intros]:
  assumes "calls_le f g"
  shows "less_fuel (writeA f c s d p) (writeA g c s d p)"
  unfolding writeA_def by (intro mono_intros less_fuel_call [OF assms] assms)

lemma less_fuel_readA [mono_intros]:
  assumes "calls_le f g"
  shows "less_fuel (readA f c s d p) (readA g c s d p)"
  unfolding readA_def by (intro mono_intros less_fuel_call [OF assms] assms)

lemma less_fuel_handle_event [mono_intros]:
  assumes "calls_le f g"
  shows "less_fuel (handle_event f e) (handle_event g e)"
  unfolding handle_event_def Let_def by (intro mono_intros less_fuel_call [OF assms] assms)

lemma less_fuel_mseq_map [mono_intros]:
  "(\<And>x. less_fuel (h x) (h' x)) \<Longrightarrow> less_fuel (mseq (map h xs)) (mseq (map h' xs))"
  by (induction xs) (simp_all add: less_fuel_refl less_fuel_mthen)

lemma less_fuel_handle_events [mono_intros]:
  assumes "calls_le f g"
  shows "less_fuel (handle_events f es) (handle_events g es)"
  unfolding handle_events_def by (intro mono_intros assms)

lemma less_fuel_loop:
  assumes "calls_le f g"
  shows "less_fuel (meloop_io_loop n f st) (meloop_io_loop (n + m) g st)"
proof (induction n)
  case 0
  show ?case by (simp add: less_fuel_def mdefs)
next
  case (Suc n)
  then show ?case by (simp, intro mono_intros assms)
qed

end
