(* ===== verification/Invariant.thy ===== *)
theory Invariant
  imports Io
begin

text \<open>
  Invariants of whole runs. \<open>plain_step\<close> is the step relation of the kernel under the system
  calls that are not about epoll, OpenSSL's included. The locale \<open>process_invariant\<close> says what an invariant must
  survive: the primitive effects that the library's arrows are made of; in it every arrow is shown
  to keep the invariant if the functions called through pointers do. \<open>loop_invariant\<close> extends
  this to the event loop, with the list of bags that were handed out by \<open>epoll_wait\<close> and not
  yet treated. The interpretations give the two invariants the properties rest on: the accounting
  of the bag table (\<open>acc\<close>), and the agreement of epoll's registrations with the live bags
  (\<open>epl\<close>), for a kernel that behaves as the manual pages of epoll say (\<open>epoll_spec\<close>).
\<close>

section \<open>Kernel steps\<close>

inductive plain_step :: "'k os \<Rightarrow> 'k \<Rightarrow> 'k \<Rightarrow> bool" for os where
  k_malloc: "plain_step os k (snd (os_malloc os k))"
| k_read: "plain_step os k (snd (os_read os fd n k))"
| k_write: "plain_step os k (snd (os_write os fd bs k))"
| k_close: "plain_step os k (snd (os_close os fd k))"
| k_opened: "plain_step os k (snd (os_open os path fl k))"
| k_timer_create: "plain_step os k (snd (os_timerfd_create os i fl k))"
| k_timer_set: "plain_step os k (snd (os_timerfd_settime os fd fl ts k))"
| k_socket: "plain_step os k (snd (os_socket os fa ty pr k))"
| k_reuse: "plain_step os k (snd (os_reuseaddr os fd k))"
| k_bound: "plain_step os k (snd (os_bind os fd sa k))"
| k_listen: "plain_step os k (snd (os_listen os fd bl k))"
| k_accept: "plain_step os k (snd (os_accept4 os fd fl k))"
| k_connect: "plain_step os k (snd (os_connect os fd sa k))"
| k_so_error: "plain_step os k (snd (os_so_error os fd k))"
| k_sockname: "plain_step os k (snd (os_getsockname os fd k))"
| k_resolve: "plain_step os k (snd (os_getaddrinfo os h s k))"
| k_tunset: "plain_step os k (snd (os_tunsetiff os fd nm fl16 k))"
| k_ifset: "plain_step os k (snd (os_siocsif os fd which nm a k))"
| k_printed: "plain_step os k (snd (os_dprintf os fd str k))"
| k_sigaction: "plain_step os k (snd (os_sigaction os k))"
| k_ssl_read: "plain_step os k (snd (snd (os_SSL_read (os_ssl os) ssl n e k)))"
| k_ssl_write: "plain_step os k (snd (snd (os_SSL_write (os_ssl os) ssl n bs e k)))"
| k_ssl_connect: "plain_step os k (snd (snd (os_SSL_connect (os_ssl os) ssl e k)))"
| k_ssl_get_error: "plain_step os k (snd (snd (os_SSL_get_error (os_ssl os) ssl r e k)))"
| k_err_get_error: "plain_step os k (snd (snd (os_ERR_get_error (os_ssl os) e k)))"
| k_ssl_new: "plain_step os k (snd (snd (os_SSL_new (os_ssl os) ctx e k)))"
| k_ssl_set: "plain_step os k (snd (snd (os_SSL_set (os_ssl os) st ssl e k)))"
| k_ctx_new: "plain_step os k (snd (snd (os_SSL_CTX_new (os_ssl os) mt e k)))"
| k_ctx_set: "plain_step os k (snd (snd (os_SSL_CTX_set (os_ssl os) cs ctx e k)))"
| k_ctx_free: "plain_step os k (snd (snd (os_SSL_CTX_free (os_ssl os) ctx e k)))"

section \<open>Invariants of a process\<close>

locale process_invariant =
  fixes P :: "('k, 'u) world \<Rightarrow> bool" and F :: "fault \<Rightarrow> bool"
  assumes faults: "\<not> bag_fault f \<Longrightarrow> F f"
    and kernel: "P w \<Longrightarrow> plain_step (w_os w) (kern w) k \<Longrightarrow> P (w\<lparr>kern := k\<rparr>)"
    and observe: "P w \<Longrightarrow> P (w\<lparr>trace := t, errno := e\<rparr>)"
    and objects: "P w \<Longrightarrow> P (w\<lparr>objs := ob\<rparr>)"
    and buffers: "P w \<Longrightarrow> P (w\<lparr>blobs := bl\<rparr>)"
    and statics: "P w \<Longrightarrow> P (w\<lparr>addrtemp := tx, verbosity := v, ssl_ctx := x\<rparr>)"
    and users: "P w \<Longrightarrow> P (w\<lparr>usr := us\<rparr>)"
    and circuits: "P w \<Longrightarrow> P (w\<lparr>elems := E, circs := C\<rparr>)"
    and arm: "keep P F (mbind (meloop_bag_new fd c s d) (meloop_ev_arm op))"
    and dearm: "keep P F (meloop_ev_dearm fd)"
begin

text \<open>The same for single fields.\<close>

lemma texts: "P w \<Longrightarrow> P (w\<lparr>addrtemp := tx\<rparr>)"
  using statics [of w, where v = "verbosity w" and x = "ssl_ctx w"] by simp

lemma verbosities: "P w \<Longrightarrow> P (w\<lparr>verbosity := v\<rparr>)"
  using statics [of w, where tx = "addrtemp w" and x = "ssl_ctx w"] by simp

lemma contexts: "P w \<Longrightarrow> P (w\<lparr>ssl_ctx := x\<rparr>)"
  using statics [of w, where tx = "addrtemp w" and v = "verbosity w"] by simp

lemma elements: "P w \<Longrightarrow> P (w\<lparr>elems := E\<rparr>)"
  using circuits [of w, where C = "circs w"] by simp

lemma current: "P w \<Longrightarrow> P (w\<lparr>circs := C\<rparr>)"
  using circuits [of w, where E = "elems w"] by simp

lemma traces: "P w \<Longrightarrow> P (w\<lparr>trace := t\<rparr>)"
  using observe [of w, where e = "errno w"] by simp

lemma keep_fail [keep_intros]: "\<not> bag_fault f \<Longrightarrow> keep P F (mfail f)"
  by (rule keep_mfail) (rule faults)

lemma keep_load_elem [keep_intros]: "keep P F (load_elem p)"
  unfolding load_elem_def by (rule keep_mlift) (simp add: faults get_cell_Inl_bag)

lemma keep_load_circ [keep_intros]: "keep P F (load_circ p)"
  unfolding load_circ_def by (rule keep_mlift) (simp add: faults get_cell_Inl_bag)

lemma keep_load_obj [keep_intros]: "keep P F (load_obj p)"
  unfolding load_obj_def by (rule keep_mlift) (simp add: faults get_cell_Inl_bag)

lemma keep_load_blob [keep_intros]: "keep P F (load_blob p)"
  unfolding load_blob_def by (rule keep_mlift) (simp add: faults get_cell_Inl_bag)

lemma keep_load_as [keep_intros]: "keep P F (load_as g p)"
  unfolding load_as_def by (intro keep_intros) simp

lemma keep_set_current [keep_intros]: "keep P F (set_current c p)"
proof (rule keepI)
  fix w f assume "P w" "set_current c p w = Inl f"
  then show "F f"
    by (auto simp: set_current_def mdefs load_circ_def faults get_cell_Inl_bag split: sum.splits)
next
  fix w a w' assume "P w" "set_current c p w = Inr (a, w')"
  then show "P w'"
    by (auto simp: set_current_def mdefs load_circ_def current split: sum.splits)
qed

lemma keep_store_obj [keep_intros]: "keep P F (store_obj p ob)"
  unfolding store_obj_def by (intro keep_intros keep_mmod objects)

lemma keep_change_obj [keep_intros]: "keep P F (change_obj g p)"
  unfolding change_obj_def by (intro keep_intros)

lemma keep_store_blob [keep_intros]: "keep P F (store_blob p bs)"
  unfolding store_blob_def by (intro keep_intros keep_mmod buffers)

lemma keep_set_size [keep_intros]: "keep P F (set_size d n)"
  unfolding set_size_def by (intro keep_intros)

lemma keep_set_errno [keep_intros]: "keep P F (set_errno e)"
  unfolding set_errno_def
proof (rule keep_mmod)
  fix w assume "P w"
  from observe [OF this, where t = "trace w" and e = e] show "P (w\<lparr>errno := e\<rparr>)" by simp
qed

lemma keep_syscall:
  assumes "\<And>os k. plain_step os k (snd (f os k))"
  shows "keep P F (syscall sc f)"
proof (rule keepI)
  fix w x assume "syscall sc f w = Inl x"
  then show "F x" by (simp add: syscall_def split: prod.splits)
next
  fix w a w' assume P: "P w" and r: "syscall sc f w = Inr (a, w')"
  have "P (w\<lparr>kern := snd (f (w_os w) (kern w))\<rparr>)" by (rule kernel [OF P assms])
  from observe [OF this] r show "P w'"
    by (auto simp: syscall_def Let_def split: prod.splits)
qed

lemma keep_sslcall:
  assumes "\<And>os e k. plain_step os k (snd (snd (f (os_ssl os) e k)))"
  shows "keep P F (sslcall sc f)"
proof (rule keepI)
  fix w x assume "sslcall sc f w = Inl x"
  then show "F x" by (simp add: sslcall_def split: prod.splits)
next
  fix w a w' assume P: "P w" and r: "sslcall sc f w = Inr (a, w')"
  have "P (w\<lparr>kern := snd (snd (f (os_ssl (w_os w)) (errno w) (kern w)))\<rparr>)"
    by (rule kernel [OF P assms])
  from observe [OF this] r show "P w'"
    by (auto simp: sslcall_def Let_def split: prod.splits)
qed

lemma keep_malloc [keep_intros]: "keep P F malloc_or_die"
proof (rule keepI)
  fix w f assume "malloc_or_die w = Inl f"
  then show "F f" by (auto simp: malloc_or_die_def faults split: prod.splits if_splits)
next
  fix w a w' assume P: "P w" and r: "malloc_or_die w = Inr (a, w')"
  from kernel [OF P plain_step.k_malloc] r show "P w'"
    by (auto simp: malloc_or_die_def Let_def split: prod.splits if_splits)
qed

lemma keep_printf [keep_intros]: "keep P F (printf t)"
  unfolding printf_def by (intro keep_mmod traces)

lemma keep_sys_read [keep_intros]: "keep P F (sys_read fd b n)"
  unfolding sys_read_def by (intro keep_intros keep_syscall plain_step.intros) simp_all

lemma keep_sys_write [keep_intros]: "keep P F (sys_write fd b n)"
  unfolding sys_write_def by (intro keep_intros keep_syscall plain_step.intros) simp_all

lemma keep_sys_close [keep_intros]: "keep P F (sys_close fd)"
  unfolding sys_close_def by (intro keep_intros keep_syscall plain_step.intros)

lemma keep_sys_open [keep_intros]: "keep P F (sys_open path fl)"
  unfolding sys_open_def by (intro keep_intros keep_syscall plain_step.intros)

lemmas keep_dearm [keep_intros] = dearm

section \<open>The arrows of \<open>arrow.c\<close> and \<open>io.c\<close>\<close>

text \<open>Building and freeing circuits.\<close>

lemma keep_on_elems:
  assumes "\<And>E f. g E = Some (Inl f) \<Longrightarrow> \<not> bag_fault f"
  shows "keep P F (on_elems g)"
proof (rule keepI)
  fix w f assume "on_elems g w = Inl f"
  with assms show "F f" by (auto simp: on_elems_def faults split: option.splits sum.splits)
next
  fix w a w' assume "P w" "on_elems g w = Inr (a, w')"
  then show "P w'" by (auto simp: on_elems_def elements split: option.splits sum.splits)
qed

lemma keep_newC [keep_intros]: "keep P F (newC e)"
  unfolding newC_def by (intro keep_intros) (auto simp: keep_def current split: prod.split)

lemma keep_appendA [keep_intros]: "keep P F (appendA c t p)"
  unfolding appendA_def
  by (intro keep_intros keep_mmod current keep_on_elems)
    (auto simp: keep_def elements unit_res_fault bindA_fault split: prod.split)

lemma keep_loopA [keep_intros]: "keep P F (loopA_m e)"
  unfolding loopA_m_def by (intro keep_on_elems) (rule loopA_fault)

lemma keep_build [keep_intros]: "keep P F (build c es cmds)"
  by (induction c es cmds rule: build.induct) (simp_all add: keep_mret keep_mbind keep_appendA keep_loopA)

lemma keep_freeC [keep_intros]: "keep P F (freeC c)"
  unfolding freeC_def
  by (intro keep_intros keep_mmod current keep_on_elems)
    (auto simp: unit_res_fault freeE_fault)

text \<open>Running them.\<close>

lemma keep_returnA [keep_intros]: "(\<And>i. keep P F (call i)) \<Longrightarrow> keep P F (returnA call c s d)"
  unfolding returnA_def by (intro keep_intros)

lemma keep_errorA [keep_intros]: "(\<And>i. keep P F (call i)) \<Longrightarrow> keep P F (errorA call c s d m)"
  unfolding errorA_def by (intro keep_intros)

lemma keep_runA [keep_intros]: "(\<And>i. keep P F (call i)) \<Longrightarrow> keep P F (runA call c s d)"
  unfolding runA_def by (intro keep_intros)

lemma keep_waitA [keep_intros]:
  assumes "\<And>i. keep P F (call i)"
  shows "keep P F (waitA call c s d fd op fl)"
  unfolding waitA_def mbind_assoc [symmetric] by (intro keep_intros arm assms)

lemma keep_writeA [keep_intros]: "(\<And>i. keep P F (call i)) \<Longrightarrow> keep P F (writeA call c s f p)"
  unfolding writeA_def by (intro keep_intros)

lemma keep_readA [keep_intros]: "(\<And>i. keep P F (call i)) \<Longrightarrow> keep P F (readA call c s f p)"
  unfolding readA_def by (intro keep_intros)

end

section \<open>Invariants of the event loop\<close>

text \<open>\<open>P ps\<close>: the invariant while the bags \<open>ps\<close> still have to be treated.\<close>

locale loop_invariant =
  fixes P :: "ptr list \<Rightarrow> ('k, 'u) world \<Rightarrow> bool" and F :: "fault \<Rightarrow> bool"
  assumes inv: "process_invariant (P ps) F"
    and taken: "P (p # ps) w \<Longrightarrow>
      (case mbind (load_bag p) (\<lambda>b. mthen (meloop_bag_free p) (mret b)) w of
        Inl f \<Rightarrow> F f | Inr r \<Rightarrow> P ps (snd r))"
    and waited: "P [] w \<Longrightarrow>
      (case meloop_ev_wait w of
        Inl f \<Rightarrow> F f
      | Inr r \<Rightarrow> P (case fst r of Inl _ \<Rightarrow> [] | Inr evs \<Rightarrow> map snd evs) (snd r))"
begin

lemma event:
  assumes call: "\<And>ps i. keep (P ps) F (call i)" and P: "P (p # ps) w"
  shows "case handle_event call (m, p) w of Inl f \<Rightarrow> F f | Inr r \<Rightarrow> P ps (snd r)"
proof -
  define rest where "rest = (\<lambda>b::bagS. if m AND EPOLLRDHUP \<noteq> 0 then
          mbind (meloop_ev_dearm (b_fd b)) (\<lambda>_.
          mbind (sys_close (b_fd b)) (\<lambda>_.
          errorA call (b_circuit b) (b_state b) (b_data b) (Some ''Remote hanged up'')))
        else if m AND EPOLLERR \<noteq> 0 then
          mbind (meloop_ev_dearm (b_fd b)) (\<lambda>_.
          mbind (sys_close (b_fd b)) (\<lambda>_.
          errorA call (b_circuit b) (b_state b) (b_data b) (Some ''Connection Error'')))
        else runA call (b_circuit b) (b_state b) (b_data b))"
  have eq: "handle_event call (m, p) w = mbind (mbind (load_bag p)
      (\<lambda>b. mthen (meloop_bag_free p) (mret b))) rest w"
    by (simp add: handle_event_def rest_def mthen_def mbind_assoc)
  have k: "keep (P ps) F (rest b)" for b
    unfolding rest_def
    by (intro keep_intros process_invariant.keep_dearm [OF inv] process_invariant.keep_sys_close [OF inv]
        process_invariant.keep_errorA [OF inv] process_invariant.keep_runA [OF inv] call)
  show ?thesis
  proof (cases "mbind (load_bag p) (\<lambda>b. mthen (meloop_bag_free p) (mret b)) w")
    case (Inl f)
    with taken [OF P] have "F f" by simp
    with Inl eq show ?thesis by (simp add: mbind_apply [of _ rest])
  next
    case (Inr r)
    with taken [OF P] have "P ps (snd r)" by simp
    with k [of "fst r"] have "case rest (fst r) (snd r) of Inl f \<Rightarrow> F f | Inr r \<Rightarrow> P ps (snd r)"
      by (simp add: keep_def)
    with Inr eq show ?thesis by (simp add: mbind_apply [of _ rest])
  qed
qed

lemma events:
  assumes call: "\<And>ps i. keep (P ps) F (call i)"
  shows "P (map snd evs) w \<Longrightarrow>
    case handle_events call evs w of Inl f \<Rightarrow> F f | Inr r \<Rightarrow> P [] (snd r)"
proof (induction evs arbitrary: w)
  case Nil
  then show ?case by (simp add: handle_events_def mdefs)
next
  case (Cons e evs)
  obtain m p where e: "e = (m, p)" by (cases e)
  have ev: "case handle_event call (m, p) w of Inl f \<Rightarrow> F f | Inr r \<Rightarrow> P (map snd evs) (snd r)"
    by (rule event [OF call]) (use Cons.prems e in simp)
  show ?case
  proof (cases "handle_event call (m, p) w")
    case (Inl f)
    with ev e show ?thesis by (simp add: handle_events_def mdefs)
  next
    case (Inr r)
    with ev have "P (map snd evs) (snd r)" by simp
    from Cons.IH [OF this] Inr e show ?thesis by (simp add: handle_events_def mdefs)
  qed
qed

lemma loop:
  assumes call: "\<And>ps i. keep (P ps) F (call i)"
  shows "keep (P []) F (meloop_io_loop n call st)"
proof (induction n)
  case 0
  have "F OutOfFuel" by (rule process_invariant.faults [OF inv]) simp
  then show ?case by (simp add: keep_mfail)
next
  case (Suc n)
  have body: "keep (P []) F (mbind meloop_ev_wait (\<lambda>r.
       case r of
         Inl _ \<Rightarrow> mret ERR
       | Inr evs \<Rightarrow>
           if evs = [] then mret OK
           else mthen (handle_events call evs) (meloop_io_loop n call st)))" (is "keep _ _ ?b")
    unfolding keep_def
  proof (intro allI impI)
    fix w assume P: "P [] w"
    show "case ?b w of Inl f \<Rightarrow> F f | Inr r \<Rightarrow> P [] (snd r)"
    proof (cases "meloop_ev_wait w")
      case (Inl f)
      with waited [OF P] show ?thesis by (simp add: mdefs)
    next
      case (Inr r)
      show ?thesis
      proof (cases "fst r")
        case (Inl e)
        with Inr waited [OF P] show ?thesis by (simp add: mdefs)
      next
        case evs: (Inr evs)
        with Inr waited [OF P] have "P (map snd evs) (snd r)" by simp
        from events [OF call this] have
          "case handle_events call evs (snd r) of Inl f \<Rightarrow> F f | Inr r \<Rightarrow> P [] (snd r)" .
        then show ?thesis
          using Inr evs waited [OF P] keepD_Inl [OF Suc] keepD_Inr [OF Suc]
          by (cases "handle_events call evs (snd r)")
            (auto simp: mdefs split: sum.split)
      qed
    qed
  qed
  show ?case
    unfolding meloop_io_loop.simps(2) by (intro keep_intros body)
qed

end

end
