(* ===== verification/Ev_Invariants.thy ===== *)
theory Ev_Invariants
  imports Invariant
begin

text \<open>
  The two invariants of the event module, as interpretations of the locales of
  \<open>Invariant\<close>: the accounting of the table of bags holds for every kernel; the
  registrations of epoll lead to live bags only, for a kernel that meets \<open>epoll_spec\<close>.
\<close>

section \<open>Accounting\<close>

lemma keep_syscall_any:
  "(\<And>w k t e. P w \<Longrightarrow> P (w\<lparr>kern := k, trace := t, errno := e\<rparr>)) \<Longrightarrow> keep P F (syscall sc f)"
  by (rule keepI) (auto simp: syscall_def Let_def split: prod.splits)

lemma keep_epoll_ctl_any:
  "(\<And>w k t e. P w \<Longrightarrow> P (w\<lparr>kern := k, trace := t, errno := e\<rparr>)) \<Longrightarrow> keep P F (epoll_ctl ep cop fd evs p)"
  unfolding epoll_ctl_def by (intro keep_intros keep_syscall_any)

lemma ev_ok_frame:
  "ev w' = ev w \<Longrightarrow> bagh w' = bagh w \<Longrightarrow> ev_ok w' = ev_ok w"
  by (simp add: ev_ok_def)

lemma keep_arm_ev_ok: "keep ev_ok (\<lambda>_. True) (meloop_ev_arm op p)"
  unfolding meloop_ev_arm_def load_bag_def set_errno_def
  by (intro keep_intros keep_mlift keep_mmod keep_epoll_ctl_any) (simp_all add: ev_ok_def)

lemma keep_ev_wait_ok: "keep ev_ok (\<lambda>_. True) meloop_ev_wait"
  unfolding meloop_ev_wait_def
  by (intro keep_intros keep_mfail keep_syscall_any) (simp_all add: ev_ok_def)

interpretation acc: process_invariant ev_ok "\<lambda>_. True"
proof unfold_locales
  show "keep ev_ok (\<lambda>_. True) (mbind (meloop_bag_new fd c s d) (meloop_ev_arm op))" for fd c s d op
    by (intro keep_intros keep_arm_ev_ok) (rule keep_weaken [OF keep_ev_ok_bag_new], simp)
  show "keep ev_ok (\<lambda>_. True) (meloop_ev_dearm fd)" for fd
    unfolding meloop_ev_dearm_def by (intro keep_intros keep_epoll_ctl_any) (simp_all add: ev_ok_def)
qed (simp_all add: ev_ok_def)

interpretation acc_loop: loop_invariant "\<lambda>_. ev_ok" "\<lambda>_. True"
proof unfold_locales
  fix p :: ptr and w :: "('k, 'u) world"
  assume ok: "ev_ok w"
  show "case mbind (load_bag p) (\<lambda>b. mthen (meloop_bag_free p) (mret b)) w of
      Inl f \<Rightarrow> True | Inr r \<Rightarrow> ev_ok (snd r)"
  proof (cases "cells (bagh w) p")
    case None
    then show ?thesis by (simp add: mdefs load_bag_def get_cell_def)
  next
    case (Some b)
    with ok have "p \<noteq> NULL" by (auto simp: ev_ok_def store_ok_def)
    with Some ok show ?thesis
      by (auto simp: mdefs load_bag_def get_cell_Some meloop_bag_free_eq ev_ok_bag_free)
  qed
  show "case meloop_ev_wait w of Inl f \<Rightarrow> True | Inr r \<Rightarrow> ev_ok (snd r)"
    by (rule keepD [OF keep_ev_wait_ok ok])
qed

section \<open>A kernel that does epoll as documented\<close>

text \<open>
  \<open>interest k ep fd\<close> is the entry of descriptor \<open>fd\<close> in the interest list of the epoll
  instance \<open>ep\<close>: event mask, data pointer, and whether it is enabled. \<open>epoll_ctl(2)\<close>:
  adding or modifying registers mask and data and enables the entry; \<open>EPOLLONESHOT\<close> disables
  it when an event was pulled out. \<open>epoll_wait(2)\<close> reports enabled entries, each once, at most
  \<open>maxevents\<close> of them. Any other call at most removes entries (\<open>close(2)\<close>). A call that
  fails changes nothing. A new instance is empty.
\<close>

type_synonym 'k interest = "'k \<Rightarrow> int \<Rightarrow> int \<Rightarrow> (u32 \<times> ptr \<times> bool) option"

definition epoll_ctl_spec :: "'k os \<Rightarrow> 'k interest \<Rightarrow> bool" where
  "epoll_ctl_spec os interest \<longleftrightarrow> (\<forall>ep cop fd evs p k r k'.
     os_epoll_ctl os ep cop fd evs p k = (r, k') \<longrightarrow>
     interest k' ep = (case r of
         Inl _ \<Rightarrow> interest k ep
       | Inr _ \<Rightarrow> (interest k ep)(fd := if cop = EPOLL_CTL_DEL then None else Some (evs, p, True))))"

definition reported :: "(u32 \<times> ptr \<times> bool) option \<Rightarrow> (u32 \<times> ptr \<times> bool) option" where
  \<comment> \<open>an entry after one of its events was pulled out\<close>
  "reported x = map_option (\<lambda>(m, p, en). (m, p, en \<and> m AND EPOLLONESHOT = 0)) x"

definition epoll_wait_spec :: "'k os \<Rightarrow> 'k interest \<Rightarrow> bool" where
  "epoll_wait_spec os interest \<longleftrightarrow> (\<forall>ep n k r k'. os_epoll_wait os ep n k = (r, k') \<longrightarrow>
     (case r of
       Inl _ \<Rightarrow> interest k' ep = interest k ep
     | Inr evs \<Rightarrow> length evs \<le> n \<and>
         (\<exists>fds. length fds = length evs \<and> distinct fds \<and>
           (\<forall>i < length evs. \<exists>m. interest k ep (fds ! i) = Some (m, snd (evs ! i), True)) \<and>
           (\<forall>fd. interest k' ep fd =
             (if fd \<in> set fds then reported (interest k ep fd) else interest k ep fd)))))"

definition epoll_other_spec :: "'k os \<Rightarrow> 'k interest \<Rightarrow> bool" where
  "epoll_other_spec os interest \<longleftrightarrow>
     (\<forall>k k' ep fd. plain_step os k k' \<longrightarrow> interest k' ep fd = interest k ep fd \<or> interest k' ep fd = None) \<and>
     (\<forall>fl k ep k'. os_epoll_create1 os fl k = (Inr ep, k') \<longrightarrow> interest k' ep = (\<lambda>_. None))"

definition epoll_spec :: "'k os \<Rightarrow> 'k interest \<Rightarrow> bool" where
  "epoll_spec os interest \<longleftrightarrow>
     epoll_ctl_spec os interest \<and> epoll_wait_spec os interest \<and> epoll_other_spec os interest"

section \<open>Registrations lead to live bags\<close>

definition entry_ok :: "('k, 'u) world \<Rightarrow> int \<Rightarrow> (u32 \<times> ptr \<times> bool) option \<Rightarrow> bool" where
  "entry_ok w fd x = (case x of None \<Rightarrow> True
     | Some (m, p, en) \<Rightarrow> m AND EPOLLONESHOT \<noteq> 0 \<and>
         (en \<longrightarrow> (\<exists>b. cells (bagh w) p = Some b \<and> b_fd b = fd)))"

abbreviation entries :: "'k interest \<Rightarrow> ('k, 'u) world \<Rightarrow> int \<Rightarrow> (u32 \<times> ptr \<times> bool) option" where
  "entries interest w \<equiv> interest (kern w) (epfd (ev w))"

definition pend_ok :: "'k interest \<Rightarrow> ptr list \<Rightarrow> ('k, 'u) world \<Rightarrow> bool" where
  "pend_ok interest ps w \<longleftrightarrow> distinct ps \<and>
     (\<forall>p \<in> set ps. cells (bagh w) p \<noteq> None \<and> (\<forall>fd m. entries interest w fd \<noteq> Some (m, p, True)))"

definition epoll_inv :: "'k interest \<Rightarrow> ptr list \<Rightarrow> ('k, 'u) world \<Rightarrow> bool" where
  "epoll_inv interest ps w \<longleftrightarrow> epoll_spec (w_os w) interest \<and> ev_ok w \<and>
     epflags (ev w) AND EPOLLONESHOT \<noteq> 0 \<and>
     (\<forall>fd. entry_ok w fd (entries interest w fd)) \<and> pend_ok interest ps w"

lemma entry_ok_cong: "bagh w' = bagh w \<Longrightarrow> entry_ok w' fd x = entry_ok w fd x"
  by (cases x) (auto simp: entry_ok_def)

text \<open>Steps under which every entry stays or disappears keep the invariant.\<close>

lemma epoll_inv_shrink:
  assumes inv: "epoll_inv interest ps w"
    and eq: "w_os w' = w_os w" "ev w' = ev w" "bagh w' = bagh w"
    and shr: "\<And>fd. entries interest w' fd = entries interest w fd \<or> entries interest w' fd = None"
  shows "epoll_inv interest ps w'"
proof -
  have "entry_ok w' fd (entries interest w' fd)" for fd
  proof -
    have "entry_ok w fd (entries interest w fd)" using inv by (simp add: epoll_inv_def)
    then show ?thesis
      using shr [of fd] by (auto simp: entry_ok_def eq(3) split: option.splits)
  qed
  moreover have "entries interest w' fd \<noteq> Some (m, p, True)" if "p \<in> set ps" for p fd m
    using inv shr [of fd] that by (auto simp: epoll_inv_def pend_ok_def)
  moreover have "ev_ok w'" using inv by (simp add: epoll_inv_def ev_ok_def eq)
  ultimately show ?thesis
    using inv by (simp add: epoll_inv_def pend_ok_def eq(1,3)) (simp add: eq(2))
qed

lemma epoll_inv_frame:
  assumes "epoll_inv interest ps w" and "w_os w' = w_os w" "ev w' = ev w" "bagh w' = bagh w"
    and "kern w' = kern w"
  shows "epoll_inv interest ps w'"
  by (rule epoll_inv_shrink [OF assms(1-4)]) (simp add: assms)

lemma epoll_inv_plain:
  assumes inv: "epoll_inv interest ps w" and st: "plain_step (w_os w) (kern w) k"
  shows "epoll_inv interest ps (w\<lparr>kern := k\<rparr>)"
proof (rule epoll_inv_shrink [OF inv])
  fix fd
  have "epoll_other_spec (w_os w) interest" using inv by (simp add: epoll_inv_def epoll_spec_def)
  with st show "entries interest (w\<lparr>kern := k\<rparr>) fd = entries interest w fd \<or>
      entries interest (w\<lparr>kern := k\<rparr>) fd = None"
    unfolding epoll_other_spec_def by simp
qed simp_all

text \<open>A fresh bag changes no entry; arming it registers it under its own descriptor.\<close>

definition armable :: "'k interest \<Rightarrow> ptr list \<Rightarrow> ptr \<Rightarrow> ('k, 'u) world \<Rightarrow> bool" where
  "armable interest ps p w \<longleftrightarrow> epoll_inv interest ps w \<and> p \<notin> set ps \<and> cells (bagh w) p \<noteq> None"

lemma epoll_inv_new_bag:
  assumes inv: "epoll_inv interest ps w"
  shows "armable interest ps (brk (bagh w)) (w\<lparr>bagh := snd (new_cell b (bagh w)),
      ev := snd (bags_remember (brk (bagh w)) (ev w))\<rparr>)" (is "armable _ _ ?p ?w")
proof -
  have ok: "ev_ok w" using inv by (simp add: epoll_inv_def)
  have ev: "epfd (snd (bags_remember ?p e)) = epfd e" "epflags (snd (bags_remember ?p e)) = epflags e" for e
    by (auto simp: bags_remember_def split: option.split)
  have fr: "cells (bagh w) q \<noteq> None \<Longrightarrow> q \<noteq> ?p" for q
    using ok by (auto simp: ev_ok_def store_ok_def)
  have "ev_ok ?w" using ev_ok_bag_new [OF ok, where k = "kern w" and b = b] by simp
  moreover have "entry_ok ?w fd (entries interest w fd)" for fd
  proof -
    have "entry_ok w fd (entries interest w fd)" using inv by (simp add: epoll_inv_def)
    with fr show ?thesis by (auto simp: entry_ok_def split: option.splits)
  qed
  moreover have "?p \<notin> set ps"
  proof
    assume "?p \<in> set ps"
    then have "cells (bagh w) ?p \<noteq> None" using inv by (simp add: epoll_inv_def pend_ok_def)
    with fr show False by blast
  qed
  moreover have "pend_ok interest ps w" using inv by (simp add: epoll_inv_def)
  ultimately show ?thesis
    using inv by (auto simp: armable_def epoll_inv_def pend_ok_def ev)
qed

lemma oneshot_or: "x AND m \<noteq> 0 \<Longrightarrow> (x OR y) AND m \<noteq> (0 :: u32)"
  by (simp add: bit.conj_disj_distrib2 or_eq_0_iff)

lemma epoll_ctl_eq:
  assumes "os_epoll_ctl (w_os w) ep cop fd evs p (kern w) = (r, k)"
  shows "epoll_ctl ep cop fd evs p w = Inr (res0 r, w\<lparr>kern := k, trace := trace w @ [SysEpollCtl cop fd],
    errno := (case r of Inl e \<Rightarrow> e | Inr _ \<Rightarrow> errno w)\<rparr>)"
  using assms by (simp add: epoll_ctl_def mdefs syscall_def)

lemma res0_OK [simp]: "res0 r = OK \<longleftrightarrow> (\<exists>u. r = Inr u)" "res0 r = 0 \<longleftrightarrow> (\<exists>u. r = Inr u)"
  by (auto simp: res0_def OK_def split: sum.splits)

lemma epoll_ctl_arm:
  assumes arm: "armable interest ps p w" and b: "cells (bagh w) p = Some b"
    and cop: "cop \<noteq> EPOLL_CTL_DEL" and m: "evs AND EPOLLONESHOT \<noteq> 0"
    and r: "epoll_ctl (epfd (ev w)) cop (b_fd b) evs p w = Inr (x, w')"
  shows "epoll_inv interest ps w' \<and> (x \<noteq> OK \<longrightarrow> armable interest ps p w') \<and>
    ev w' = ev w \<and> bagh w' = bagh w"
proof -
  obtain res k where res: "os_epoll_ctl (w_os w) (epfd (ev w)) cop (b_fd b) evs p (kern w) = (res, k)"
    by (meson surj_pair)
  have w': "w' = w\<lparr>kern := k, trace := trace w @ [SysEpollCtl cop (b_fd b)],
      errno := (case res of Inl e \<Rightarrow> e | Inr _ \<Rightarrow> errno w)\<rparr>" and x: "x = res0 res"
    using r epoll_ctl_eq [OF res] by auto
  have inv: "epoll_inv interest ps w" using arm by (simp add: armable_def)
  then have "epoll_ctl_spec (w_os w) interest" by (simp add: epoll_inv_def epoll_spec_def)
  with res cop have ent: "interest k (epfd (ev w)) = (case res of Inl _ \<Rightarrow> entries interest w
      | Inr _ \<Rightarrow> (entries interest w)(b_fd b := Some (evs, p, True)))"
    unfolding epoll_ctl_spec_def by (auto split: sum.split)
  show ?thesis
  proof (cases res)
    case (Inl e)
    have "epoll_inv interest ps w'"
      by (rule epoll_inv_shrink [OF inv]) (use Inl ent w' in auto)
    with arm w' show ?thesis by (simp add: armable_def)
  next
    case (Inr u)
    have ent': "entries interest w' = (entries interest w)(b_fd b := Some (evs, p, True))"
      using ent Inr w' by simp
    have "entry_ok w' fd (entries interest w' fd)" for fd
    proof (cases "fd = b_fd b")
      case True
      with b m ent' w' show ?thesis by (auto simp: entry_ok_def)
    next
      case False
      have "entry_ok w fd (entries interest w fd)" using inv by (simp add: epoll_inv_def)
      moreover have eq: "bagh w' = bagh w" using w' by simp
      ultimately show ?thesis using False ent' by (simp add: entry_ok_cong [OF eq])
    qed
    moreover have "pend_ok interest ps w'"
      using inv arm ent' w' by (auto simp: epoll_inv_def pend_ok_def armable_def)
    moreover have "ev_ok w'" using inv w' by (simp add: epoll_inv_def ev_ok_def)
    ultimately show ?thesis
      using inv Inr w' x by (simp add: epoll_inv_def)
  qed
qed

lemma epoll_arm:
  assumes arm: "armable interest ps p w"
  shows "case meloop_ev_arm op p w of Inl f \<Rightarrow> \<not> bag_fault f | Inr r \<Rightarrow> epoll_inv interest ps (snd r)"
proof -
  obtain b where b: "cells (bagh w) p = Some b" using arm by (auto simp: armable_def)
  let ?m = "epflags (ev w) OR op"
  have m: "?m AND EPOLLONESHOT \<noteq> 0"
    by (rule oneshot_or) (use arm in \<open>simp add: armable_def epoll_inv_def\<close>)
  obtain x w1 where c1: "epoll_ctl (epfd (ev w)) EPOLL_CTL_MOD (b_fd b) ?m p w = Inr (x, w1)"
    using epoll_ctl_eq by (metis surj_pair)
  note s1 = epoll_ctl_arm [OF arm b _ m c1]
  show ?thesis
  proof (cases "x = OK \<or> errno w1 \<noteq> ENOENT")
    case True
    with c1 s1 b show ?thesis
      by (auto simp: meloop_ev_arm_def mdefs load_bag_def get_cell_Some)
  next
    case False
    define w2 where "w2 = w1\<lparr>errno := 0\<rparr>"
    have "epoll_inv interest ps w2"
      by (rule epoll_inv_frame [of interest ps w1]) (use s1 in \<open>simp_all add: w2_def\<close>)
    then have arm2: "armable interest ps p w2"
      using s1 False b by (simp add: armable_def w2_def)
    obtain y w3 where c2: "epoll_ctl (epfd (ev w)) EPOLL_CTL_ADD (b_fd b) ?m p w2 = Inr (y, w3)"
      using epoll_ctl_eq by (metis surj_pair)
    have b2: "cells (bagh w2) p = Some b" and e2: "ev w2 = ev w"
      using s1 b by (simp_all add: w2_def)
    note s2 = epoll_ctl_arm [OF arm2 b2 _ m, unfolded e2, OF _ c2]
    from False c1 c2 s2 b show ?thesis
      by (auto simp: meloop_ev_arm_def mdefs load_bag_def get_cell_Some set_errno_def w2_def)
  qed
qed

lemma epoll_new_arm:
  "keep (epoll_inv interest ps) (\<lambda>f. \<not> bag_fault f) (mbind (meloop_bag_new fd c s d) (meloop_ev_arm op))"
  unfolding keep_def
proof (intro allI impI)
  fix w
  assume inv: "epoll_inv interest ps w"
  show "case mbind (meloop_bag_new fd c s d) (meloop_ev_arm op) w of
      Inl f \<Rightarrow> \<not> bag_fault f | Inr r \<Rightarrow> epoll_inv interest ps (snd r)"
  proof (cases rule: meloop_bag_new_cases [of fd c s d w])
    case oom
    then show ?thesis by (simp add: mdefs)
  next
    case (ok k)
    have "epoll_inv interest ps (w\<lparr>kern := k\<rparr>)"
      using epoll_inv_plain [OF inv plain_step.k_malloc] ok by simp
    from epoll_inv_new_bag [OF this, of "\<lparr>b_fd = fd, b_circuit = c, b_state = s, b_data = d\<rparr>"]
    have "armable interest ps (brk (bagh w)) (w\<lparr>kern := k,
      bagh := snd (new_cell \<lparr>b_fd = fd, b_circuit = c, b_state = s, b_data = d\<rparr> (bagh w)),
      ev := snd (bags_remember (brk (bagh w)) (ev w))\<rparr>)" by simp
    from epoll_arm [OF this, of op] show ?thesis by (simp add: mdefs meloop_bag_new_eq [OF ok])
  qed
qed

lemma epoll_dearm:
  "keep (epoll_inv interest ps) (\<lambda>f. \<not> bag_fault f) (meloop_ev_dearm fd)"
  unfolding keep_def
proof (intro allI impI)
  fix w
  assume inv: "epoll_inv interest ps w"
  obtain res k where res: "os_epoll_ctl (w_os w) (epfd (ev w)) EPOLL_CTL_DEL fd 0 NULL (kern w) = (res, k)"
    by (meson surj_pair)
  define w' where "w' = w\<lparr>kern := k, trace := trace w @ [SysEpollCtl EPOLL_CTL_DEL fd],
      errno := (case res of Inl e \<Rightarrow> e | Inr _ \<Rightarrow> errno w)\<rparr>"
  have "epoll_ctl_spec (w_os w) interest" using inv by (simp add: epoll_inv_def epoll_spec_def)
  with res have ent: "interest k (epfd (ev w)) = (case res of Inl _ \<Rightarrow> entries interest w
      | Inr _ \<Rightarrow> (entries interest w)(fd := None))"
    unfolding epoll_ctl_spec_def by (auto split: sum.split)
  have "epoll_inv interest ps w'"
    by (rule epoll_inv_shrink [OF inv]) (use ent in \<open>auto simp: w'_def split: sum.splits\<close>)
  then show "case meloop_ev_dearm fd w of Inl f \<Rightarrow> \<not> bag_fault f | Inr r \<Rightarrow> epoll_inv interest ps (snd r)"
    by (cases res) (simp_all add: meloop_ev_dearm_def mdefs epoll_ctl_eq [OF res] w'_def)
qed

lemma reported_enabled:
  "reported x = Some (m, p, True) \<Longrightarrow> m AND EPOLLONESHOT = 0"
  by (cases x) (auto simp: reported_def split: prod.splits)

lemma reported_entry_ok: "entry_ok w fd x \<Longrightarrow> entry_ok w fd (reported x)"
  by (auto simp: entry_ok_def reported_def split: option.splits)

text \<open>The bags that \<open>epoll_wait\<close> reports are live, distinct, and no longer armed.\<close>

lemma epoll_waited:
  assumes inv: "epoll_inv interest [] w"
  shows "case meloop_ev_wait w of
      Inl f \<Rightarrow> \<not> bag_fault f
    | Inr r \<Rightarrow> epoll_inv interest (case fst r of Inl _ \<Rightarrow> [] | Inr evs \<Rightarrow> map snd evs) (snd r)"
proof -
  obtain res k where res: "os_epoll_wait (w_os w) (epfd (ev w)) EV_MAXEVENTS (kern w) = (res, k)"
    by (meson surj_pair)
  define w' where "w' = w\<lparr>kern := k, trace := trace w @ [SysEpollWait],
      errno := (case res of Inl e \<Rightarrow> e | Inr _ \<Rightarrow> errno w)\<rparr>"
  have "epoll_wait_spec (w_os w) interest" using inv by (simp add: epoll_inv_def epoll_spec_def)
  with res have spec: "case res of
       Inl _ \<Rightarrow> interest k (epfd (ev w)) = entries interest w
     | Inr evs \<Rightarrow> length evs \<le> EV_MAXEVENTS \<and>
         (\<exists>fds. length fds = length evs \<and> distinct fds \<and>
           (\<forall>i < length evs. \<exists>m. entries interest w (fds ! i) = Some (m, snd (evs ! i), True)) \<and>
           (\<forall>fd. interest k (epfd (ev w)) fd =
             (if fd \<in> set fds then reported (entries interest w fd) else entries interest w fd)))"
    unfolding epoll_wait_spec_def by blast
  have E: "\<And>fd. entry_ok w fd (entries interest w fd)" using inv by (simp add: epoll_inv_def)
  show ?thesis
  proof (cases res)
    case (Inl e)
    have "epoll_inv interest [] w'"
      by (rule epoll_inv_shrink [OF inv]) (use spec Inl in \<open>auto simp: w'_def\<close>)
    then show ?thesis
      using res Inl by (simp add: meloop_ev_wait_def mdefs syscall_def w'_def)
  next
    case (Inr evs)
    with spec obtain fds where len: "length evs \<le> EV_MAXEVENTS" "length fds = length evs"
      and dist: "distinct fds"
      and from_fd: "\<And>i. i < length evs \<Longrightarrow> \<exists>m. entries interest w (fds ! i) = Some (m, snd (evs ! i), True)"
      and after: "\<And>fd. entries interest w' fd =
        (if fd \<in> set fds then reported (entries interest w fd) else entries interest w fd)"
      by (auto simp: w'_def)
    have bag: "\<exists>b. cells (bagh w) (snd (evs ! i)) = Some b \<and> b_fd b = fds ! i" if "i < length evs" for i
      using from_fd [OF that] E [of "fds ! i"] by (auto simp: entry_ok_def)
    have dis: "distinct (map snd evs)"
      unfolding distinct_conv_nth
    proof (intro allI impI)
      fix i j assume i: "i < length (map snd evs)" and j: "j < length (map snd evs)" and ij: "i \<noteq> j"
      with bag [of i] bag [of j] dist len(2) show "map snd evs ! i \<noteq> map snd evs ! j"
        by (auto simp: nth_eq_iff_index_eq)
    qed
    have off: "entries interest w' fd \<noteq> Some (m, p, True)" if p: "p \<in> set (map snd evs)" for p fd m
    proof
      assume a: "entries interest w' fd = Some (m, p, True)"
      from p obtain i where i: "i < length evs" "p = snd (evs ! i)"
        by (auto simp: in_set_conv_nth)
      show False
      proof (cases "fd \<in> set fds")
        case True
        with a after have "reported (entries interest w fd) = Some (m, p, True)" by simp
        then have "m AND EPOLLONESHOT = 0" by (rule reported_enabled)
        moreover have "entry_ok w fd (reported (entries interest w fd))"
          by (rule reported_entry_ok [OF E])
        ultimately show False using a after True by (simp add: entry_ok_def)
      next
        case False
        with a after have "entries interest w fd = Some (m, p, True)" by simp
        with E [of fd] bag [OF i(1)] i have "fd = fds ! i" by (auto simp: entry_ok_def)
        with False i(1) len(2) show False by auto
      qed
    qed
    have "entry_ok w' fd (entries interest w' fd)" for fd
    proof -
      have "entry_ok w fd (entries interest w' fd)"
        using after [of fd] E [of fd] reported_entry_ok [OF E [of fd]] by simp
      moreover have eq: "bagh w' = bagh w" by (simp add: w'_def)
      ultimately show ?thesis by (simp add: entry_ok_cong [OF eq])
    qed
    moreover have "cells (bagh w') p \<noteq> None" if "p \<in> set (map snd evs)" for p
    proof -
      from that obtain i where "i < length evs" "p = snd (evs ! i)" by (auto simp: in_set_conv_nth)
      with bag [of i] show ?thesis by (auto simp: w'_def)
    qed
    moreover have "ev_ok w'" using inv by (simp add: epoll_inv_def ev_ok_def w'_def)
    ultimately have "epoll_inv interest (map snd evs) w'"
      using inv dis off by (simp add: epoll_inv_def pend_ok_def) (simp add: w'_def)
    then show ?thesis
      using res Inr len(1) by (simp add: meloop_ev_wait_def mdefs syscall_def w'_def)
  qed
qed

lemma epoll_taken:
  assumes inv: "epoll_inv interest (p # ps) w"
  shows "case mbind (load_bag p) (\<lambda>b. mthen (meloop_bag_free p) (mret b)) w of
      Inl f \<Rightarrow> \<not> bag_fault f | Inr r \<Rightarrow> epoll_inv interest ps (snd r)"
proof -
  from inv obtain b where b: "cells (bagh w) p = Some b" and ok: "ev_ok w"
    by (auto simp: epoll_inv_def pend_ok_def)
  then have p: "p \<noteq> NULL" by (auto simp: ev_ok_def store_ok_def)
  have rest: "epoll_inv interest ps w"
    using inv by (auto simp: epoll_inv_def pend_ok_def)
  define w' where "w' = w\<lparr>bagh := del_cell p (bagh w), ev := bags_forget p (ev w)\<rparr>"
  have ev: "epfd (bags_forget p (ev w)) = epfd (ev w)" "epflags (bags_forget p (ev w)) = epflags (ev w)"
    by (auto simp: bags_forget_def bags_clear_def split: option.split)
  have off: "entries interest w fd \<noteq> Some (m, p, True)" for fd m
    using inv by (auto simp: epoll_inv_def pend_ok_def)
  have "entry_ok w' fd (entries interest w' fd)" for fd
  proof -
    have "entry_ok w fd (entries interest w fd)" using inv by (simp add: epoll_inv_def)
    then show ?thesis using off [of fd] ev by (auto simp: entry_ok_def w'_def split: option.splits)
  qed
  moreover have "ev_ok w'" unfolding w'_def by (rule ev_ok_bag_free [OF ok p])
  ultimately have "epoll_inv interest ps w'"
    using inv ev by (auto simp: epoll_inv_def pend_ok_def w'_def)
  with rest show ?thesis
    using b by (simp add: mdefs load_bag_def get_cell_Some meloop_bag_free_eq [OF ok p] w'_def)
qed

interpretation epl: process_invariant "epoll_inv interest ps" "\<lambda>f. \<not> bag_fault f"
proof unfold_locales
  show "epoll_inv interest ps w \<Longrightarrow> plain_step (w_os w) (kern w) k \<Longrightarrow>
      epoll_inv interest ps (w\<lparr>kern := k\<rparr>)" for w k
    by (rule epoll_inv_plain)
  show "keep (epoll_inv interest ps) (\<lambda>f. \<not> bag_fault f)
      (mbind (meloop_bag_new fd c s d) (meloop_ev_arm op))" for fd c s d op
    by (rule epoll_new_arm)
  show "keep (epoll_inv interest ps) (\<lambda>f. \<not> bag_fault f) (meloop_ev_dearm fd)" for fd
    by (rule epoll_dearm)
qed (auto elim!: epoll_inv_frame)

interpretation epl_loop: loop_invariant "epoll_inv interest" "\<lambda>f. \<not> bag_fault f"
  by unfold_locales (rule epoll_taken epoll_waited; assumption)+

end
