(* ===== verification/Stream_Arrow.thy ===== *)
theory Stream_Arrow
  imports Ev_Invariants
begin

text \<open>
  Arrows over byte streams: the functional behaviour of \<open>readA\<close> and \<open>writeA\<close>
  (\<open>src/meloop/io.c\<close>) and of \<open>pipereadA\<close> and \<open>pipewriteA\<close>
  (\<open>src/meloop/pipe.c\<close>). The four are two contracts: the locales \<open>stream_reader\<close> and
  \<open>stream_writer\<close> say what an arrow does with the result of its system call on every branch;
  \<open>rd\<close>, \<open>prd\<close>, \<open>wr\<close> and \<open>pwr\<close> interpret them.
\<close>

section \<open>Pipes\<close>

definition pipereadA :: "('k, 'u) calls \<Rightarrow> ptr \<Rightarrow> ptr \<Rightarrow> ptr \<Rightarrow> ptr \<Rightarrow> ('k, 'u, unit) wm" where
  "pipereadA call c s pipe priv =
     mbind (load_as as_pipe pipe) (\<lambda>pp.
     mbind (load_as as_string (p_data pp)) (\<lambda>st.
     mbind (load_as as_ioP priv) (\<lambda>p.
     mbind (sys_read (p_rfd pp) (s_blob st) (readsize p)) (\<lambda>size.
     if size = 0 then errorA call c s pipe (Some ''EOF'')
     else if ssize_neg size then
       mbind (mgets errno) (\<lambda>en.
       if en = EAGAIN \<or> en = EWOULDBLOCK then
         waitA call c s pipe (p_rfd pp) EPOLLIN (epollflags p)
       else errorA call c s pipe (Some ''read''))
     else mthen (set_size (p_data pp) size) (returnA call c s pipe)))))"

definition pipewriteA :: "('k, 'u) calls \<Rightarrow> ptr \<Rightarrow> ptr \<Rightarrow> ptr \<Rightarrow> ptr \<Rightarrow> ('k, 'u, unit) wm" where
  "pipewriteA call c s pipe priv =
     mbind (load_as as_pipe pipe) (\<lambda>pp.
     mbind (load_as as_string (p_data pp)) (\<lambda>st.
     mbind (sys_write (p_wfd pp) (s_blob st) (s_size st)) (\<lambda>size.
     if ssize_neg size then
       mbind (mgets errno) (\<lambda>en.
       if en = EAGAIN \<or> en = EWOULDBLOCK then
         mbind (load_as as_ioP priv) (\<lambda>p. waitA call c s pipe (p_wfd pp) EPOLLOUT (epollflags p))
       else errorA call c s pipe (Some ''write''))
     else returnA call c s pipe)))"

lemma less_fuel_pipereadA [mono_intros]:
  assumes "calls_le f g"
  shows "less_fuel (pipereadA f c s d p) (pipereadA g c s d p)"
  unfolding pipereadA_def by (intro mono_intros less_fuel_call [OF assms] assms)

lemma less_fuel_pipewriteA [mono_intros]:
  assumes "calls_le f g"
  shows "less_fuel (pipewriteA f c s d p) (pipewriteA g c s d p)"
  unfolding pipewriteA_def by (intro mono_intros less_fuel_call [OF assms] assms)

context process_invariant
begin

lemma keep_pipereadA [keep_intros]:
  "(\<And>i. keep P F (call i)) \<Longrightarrow> keep P F (pipereadA call c s f p)"
  unfolding pipereadA_def by (intro keep_intros)

lemma keep_pipewriteA [keep_intros]:
  "(\<And>i. keep P F (call i)) \<Longrightarrow> keep P F (pipewriteA call c s f p)"
  unfolding pipewriteA_def by (intro keep_intros)

end

section \<open>The state an arrow starts in\<close>

text \<open>
  \<open>stream_at g w f d b\<close>: the object \<open>f\<close>, seen through the cast \<open>g\<close>, has the
  descriptor and the string object \<open>d\<close>, whose buffer holds \<open>b\<close>.
\<close>

definition obj_as :: "('k, 'u) world \<Rightarrow> (obj \<Rightarrow> 'a option) \<Rightarrow> ptr \<Rightarrow> 'a option" where
  "obj_as w cast p = (case cells (objs w) p of None \<Rightarrow> None | Some ob \<Rightarrow> cast ob)"

lemma load_as_eq: "obj_as w cast p = Some a \<Longrightarrow> load_as cast p w = Inr (a, w)"
  by (auto simp: obj_as_def load_as_def load_obj_def mdefs get_cell_Some split: option.splits)

lemma obj_as_frame [simp]:
  "obj_as (w\<lparr>kern := k\<rparr>) cast p = obj_as w cast p"
  "obj_as (w\<lparr>trace := t\<rparr>) cast p = obj_as w cast p"
  "obj_as (w\<lparr>errno := e\<rparr>) cast p = obj_as w cast p"
  "obj_as (w\<lparr>blobs := bl\<rparr>) cast p = obj_as w cast p"
  "obj_as (w\<lparr>circs := cs\<rparr>) cast p = obj_as w cast p"
  by (simp_all add: obj_as_def)

lemma load_as_bind [runs]: "obj_as w cast p = Some a \<Longrightarrow> mbind (load_as cast p) k w = k a w"
  by (simp add: mbind_apply load_as_eq)

lemma store_obj_eq: "cells (objs w) p = Some ob \<Longrightarrow>
    store_obj p ob' w = Inr ((), w\<lparr>objs := put_cell p ob' (objs w)\<rparr>)"
  by (simp add: store_obj_def mdefs load_obj_def get_cell_Some)

lemma set_size_eq: "obj_as w as_string d = Some st \<Longrightarrow>
    set_size d n w = Inr ((), w\<lparr>objs := put_cell d (O_string (st\<lparr>s_size := n\<rparr>)) (objs w)\<rparr>)"
  by (auto simp: set_size_def load_as_bind obj_as_def store_obj_eq split: option.splits)

lemma change_obj_eq: "cells (objs w) p = Some ob \<Longrightarrow>
    change_obj g p w = Inr ((), w\<lparr>objs := put_cell p (g ob) (objs w)\<rparr>)"
  by (simp add: change_obj_def mdefs load_obj_def get_cell_Some store_obj_eq)

text \<open>The state after a system call.\<close>

definition after_call :: "sysev \<Rightarrow> 'k \<Rightarrow> ('k, 'u) world \<Rightarrow> ('k, 'u) world" where
  "after_call sc k w = w\<lparr>kern := k, trace := trace w @ [sc]\<rparr>"

lemma after_call_simps [simp]:
  "kern (after_call sc k w) = k"
  "trace (after_call sc k w) = trace w @ [sc]"
  "errno (after_call sc k w) = errno w"
  "elems (after_call sc k w) = elems w"
  "circs (after_call sc k w) = circs w"
  "bagh (after_call sc k w) = bagh w"
  "objs (after_call sc k w) = objs w"
  "blobs (after_call sc k w) = blobs w"
  "ev (after_call sc k w) = ev w"
  "w_os (after_call sc k w) = w_os w"
  "usr (after_call sc k w) = usr w"
  "obj_as (after_call sc k w) cast p = obj_as w cast p"
  by (simp_all add: after_call_def)

lemma syscall_Inl: "f (w_os w) (kern w) = (Inl e, k) \<Longrightarrow>
    syscall sc f w = Inr (Inl e, (after_call sc k w)\<lparr>errno := e\<rparr>)"
  by (simp add: syscall_def after_call_def)

lemma syscall_Inr: "f (w_os w) (kern w) = (Inr a, k) \<Longrightarrow>
    syscall sc f w = Inr (Inr a, after_call sc k w)"
  by (simp add: syscall_def after_call_def)

lemma syscall_bind_Inl [runs]: "f (w_os w) (kern w) = (Inl e, k) \<Longrightarrow>
    mbind (syscall sc f) K w = K (Inl e) ((after_call sc k w)\<lparr>errno := e\<rparr>)"
  by (simp add: mbind_apply syscall_Inl)

lemma syscall_bind_Inr [runs]: "f (w_os w) (kern w) = (Inr a, k) \<Longrightarrow>
    mbind (syscall sc f) K w = K (Inr a) (after_call sc k w)"
  by (simp add: mbind_apply syscall_Inr)

lemma sys_read_Inl: "os_read (w_os w) fd (unat n) (kern w) = (Inl e, k) \<Longrightarrow>
    sys_read fd blob n w = Inr (MINUS1, (after_call (SysRead fd (unat n)) k w)\<lparr>errno := e\<rparr>)"
  by (simp add: sys_read_def mdefs syscall_Inl)

lemma sys_read_Inr:
  assumes "os_read (w_os w) fd (unat n) (kern w) = (Inr bs, k)"
    and "cells (blobs w) blob = Some old" and "length bs \<le> length old"
  shows "sys_read fd blob n w = Inr (of_nat (length bs),
    (after_call (SysRead fd (unat n)) k w)
      \<lparr>blobs := put_cell blob (bs @ drop (length bs) old) (blobs w)\<rparr>)"
  using assms
  by (simp add: sys_read_def mdefs syscall_Inr load_blob_def store_blob_def get_cell_Some)

lemma sys_read_overflow:
  assumes "os_read (w_os w) fd (unat n) (kern w) = (Inr bs, k)"
    and "cells (blobs w) blob = Some old" and "length old < length bs"
  shows "sys_read fd blob n w = Inl BufferOverflow"
  using assms by (simp add: sys_read_def mdefs syscall_Inr load_blob_def get_cell_Some)

lemma sys_write_Inl:
  assumes "cells (blobs w) blob = Some bs" and "unat n \<le> length bs"
    and "os_write (w_os w) fd (take (unat n) bs) (kern w) = (Inl e, k)"
  shows "sys_write fd blob n w =
    Inr (MINUS1, (after_call (SysWrite fd (take (unat n) bs)) k w)\<lparr>errno := e\<rparr>)"
  using assms by (simp add: sys_write_def mdefs syscall_Inl load_blob_def get_cell_Some)

lemma sys_write_Inr:
  assumes "cells (blobs w) blob = Some bs" and "unat n \<le> length bs"
    and "os_write (w_os w) fd (take (unat n) bs) (kern w) = (Inr m, k)"
  shows "sys_write fd blob n w = Inr (of_nat m, after_call (SysWrite fd (take (unat n) bs)) k w)"
  using assms by (simp add: sys_write_def mdefs syscall_Inr load_blob_def get_cell_Some)

text \<open>The result of a read or write of a whole buffer as a 64-bit number.\<close>

lemma count_pos:
  assumes "bs \<noteq> []" and "length bs < 2 ^ 63"
  shows "(of_nat (length bs) :: u64) \<noteq> 0"
proof -
  have "unat (of_nat (length bs) :: u64) = length bs"
    using assms(2) by (simp add: unat_of_nat)
  with assms(1) show ?thesis by (metis length_0_conv unat_0)
qed

section \<open>The contracts\<close>

locale stream_reader =
  fixes arrow :: "('k, 'u) calls \<Rightarrow> ptr \<Rightarrow> ptr \<Rightarrow> ptr \<Rightarrow> ptr \<Rightarrow> ('k, 'u, unit) wm"
    and cast :: "obj \<Rightarrow> 'f option" and fd_of :: "'f \<Rightarrow> int" and data_of :: "'f \<Rightarrow> ptr"
  assumes arrow_eq:
    "obj_as w cast f = Some fl \<Longrightarrow> obj_as w as_string (data_of fl) = Some st \<Longrightarrow>
     obj_as w as_ioP priv = Some p \<Longrightarrow>
     arrow call c s f priv w =
       mbind (sys_read (fd_of fl) (s_blob st) (readsize p)) (\<lambda>size.
       if size = 0 then errorA call c s f (Some ''EOF'')
       else if ssize_neg size then
         mbind (mgets errno) (\<lambda>en.
         if en = EAGAIN \<or> en = EWOULDBLOCK then waitA call c s f (fd_of fl) EPOLLIN (epollflags p)
         else errorA call c s f (Some ''read''))
       else mthen (set_size (data_of fl) size) (returnA call c s f)) w"
begin

text \<open>The state after the bytes \<open>bs\<close> were read: they are at the start of the buffer, and
  their number is the size of the string.\<close>

definition filled :: "ptr \<Rightarrow> stringS \<Rightarrow> byte list \<Rightarrow> byte list \<Rightarrow> ('k, 'u) world \<Rightarrow> ('k, 'u) world" where
  "filled d st bs old w = w\<lparr>
     blobs := put_cell (s_blob st) (bs @ drop (length bs) old) (blobs w),
     objs := put_cell d (O_string (st\<lparr>s_size := of_nat (length bs)\<rparr>)) (objs w)\<rparr>"

lemma on_data:
  assumes "obj_as w cast f = Some fl" and "obj_as w as_string (data_of fl) = Some st"
    and "obj_as w as_ioP priv = Some p"
    and "os_read (w_os w) (fd_of fl) (unat (readsize p)) (kern w) = (Inr bs, k)"
    and "cells (blobs w) (s_blob st) = Some old" and "length bs \<le> length old"
    and "bs \<noteq> []" and "length bs < 2 ^ 63"
  shows "arrow call c s f priv w =
    returnA call c s f (filled (data_of fl) st bs old (after_call (SysRead (fd_of fl) (unat (readsize p))) k w))"
  using assms(1-3) count_pos [OF assms(7,8)] not_ssize_neg_of_nat [OF assms(8)]
  by (simp add: arrow_eq mdefs sys_read_Inr [OF assms(4-6)] set_size_eq filled_def)

lemma on_eof:
  assumes "obj_as w cast f = Some fl" and "obj_as w as_string (data_of fl) = Some st"
    and "obj_as w as_ioP priv = Some p"
    and "os_read (w_os w) (fd_of fl) (unat (readsize p)) (kern w) = (Inr [], k)"
    and "cells (blobs w) (s_blob st) = Some old"
  shows "arrow call c s f priv w =
    errorA call c s f (Some ''EOF'') (after_call (SysRead (fd_of fl) (unat (readsize p))) k w)"
proof -
  have "put_cell (s_blob st) old (blobs w) = blobs w"
    using assms(5) by (simp add: put_cell_def fun_upd_idem)
  then show ?thesis
    using assms sys_read_Inr [OF assms(4,5)] by (simp add: arrow_eq mdefs after_call_def)
qed

lemma on_again:
  assumes "obj_as w cast f = Some fl" and "obj_as w as_string (data_of fl) = Some st"
    and "obj_as w as_ioP priv = Some p"
    and "os_read (w_os w) (fd_of fl) (unat (readsize p)) (kern w) = (Inl EAGAIN, k)"
  shows "arrow call c s f priv w = waitA call c s f (fd_of fl) EPOLLIN (epollflags p)
    ((after_call (SysRead (fd_of fl) (unat (readsize p))) k w)\<lparr>errno := EAGAIN\<rparr>)"
  using assms by (simp add: arrow_eq mdefs sys_read_Inl [OF assms(4)])

lemma on_fail:
  assumes "obj_as w cast f = Some fl" and "obj_as w as_string (data_of fl) = Some st"
    and "obj_as w as_ioP priv = Some p"
    and "os_read (w_os w) (fd_of fl) (unat (readsize p)) (kern w) = (Inl e, k)"
    and "e \<noteq> EAGAIN"
  shows "arrow call c s f priv w = errorA call c s f (Some ''read'')
    ((after_call (SysRead (fd_of fl) (unat (readsize p))) k w)\<lparr>errno := e\<rparr>)"
  using assms by (simp add: arrow_eq mdefs sys_read_Inl [OF assms(4)] EAGAIN_def EWOULDBLOCK_def)

end

locale stream_writer =
  fixes arrow :: "('k, 'u) calls \<Rightarrow> ptr \<Rightarrow> ptr \<Rightarrow> ptr \<Rightarrow> ptr \<Rightarrow> ('k, 'u, unit) wm"
    and cast :: "obj \<Rightarrow> 'f option" and fd_of :: "'f \<Rightarrow> int" and data_of :: "'f \<Rightarrow> ptr"
  assumes arrow_eq:
    "obj_as w cast f = Some fl \<Longrightarrow> obj_as w as_string (data_of fl) = Some st \<Longrightarrow>
     arrow call c s f priv w =
       mbind (sys_write (fd_of fl) (s_blob st) (s_size st)) (\<lambda>size.
       if ssize_neg size then
         mbind (mgets errno) (\<lambda>en.
         if en = EAGAIN \<or> en = EWOULDBLOCK then
           mbind (load_as as_ioP priv) (\<lambda>p. waitA call c s f (fd_of fl) EPOLLOUT (epollflags p))
         else errorA call c s f (Some ''write''))
       else returnA call c s f) w"
begin

text \<open>Whatever part of the bytes the kernel took, the arrow goes on to the next one.\<close>

lemma on_written:
  assumes "obj_as w cast f = Some fl" and "obj_as w as_string (data_of fl) = Some st"
    and "cells (blobs w) (s_blob st) = Some bs" and "unat (s_size st) \<le> length bs"
    and "os_write (w_os w) (fd_of fl) (take (unat (s_size st)) bs) (kern w) = (Inr m, k)"
    and "m < 2 ^ 63"
  shows "arrow call c s f priv w = returnA call c s f
    (after_call (SysWrite (fd_of fl) (take (unat (s_size st)) bs)) k w)"
  using assms by (simp add: arrow_eq mdefs sys_write_Inr [OF assms(3-5)] not_ssize_neg_of_nat)

lemma on_again:
  assumes "obj_as w cast f = Some fl" and "obj_as w as_string (data_of fl) = Some st"
    and "obj_as w as_ioP priv = Some p"
    and "cells (blobs w) (s_blob st) = Some bs" and "unat (s_size st) \<le> length bs"
    and "os_write (w_os w) (fd_of fl) (take (unat (s_size st)) bs) (kern w) = (Inl EAGAIN, k)"
  shows "arrow call c s f priv w = waitA call c s f (fd_of fl) EPOLLOUT (epollflags p)
    ((after_call (SysWrite (fd_of fl) (take (unat (s_size st)) bs)) k w)\<lparr>errno := EAGAIN\<rparr>)"
  using assms by (simp add: arrow_eq mdefs sys_write_Inl [OF assms(4-6)] load_as_eq)

lemma on_fail:
  assumes "obj_as w cast f = Some fl" and "obj_as w as_string (data_of fl) = Some st"
    and "cells (blobs w) (s_blob st) = Some bs" and "unat (s_size st) \<le> length bs"
    and "os_write (w_os w) (fd_of fl) (take (unat (s_size st)) bs) (kern w) = (Inl e, k)"
    and "e \<noteq> EAGAIN"
  shows "arrow call c s f priv w = errorA call c s f (Some ''write'')
    ((after_call (SysWrite (fd_of fl) (take (unat (s_size st)) bs)) k w)\<lparr>errno := e\<rparr>)"
  using assms by (simp add: arrow_eq mdefs sys_write_Inl [OF assms(3-5)] EAGAIN_def EWOULDBLOCK_def)

end

interpretation rd: stream_reader readA as_file f_fd f_data
  by unfold_locales (simp add: readA_def load_as_bind)

interpretation prd: stream_reader pipereadA as_pipe p_rfd p_data
  by unfold_locales (simp add: pipereadA_def load_as_bind)

interpretation wr: stream_writer writeA as_file f_fd f_data
  by unfold_locales (simp add: writeA_def load_as_bind)

interpretation pwr: stream_writer pipewriteA as_pipe p_wfd p_data
  by unfold_locales (simp add: pipewriteA_def load_as_bind)

end
