(* ===== verification/Timer_Arrow.thy ===== *)
theory Timer_Arrow
  imports Stream_Arrow "HOL-Library.Signed_Division"
begin

text \<open>
  \<open>src/meloop/timer.c\<close>: opening a timer descriptor and sleeping on it. The state machine of
  \<open>timersleepA\<close> is the field \<open>status\<close> of the timer (\<open>IDLE\<close>, then \<open>WAITING\<close> for good).
\<close>

section \<open>The arrows\<close>

definition NS :: int where "NS = 1000000000"
definition IDLE :: int where "IDLE = 0"
definition WAITING :: int where "WAITING = 1"

fun on_timer :: "(timerS \<Rightarrow> timerS) \<Rightarrow> obj \<Rightarrow> obj" where
  "on_timer g (O_timer t) = O_timer (g t)"
| "on_timer g ob = ob"

text \<open>
  \<open>interval_ns\<close> is a C \<open>long\<close>: it is divided as a signed number, towards zero. The same
  time is the first expiration and the period.
\<close>

definition timer_spec :: "u64 \<Rightarrow> itimerspec" where
  "timer_spec iv = (let sec = of_int (sint iv sdiv NS); nsec = of_int (sint iv smod NS) in
     \<lparr>it_interval_sec = sec, it_interval_nsec = nsec, it_value_sec = sec, it_value_nsec = nsec\<rparr>)"

definition timeropenA :: "('k, 'u) calls \<Rightarrow> ptr \<Rightarrow> ptr \<Rightarrow> ptr \<Rightarrow> ptr \<Rightarrow> ('k, 'u, unit) wm" where
  "timeropenA call c s t priv =
     mbind (load_as as_timerP priv) (\<lambda>p.
     mbind (syscall SysTimerCreate
        (\<lambda>os. os_timerfd_create os (clockid p) (tp_flags p OR TFD_NONBLOCK))) (\<lambda>r.
     if resfd r < 0 then errorA call c s t (Some ''timerfd_create'')
     else mthen (mbind (load_as as_timer t) (\<lambda>_. change_obj (on_timer (\<lambda>t. t\<lparr>t_fd := resfd r\<rparr>)) t))
       (mbind (syscall (SysTimerSet (resfd r))
          (\<lambda>os. os_timerfd_settime os (resfd r) 0 (timer_spec (interval_ns p)))) (\<lambda>r2.
        if res0 r2 \<noteq> 0 then
          mbind (sys_close (resfd r)) (\<lambda>_. errorA call c s t (Some ''timerfd_settime''))
        else mseq [
          change_obj (on_timer (\<lambda>t. t\<lparr>t_status := IDLE\<rparr>)) t,
          returnA call c s t]))))"

text \<open>\<open>read(fd, &res, sizeof(res))\<close>: the local variable \<open>res\<close> has 8 bytes and is not used.\<close>

definition read_u64 :: "int \<Rightarrow> ('k, 'u, u64) wm" where
  "read_u64 fd = mbind (syscall (SysRead fd 8) (\<lambda>os. os_read os fd 8)) (\<lambda>r.
     case r of Inl _ \<Rightarrow> mret MINUS1
     | Inr bs \<Rightarrow> if length bs > 8 then mfail BufferOverflow else mret (of_nat (length bs)))"

definition timersleepA :: "('k, 'u) calls \<Rightarrow> ptr \<Rightarrow> ptr \<Rightarrow> ptr \<Rightarrow> ptr \<Rightarrow> ('k, 'u, unit) wm" where
  "timersleepA call c s t priv =
     mbind (load_as as_timer t) (\<lambda>tm.
     if t_status tm = IDLE then
       mbind (load_as as_timerP priv) (\<lambda>p. mseq [
         waitA call c s t (t_fd tm) EPOLLIN (tp_epollflags p),
         change_obj (on_timer (\<lambda>t. t\<lparr>t_status := WAITING\<rparr>)) t])
     else mbind (read_u64 (t_fd tm)) (\<lambda>size.
       if size = 0 then errorA call c s t (Some ''EOF'')
       else if ssize_neg size then
         mbind (mgets errno) (\<lambda>en.
         if en = EAGAIN \<or> en = EWOULDBLOCK then
           mbind (load_as as_timerP priv) (\<lambda>p. waitA call c s t (t_fd tm) EPOLLIN (tp_epollflags p))
         else errorA call c s t (Some ''read timerfd''))
       else returnA call c s t))"

lemma less_fuel_timeropenA [mono_intros]:
  assumes "calls_le f g"
  shows "less_fuel (timeropenA f c s d p) (timeropenA g c s d p)"
  unfolding timeropenA_def by (intro mono_intros less_fuel_call [OF assms] assms)

lemma less_fuel_timersleepA [mono_intros]:
  assumes "calls_le f g"
  shows "less_fuel (timersleepA f c s d p) (timersleepA g c s d p)"
  unfolding timersleepA_def by (intro mono_intros less_fuel_call [OF assms] assms)

context process_invariant
begin

lemma keep_read_u64 [keep_intros]: "keep P F (read_u64 fd)"
  unfolding read_u64_def by (intro keep_intros keep_syscall plain_step.intros) simp_all

lemma keep_timeropenA [keep_intros]:
  "(\<And>i. keep P F (call i)) \<Longrightarrow> keep P F (timeropenA call c s f p)"
  unfolding timeropenA_def by (intro keep_intros keep_syscall plain_step.intros)

lemma keep_timersleepA [keep_intros]:
  "(\<And>i. keep P F (call i)) \<Longrightarrow> keep P F (timersleepA call c s f p)"
  unfolding timersleepA_def by (intro keep_intros)

end

section \<open>The time that is set\<close>

text \<open>A non-negative interval is split exactly, into whole seconds and less than a second.\<close>

lemma timer_parts:
  assumes "0 \<le> sint iv"
  shows "sint iv sdiv NS = sint iv div NS" and "sint iv smod NS = sint iv mod NS"
  using assms by (cases "sint iv = 0";
    simp add: NS_def signed_divide_int_def signed_modulo_int_def minus_div_mult_eq_mod)+

lemma uint_of_small: "0 \<le> x \<Longrightarrow> x < 2 ^ 63 \<Longrightarrow> uint (of_int x :: u64) = x"
  by (simp add: uint_word_of_int_eq take_bit_int_eq_self)

lemma timer_spec_split:
  assumes "0 \<le> sint iv"
  shows "uint (it_value_sec (timer_spec iv)) * NS + uint (it_value_nsec (timer_spec iv)) = sint iv"
    and "uint (it_value_nsec (timer_spec iv)) < NS"
    and "it_interval_sec (timer_spec iv) = it_value_sec (timer_spec iv)"
    and "it_interval_nsec (timer_spec iv) = it_value_nsec (timer_spec iv)"
proof -
  have lim: "sint iv < 2 ^ 63" using sint_less [of iv] by simp
  have s: "uint (it_value_sec (timer_spec iv)) = sint iv div NS"
    using assms lim timer_parts [OF assms]
    by (simp add: timer_spec_def Let_def uint_of_small NS_def)
  have n: "uint (it_value_nsec (timer_spec iv)) = sint iv mod NS"
    using timer_parts [OF assms] pos_mod_bound [of NS "sint iv"]
    by (simp add: timer_spec_def Let_def uint_of_small NS_def)
  show "uint (it_value_sec (timer_spec iv)) * NS + uint (it_value_nsec (timer_spec iv)) = sint iv"
    by (simp add: s n)
  show "uint (it_value_nsec (timer_spec iv)) < NS"
    by (simp add: n NS_def)
qed (simp_all add: timer_spec_def Let_def)

section \<open>What the arrows do\<close>

definition timer_set :: "ptr \<Rightarrow> timerS \<Rightarrow> ('k, 'u) world \<Rightarrow> ('k, 'u) world" where
  "timer_set t tm w = w\<lparr>objs := put_cell t (O_timer tm) (objs w)\<rparr>"

lemma timer_cell: "obj_as w as_timer t = Some tm \<Longrightarrow> cells (objs w) t = Some (O_timer tm)"
  by (auto simp: obj_as_def split: option.splits elim: as_timer.elims)

lemma timer_change: "obj_as w as_timer t = Some tm \<Longrightarrow>
    change_obj (on_timer g) t w = Inr ((), timer_set t (g tm) w)"
  by (simp add: change_obj_eq [OF timer_cell] timer_set_def)

lemma timer_set_simps [simp]:
  "obj_as (timer_set t tm w) as_timer t = Some tm"
  "kern (timer_set t tm w) = kern w"
  "w_os (timer_set t tm w) = w_os w"
  "timer_set t tm (timer_set t tm' w) = timer_set t tm w"
  by (simp_all add: obj_as_def timer_set_def put_cell_def)

lemma after_call_timer [simp]: "after_call e k (timer_set t tm w) = timer_set t tm (after_call e k w)"
  by (simp add: after_call_def timer_set_def)

lemma timer_change_then [runs]: "obj_as w as_timer t = Some tm \<Longrightarrow>
    mthen (change_obj (on_timer g) t) d w = d (timer_set t (g tm) w)"
  by (simp add: mdefs timer_change)

lemma timeropenA_open:
  assumes "obj_as w as_timerP priv = Some p" and "obj_as w as_timer t = Some tm"
    and "os_timerfd_create (w_os w) (clockid p) (tp_flags p OR TFD_NONBLOCK) (kern w) = (Inr fd, k)"
    and "0 \<le> fd"
    and "os_timerfd_settime (w_os w) fd 0 (timer_spec (interval_ns p)) k = (Inr (), k')"
  shows "timeropenA call c s t priv w = returnA call c s t
    (timer_set t (tm\<lparr>t_fd := fd, t_status := IDLE\<rparr>)
      (after_call (SysTimerSet fd) k' (after_call SysTimerCreate k w)))"
  using assms by (simp add: timeropenA_def runs resfd_def res0_def)

text \<open>A timer that cannot be set is closed before the circuit ends in the error.\<close>

lemma timeropenA_settime_fails:
  assumes "obj_as w as_timerP priv = Some p" and "obj_as w as_timer t = Some tm"
    and "os_timerfd_create (w_os w) (clockid p) (tp_flags p OR TFD_NONBLOCK) (kern w) = (Inr fd, k)"
    and "0 \<le> fd"
    and "os_timerfd_settime (w_os w) fd 0 (timer_spec (interval_ns p)) k = (Inl e, k')"
  shows "\<exists>w'. timeropenA call c s t priv w = errorA call c s t (Some ''timerfd_settime'') w' \<and>
    trace w' = trace w @ [SysTimerCreate, SysTimerSet fd, SysClose fd]"
proof -
  obtain r k2 where r: "os_close (w_os w) fd k' = (r, k2)" by fastforce
  show ?thesis
    using assms r
    by (cases r) (auto simp: timeropenA_def runs resfd_def res0_def
      sys_close_def timer_set_def)
qed

lemma timersleepA_idle:
  assumes "obj_as w as_timerP priv = Some p" and "obj_as w as_timer t = Some tm"
    and "t_status tm = IDLE"
  shows "timersleepA call c s t priv w = mseq [
      waitA call c s t (t_fd tm) EPOLLIN (tp_epollflags p),
      change_obj (on_timer (\<lambda>t. t\<lparr>t_status := WAITING\<rparr>)) t] w"
  using assms by (simp add: timersleepA_def load_as_bind)

lemma timersleepA_expired:
  assumes "obj_as w as_timer t = Some tm" and "t_status tm \<noteq> IDLE"
    and "os_read (w_os w) (t_fd tm) 8 (kern w) = (Inr bs, k)" and "bs \<noteq> []" and "length bs \<le> 8"
  shows "timersleepA call c s t priv w = returnA call c s t (after_call (SysRead (t_fd tm) 8) k w)"
proof -
  have len: "length bs < 2 ^ 63" using assms(5) by simp
  show ?thesis
    using assms count_pos [OF assms(4) len] not_ssize_neg_of_nat [OF len]
    by (simp add: timersleepA_def read_u64_def runs)
qed

lemma timersleepA_early:
  assumes "obj_as w as_timer t = Some tm" and "t_status tm \<noteq> IDLE"
    and "obj_as w as_timerP priv = Some p"
    and "os_read (w_os w) (t_fd tm) 8 (kern w) = (Inl EAGAIN, k)"
  shows "timersleepA call c s t priv w = waitA call c s t (t_fd tm) EPOLLIN (tp_epollflags p)
    ((after_call (SysRead (t_fd tm) 8) k w)\<lparr>errno := EAGAIN\<rparr>)"
  using assms by (simp add: timersleepA_def read_u64_def runs)

end
