(* ===== verification/Random_Arrow.thy ===== *)
theory Random_Arrow
  imports Stream_Arrow
begin

text \<open>
  \<open>src/meloop/random.c\<close>: opening \<open>/dev/urandom\<close>, reading from it, and mapping the bytes to
  letters. \<open>randreadA\<close> keeps the result of \<open>read\<close> in an unsigned variable, so its test for an
  error never succeeds; \<open>randencA\<close> counts with an \<open>int\<close>.
\<close>

section \<open>The arrows\<close>

definition randopenA :: "('k, 'u) calls \<Rightarrow> ptr \<Rightarrow> ptr \<Rightarrow> ptr \<Rightarrow> ('k, 'u, unit) wm" where
  "randopenA call c s f =
     mbind (sys_open ''/dev/urandom'' (O_RDONLY OR O_NONBLOCK)) (\<lambda>fd.
     if fd < 0 then errorA call c s f (Some ''open urandom'')
     else mthen (mbind (load_as as_file f) (\<lambda>_. change_obj (with_fd fd) f))
       (returnA call c s f))"

definition randreadA :: "('k, 'u) calls \<Rightarrow> ptr \<Rightarrow> ptr \<Rightarrow> ptr \<Rightarrow> ptr \<Rightarrow> ('k, 'u, unit) wm" where
  "randreadA call c s f priv =
     mbind (load_as as_file f) (\<lambda>fl.
     mbind (load_as as_string (f_data fl)) (\<lambda>st.
     mbind (load_as as_ioP priv) (\<lambda>p.
     mbind (sys_read (f_fd fl) (s_blob st) (readsize p)) (\<lambda>size.
     if size < 0 then
       mbind (mgets errno) (\<lambda>en.
       if en = EAGAIN \<or> en = EWOULDBLOCK then
         waitA call c s f (f_fd fl) EPOLLIN (epollflags p)
       else errorA call c s f (Some ''read urandom''))
     else mthen (set_size (f_data fl) size) (returnA call c s f)))))"

text \<open>\<open>t = blob[i]; (t % 26) + 97\<close>: the \<open>char\<close> is signed and widened to
  \<open>unsigned int\<close>.\<close>

definition randenc_byte :: "byte \<Rightarrow> byte" where
  "randenc_byte b = ucast ((scast b :: u32) mod 26 + 97)"

definition INT_MAX :: int where "INT_MAX = 2 ^ 31 - 1"

text \<open>The loop at index \<open>i\<close>; \<open>i < size\<close> compares \<open>i\<close> as a \<open>size_t\<close>.\<close>

function randenc_loop :: "nat \<Rightarrow> u64 \<Rightarrow> byte list \<Rightarrow> fault + byte list" where
  "randenc_loop i sz bs =
     (if i < unat sz then
        if i \<ge> length bs then Inl BufferOverflow
        else if int i \<ge> INT_MAX then Inl SignedOverflow
        else randenc_loop (i + 1) sz (bs[i := randenc_byte (bs ! i)])
      else Inr bs)"
  by pat_completeness auto
termination by (relation "measure (\<lambda>(i, sz, bs). unat sz - i)") auto

declare randenc_loop.simps [simp del]

definition randencA :: "('k, 'u) calls \<Rightarrow> ptr \<Rightarrow> ptr \<Rightarrow> ptr \<Rightarrow> ('k, 'u, unit) wm" where
  "randencA call c s f =
     mbind (load_as as_file f) (\<lambda>fl.
     mbind (load_as as_string (f_data fl)) (\<lambda>st.
     mbind (load_blob (s_blob st)) (\<lambda>bs.
     case randenc_loop 0 (s_size st) bs of
       Inl x \<Rightarrow> mfail x
     | Inr bs' \<Rightarrow> mthen (store_blob (s_blob st) bs') (returnA call c s f))))"

lemma less_fuel_randopenA [mono_intros]:
  assumes "calls_le f g"
  shows "less_fuel (randopenA f c s d) (randopenA g c s d)"
  unfolding randopenA_def by (intro mono_intros less_fuel_call [OF assms] assms)

lemma less_fuel_randreadA [mono_intros]:
  assumes "calls_le f g"
  shows "less_fuel (randreadA f c s d p) (randreadA g c s d p)"
  unfolding randreadA_def by (intro mono_intros less_fuel_call [OF assms] assms)

lemma less_fuel_randencA [mono_intros]:
  assumes "calls_le f g"
  shows "less_fuel (randencA f c s d) (randencA g c s d)"
  unfolding randencA_def by (intro mono_intros less_fuel_call [OF assms] assms)

lemma randenc_fault: "randenc_loop i sz bs = Inl x \<Longrightarrow> x = BufferOverflow \<or> x = SignedOverflow"
proof (induction i sz bs rule: randenc_loop.induct)
  case (1 i sz bs)
  then show ?case by (auto simp: randenc_loop.simps [of i sz bs] split: if_splits)
qed

context process_invariant
begin

lemma keep_randopenA [keep_intros]:
  "(\<And>i. keep P F (call i)) \<Longrightarrow> keep P F (randopenA call c s f)"
  unfolding randopenA_def by (intro keep_intros)

lemma keep_randreadA [keep_intros]:
  "(\<And>i. keep P F (call i)) \<Longrightarrow> keep P F (randreadA call c s f p)"
  unfolding randreadA_def by (intro keep_intros)

lemma keep_randencA [keep_intros]:
  "(\<And>i. keep P F (call i)) \<Longrightarrow> keep P F (randencA call c s f)"
  unfolding randencA_def
  by (intro keep_intros) (use randenc_fault in fastforce)

end

section \<open>The letters\<close>

lemma randenc_byte_val: "unat (randenc_byte b) = unat (scast b :: u32) mod 26 + 97"
proof -
  let ?t = "(scast b :: u32) mod 26"
  have t: "unat ?t = unat (scast b :: u32) mod 26" by (simp add: unat_mod_distrib)
  then have "unat ?t < 26" by simp
  then have "unat (?t + 97) = unat ?t + 97"
    by (subst unat_add_lem [THEN iffD1]) simp_all
  with t show ?thesis by (simp add: randenc_byte_def unsigned_ucast_eq take_bit_nat_eq_self)
qed

lemma randenc_byte_letter: "97 \<le> randenc_byte b \<and> randenc_byte b \<le> 122"
  using randenc_byte_val [of b] by (simp add: word_le_nat_alt)

text \<open>The loop is a map over the first \<open>size\<close> bytes when they are in the buffer and an
  \<open>int\<close> can count them.\<close>

lemma randenc_loop_map:
  assumes "unat sz \<le> length bs" and "unat sz < 2 ^ 31" and "i \<le> unat sz"
  shows "randenc_loop i sz bs =
    Inr (take i bs @ map randenc_byte (take (unat sz - i) (drop i bs)) @ drop (unat sz) bs)"
  using assms
proof (induction i sz bs rule: randenc_loop.induct)
  case (1 i sz bs)
  show ?case
  proof (cases "i < unat sz")
    case False
    with "1.prems" have "i = unat sz" by simp
    then show ?thesis by (simp add: randenc_loop.simps [of "unat sz"])
  next
    case True
    let ?bs = "bs[i := randenc_byte (bs ! i)]"
    have lt: "i < length bs" "\<not> INT_MAX \<le> int i" using True "1.prems" by (simp_all add: INT_MAX_def)
    have "randenc_loop i sz bs = randenc_loop (i + 1) sz ?bs"
      using True lt by (simp add: randenc_loop.simps [of i])
    also have "\<dots> = Inr (take (i + 1) ?bs @
        map randenc_byte (take (unat sz - (i + 1)) (drop (i + 1) ?bs)) @ drop (unat sz) ?bs)"
      using True lt "1.prems" by (intro "1.IH") simp_all
    also have "take (i + 1) ?bs = take i bs @ [randenc_byte (bs ! i)]"
      using lt by (simp add: take_Suc_conv_app_nth)
    also have "take (unat sz - i) (drop i bs) =
        bs ! i # take (unat sz - (i + 1)) (drop (i + 1) bs)"
      using True lt by (simp add: Cons_nth_drop_Suc [symmetric] take_Cons' )
    ultimately show ?thesis using True by simp
  qed
qed

lemma randenc_loop_signed:
  assumes "2 ^ 31 \<le> unat sz" and "2 ^ 31 \<le> length bs" and "i < 2 ^ 31"
  shows "randenc_loop i sz bs = Inl SignedOverflow"
  using assms
proof (induction i sz bs rule: randenc_loop.induct)
  case (1 i sz bs)
  then show ?case
    by (cases "i = 2147483647") (simp_all add: randenc_loop.simps [of i] randenc_loop.simps [of 2147483647] INT_MAX_def)
qed

lemma randenc_loop_short:
  assumes "length bs < unat sz" and "length bs < 2 ^ 31" and "i \<le> length bs"
  shows "randenc_loop i sz bs = Inl BufferOverflow"
  using assms
proof (induction i sz bs rule: randenc_loop.induct)
  case (1 i sz bs)
  then show ?case
    by (cases "i = length bs")
      (simp_all add: randenc_loop.simps [of i] randenc_loop.simps [of "length bs"] INT_MAX_def)
qed

section \<open>What the arrows do\<close>

lemma load_blob_bind [runs]: "cells (blobs w) b = Some bs \<Longrightarrow> mbind (load_blob b) k w = k bs w"
  by (simp add: mdefs load_blob_def get_cell_Some)

lemma sys_read_bind [runs]: "sys_read fd b n w = Inr (r, w') \<Longrightarrow> mbind (sys_read fd b n) k w = k r w'"
  by (rule bind_run)

lemma store_blob_then [runs]: "cells (blobs w) b = Some bs \<Longrightarrow>
    mthen (store_blob b bs') d w = d (w\<lparr>blobs := put_cell b bs' (blobs w)\<rparr>)"
  by (simp add: mdefs store_blob_def load_blob_def get_cell_Some)

lemma set_size_then [runs]: "obj_as w as_string d = Some st \<Longrightarrow>
    mthen (set_size d n) k w = k (w\<lparr>objs := put_cell d (O_string (st\<lparr>s_size := n\<rparr>)) (objs w)\<rparr>)"
  by (simp add: mdefs set_size_eq)

lemma randencA_ok:
  assumes "obj_as w as_file f = Some fl" and "obj_as w as_string (f_data fl) = Some st"
    and "cells (blobs w) (s_blob st) = Some bs"
    and "unat (s_size st) \<le> length bs" and "unat (s_size st) < 2 ^ 31"
  shows "randencA call c s f w = returnA call c s f
    (w\<lparr>blobs := put_cell (s_blob st) (map randenc_byte (take (unat (s_size st)) bs) @
        drop (unat (s_size st)) bs) (blobs w)\<rparr>)"
  using assms randenc_loop_map [of "s_size st" bs 0]
  by (simp add: randencA_def runs)

lemma randencA_overflow:
  assumes "obj_as w as_file f = Some fl" and "obj_as w as_string (f_data fl) = Some st"
    and "cells (blobs w) (s_blob st) = Some bs"
    and "length bs < unat (s_size st)" and "length bs < 2 ^ 31"
  shows "randencA call c s f w = Inl BufferOverflow"
  using assms randenc_loop_short [of bs "s_size st" 0]
  by (simp add: randencA_def runs mfail_apply)

text \<open>Whatever \<open>read\<close> returns, even its error, becomes the size of the string.\<close>

lemma randreadA_any:
  assumes "obj_as w as_file f = Some fl" and "obj_as w as_string (f_data fl) = Some st"
    and "obj_as w as_ioP priv = Some p"
    and "sys_read (f_fd fl) (s_blob st) (readsize p) w = Inr (n, w')"
    and "obj_as w' as_string (f_data fl) = Some st"
  shows "randreadA call c s f priv w = returnA call c s f
    (w'\<lparr>objs := put_cell (f_data fl) (O_string (st\<lparr>s_size := n\<rparr>)) (objs w')\<rparr>)"
  using assms by (simp add: randreadA_def runs)

lemma randreadA_error:
  assumes "obj_as w as_file f = Some fl" and "obj_as w as_string (f_data fl) = Some st"
    and "obj_as w as_ioP priv = Some p"
    and "os_read (w_os w) (f_fd fl) (unat (readsize p)) (kern w) = (Inl e, k)"
  shows "randreadA call c s f priv w = returnA call c s f
    ((after_call (SysRead (f_fd fl) (unat (readsize p))) k w)\<lparr>errno := e,
      objs := put_cell (f_data fl) (O_string (st\<lparr>s_size := MINUS1\<rparr>)) (objs w)\<rparr>)"
proof -
  note r = sys_read_Inl [OF assms(4)]
  show ?thesis using assms by (simp add: randreadA_any [OF assms(1-3) r])
qed

lemma file_cell: "obj_as w as_file f = Some fl \<Longrightarrow> \<exists>ob. cells (objs w) f = Some ob \<and> as_file ob = Some fl"
  by (auto simp: obj_as_def split: option.splits)

lemma change_obj_then [runs]: "cells (objs w) p = Some ob \<Longrightarrow>
    mthen (change_obj g p) d w = d (w\<lparr>objs := put_cell p (g ob) (objs w)\<rparr>)"
  by (simp add: mdefs change_obj_eq)

lemma as_file_with_fd: "as_file ob = Some fl \<Longrightarrow> as_file (with_fd fd ob) = Some (fl\<lparr>f_fd := fd\<rparr>)"
  by (cases ob) (auto simp: fileS.defs)

lemma randopenA_opened:
  assumes "cells (objs w) f = Some ob" and "as_file ob = Some fl"
    and "os_open (w_os w) ''/dev/urandom'' (O_RDONLY OR O_NONBLOCK) (kern w) = (Inr fd, k)"
    and "0 \<le> fd"
  shows "randopenA call c s f w = returnA call c s f
    ((after_call (SysOpen ''/dev/urandom'') k w)\<lparr>objs := put_cell f (with_fd fd ob) (objs w)\<rparr>)"
proof -
  have "obj_as w as_file f = Some fl" using assms(1,2) by (simp add: obj_as_def)
  then show ?thesis using assms by (simp add: randopenA_def sys_open_def runs resfd_def)
qed

lemma randopenA_failed:
  assumes "os_open (w_os w) ''/dev/urandom'' (O_RDONLY OR O_NONBLOCK) (kern w) = (Inl e, k)"
  shows "randopenA call c s f w = errorA call c s f (Some ''open urandom'')
    ((after_call (SysOpen ''/dev/urandom'') k w)\<lparr>errno := e\<rparr>)"
  using assms by (simp add: randopenA_def sys_open_def runs resfd_def)

end
