(* ===== verification/Addr.thy ===== *)
theory Addr
  imports Machine
begin

text \<open>
  \<open>src/meloop/addr.c\<close>: printing and parsing of IPv4 socket addresses, with the functions
  of the C library that it calls: \<open>inet_ntoa\<close>, \<open>inet_pton\<close> (the automaton of glibc,
  which takes no leading zeros) and the byte order functions of a little-endian machine.
\<close>

section \<open>Byte order\<close>

definition htons :: "u16 \<Rightarrow> u16" where
  "htons x = push_bit 8 x OR drop_bit 8 x"

definition ntohs :: "u16 \<Rightarrow> u16" where
  "ntohs = htons"

definition octet :: "nat \<Rightarrow> u32 \<Rightarrow> nat" where
  "octet i x = unat x div 256 ^ i mod 256"

text \<open>The word whose bytes in memory are the given ones.\<close>

definition of_octets :: "nat \<Rightarrow> nat \<Rightarrow> nat \<Rightarrow> nat \<Rightarrow> u32" where
  "of_octets a b c d = of_nat (a + 256 * (b + 256 * (c + 256 * d)))"

definition htonl :: "u32 \<Rightarrow> u32" where
  "htonl x = of_octets (octet 3 x) (octet 2 x) (octet 1 x) (octet 0 x)"

definition INADDR_ANY :: u32 where "INADDR_ANY = 0"

section \<open>Dotted decimal notation\<close>

definition inet_ntoa :: "u32 \<Rightarrow> string" where
  "inet_ntoa x = dec_nat (octet 0 x) @ ''.'' @ dec_nat (octet 1 x) @ ''.'' @
     dec_nat (octet 2 x) @ ''.'' @ dec_nat (octet 3 x)"

definition digit_val :: "char \<Rightarrow> nat option" where
  "digit_val ch = (let n = (of_char ch :: nat) in if 48 \<le> n \<and> n \<le> 57 then Some (n - 48) else None)"

text \<open>\<open>pton4 os cur src\<close>: the numbers \<open>os\<close> are complete, \<open>cur\<close> is the value of the
  digits of the next one, if any were seen.\<close>

fun pton4 :: "nat list \<Rightarrow> nat option \<Rightarrow> string \<Rightarrow> nat list option" where
  "pton4 os cur [] = (case cur of
     None \<Rightarrow> None
   | Some n \<Rightarrow> if length os = 3 then Some (os @ [n]) else None)"
| "pton4 os cur (ch # src) = (case digit_val ch of
     Some d \<Rightarrow> (case cur of
         None \<Rightarrow> if length os \<ge> 4 then None else pton4 os (Some d) src
       | Some n \<Rightarrow> if n = 0 \<or> n * 10 + d > 255 then None else pton4 os (Some (n * 10 + d)) src)
   | None \<Rightarrow> (case cur of
         None \<Rightarrow> None
       | Some n \<Rightarrow> if ch \<noteq> CHR ''.'' \<or> length os = 3 then None else pton4 (os @ [n]) None src))"

definition inet_pton :: "string \<Rightarrow> u32 option" where
  "inet_pton src = (case pton4 [] None src of
     Some [a, b, c, d] \<Rightarrow> Some (of_octets a b c d)
   | _ \<Rightarrow> None)"

section \<open>The functions of the library\<close>

definition ADDRTEMP_SIZE :: nat where "ADDRTEMP_SIZE = 256"

text \<open>\<open>sprintf(addrtemp, "%s:%d", ...)\<close>; the static buffer is returned.\<close>

definition sockaddr_text :: "sockaddr \<Rightarrow> string" where
  "sockaddr_text addrin = inet_ntoa (sin_addr addrin) @ '':'' @ dec_nat (unat (ntohs (sin_port addrin)))"

definition meloop_sockaddr_dump :: "sockaddr \<Rightarrow> ('k, 'u, string) wm" where
  "meloop_sockaddr_dump addrin =
     (if length (sockaddr_text addrin) + 1 > ADDRTEMP_SIZE then mfail BufferOverflow
      else mthen (mmod (\<lambda>w. w\<lparr>addrtemp := sockaddr_text addrin\<rparr>)) (mgets addrtemp))"

definition meloop_sockaddr_parse :: "sockaddr \<Rightarrow> string option \<Rightarrow> u16 \<Rightarrow> int \<times> sockaddr" where
  "meloop_sockaddr_parse addrin addr port =
     (let zeroed = \<lparr>sin_family = 0, sin_port = 0, sin_addr = 0\<rparr>;
          inet = zeroed\<lparr>sin_family := of_int AF_INET\<rparr> in
      case addr of
        None \<Rightarrow> (OK, inet\<lparr>sin_addr := htonl INADDR_ANY, sin_port := htons port\<rparr>)
      | Some text \<Rightarrow> (case inet_pton text of
            None \<Rightarrow> (ERR, inet)
          | Some a \<Rightarrow> (OK, inet\<lparr>sin_addr := a, sin_port := htons port\<rparr>)))"

section \<open>Byte order is an involution\<close>

lemma ntohs_htons [simp]: "ntohs (htons p) = p"
  by (rule bit_word_eqI)
    (auto simp: ntohs_def htons_def bit_or_iff bit_push_bit_iff bit_drop_bit_eq
      dest: bit_imp_le_length)

lemma octet_less [simp]: "octet i x < 256" "octet i x \<le> 255"
proof -
  show "octet i x < 256" by (simp add: octet_def)
  then show "octet i x \<le> 255" by simp
qed

lemma of_octets_octet: "of_octets (octet 0 x) (octet 1 x) (octet 2 x) (octet 3 x) = x"
proof -
  define n where "n = unat x"
  have "n < 256 * (256 * (256 * 256))" using unsigned_less [of x, where 'a = nat] by (simp add: n_def)
  then have top: "n div 256 div 256 div 256 mod 256 = n div 256 div 256 div 256"
    by (simp add: less_mult_imp_div_less mult.commute)
  have o: "octet 0 x = n mod 256" "octet 1 x = n div 256 mod 256"
    "octet 2 x = n div 256 div 256 mod 256" "octet 3 x = n div 256 div 256 div 256 mod 256"
    by (simp_all add: octet_def n_def div_mult2_eq [symmetric])
  have "n mod 256 + 256 * (n div 256 mod 256 + 256 * (n div 256 div 256 mod 256 +
      256 * (n div 256 div 256 div 256))) = n"
    by (simp only: mod_mult_div_eq)
  then show ?thesis by (simp only: of_octets_def o top) (simp add: n_def)
qed

section \<open>Printed addresses can be parsed\<close>

lemma digit_val_digit [simp]: "d < 10 \<Longrightarrow> digit_val (char_of (48 + d :: nat)) = Some d"
  by (simp add: digit_val_def Let_def)

lemma digit_val_dot [simp]: "digit_val CHR ''.'' = None"
  by (simp add: digit_val_def)

lemma pton4_three:
  assumes "h < 10" and "h \<noteq> 0" and "t < 10" and "u < 10" and "h * 10 + t = q" and "q * 10 + u = n"
    and "n < 256" and "length os < 4"
  shows "pton4 os None ([char_of (48 + h), char_of (48 + t), char_of (48 + u :: nat)] @ src) =
    pton4 os (Some n) src"
proof -
  have "q \<noteq> 0" "\<not> 255 < q" "\<not> 255 < n" using assms by simp_all
  with assms show ?thesis by simp
qed

lemma pton4_dec:
  assumes "n < 256" and "length os < 4"
  shows "pton4 os None (dec_nat n @ src) = pton4 os (Some n) src"
proof -
  consider "n < 10" | "10 \<le> n" "n < 100" | "100 \<le> n" by linarith
  then show ?thesis
  proof cases
    case 1
    then show ?thesis using assms by (simp add: dec_nat.simps [of n])
  next
    case 2
    then have "n div 10 < 10" "n div 10 \<noteq> 0" by auto
    with 2 show ?thesis
      using assms by (simp add: dec_nat.simps [of n] dec_nat.simps [of "n div 10"])
  next
    case 3
    let ?h = "n div 10 div 10" and ?t = "n div 10 mod 10" and ?o = "n mod 10"
    have d: "?h < 10" "?h \<noteq> 0" "\<not> n div 10 < 10" "\<not> n < 10" using 3 assms by auto
    have t: "?h * 10 + ?t = n div 10" "n div 10 * 10 + ?o = n" by (rule div_mult_mod_eq)+
    have s: "dec_nat n = [char_of (48 + ?h), char_of (48 + ?t), char_of (48 + ?o)]"
      using d by (simp add: dec_nat.simps [of n] dec_nat.simps [of "n div 10"] dec_nat.simps [of ?h])
    have "?t < 10" "?o < 10" by simp_all
    with pton4_three [OF d(1,2) _ _ t assms, of src] show ?thesis by (simp only: s list.map)
  qed
qed

lemma pton4_inet_ntoa:
  "pton4 [] None (inet_ntoa x) = Some [octet 0 x, octet 1 x, octet 2 x, octet 3 x]"
  using pton4_dec [of "octet 3 x" "[octet 0 x, octet 1 x, octet 2 x]" "[]"]
  by (simp add: inet_ntoa_def pton4_dec)

lemma inet_pton_ntoa: "inet_pton (inet_ntoa x) = Some x"
  using of_octets_octet [of x] by (simp add: inet_pton_def pton4_inet_ntoa)

text \<open>What \<open>inet_pton\<close> accepts are four numbers below 256.\<close>

lemma pton4_bounds:
  "pton4 os cur src = Some ns \<Longrightarrow> \<forall>n \<in> set os. n < 256 \<Longrightarrow> \<forall>n. cur = Some n \<longrightarrow> n < 256 \<Longrightarrow>
    length ns = 4 \<and> (\<forall>n \<in> set ns. n < 256)"
proof (induction os cur src rule: pton4.induct)
  case (1 os cur)
  then show ?case by (auto split: option.splits if_splits)
next
  case (2 os cur ch src)
  show ?case
  proof (cases "digit_val ch")
    case None
    with 2 show ?thesis by (auto split: option.splits if_splits)
  next
    case (Some d)
    then have "d \<le> 9" by (auto simp: digit_val_def Let_def split: if_splits)
    with 2 Some show ?thesis by (auto split: option.splits if_splits)
  qed
qed

section \<open>The text of an address fits its buffer\<close>

lemma length_octet: "length (dec_nat (octet i x)) \<le> 3"
  by (rule length_dec_nat_3) (rule less_trans [OF octet_less(1)], simp)

lemma length_inet_ntoa: "length (inet_ntoa x) \<le> 15"
  using length_octet [of 0 x] length_octet [of 1 x] length_octet [of 2 x] length_octet [of 3 x]
  unfolding inet_ntoa_def length_append by simp

lemma length_sockaddr_text: "length (sockaddr_text a) \<le> 21"
proof -
  have "unat (ntohs (sin_port a)) < 100000"
    using unsigned_less [of "ntohs (sin_port a)", where 'a = nat] by simp
  from length_dec_nat_5 [OF this] length_inet_ntoa [of "sin_addr a"] show ?thesis
    by (simp add: sockaddr_text_def)
qed

lemma dump_eq:
  "meloop_sockaddr_dump a w = Inr (sockaddr_text a, w\<lparr>addrtemp := sockaddr_text a\<rparr>)"
  using length_sockaddr_text [of a]
  by (simp add: meloop_sockaddr_dump_def ADDRTEMP_SIZE_def mdefs)

lemma dump_bind [runs]:
  "mbind (meloop_sockaddr_dump a) k w = k (sockaddr_text a) (w\<lparr>addrtemp := sockaddr_text a\<rparr>)"
  by (simp add: mbind_apply dump_eq)

lemma parse_any: "meloop_sockaddr_parse a None p =
    (OK, \<lparr>sin_family = 2, sin_port = htons p, sin_addr = 0\<rparr>)"
  by (simp add: meloop_sockaddr_parse_def Let_def AF_INET_def htonl_def octet_def of_octets_def
      INADDR_ANY_def)

lemma parse_text: "inet_pton t = Some x \<Longrightarrow> meloop_sockaddr_parse a (Some t) p =
    (OK, \<lparr>sin_family = 2, sin_port = htons p, sin_addr = x\<rparr>)"
  by (simp add: meloop_sockaddr_parse_def Let_def AF_INET_def)

lemma parse_error: "inet_pton t = None \<Longrightarrow> meloop_sockaddr_parse a (Some t) p =
    (ERR, \<lparr>sin_family = 2, sin_port = 0, sin_addr = 0\<rparr>)"
  by (simp add: meloop_sockaddr_parse_def Let_def AF_INET_def)

lemma parse_print: "meloop_sockaddr_parse a (Some (inet_ntoa x)) p =
    (OK, \<lparr>sin_family = 2, sin_port = htons p, sin_addr = x\<rparr>)"
  by (rule parse_text) (rule inet_pton_ntoa)

end
