(* ===== verification/Tcp.thy ===== *)
theory Tcp
  imports Stream_Arrow Addr
begin

text \<open>
  \<open>src/meloop/tcp.c\<close>: listening, accepting and connecting. The client's state machine is the
  field \<open>status\<close> of \<open>struct tcpclientP\<close>: the first call of \<open>connectA\<close> starts a
  connection, a later one in the state \<open>CONNECTING\<close> asks how it ended.
\<close>

section \<open>The server\<close>

fun on_bind :: "sockaddr \<Rightarrow> obj \<Rightarrow> obj" where
  "on_bind sa (O_tcpserverP p) = O_tcpserverP (p\<lparr>bind_addr := sa\<rparr>)"
| "on_bind sa ob = ob"

definition store_fd :: "int \<Rightarrow> ptr \<Rightarrow> ('k, 'u, unit) wm" where
  "store_fd fd f = mbind (load_as as_file f) (\<lambda>_. change_obj (with_fd fd) f)" \<comment> \<open>\<open>f->fd = fd\<close>\<close>

definition listenA :: "('k, 'u) calls \<Rightarrow> ptr \<Rightarrow> ptr \<Rightarrow> ptr \<Rightarrow> ptr \<Rightarrow> ('k, 'u, unit) wm" where
  "listenA call c s f priv =
     mbind (load_as as_tcpserverP priv) (\<lambda>p.
     let addr = snd (meloop_sockaddr_parse (bind_addr p) (bindaddr p) (bindport p)) in
     mthen (change_obj (on_bind addr) priv)
     (mbind (syscall (SysSocket AF_INET (SOCK_STREAM OR SOCK_NONBLOCK))
        (\<lambda>os. os_socket os AF_INET (SOCK_STREAM OR SOCK_NONBLOCK) 0)) (\<lambda>r.
      let fd = resfd r in
      mbind (syscall (SysReuse fd) (\<lambda>os. os_reuseaddr os fd)) (\<lambda>_.
      mbind (syscall (SysBind fd) (\<lambda>os. os_bind os fd addr)) (\<lambda>rb.
      if res0 rb \<noteq> 0 then
        mbind (meloop_sockaddr_dump addr) (\<lambda>txt. errorA call c s f (Some (''Cannot bind on: '' @ txt)))
      else mbind (syscall (SysListen fd) (\<lambda>os. os_listen os fd (backlog p))) (\<lambda>rl.
        if res0 rl \<noteq> 0 then
          mbind (meloop_sockaddr_dump addr) (\<lambda>txt. errorA call c s f (Some (''Cannot listen on: '' @ txt)))
        else mthen (store_fd fd f) (returnA call c s f)))))))"

definition acceptA :: "('k, 'u) calls \<Rightarrow> ptr \<Rightarrow> ptr \<Rightarrow> ptr \<Rightarrow> ptr \<Rightarrow> ('k, 'u, unit) wm" where
  "acceptA call c s f priv =
     mbind (load_as as_file f) (\<lambda>fl.
     mbind (syscall (SysAccept (f_fd fl)) (\<lambda>os. os_accept4 os (f_fd fl) SOCK_NONBLOCK)) (\<lambda>r.
     case r of
       Inl _ \<Rightarrow>
         mbind (mgets errno) (\<lambda>en.
         if en = EAGAIN \<or> en = EWOULDBLOCK then
           mbind (load_as as_tcpserverP priv) (\<lambda>p. waitA call c s f (f_fd fl) EPOLLIN (epollflags p))
         else errorA call c s f (Some ''accept4''))
     | Inr client \<Rightarrow>
         mbind (load_as as_tcpserverP priv) (\<lambda>p.
         mthen (case client_connected p of
             Some h \<Rightarrow> call (OnConn h c s (fst client) (snd client))
           | None \<Rightarrow> mret ())
           (returnA call c s f))))"

section \<open>The client\<close>

definition TC_IDLE :: int where "TC_IDLE = 1"
definition TC_CONNECTING :: int where "TC_CONNECTING = 2"
definition TC_CONNECTED :: int where "TC_CONNECTED = 3"
definition TC_FAILED :: int where "TC_FAILED = 4"

fun on_conn :: "(tcpconnS \<Rightarrow> tcpconnS) \<Rightarrow> obj \<Rightarrow> obj" where
  "on_conn g (O_tcpconn c) = O_tcpconn (g c)"
| "on_conn g ob = ob"

definition set_conn :: "(tcpconnS \<Rightarrow> tcpconnS) \<Rightarrow> ptr \<Rightarrow> ('k, 'u, unit) wm" where
  "set_conn g p = mbind (load_as as_tcpconn p) (\<lambda>_. change_obj (on_conn g) p)"

definition set_status :: "int \<Rightarrow> ptr \<Rightarrow> ('k, 'u, unit) wm" where
  \<comment> \<open>\<open>priv->status = st\<close>\<close>
  "set_status st p = mbind (load_as as_tcpclientP p) (\<lambda>_. change_obj (with_status st) p)"

definition connect_local :: "('k, 'u) calls \<Rightarrow> ptr \<Rightarrow> ptr \<Rightarrow> ptr \<Rightarrow> ('k, 'u, unit) wm" where
  "connect_local call c s conn =
     mbind (load_as as_tcpconn conn) (\<lambda>cn.
     mbind (syscall (SysSockname (f_fd cn)) (\<lambda>os. os_getsockname os (f_fd cn))) (\<lambda>r.
     case r of
       Inl _ \<Rightarrow> errorA call c s conn (Some ''getsockname'')
     | Inr sa \<Rightarrow> mthen (set_conn (\<lambda>cn. cn\<lparr>localaddr := sa\<rparr>) conn) (returnA call c s conn)))"

definition connect_continue :: "('k, 'u) calls \<Rightarrow> ptr \<Rightarrow> ptr \<Rightarrow> ptr \<Rightarrow> ptr \<Rightarrow> ('k, 'u, unit) wm" where
  "connect_continue call c s conn priv =
     mbind (load_as as_tcpclientP priv) (\<lambda>p.
     if tc_status p = TC_CONNECTING then
       mbind (load_as as_tcpconn conn) (\<lambda>cn.
       mbind (syscall (SysSoError (f_fd cn)) (\<lambda>os. os_so_error os (f_fd cn))) (\<lambda>r.
       case r of
         Inl _ \<Rightarrow> mseq [set_status TC_FAILED priv, errorA call c s conn (Some ''getsockopt'')]
       | Inr err \<Rightarrow>
           if err \<noteq> OK then mseq [
             set_status TC_FAILED priv,
             set_errno err,
             errorA call c s conn (Some ''TCP connect''),
             mbind (load_as as_tcpconn conn) (\<lambda>cn. mbind (meloop_ev_dearm (f_fd cn)) (\<lambda>_. mret ())),
             mbind (load_as as_tcpconn conn) (\<lambda>cn. mbind (sys_close (f_fd cn)) (\<lambda>_. mret ()))]
           else mseq [set_status TC_CONNECTED priv, connect_local call c s conn]))
     else connect_local call c s conn)"

text \<open>
  The loop over the results of \<open>getaddrinfo\<close>. The variable \<open>fd\<close> has no value (\<open>None\<close>)
  before the first socket is made; the second result is \<open>try\<close> after the loop.
\<close>

primrec connect_try :: "addrinfo list \<Rightarrow> int option \<Rightarrow> ('k, 'u, int option \<times> addrinfo option) wm" where
  "connect_try [] fd = mret (fd, None)"
| "connect_try (a # rest) fd0 =
     mbind (syscall (SysSocket (ai_family a) (ai_socktype a OR SOCK_NONBLOCK))
       (\<lambda>os. os_socket os (ai_family a) (ai_socktype a OR SOCK_NONBLOCK) (ai_protocol a))) (\<lambda>r.
     let fd = resfd r in
     if fd < 0 then connect_try rest (Some fd)
     else mbind (syscall (SysConnect fd) (\<lambda>os. os_connect os fd (ai_addr a))) (\<lambda>rc.
       if res0 rc = OK then mret (Some fd, Some a)
       else mbind (mgets errno) (\<lambda>en.
         if en = EINPROGRESS then mret (Some fd, Some a)
         else mbind (sys_close fd) (\<lambda>_. connect_try rest (Some (-1))))))"

definition freeaddrinfo :: "('k, 'u, unit) wm" where
  "freeaddrinfo = mbind (mgets (\<lambda>w. os_freeaddrinfo (w_os w) (errno w))) set_errno"

definition connectA :: "('k, 'u) calls \<Rightarrow> ptr \<Rightarrow> ptr \<Rightarrow> ptr \<Rightarrow> ptr \<Rightarrow> ('k, 'u, unit) wm" where
  "connectA call c s conn priv =
     mbind (load_as as_tcpclientP priv) (\<lambda>p.
     if tc_status p = TC_CONNECTING then connect_continue call c s conn priv
     else mbind (syscall SysResolve (\<lambda>os k. let (res, k') = os_getaddrinfo os (tc_hostname p) (tc_port p) k
                in (Inr res, k'))) (\<lambda>res.
       case res of
         Inr (Some result) \<Rightarrow>
           mbind (connect_try result None) (\<lambda>(fd, try_info).
           case fd of
             None \<Rightarrow> mfail Indeterminate
           | Some fd \<Rightarrow>
             if fd < 0 then mseq [freeaddrinfo, errorA call c s conn (Some ''TCP connect'')]
             else (case try_info of
               None \<Rightarrow> mfail (NullDeref HObj)
             | Some a \<Rightarrow> mseq [
                 set_conn (\<lambda>cn. cn\<lparr>remoteaddr := ai_addr a\<rparr>) conn,
                 set_conn (\<lambda>cn. cn\<lparr>f_fd := fd\<rparr>) conn,
                 freeaddrinfo,
                 mbind (mgets errno) (\<lambda>en.
                 if en = EINPROGRESS then mseq [
                   set_status TC_CONNECTING priv,
                   mbind (load_as as_tcpconn conn) (\<lambda>cn.
                   mbind (load_as as_ioP priv) (\<lambda>p.
                   waitA call c s conn (f_fd cn) EPOLLOUT (epollflags p)))]
                 else mseq [
                   set_status TC_CONNECTED priv,
                   connect_continue call c s conn priv,
                   returnA call c s conn])]))
       | _ \<Rightarrow> errorA call c s conn (Some ''Name resolution failed.'')))"

section \<open>Monotonicity and invariants\<close>

lemma less_fuel_listenA [mono_intros]:
  assumes "calls_le f g"
  shows "less_fuel (listenA f c s d p) (listenA g c s d p)"
  unfolding listenA_def Let_def by (intro mono_intros less_fuel_call [OF assms] assms)

lemma less_fuel_acceptA [mono_intros]:
  assumes "calls_le f g"
  shows "less_fuel (acceptA f c s d p) (acceptA g c s d p)"
  unfolding acceptA_def by (intro mono_intros less_fuel_call [OF assms] assms)

lemma less_fuel_connect_local [mono_intros]:
  assumes "calls_le f g"
  shows "less_fuel (connect_local f c s d) (connect_local g c s d)"
  unfolding connect_local_def by (intro mono_intros less_fuel_call [OF assms] assms)

lemma less_fuel_connect_continue [mono_intros]:
  assumes "calls_le f g"
  shows "less_fuel (connect_continue f c s d p) (connect_continue g c s d p)"
  unfolding connect_continue_def by (intro mono_intros less_fuel_call [OF assms] assms)

lemma less_fuel_connectA [mono_intros]:
  assumes "calls_le f g"
  shows "less_fuel (connectA f c s d p) (connectA g c s d p)"
  unfolding connectA_def by (intro mono_intros less_fuel_call [OF assms] assms)

context process_invariant
begin

lemma keep_dump [keep_intros]: "keep P F (meloop_sockaddr_dump a)"
  unfolding meloop_sockaddr_dump_def by (intro keep_intros keep_mmod texts) simp

lemma keep_store_fd [keep_intros]: "keep P F (store_fd fd f)"
  unfolding store_fd_def by (intro keep_intros)

lemma keep_set_conn [keep_intros]: "keep P F (set_conn g f)"
  unfolding set_conn_def by (intro keep_intros)

lemma keep_set_status [keep_intros]: "keep P F (set_status st f)"
  unfolding set_status_def by (intro keep_intros)

lemma keep_freeaddrinfo [keep_intros]: "keep P F freeaddrinfo"
  unfolding freeaddrinfo_def by (intro keep_intros)

lemma keep_listenA [keep_intros]: "(\<And>i. keep P F (call i)) \<Longrightarrow> keep P F (listenA call c s f p)"
  unfolding listenA_def Let_def by (intro keep_intros keep_syscall plain_step.intros)

lemma keep_acceptA [keep_intros]: "(\<And>i. keep P F (call i)) \<Longrightarrow> keep P F (acceptA call c s f p)"
  unfolding acceptA_def by (intro keep_intros keep_syscall plain_step.intros)

lemma keep_connect_local [keep_intros]:
  "(\<And>i. keep P F (call i)) \<Longrightarrow> keep P F (connect_local call c s f)"
  unfolding connect_local_def by (intro keep_intros keep_syscall plain_step.intros)

lemma keep_connect_continue [keep_intros]:
  "(\<And>i. keep P F (call i)) \<Longrightarrow> keep P F (connect_continue call c s f p)"
  unfolding connect_continue_def by (intro keep_intros keep_syscall plain_step.intros)

lemma keep_connect_try [keep_intros]: "keep P F (connect_try as fd)"
proof (induction "as" arbitrary: fd)
  case Nil
  show ?case by (simp add: keep_mret)
next
  case (Cons a rest)
  then show ?case
    unfolding connect_try.simps Let_def by (intro keep_intros keep_syscall plain_step.intros Cons)
qed

lemma plain_resolve: "plain_step os k (snd (let (res, k') = os_getaddrinfo os h p k in (Inr res, k')))"
  using k_resolve [of os k h p] by (simp add: split_beta)

lemma keep_connectA [keep_intros]: "(\<And>i. keep P F (call i)) \<Longrightarrow> keep P F (connectA call c s f p)"
  unfolding connectA_def by (intro keep_intros keep_syscall plain_resolve) simp_all

end

section \<open>What the arrows do\<close>

definition obj_set :: "ptr \<Rightarrow> obj \<Rightarrow> ('k, 'u) world \<Rightarrow> ('k, 'u) world" where
  "obj_set p ob w = w\<lparr>objs := put_cell p ob (objs w)\<rparr>"

definition errno_set :: "int \<Rightarrow> ('k, 'u) world \<Rightarrow> ('k, 'u) world" where
  "errno_set e w = w\<lparr>errno := e\<rparr>"

lemma obj_set_simps [simp]:
  "kern (obj_set p ob w) = kern w"
  "w_os (obj_set p ob w) = w_os w"
  "errno (obj_set p ob w) = errno w"
  "trace (obj_set p ob w) = trace w"
  "cells (objs (obj_set p ob w)) q = (if q = p then Some ob else cells (objs w) q)"
  "obj_as (obj_set p ob w) cast q = (if q = p then cast ob else obj_as w cast q)"
  "kern (errno_set e w) = kern w"
  "w_os (errno_set e w) = w_os w"
  "errno (errno_set e w) = e"
  "trace (errno_set e w) = trace w"
  "objs (errno_set e w) = objs w"
  "obj_as (errno_set e w) cast q = obj_as w cast q"
  by (simp_all add: obj_set_def errno_set_def obj_as_def put_cell_def)

lemma obj_as_cell: "cells (objs w) p = Some ob \<Longrightarrow> cast ob = Some a \<Longrightarrow> obj_as w cast p = Some a"
  by (simp add: obj_as_def)

lemma change_then [runs]: "cells (objs w) p = Some ob \<Longrightarrow>
    mthen (change_obj g p) d w = d (obj_set p (g ob) w)"
  by (simp add: mdefs change_obj_eq obj_set_def)

lemma store_fd_then [runs]: "cells (objs w) p = Some ob \<Longrightarrow> as_file ob = Some fl \<Longrightarrow>
    mthen (store_fd fd p) d w = d (obj_set p (with_fd fd ob) w)"
  by (simp add: store_fd_def runs obj_as_cell)

lemma set_conn_then [runs]: "cells (objs w) p = Some (O_tcpconn cn) \<Longrightarrow>
    mthen (set_conn g p) d w = d (obj_set p (O_tcpconn (g cn)) w)"
  by (simp add: set_conn_def runs obj_as_cell [where cast = as_tcpconn])

lemma set_status_then [runs]: "cells (objs w) p = Some ob \<Longrightarrow> as_tcpclientP ob = Some cl \<Longrightarrow>
    mthen (set_status st p) d w = d (obj_set p (with_status st ob) w)"
  by (simp add: set_status_def runs obj_as_cell)

lemma set_errno_then [runs]: "mthen (set_errno e) d w = d (errno_set e w)"
  by (simp add: set_errno_def runs errno_set_def)

lemma freeaddrinfo_then [runs]:
  "mthen freeaddrinfo d w = d (errno_set (os_freeaddrinfo (w_os w) (errno w)) w)"
  by (simp add: freeaddrinfo_def runs)

lemma with_status_casts [simp]:
  "as_tcpclientP ob = Some cl \<Longrightarrow> as_tcpclientP (with_status st ob) = Some (cl\<lparr>tc_status := st\<rparr>)"
  "as_ioP (with_status st ob) = as_ioP ob"
  by (cases ob; auto simp: tcpclientP.defs ioP.defs)+

subsection \<open>Listening and accepting\<close>

definition listen_addr :: "tcpserverP \<Rightarrow> sockaddr" where
  "listen_addr p = snd (meloop_sockaddr_parse (bind_addr p) (bindaddr p) (bindport p))"

lemma listenA_opened:
  assumes "cells (objs w) priv = Some (O_tcpserverP p)"
    and "cells (objs w) f = Some ob" and "as_file ob = Some fl" and "f \<noteq> priv"
    and "os_socket (w_os w) AF_INET (SOCK_STREAM OR SOCK_NONBLOCK) 0 (kern w) = (Inr fd, k1)"
    and "os_reuseaddr (w_os w) fd k1 = (Inr (), k2)"
    and "os_bind (w_os w) fd (listen_addr p) k2 = (Inr (), k3)"
    and "os_listen (w_os w) fd (backlog p) k3 = (Inr (), k4)"
  shows "listenA call c s f priv w = returnA call c s f (obj_set f (with_fd fd ob)
    (after_call (SysListen fd) k4 (after_call (SysBind fd) k3 (after_call (SysReuse fd) k2
    (after_call (SysSocket AF_INET (SOCK_STREAM OR SOCK_NONBLOCK)) k1
    (obj_set priv (O_tcpserverP (p\<lparr>bind_addr := listen_addr p\<rparr>)) w))))))"
proof -
  have "obj_as w as_tcpserverP priv = Some p" using assms(1) by (simp add: obj_as_def)
  then show ?thesis
    using assms by (simp add: listenA_def listen_addr_def [symmetric] runs Let_def resfd_def res0_def)
qed

lemma listenA_bind_fails:
  assumes "cells (objs w) priv = Some (O_tcpserverP p)"
    and "os_socket (w_os w) AF_INET (SOCK_STREAM OR SOCK_NONBLOCK) 0 (kern w) = (Inr fd, k1)"
    and "os_reuseaddr (w_os w) fd k1 = (Inr (), k2)"
    and "os_bind (w_os w) fd (listen_addr p) k2 = (Inl e, k3)"
  shows "\<exists>w'. listenA call c s f priv w =
      errorA call c s f (Some (''Cannot bind on: '' @ sockaddr_text (listen_addr p))) w' \<and> errno w' = e \<and>
      trace w' = trace w @ [SysSocket AF_INET (SOCK_STREAM OR SOCK_NONBLOCK), SysReuse fd, SysBind fd]"
proof -
  have "obj_as w as_tcpserverP priv = Some p" using assms(1) by (simp add: obj_as_def)
  then show ?thesis
    using assms
    by (auto simp: listenA_def listen_addr_def [symmetric] runs Let_def resfd_def res0_def)
qed

lemma acceptA_client:
  assumes "obj_as w as_file f = Some fl" and "obj_as w as_tcpserverP priv = Some p"
    and "client_connected p = Some h"
    and "os_accept4 (w_os w) (f_fd fl) SOCK_NONBLOCK (kern w) = (Inr (fd, sa), k)"
  shows "acceptA call c s f priv w = mthen (call (OnConn h c s fd sa)) (returnA call c s f)
    (after_call (SysAccept (f_fd fl)) k w)"
  using assms by (simp add: acceptA_def runs)

lemma acceptA_again:
  assumes "obj_as w as_file f = Some fl" and "obj_as w as_tcpserverP priv = Some p"
    and "os_accept4 (w_os w) (f_fd fl) SOCK_NONBLOCK (kern w) = (Inl EAGAIN, k)"
  shows "acceptA call c s f priv w = waitA call c s f (f_fd fl) EPOLLIN (epollflags p)
    ((after_call (SysAccept (f_fd fl)) k w)\<lparr>errno := EAGAIN\<rparr>)"
  using assms by (simp add: acceptA_def runs)

lemma acceptA_fails:
  assumes "obj_as w as_file f = Some fl"
    and "os_accept4 (w_os w) (f_fd fl) SOCK_NONBLOCK (kern w) = (Inl e, k)" and "e \<noteq> EAGAIN"
  shows "acceptA call c s f priv w = errorA call c s f (Some ''accept4'')
    ((after_call (SysAccept (f_fd fl)) k w)\<lparr>errno := e\<rparr>)"
  using assms by (simp add: acceptA_def runs EAGAIN_def EWOULDBLOCK_def)

subsection \<open>Connecting\<close>

lemma connect_local_ok:
  assumes "cells (objs w) conn = Some (O_tcpconn cn)"
    and "os_getsockname (w_os w) (f_fd cn) (kern w) = (Inr sa, k)"
  shows "connect_local call c s conn w = returnA call c s conn
    (obj_set conn (O_tcpconn (cn\<lparr>localaddr := sa\<rparr>)) (after_call (SysSockname (f_fd cn)) k w))"
proof -
  have "obj_as w as_tcpconn conn = Some cn" using assms(1) by (simp add: obj_as_def)
  then show ?thesis using assms by (simp add: connect_local_def runs)
qed

lemma connectA_completed:
  assumes "cells (objs w) priv = Some ob" and "as_tcpclientP ob = Some cl"
    and "tc_status cl = TC_CONNECTING"
    and "cells (objs w) conn = Some (O_tcpconn cn)" and "conn \<noteq> priv"
    and "os_so_error (w_os w) (f_fd cn) (kern w) = (Inr 0, k1)"
    and "os_getsockname (w_os w) (f_fd cn) k1 = (Inr sa, k2)"
  shows "connectA call c s conn priv w = returnA call c s conn
    (obj_set conn (O_tcpconn (cn\<lparr>localaddr := sa\<rparr>)) (after_call (SysSockname (f_fd cn)) k2
      (obj_set priv (with_status TC_CONNECTED ob) (after_call (SysSoError (f_fd cn)) k1 w))))"
proof -
  have "obj_as w as_tcpconn conn = Some cn" "obj_as w as_tcpclientP priv = Some cl"
    using assms by (simp_all add: obj_as_def)
  then show ?thesis
    using assms by (simp add: connectA_def connect_continue_def runs OK_def connect_local_ok)
qed

lemma connectA_refused:
  assumes "cells (objs w) priv = Some ob" and "as_tcpclientP ob = Some cl"
    and "tc_status cl = TC_CONNECTING"
    and "obj_as w as_tcpconn conn = Some cn" and "conn \<noteq> priv"
    and "os_so_error (w_os w) (f_fd cn) (kern w) = (Inr err, k1)" and "err \<noteq> 0"
  shows "connectA call c s conn priv w = mseq [
      errorA call c s conn (Some ''TCP connect''),
      mbind (load_as as_tcpconn conn) (\<lambda>cn. mbind (meloop_ev_dearm (f_fd cn)) (\<lambda>_. mret ())),
      mbind (load_as as_tcpconn conn) (\<lambda>cn. mbind (sys_close (f_fd cn)) (\<lambda>_. mret ()))]
    (errno_set err (obj_set priv (with_status TC_FAILED ob) (after_call (SysSoError (f_fd cn)) k1 w)))"
proof -
  have "obj_as w as_tcpclientP priv = Some cl" using assms by (simp add: obj_as_def)
  then show ?thesis
    using assms by (simp add: connectA_def connect_continue_def runs OK_def)
qed

text \<open>The loop over the addresses keeps a socket only together with its address.\<close>

lemma connect_try_result:
  "connect_try ais fd0 w = Inr ((fd, a), w') \<Longrightarrow> (\<forall>x. fd0 = Some x \<longrightarrow> x < 0) \<Longrightarrow>
    (case fd of
      None \<Rightarrow> ais = [] \<and> fd0 = None \<and> a = None
    | Some n \<Rightarrow> if n < 0 then a = None else (\<exists>ai \<in> set ais. a = Some ai))"
proof (induction ais arbitrary: fd0 w)
  case Nil
  then show ?case by (auto simp: mdefs split: option.splits)
next
  case (Cons ai rest)
  define Q where "Q \<longleftrightarrow> (case fd of None \<Rightarrow> False
    | Some n \<Rightarrow> if n < 0 then a = None else (\<exists>ai \<in> set (ai # rest). a = Some ai))"
  have IH: "connect_try rest (Some x) v = Inr ((fd, a), w') \<Longrightarrow> x < 0 \<Longrightarrow> Q" for x v
    using Cons.IH [of "Some x" v] by (auto simp: Q_def split: option.splits if_splits)
  have kept: "fd = Some n \<Longrightarrow> a = Some ai \<Longrightarrow> \<not> n < 0 \<Longrightarrow> Q" for n
    by (simp add: Q_def)
  obtain r w1 where run: "(if resfd r < 0 then connect_try rest (Some (resfd r))
      else mbind (syscall (SysConnect (resfd r)) (\<lambda>os. os_connect os (resfd r) (ai_addr ai))) (\<lambda>rc.
       if res0 rc = OK then mret (Some (resfd r), Some ai)
       else mbind (mgets errno) (\<lambda>en.
         if en = EINPROGRESS then mret (Some (resfd r), Some ai)
         else mbind (sys_close (resfd r)) (\<lambda>_. connect_try rest (Some (-1)))))) w1 = Inr ((fd, a), w')"
    using Cons.prems(1) by (auto simp: mbind_Inr_iff [of "syscall _ _"] Let_def simp del: if_split)
  have "Q"
  proof (cases "resfd r < 0")
    case True
    with run IH show ?thesis by simp
  next
    case False
    with run obtain rc w2 where "(if res0 rc = OK then mret (Some (resfd r), Some ai)
       else mbind (mgets errno) (\<lambda>en.
         if en = EINPROGRESS then mret (Some (resfd r), Some ai)
         else mbind (sys_close (resfd r)) (\<lambda>_. connect_try rest (Some (-1))))) w2 = Inr ((fd, a), w')"
      by (auto simp: mbind_Inr_iff [of "syscall _ _"])
    then show ?thesis
      using kept [of "resfd r"] IH [of "-1"] False
      by (auto simp: mret_apply mbind_Inr_iff [of "sys_close _"] runs split: if_splits)
  qed
  then show ?case by (auto simp: Q_def split: option.splits if_splits)
qed

definition immediate :: "('k, 'u) world \<Rightarrow> tcpclientP \<Rightarrow> addrinfo \<Rightarrow> int \<Rightarrow> int + unit \<Rightarrow> 'k \<Rightarrow> bool" where
  \<comment> \<open>the name resolves to \<open>a\<close> first, and the first connection attempt has the result \<open>r\<close>\<close>
  "immediate w cl a fd r k3 \<longleftrightarrow> 0 \<le> fd \<and> (\<exists>rest k1 k2.
     os_getaddrinfo (w_os w) (tc_hostname cl) (tc_port cl) (kern w) = (Some (a # rest), k1) \<and>
     os_socket (w_os w) (ai_family a) (ai_socktype a OR SOCK_NONBLOCK) (ai_protocol a) k1 = (Inr fd, k2) \<and>
     os_connect (w_os w) fd (ai_addr a) k2 = (r, k3))"

definition attempted :: "addrinfo \<Rightarrow> int \<Rightarrow> 'k \<Rightarrow> ('k, 'u) world \<Rightarrow> ('k, 'u) world" where
  "attempted a fd k3 w = w\<lparr>kern := k3, trace := trace w @ [SysResolve,
     SysSocket (ai_family a) (ai_socktype a OR SOCK_NONBLOCK), SysConnect fd]\<rparr>"

lemma attempted_simps [simp]:
  "kern (attempted a fd k w) = k" "w_os (attempted a fd k w) = w_os w"
  "objs (attempted a fd k w) = objs w" "errno (attempted a fd k w) = errno w"
  "obj_as (attempted a fd k w) cast p = obj_as w cast p"
  by (simp_all add: attempted_def)

lemma after_calls_attempted [simp]:
  "after_call (SysConnect fd) k3 (after_call (SysSocket (ai_family a) (ai_socktype a OR SOCK_NONBLOCK)) k2
     (after_call SysResolve k1 w)) = attempted a fd k3 w"
  by (simp add: after_call_def attempted_def)

lemma errno_obj_set [simp]:
  "(attempted a fd k w)\<lparr>errno := e\<rparr> = errno_set e (attempted a fd k w)"
  "obj_set p ob (obj_set p ob' w) = obj_set p ob w"
  by (simp_all add: errno_set_def obj_set_def put_cell_def)

lemma connectA_in_progress:
  assumes "cells (objs w) priv = Some ob" and "as_tcpclientP ob = Some cl" and "as_ioP ob = Some io"
    and "tc_status cl \<noteq> TC_CONNECTING"
    and "cells (objs w) conn = Some (O_tcpconn cn)" and "conn \<noteq> priv"
    and "immediate w cl a fd (Inl EINPROGRESS) k"
    and "os_freeaddrinfo (w_os w) EINPROGRESS = EINPROGRESS"
  shows "connectA call c s conn priv w = waitA call c s conn fd EPOLLOUT (epollflags io)
    (obj_set priv (with_status TC_CONNECTING ob)
      (errno_set EINPROGRESS (obj_set conn (O_tcpconn (cn\<lparr>remoteaddr := ai_addr a, f_fd := fd\<rparr>))
        (errno_set EINPROGRESS (attempted a fd k w)))))"
proof -
  have "obj_as w as_tcpclientP priv = Some cl" using assms by (simp add: obj_as_def)
  then show ?thesis
    using assms
    by (auto simp: connectA_def immediate_def runs resfd_def res0_def OK_def)
qed

lemma connect_continue_connected:
  assumes "obj_as w as_tcpclientP priv = Some cl" and "tc_status cl = TC_CONNECTED"
  shows "connect_continue call c s conn priv w = connect_local call c s conn w"
  using assms
  by (simp add: connect_continue_def runs TC_CONNECTED_def TC_CONNECTING_def)

text \<open>A connection that is there at once: the circuit is resumed twice.\<close>

lemma connectA_immediate:
  assumes "cells (objs w) priv = Some ob" and "as_tcpclientP ob = Some cl"
    and "tc_status cl \<noteq> TC_CONNECTING"
    and "cells (objs w) conn = Some (O_tcpconn cn)" and "conn \<noteq> priv"
    and "immediate w cl a fd (Inr ()) k"
    and "os_freeaddrinfo (w_os w) (errno w) = e" and "e \<noteq> EINPROGRESS"
    and "os_getsockname (w_os w) fd k = (Inr sa, k4)"
  shows "connectA call c s conn priv w = mthen (returnA call c s conn) (returnA call c s conn)
    (obj_set conn (O_tcpconn (cn\<lparr>remoteaddr := ai_addr a, f_fd := fd, localaddr := sa\<rparr>))
      (after_call (SysSockname fd) k4 (obj_set priv (with_status TC_CONNECTED ob)
        (errno_set e (obj_set conn (O_tcpconn (cn\<lparr>remoteaddr := ai_addr a, f_fd := fd\<rparr>))
          (attempted a fd k w))))))"
proof -
  have "obj_as w as_tcpclientP priv = Some cl" using assms by (simp add: obj_as_def)
  then show ?thesis
    using assms
    by (auto simp: connectA_def immediate_def runs resfd_def res0_def OK_def
        mthen_apply [of "connect_continue _ _ _ _ _"] mthen_apply [of "returnA _ _ _ _"]
        connect_continue_connected connect_local_ok)
qed

text \<open>No address at all: the descriptor is read before it has a value.\<close>

lemma connectA_no_address:
  assumes "obj_as w as_tcpclientP priv = Some cl" and "tc_status cl \<noteq> TC_CONNECTING"
    and "os_getaddrinfo (w_os w) (tc_hostname cl) (tc_port cl) (kern w) = (Some [], k)"
  shows "connectA call c s conn priv w = Inl Indeterminate"
  using assms by (simp add: connectA_def runs mfail_apply)

lemma connectA_no_name:
  assumes "obj_as w as_tcpclientP priv = Some cl" and "tc_status cl \<noteq> TC_CONNECTING"
    and "os_getaddrinfo (w_os w) (tc_hostname cl) (tc_port cl) (kern w) = (None, k)"
  shows "connectA call c s conn priv w =
    errorA call c s conn (Some ''Name resolution failed.'') (after_call SysResolve k w)"
  using assms by (simp add: connectA_def runs)

end
