(* ===== verification/Log.thy ===== *)
theory Log
  imports Invariant
begin

text \<open>
  \<open>src/meloop/logging.c\<close>. The enumeration \<open>logging_verbosity\<close> is an instance of
  \<open>linorder\<close>, in the order of its constants in C.
\<close>

section \<open>Verbosity levels are ordered\<close>

fun level_index :: "logging_verbosity \<Rightarrow> nat" where
  "level_index LOGGING_SILENT = 0"
| "level_index LOGGING_ERROR = 1"
| "level_index LOGGING_WARNING = 2"
| "level_index LOGGING_INFO = 3"
| "level_index LOGGING_DEBUG = 4"

lemma level_index_inj: "level_index a = level_index b \<longleftrightarrow> a = b"
  by (cases a; cases b; simp)

instantiation logging_verbosity :: linorder
begin

definition less_eq_logging_verbosity :: "logging_verbosity \<Rightarrow> logging_verbosity \<Rightarrow> bool" where
  "less_eq_logging_verbosity a b \<longleftrightarrow> level_index a \<le> level_index b"

definition less_logging_verbosity :: "logging_verbosity \<Rightarrow> logging_verbosity \<Rightarrow> bool" where
  "less_logging_verbosity a b \<longleftrightarrow> level_index a < level_index b"

instance
  by standard
    (auto simp: less_eq_logging_verbosity_def less_logging_verbosity_def level_index_inj [symmetric])

end

section \<open>The functions\<close>

definition logging_verbosities :: "string list" where
  "logging_verbosities = [''silent'', ''errr'', ''warn'', ''info'', ''dbug'']"

definition pad4 :: "string \<Rightarrow> string" where
  "pad4 s = s @ replicate (4 - length s) (CHR '' '')" \<comment> \<open>\<open>%-4s\<close>\<close>

definition dprintf :: "int \<Rightarrow> string \<Rightarrow> ('k, 'u, unit) wm" where
  "dprintf fd text = mbind (syscall (SysPrint fd text) (\<lambda>os. os_dprintf os fd text)) (\<lambda>_. mret ())"

definition log_print :: "string \<Rightarrow> ('k, 'u, unit) wm" where
  "log_print text = mbind (mgets logging_fd) (\<lambda>fd. dprintf fd text)"

definition log_header :: "logging_verbosity \<Rightarrow> string \<Rightarrow> int \<Rightarrow> string \<Rightarrow> string" where
  "log_header level fn ln fu = ''['' @ pad4 (logging_verbosities ! level_index level) @ ''] ['' @ fn @ '':''
     @ dec_int ln @ '' '' @ fu @ '']''"

text \<open>The part of the line that explains \<open>errno\<close>.\<close>

definition log_reason :: "logging_verbosity \<Rightarrow> ('k, 'u, unit) wm" where
  "log_reason level = mbind (mgets errno) (\<lambda>en.
     if en \<noteq> 0 \<and> (level = LOGGING_ERROR \<or> level = LOGGING_WARNING)
     then mbind (mgets w_os) (\<lambda>os.
       log_print ('' -- '' @ os_strerror os en @ ''. errno: '' @ dec_int en))
     else mret ())"

text \<open>\<open>format\<close> is the formatted message, \<open>None\<close> the null pointer.\<close>

definition logging_log :: "logging_verbosity \<Rightarrow> string \<Rightarrow> int \<Rightarrow> string \<Rightarrow> string option \<Rightarrow> ('k, 'u, unit) wm" where
  "logging_log level filename lineno func format =
     mbind (mgets verbosity) (\<lambda>v.
     if level > v then mret ()
     else mseq [
       log_print (log_header level filename lineno func),
       case format of None \<Rightarrow> mret () | Some text \<Rightarrow> mseq [log_print '' '', log_print text],
       log_reason level,
       log_print ''\<newline>''])"

definition logging_verbosity_from_string :: "string \<Rightarrow> logging_verbosity" where
  "logging_verbosity_from_string s =
     (case s of [] \<Rightarrow> LOGGING_DEBUG
      | c # _ \<Rightarrow>
         if c = CHR ''s'' then LOGGING_SILENT
         else if c = CHR ''e'' then LOGGING_ERROR
         else if c = CHR ''w'' then LOGGING_WARNING
         else if c = CHR ''i'' then LOGGING_INFO
         else LOGGING_DEBUG)"

section \<open>What is printed\<close>

text \<open>Printing never faults, whatever the descriptor does.\<close>

lemma mthen_ret: "mthen (mret ()) d = d"
  by (simp add: mthen_def)

lemma log_print_returns: "\<exists>w'. log_print msg w = Inr ((), w')"
  by (simp add: log_print_def dprintf_def mdefs syscall_def Let_def split: prod.split)

definition returns :: "('w, unit) m \<Rightarrow> bool" where
  "returns c \<longleftrightarrow> (\<forall>w. \<exists>w'. c w = Inr ((), w'))"

lemma returns_then: "returns c \<Longrightarrow> returns d \<Longrightarrow> returns (mthen c d)"
  unfolding returns_def mthen_Inr_iff by blast

lemma returns_mret: "returns (mret ())"
  by (simp add: returns_def mret_apply)

lemma returns_log_print: "returns (log_print msg)"
  unfolding returns_def using log_print_returns by blast

lemma returns_log_reason: "returns (log_reason level)"
  using returns_log_print by (auto simp: returns_def log_reason_def runs mret_apply)

lemma logging_log_returns:
  fixes w :: "('k, 'u) world"
  shows "\<exists>w'. logging_log level fn ln fu msg w = Inr ((), w')"
proof -
  have "returns (mseq [log_print h, case msg of None \<Rightarrow> mret () | Some t \<Rightarrow> mseq [log_print '' '', log_print t],
      log_reason level, log_print ''\<newline>''] :: ('k, 'u, unit) wm)" for h
    unfolding mseq.simps
    by (cases msg) (auto intro!: returns_then returns_mret returns_log_print returns_log_reason)
  from this [of "log_header level fn ln fu"] show ?thesis
    by (simp add: logging_log_def mgets_bind returns_def mret_apply del: mseq.simps)
qed

text \<open>
  \<open>prints w ts w'\<close>: between \<open>w\<close> and \<open>w'\<close> nothing but the texts \<open>ts\<close> was printed.
\<close>

definition prints :: "('k, 'u) world \<Rightarrow> string list \<Rightarrow> ('k, 'u) world \<Rightarrow> bool" where
  "prints w ts w' \<longleftrightarrow> (\<exists>k. w' = w\<lparr>kern := k, trace := trace w @ map (SysPrint (logging_fd w)) ts\<rparr>)"

definition log_works :: "'k os \<Rightarrow> int \<Rightarrow> bool" where
  "log_works os fd \<longleftrightarrow> (\<forall>msg k. fst (os_dprintf os fd msg k) = Inr ())"

lemma log_print_prints:
  assumes "log_works (w_os w) (logging_fd w)"
  shows "\<exists>w'. log_print msg w = Inr ((), w') \<and> prints w [msg] w'"
proof -
  obtain k where "os_dprintf (w_os w) (logging_fd w) msg (kern w) = (Inr (), k)"
    using assms by (metis log_works_def prod.collapse)
  then show ?thesis
    by (auto simp: log_print_def dprintf_def mdefs syscall_def prints_def)
qed

lemma prints_same:
  "prints w ts w' \<Longrightarrow> w_os w' = w_os w \<and> logging_fd w' = logging_fd w \<and> errno w' = errno w"
  by (auto simp: prints_def)

lemma prints_then:
  assumes "log_works (w_os w) (logging_fd w)"
    and "\<And>w'. prints w [msg] w' \<Longrightarrow> \<exists>w''. d w' = Inr ((), w'') \<and> prints w' ts w''"
  shows "\<exists>w''. mthen (log_print msg) d w = Inr ((), w'') \<and> prints w (msg # ts) w''"
proof -
  obtain w' where "log_print msg w = Inr ((), w')" and p: "prints w [msg] w'"
    using log_print_prints [OF assms(1)] by blast
  moreover obtain w'' where "d w' = Inr ((), w'')" "prints w' ts w''" using assms(2) [OF p] by blast
  ultimately show ?thesis by (auto simp: mdefs prints_def)
qed

definition log_errno :: "logging_verbosity \<Rightarrow> ('k, 'u) world \<Rightarrow> string list" where
  "log_errno level w = (if errno w \<noteq> 0 \<and> (level = LOGGING_ERROR \<or> level = LOGGING_WARNING)
     then ['' -- '' @ os_strerror (w_os w) (errno w) @ ''. errno: '' @ dec_int (errno w)] else [])"

lemma logging_log_silent: "level > verbosity w \<Longrightarrow> logging_log level fn ln fu msg w = Inr ((), w)"
  by (simp add: logging_log_def mdefs)

lemma log_errno_same: "prints w ts w' \<Longrightarrow> log_errno level w' = log_errno level w"
  by (simp add: log_errno_def prints_same)

lemma log_last:
  assumes "log_works (w_os w) (logging_fd w)"
  shows "\<exists>w'. mthen (log_reason level) (log_print ''\<newline>'') w = Inr ((), w') \<and>
    prints w (log_errno level w @ [''\<newline>'']) w'"
proof (cases "errno w \<noteq> 0 \<and> (level = LOGGING_ERROR \<or> level = LOGGING_WARNING)")
  case False
  then have "log_reason level w = Inr ((), w)"
    by (auto simp: log_reason_def mgets_bind mret_apply)
  with False log_print_prints [OF assms, of "''\<newline>''"] show ?thesis
    by (auto simp: mthen_apply log_errno_def)
next
  case True
  let ?t = "'' -- '' @ os_strerror (w_os w) (errno w) @ ''. errno: '' @ dec_int (errno w)"
  have "log_reason level w = log_print ?t w"
    using True by (auto simp: log_reason_def mgets_bind)
  moreover have "\<exists>w''. mthen (log_print ?t) (log_print ''\<newline>'') w = Inr ((), w'') \<and>
      prints w [?t, ''\<newline>''] w''"
    using assms by (intro prints_then log_print_prints) (simp_all add: prints_same)
  ultimately show ?thesis using True by (simp add: mthen_apply log_errno_def)
qed

lemma logging_log_prints:
  assumes "level \<le> verbosity w" and "log_works (w_os w) (logging_fd w)"
  shows "\<exists>w'. logging_log level fn ln fu msg w = Inr ((), w') \<and>
    prints w (log_header level fn ln fu #
      (case msg of None \<Rightarrow> [] | Some t \<Rightarrow> ['' '', t]) @ log_errno level w @ [''\<newline>'']) w'"
proof -
  let ?last = "mthen (log_reason level) (log_print ''\<newline>'')"
  have last: "\<exists>w'. ?last v = Inr ((), w') \<and> prints v (log_errno level w @ [''\<newline>'']) w'"
    if "log_works (w_os v) (logging_fd v)" "log_errno level v = log_errno level w" for v
    using log_last [OF that(1), of level] that(2) by simp
  show ?thesis
  proof (cases msg)
    case None
    have "\<exists>w'. mthen (log_print (log_header level fn ln fu)) ?last w = Inr ((), w') \<and>
        prints w (log_header level fn ln fu # log_errno level w @ [''\<newline>'']) w'"
      using assms(2) by (intro prints_then last) (simp_all add: prints_same log_errno_same)
    with None leD [OF assms(1)] show ?thesis
      by (simp add: logging_log_def mgets_bind runs mthen_ret)
  next
    case (Some t)
    have "\<exists>w'. mthen (log_print (log_header level fn ln fu)) (mthen (log_print '' '') (mthen (log_print t) ?last)) w
        = Inr ((), w') \<and>
        prints w (log_header level fn ln fu # '' '' # t # log_errno level w @ [''\<newline>'']) w'"
      using assms(2) by (intro prints_then last) (simp_all add: prints_same log_errno_same)
    with Some leD [OF assms(1)] show ?thesis
      by (simp add: logging_log_def mgets_bind runs)
  qed
qed

lemma from_string_verbosities:
  "logging_verbosity_from_string (logging_verbosities ! level_index level) = level"
  by (cases level) (simp_all add: logging_verbosity_from_string_def logging_verbosities_def)

section \<open>Invariants\<close>

context process_invariant
begin

lemma keep_dprintf [keep_intros]: "keep P F (dprintf fd msg)"
  unfolding dprintf_def by (intro keep_intros keep_syscall plain_step.intros)

lemma keep_log_print [keep_intros]: "keep P F (log_print msg)"
  unfolding log_print_def by (intro keep_intros)

lemma keep_log_reason [keep_intros]: "keep P F (log_reason level)"
  unfolding log_reason_def by (intro keep_intros)

lemma keep_logging_log [keep_intros]: "keep P F (logging_log level fn ln fu msg)"
  unfolding logging_log_def by (intro keep_intros)

end

end
