(* ===== verification/Tls.thy ===== *)
theory Tls
  imports Tcp Log
begin

text \<open>
  \<open>src/meloop/tls.c\<close> and \<open>src/meloop/openssl_helpers.c\<close>: the client side of TLS over
  OpenSSL, which is a parameter of the machine. The static variable \<open>ctx\<close> is the field
  \<open>ssl_ctx\<close> of the process.
\<close>

section \<open>Constants and settings\<close>

definition SSL_ERROR_WANT_READ :: int where "SSL_ERROR_WANT_READ = 2"
definition SSL_ERROR_WANT_WRITE :: int where "SSL_ERROR_WANT_WRITE = 3"
definition SSL_ERROR_WANT_X509_LOOKUP :: int where "SSL_ERROR_WANT_X509_LOOKUP = 4"
definition TLS_NEW :: int where "TLS_NEW = 1"
definition TLS_CONNECTING :: int where "TLS_CONNECTING = 2"
definition TLS_CONNECTED :: int where "TLS_CONNECTED = 3"
definition TLS_VERIFY_DEPTH :: int where "TLS_VERIFY_DEPTH = 5"

definition PREFERRED_CIPHERS :: string where
  "PREFERRED_CIPHERS = ''HIGH:!aNULL:!kRSA:!SRP:!PSK:!CAMELLIA:!RC4:!MD5:!DSS''"

definition ssl_set :: "ssl_setting \<Rightarrow> ptr \<Rightarrow> ('k, 'u, int) wm" where
  "ssl_set st ssl = sslcall (SslSet st) (\<lambda>ossl. os_SSL_set ossl st ssl)"

definition ctx_set :: "ctx_setting \<Rightarrow> ptr \<Rightarrow> ('k, 'u, int) wm" where
  "ctx_set st ctx = sslcall (SslCtxSet st) (\<lambda>ossl. os_SSL_CTX_set ossl st ctx)"

definition ERR_get_error :: "('k, 'u, u64) wm" where
  "ERR_get_error = sslcall SslError os_ERR_get_error"

definition OPENSSL_REASON :: "u64 \<Rightarrow> ('k, 'u, string option) wm" where
  "OPENSSL_REASON e = mgets (\<lambda>w. os_ERR_reason (os_ssl (w_os w)) e)"

text \<open>A null pointer printed with \<open>%s\<close>.\<close>

definition text_of :: "string option \<Rightarrow> string" where
  "text_of t = (case t of None \<Rightarrow> ''(null)'' | Some s \<Rightarrow> s)"

fun on_tls :: "(tlsclientP \<Rightarrow> tlsclientP) \<Rightarrow> obj \<Rightarrow> obj" where
  "on_tls g (O_tlsclientP p) = O_tlsclientP (g p)"
| "on_tls g ob = ob"

definition set_tls :: "(tlsclientP \<Rightarrow> tlsclientP) \<Rightarrow> ptr \<Rightarrow> ('k, 'u, unit) wm" where
  "set_tls g p = mbind (load_as as_tlsclientP p) (\<lambda>_. change_obj (on_tls g) p)"

section \<open>\<open>openssl_helpers.c\<close>\<close>

text \<open>\<open>&(priv->ssl)\<close> is the second argument of every call in the library.\<close>

definition openssl_prepare :: "ptr \<Rightarrow> ptr \<Rightarrow> int \<Rightarrow> string \<Rightarrow> ('k, 'u, u64) wm" where
  "openssl_prepare ctx priv fd hostname =
     mbind (sslcall SslNew (\<lambda>ossl. os_SSL_new ossl ctx)) (\<lambda>ssl.
     mthen (set_tls (\<lambda>p. p\<lparr>tls_ssl := ssl\<rparr>) priv)
     (if ssl = NULL then ERR_get_error
      else
        mbind (ssl_set (Set_fd fd) ssl) (\<lambda>_.
        mbind (ssl_set Set_connect_state ssl) (\<lambda>_.
        mbind (ssl_set (Set1_host hostname) ssl) (\<lambda>res.
        if res \<noteq> 1 then ERR_get_error
        else
          mbind (ssl_set (Set_cipher_list PREFERRED_CIPHERS) ssl) (\<lambda>res.
          if res \<noteq> 1 then ERR_get_error
          else
            mbind (ssl_set (Set_tlsext_host_name hostname) ssl) (\<lambda>res.
            mthen (if res \<noteq> 1 then
                mbind ERR_get_error (\<lambda>sslerr.
                mbind (OPENSSL_REASON sslerr) (\<lambda>reason.
                logging_log LOGGING_ERROR ''meloop/openssl_helpers.c'' 64 ''openssl_prepare''
                  (Some (''SSL_set_tlsext_host_name: '' @ text_of reason))))
              else mret ())
            (mbind (ssl_set Set_hostflags ssl) (\<lambda>_.
            mbind (ssl_set (Set1_host hostname) ssl) (\<lambda>res.
            if res = 0 then ERR_get_error else mret 0))))))))))"

definition verify_error :: "int \<Rightarrow> string \<times> int" where
  \<comment> \<open>the message of \<open>openssl_verify_callback\<close> and the line of its call\<close>
  "verify_error err =
     (if err = 20 then (''X509_V_ERR_UNABLE_TO_GET_ISSUER_CERT_LOCALLY'', 93)
      else if err = 27 then (''X509_V_ERR_CERT_UNTRUSTED'', 95)
      else if err = 19 then (''X509_V_ERR_SELF_SIGNED_CERT_IN_CHAIN'', 97)
      else if err = 9 then (''X509_V_ERR_CERT_NOT_YET_VALID'', 99)
      else if err = 10 then (''X509_V_ERR_CERT_HAS_EXPIRED'', 101)
      else if err = 0 then (''X509_V_OK'', 103)
      else (dec_int err, 105))"

text \<open>OpenSSL calls it during the handshake, with the depth and error of its context.\<close>

definition openssl_verify_callback :: "int \<Rightarrow> int \<Rightarrow> int \<Rightarrow> ('k, 'u, int) wm" where
  "openssl_verify_callback preverify depth err =
     mthen (logging_log LOGGING_INFO ''meloop/openssl_helpers.c'' 89 ''openssl_verify_callback''
       (Some (''verify_callback (depth='' @ dec_int depth @ '')(preverify='' @ dec_int preverify @ '')'')))
     (mthen (if preverify = 0 then
         logging_log LOGGING_ERROR ''meloop/openssl_helpers.c'' (snd (verify_error err))
           ''openssl_verify_callback'' (Some (fst (verify_error err)))
       else mret ())
     (mret preverify))"

text \<open>The context is stored through the argument, which is always \<open>&ctx\<close> of \<open>tls.c\<close>.\<close>

definition openssl_init :: "('k, 'u, u64) wm" where
  "openssl_init =
     mbind (ctx_set Library_init NULL) (\<lambda>_.
     mbind (ctx_set Load_error_strings NULL) (\<lambda>_.
     mbind (mgets (\<lambda>w. os_SSLv23_method (os_ssl (w_os w)))) (\<lambda>method.
     if method = NULL then ERR_get_error
     else
       mbind (sslcall SslCtxNew (\<lambda>ossl. os_SSL_CTX_new ossl method)) (\<lambda>ctx.
       if ctx = NULL then ERR_get_error
       else
         mthen (mmod (\<lambda>w. w\<lparr>ssl_ctx := ctx\<rparr>))
         (mbind (ctx_set Set_verify ctx) (\<lambda>_.
         mbind (ctx_set (Set_verify_depth TLS_VERIFY_DEPTH) ctx) (\<lambda>_.
         mbind (ctx_set Set_options ctx) (\<lambda>_.
         mbind (ctx_set (Load_verify_locations ''/etc/ssl/certs'') ctx) (\<lambda>res.
         mthen (if res \<noteq> 1 then
             mbind ERR_get_error (\<lambda>sslerr.
             mbind (OPENSSL_REASON sslerr) (\<lambda>reason.
             logging_log LOGGING_ERROR ''meloop/openssl_helpers.c'' 164 ''openssl_init''
               (Some (''SSL_CTX_load_verify_locations: '' @ text_of reason))))
           else mret ())
         (mret 0))))))))))"

definition openssl_deinit :: "ptr \<Rightarrow> ('k, 'u, unit) wm" where
  "openssl_deinit c = (if c = NULL then mret ()
     else sslcall SslCtxFree (\<lambda>ossl. os_SSL_CTX_free ossl c))"

section \<open>\<open>tls.c\<close>\<close>

text \<open>\<open>size_t\<close> arguments become an \<open>int\<close>.\<close>

definition to_int :: "u64 \<Rightarrow> int" where
  "to_int n = sint (ucast n :: u32)"

text \<open>\<open>if (sslerr = SSL_ERROR_WANT_READ)\<close> assigns: the condition is the constant.\<close>

definition tlsreadA :: "('k, 'u) calls \<Rightarrow> ptr \<Rightarrow> ptr \<Rightarrow> ptr \<Rightarrow> ptr \<Rightarrow> ('k, 'u, unit) wm" where
  "tlsreadA call c s f priv =
     mbind (load_as as_tlsclientP priv) (\<lambda>p.
     mbind (load_as as_file f) (\<lambda>fl.
     mbind (load_as as_string (f_data fl)) (\<lambda>st.
     mbind (sslcall (SslRead (tls_ssl p)) (\<lambda>ossl. os_SSL_read ossl (tls_ssl p) (to_int (readsize p)))) (\<lambda>r.
     mbind (load_blob (s_blob st)) (\<lambda>old.
     if length (snd r) > length old then mfail BufferOverflow
     else mthen (store_blob (s_blob st) (snd r @ drop (length (snd r)) old))
     (if fst r \<le> 0 then
        mbind ERR_get_error (\<lambda>_.
        let sslerr = SSL_ERROR_WANT_READ in
        if sslerr \<noteq> 0 then waitA call c s f (f_fd fl) EPOLLIN (epollflags p)
        else mbind ERR_get_error (\<lambda>e. mbind (OPENSSL_REASON e) (errorA call c s f)))
      else mthen (set_size (f_data fl) (of_int (fst r))) (returnA call c s f)))))))"

definition tlswriteA :: "('k, 'u) calls \<Rightarrow> ptr \<Rightarrow> ptr \<Rightarrow> ptr \<Rightarrow> ptr \<Rightarrow> ('k, 'u, unit) wm" where
  "tlswriteA call c s f priv =
     mbind (load_as as_file f) (\<lambda>fl.
     mbind (load_as as_string (f_data fl)) (\<lambda>st.
     if s_size st = 0 then errorA call c s f (Some ''Nothing to write'')
     else
       mbind (load_as as_tlsclientP priv) (\<lambda>p.
       mbind (load_blob (s_blob st)) (\<lambda>bs.
       let n = nat (to_int (s_size st)) in
       if n > length bs then mfail BufferOverflow
       else mbind (sslcall (SslWrite (tls_ssl p) (take n bs))
         (\<lambda>ossl. os_SSL_write ossl (tls_ssl p) (to_int (s_size st)) (take n bs))) (\<lambda>r.
       if r \<le> 0 then
         mbind ERR_get_error (\<lambda>_.
         let sslerr = SSL_ERROR_WANT_WRITE in
         if sslerr \<noteq> 0 then waitA call c s f (f_fd fl) EPOLLOUT (epollflags p)
         else mbind ERR_get_error (\<lambda>e. mbind (OPENSSL_REASON e) (errorA call c s f)))
       else returnA call c s f)))))"

definition tls_connected :: "('k, 'u) calls \<Rightarrow> ptr \<Rightarrow> ptr \<Rightarrow> ptr \<Rightarrow> ptr \<Rightarrow> ('k, 'u, unit) wm" where
  \<comment> \<open>the end of \<open>tlsA\<close>\<close>
  "tls_connected call c s f priv = mseq [
     logging_log LOGGING_INFO ''meloop/tls.c'' 111 ''tlsA'' (Some ''SSL Connected''),
     set_tls (\<lambda>p. p\<lparr>tls_status := TLS_CONNECTED\<rparr>) priv,
     set_errno 0,
     returnA call c s f]"

definition tls_handshake :: "('k, 'u) calls \<Rightarrow> ptr \<Rightarrow> ptr \<Rightarrow> ptr \<Rightarrow> ptr \<Rightarrow> ('k, 'u, unit) wm" where
  "tls_handshake call c s f priv =
     mbind (load_as as_tlsclientP priv) (\<lambda>p.
     mbind (sslcall (SslConnect (tls_ssl p)) (\<lambda>ossl. os_SSL_connect ossl (tls_ssl p))) (\<lambda>res.
     if res \<noteq> 1 then
       mbind (sslcall SslError (\<lambda>ossl. os_SSL_get_error ossl (tls_ssl p) res)) (\<lambda>sslerr.
       mbind (load_as as_file f) (\<lambda>fl.
       if sslerr = OK then mseq [
         logging_log LOGGING_INFO ''meloop/tls.c'' 94 ''tlsA'' (Some ''SSL OK''),
         tls_connected call c s f priv]
       else if sslerr = SSL_ERROR_WANT_READ then waitA call c s f (f_fd fl) EPOLLIN (epollflags p)
       else if sslerr = SSL_ERROR_WANT_WRITE then waitA call c s f (f_fd fl) EPOLLOUT (epollflags p)
       else if sslerr = SSL_ERROR_WANT_X509_LOOKUP then
         errorA call c s f (Some ''SSL_ERROR_WANT_X509_LOOKUP'')
       else errorA call c s f (Some (''Error SSL_connect: '' @ dec_int sslerr))))
     else tls_connected call c s f priv))"

definition tlsA :: "('k, 'u) calls \<Rightarrow> ptr \<Rightarrow> ptr \<Rightarrow> ptr \<Rightarrow> ptr \<Rightarrow> ('k, 'u, unit) wm" where
  "tlsA call c s f priv =
     mbind (load_as as_tlsclientP priv) (\<lambda>p.
     if tls_status p \<noteq> TLS_CONNECTING then
       mbind (load_as as_file f) (\<lambda>fl.
       mbind (mgets ssl_ctx) (\<lambda>ctx.
       mbind (openssl_prepare ctx priv (f_fd fl) (tc_hostname p)) (\<lambda>sslerr.
       if sslerr \<noteq> 0 then
         mbind (OPENSSL_REASON sslerr) (\<lambda>reason.
         errorA call c s f (Some (''openssl_prepare -- '' @ text_of reason)))
       else mseq [
         set_tls (\<lambda>p. p\<lparr>tls_status := TLS_CONNECTING\<rparr>) priv,
         tls_handshake call c s f priv])))
     else tls_handshake call c s f priv)"

definition meloop_tls_init :: "('k, 'u, unit) wm" where
  "meloop_tls_init = mbind openssl_init (\<lambda>r.
     if r \<noteq> 0 then mseq [
       logging_log LOGGING_ERROR ''meloop/tls.c'' 126 ''meloop_tls_init'' (Some ''openssl_init''),
       mfail (Exit EXIT_FAILURE)]
     else mret ())"

definition meloop_tls_deinit :: "('k, 'u, unit) wm" where
  "meloop_tls_deinit = mbind (mgets ssl_ctx) openssl_deinit"

section \<open>Monotonicity and invariants\<close>

lemma less_fuel_tlsreadA [mono_intros]:
  assumes "calls_le f g"
  shows "less_fuel (tlsreadA f c s d p) (tlsreadA g c s d p)"
  unfolding tlsreadA_def Let_def by (intro mono_intros less_fuel_call [OF assms] assms)

lemma less_fuel_tlswriteA [mono_intros]:
  assumes "calls_le f g"
  shows "less_fuel (tlswriteA f c s d p) (tlswriteA g c s d p)"
  unfolding tlswriteA_def Let_def by (intro mono_intros less_fuel_call [OF assms] assms)

lemma less_fuel_tls_connected [mono_intros]:
  assumes "calls_le f g"
  shows "less_fuel (tls_connected f c s d p) (tls_connected g c s d p)"
  unfolding tls_connected_def by (intro mono_intros less_fuel_call [OF assms] assms)

lemma less_fuel_tls_handshake [mono_intros]:
  assumes "calls_le f g"
  shows "less_fuel (tls_handshake f c s d p) (tls_handshake g c s d p)"
  unfolding tls_handshake_def by (intro mono_intros less_fuel_call [OF assms] assms)

lemma less_fuel_tlsA [mono_intros]:
  assumes "calls_le f g"
  shows "less_fuel (tlsA f c s d p) (tlsA g c s d p)"
  unfolding tlsA_def by (intro mono_intros less_fuel_call [OF assms] assms)

context process_invariant
begin

lemma keep_ssl_set [keep_intros]: "keep P F (ssl_set st ssl)"
  unfolding ssl_set_def by (intro keep_sslcall plain_step.intros)

lemma keep_ERR_get_error [keep_intros]: "keep P F ERR_get_error"
  unfolding ERR_get_error_def by (intro keep_sslcall plain_step.intros)

lemma keep_OPENSSL_REASON [keep_intros]: "keep P F (OPENSSL_REASON e)"
  unfolding OPENSSL_REASON_def by (intro keep_intros)

lemma keep_set_tls [keep_intros]: "keep P F (set_tls g f)"
  unfolding set_tls_def by (intro keep_intros)

lemma keep_openssl_prepare [keep_intros]: "keep P F (openssl_prepare ctx priv fd h)"
  unfolding openssl_prepare_def by (intro keep_intros keep_sslcall plain_step.intros)

lemma keep_tlsreadA [keep_intros]: "(\<And>i. keep P F (call i)) \<Longrightarrow> keep P F (tlsreadA call c s f p)"
  unfolding tlsreadA_def Let_def by (intro keep_intros keep_sslcall plain_step.intros) simp_all

lemma keep_tlswriteA [keep_intros]: "(\<And>i. keep P F (call i)) \<Longrightarrow> keep P F (tlswriteA call c s f p)"
  unfolding tlswriteA_def Let_def by (intro keep_intros keep_sslcall plain_step.intros) simp_all

lemma keep_tls_connected [keep_intros]:
  "(\<And>i. keep P F (call i)) \<Longrightarrow> keep P F (tls_connected call c s f p)"
  unfolding tls_connected_def by (intro keep_intros)

lemma keep_tls_handshake [keep_intros]:
  "(\<And>i. keep P F (call i)) \<Longrightarrow> keep P F (tls_handshake call c s f p)"
  unfolding tls_handshake_def by (intro keep_intros keep_sslcall plain_step.intros)

lemma keep_tlsA [keep_intros]: "(\<And>i. keep P F (call i)) \<Longrightarrow> keep P F (tlsA call c s f p)"
  unfolding tlsA_def by (intro keep_intros)

end

section \<open>What the functions do\<close>

lemma sslcall_bind [runs]: "f (os_ssl (w_os w)) (errno w) (kern w) = (r, e, k) \<Longrightarrow>
    mbind (sslcall sc f) K w = K r ((after_call sc k w)\<lparr>errno := e\<rparr>)"
  by (simp add: mdefs sslcall_def after_call_def)

text \<open>A certificate that OpenSSL rejects stays rejected, and logging cannot fail.\<close>

lemma verify_callback_result:
  "\<exists>w'. openssl_verify_callback preverify depth err w = Inr (preverify, w')"
proof -
  obtain w1 where l: "logging_log LOGGING_INFO ''meloop/openssl_helpers.c'' 89 ''openssl_verify_callback''
       (Some (''verify_callback (depth='' @ dec_int depth @ '')(preverify='' @ dec_int preverify @ '')'')) w
    = Inr ((), w1)"
    using logging_log_returns by blast
  obtain w2 where "logging_log LOGGING_ERROR ''meloop/openssl_helpers.c'' (snd (verify_error err))
       ''openssl_verify_callback'' (Some (fst (verify_error err))) w1 = Inr ((), w2)"
    using logging_log_returns by blast
  with l show ?thesis
    unfolding openssl_verify_callback_def by (simp add: l mthen_apply mret_apply)
qed

text \<open>A read that gives no data waits for more, whatever the reason OpenSSL has.\<close>

lemma tlsreadA_no_data:
  assumes "obj_as w as_tlsclientP priv = Some p" and "obj_as w as_file f = Some fl"
    and "obj_as w as_string (f_data fl) = Some st" and "cells (blobs w) (s_blob st) = Some old"
    and "os_SSL_read (os_ssl (w_os w)) (tls_ssl p) (to_int (readsize p)) (errno w) (kern w)
      = ((n, []), e, k)" and "n \<le> 0"
    and "os_ERR_get_error (os_ssl (w_os w)) e k = (code, e', k')"
  shows "tlsreadA call c s f priv w = waitA call c s f (f_fd fl) EPOLLIN (epollflags p)
    (w\<lparr>kern := k', trace := trace w @ [SslRead (tls_ssl p), SslError], errno := e'\<rparr>)"
proof -
  have same: "put_cell (s_blob st) old (blobs w) = blobs w"
    using assms(4) by (simp add: put_cell_def fun_upd_idem)
  define w1 where "w1 = w\<lparr>kern := k, trace := trace w @ [SslRead (tls_ssl p)], errno := e\<rparr>"
  have st: "mthen (store_blob (s_blob st) old) d w1 = d w1" for d :: "('a, 'b, unit) wm"
    using assms(4) same
    by (simp add: mdefs store_blob_def load_blob_def get_cell_Some w1_def)
  have er: "mbind ERR_get_error K w1 = K code (w1\<lparr>kern := k', trace := trace w1 @ [SslError],
      errno := e'\<rparr>)" for K :: "u64 \<Rightarrow> ('a, 'b, unit) wm"
    using assms(7) by (simp add: ERR_get_error_def mdefs sslcall_def w1_def)
  have lb: "mbind (load_blob (s_blob st)) K w1 = K old w1" for K :: "byte list \<Rightarrow> ('a, 'b, unit) wm"
    using assms(4) by (simp add: mdefs load_blob_def get_cell_Some w1_def)
  have "tlsreadA call c s f priv w =
      mbind (load_blob (s_blob st)) (\<lambda>old.
        mthen (store_blob (s_blob st) old) (mbind ERR_get_error (\<lambda>_.
          waitA call c s f (f_fd fl) EPOLLIN (epollflags p)))) w1"
    using assms(1-3,5,6)
    by (simp add: tlsreadA_def runs SSL_ERROR_WANT_READ_def Let_def after_call_def w1_def)
  then show ?thesis by (simp add: lb st er) (simp add: w1_def)
qed

lemma tlswriteA_empty:
  assumes "obj_as w as_file f = Some fl" and "obj_as w as_string (f_data fl) = Some st"
    and "s_size st = 0"
  shows "tlswriteA call c s f priv w = errorA call c s f (Some ''Nothing to write'') w"
  using assms by (simp add: tlswriteA_def runs)

text \<open>The handshake that has to wait for the peer.\<close>

lemma tlsA_wants_read:
  assumes "obj_as w as_tlsclientP priv = Some p" and "tls_status p = TLS_CONNECTING"
    and "obj_as w as_file f = Some fl"
    and "os_SSL_connect (os_ssl (w_os w)) (tls_ssl p) (errno w) (kern w) = (r, e, k)" and "r \<noteq> 1"
    and "os_SSL_get_error (os_ssl (w_os w)) (tls_ssl p) r e k = (SSL_ERROR_WANT_READ, e', k')"
  shows "tlsA call c s f priv w = waitA call c s f (f_fd fl) EPOLLIN (epollflags p)
    (w\<lparr>kern := k', trace := trace w @ [SslConnect (tls_ssl p), SslError], errno := e'\<rparr>)"
proof -
  define w1 where "w1 = w\<lparr>kern := k, trace := trace w @ [SslConnect (tls_ssl p)], errno := e\<rparr>"
  have fl: "obj_as (v\<lparr>kern := k1, trace := t1, errno := e1\<rparr>) as_file f = obj_as v as_file f"
    for v :: "('a, 'b) world" and k1 e1 t1 by (simp add: obj_as_def)
  have er: "mbind (sslcall SslError (\<lambda>ossl. os_SSL_get_error ossl (tls_ssl p) r)) K w1 =
      K SSL_ERROR_WANT_READ (w1\<lparr>kern := k', trace := trace w1 @ [SslError], errno := e'\<rparr>)"
    for K :: "int \<Rightarrow> ('a, 'b, unit) wm"
    using assms(6) by (simp add: mdefs sslcall_def w1_def)
  have "tlsA call c s f priv w = mbind (sslcall SslError (\<lambda>ossl. os_SSL_get_error ossl (tls_ssl p) r))
      (\<lambda>sslerr. mbind (load_as as_file f) (\<lambda>fl.
       if sslerr = OK then mseq [
         logging_log LOGGING_INFO ''meloop/tls.c'' 94 ''tlsA'' (Some ''SSL OK''),
         tls_connected call c s f priv]
       else if sslerr = SSL_ERROR_WANT_READ then waitA call c s f (f_fd fl) EPOLLIN (epollflags p)
       else if sslerr = SSL_ERROR_WANT_WRITE then waitA call c s f (f_fd fl) EPOLLOUT (epollflags p)
       else if sslerr = SSL_ERROR_WANT_X509_LOOKUP then
         errorA call c s f (Some ''SSL_ERROR_WANT_X509_LOOKUP'')
       else errorA call c s f (Some (''Error SSL_connect: '' @ dec_int sslerr)))) w1"
    using assms(1,2,4,5)
    by (simp add: tlsA_def tls_handshake_def runs after_call_def w1_def)
  moreover have "obj_as w1 as_file f = Some fl" using assms(3) by (simp add: w1_def fl)
  ultimately show ?thesis
    by (simp add: er runs fl OK_def SSL_ERROR_WANT_READ_def) (simp add: w1_def)
qed

end
