(* ===== verification/Tuntap.thy ===== *)
theory Tuntap
  imports Stream_Arrow Addr Log
begin

text \<open>
  \<open>src/meloop/tuntap.c\<close>: opening a tunnel device and configuring its addresses. The parts of
  \<open>struct ifreq\<close> that the code uses are the interface name and one IPv4 address; the address,
  destination address and netmask are the same bytes of a union.
\<close>

definition IFNAMSIZ :: nat where "IFNAMSIZ = 16"
definition IFF_TUN :: u16 where "IFF_TUN = 1"
definition IFF_TAP :: u16 where "IFF_TAP = 2"
definition IFF_NO_PI :: u16 where "IFF_NO_PI = 0x1000"

fun on_tun :: "(tunS \<Rightarrow> tunS) \<Rightarrow> obj \<Rightarrow> obj" where
  "on_tun g (O_tun t) = O_tun (g t)"
| "on_tun g ob = ob"

definition set_tun :: "(tunS \<Rightarrow> tunS) \<Rightarrow> ptr \<Rightarrow> ('k, 'u, unit) wm" where
  "set_tun g p = mbind (load_as as_tun p) (\<lambda>_. change_obj (on_tun g) p)"

definition tun_log :: "logging_verbosity \<Rightarrow> int \<Rightarrow> string \<Rightarrow> string \<Rightarrow> ('k, 'u, unit) wm" where
  "tun_log level line func txt = logging_log level ''meloop/tuntap.c'' line func (Some txt)"

text \<open>\<open>ioctl(fd, which, &ifr)\<close> with the name and the address of \<open>ifr\<close>.\<close>

definition if_ioctl :: "int \<Rightarrow> string \<Rightarrow> string \<Rightarrow> u32 \<Rightarrow> ('k, 'u, int) wm" where
  "if_ioctl fd which ifname a = mbind (syscall (SysIoctl fd which)
     (\<lambda>os. os_siocsif os fd which ifname a)) (\<lambda>r. mret (res0 r))"

definition configure_interface :: "ptr \<Rightarrow> ('k, 'u, int) wm" where
  "configure_interface tun =
     mbind (load_as as_tun tun) (\<lambda>t0.
     let ifname = take (IFNAMSIZ - 1) (tun_name t0) in
     mbind (syscall (SysSocket AF_INET SOCK_DGRAM) (\<lambda>os. os_socket os AF_INET SOCK_DGRAM 0)) (\<lambda>r.
     let fd = resfd r in
     if fd = -1 then mret ERR
     else (case inet_pton (tun_address t0) of
       None \<Rightarrow> mret ERR
     | Some a \<Rightarrow>
       mthen (set_tun (\<lambda>t. t\<lparr>addressB := a\<rparr>) tun)
       (mbind (if_ioctl fd ''SIOCSIFADDR'' ifname a) (\<lambda>r1.
       if r1 = -1 then
         mthen (tun_log LOGGING_ERROR 67 ''_configure_interface'' (''errored: '' @ inet_ntoa a)) (mret ERR)
       else (case inet_pton (tun_destaddress t0) of
         None \<Rightarrow> mret ERR
       | Some d \<Rightarrow>
         mthen (set_tun (\<lambda>t. t\<lparr>destaddressB := d\<rparr>) tun)
         (mthen (tun_log LOGGING_DEBUG 80 ''_configure_interface'' (''dest: '' @ inet_ntoa d))
         (mbind (if_ioctl fd ''SIOCSIFDSTADDR'' ifname d) (\<lambda>r2.
         if r2 = -1 then
           mthen (tun_log LOGGING_ERROR 83 ''_configure_interface'' (''errored: '' @ inet_ntoa d)) (mret ERR)
         else (case inet_pton (tun_netmask t0) of
           None \<Rightarrow> mret ERR
         | Some m \<Rightarrow>
           mthen (set_tun (\<lambda>t. t\<lparr>netmaskB := m\<rparr>) tun)
           (mbind (if_ioctl fd ''SIOCSIFNETMASK'' ifname m) (\<lambda>r3.
           if r3 = -1 then
             mthen (tun_log LOGGING_ERROR 101 ''_configure_interface'' (''errored: '' @ inet_ntoa m)) (mret ERR)
           else mret OK))))))))))))"

definition tunopenA :: "('k, 'u) calls \<Rightarrow> ptr \<Rightarrow> ptr \<Rightarrow> ptr \<Rightarrow> ptr \<Rightarrow> ('k, 'u, unit) wm" where
  "tunopenA call c s t priv =
     mbind (sys_open ''/dev/net/tun'' (O_RDWR OR O_NONBLOCK)) (\<lambda>fd.
     if fd < 0 then errorA call c s t (Some ''Cannot open: /dev/net/tun'')
     else
       mbind (load_as as_tunP priv) (\<lambda>p.
       mbind (load_as as_tun t) (\<lambda>tn.
       let flags = (if tap p then IFF_TAP else IFF_TUN) + IFF_NO_PI;
           ifname = take IFNAMSIZ (tun_name tn) in
       mbind (syscall (SysIoctl fd ''TUNSETIFF'') (\<lambda>os. os_tunsetiff os fd ifname flags)) (\<lambda>r.
       case r of
         Inl _ \<Rightarrow> mbind (sys_close fd) (\<lambda>_. errorA call c s t (Some ''Cannot set tun options''))
       | Inr ifname' \<Rightarrow>
         mthen (set_tun (\<lambda>t. t\<lparr>f_fd := fd\<rparr>) t)
         (if length ifname' + 1 > IFNAMSIZ then mfail BufferOverflow
          else mthen (set_tun (\<lambda>t. t\<lparr>tun_name := ifname'\<rparr>) t)
            (mbind (configure_interface t) (\<lambda>rc.
             if rc \<noteq> 0 then
               mbind (sys_close fd) (\<lambda>_.
               errorA call c s t (Some ''Cannot configure (set address) tun device.''))
             else
               mbind (load_as as_tun t) (\<lambda>tn. mseq [
               tun_log LOGGING_INFO 154 ''tunopenA'' (''Tunnel interface: '' @ tun_name tn @ '' '' @
                 inet_ntoa (addressB tn) @ '' has been created.''),
               tun_log LOGGING_DEBUG 156 ''tunopenA'' (''dest: '' @ inet_ntoa (destaddressB tn)),
               returnA call c s t]))))))))"

lemma less_fuel_tunopenA [mono_intros]:
  assumes "calls_le f g"
  shows "less_fuel (tunopenA f c s d p) (tunopenA g c s d p)"
  unfolding tunopenA_def Let_def by (intro mono_intros less_fuel_call [OF assms] assms)

context process_invariant
begin

lemma keep_set_tun [keep_intros]: "keep P F (set_tun g p)"
  unfolding set_tun_def by (intro keep_intros)

lemma keep_tun_log [keep_intros]: "keep P F (tun_log l ln fu m)"
  unfolding tun_log_def by (intro keep_intros)

lemma keep_configure_interface [keep_intros]: "keep P F (configure_interface t)"
  unfolding configure_interface_def Let_def if_ioctl_def
  by (intro keep_intros keep_syscall plain_step.intros)

lemma keep_tunopenA [keep_intros]:
  "(\<And>i. keep P F (call i)) \<Longrightarrow> keep P F (tunopenA call c s f p)"
  unfolding tunopenA_def Let_def by (intro keep_intros keep_syscall plain_step.intros) simp_all

end

end
