(* ===== verification/Program.thy ===== *)
theory Program
  imports Timer_Arrow Random_Arrow Tls Tuntap
begin

text \<open>
  A whole program: the library's arrows together with the functions of the program that uses it.
  \<open>dispatch\<close> is a call through a function pointer, \<open>exec\<close> ties the knot: the number is the call
  depth that is allowed (the C stack), \<open>OutOfFuel\<close> when it is used up. A result other than
  \<open>OutOfFuel\<close> does not depend on the depth (\<open>exec_mono\<close>).
\<close>

section \<open>User code\<close>

record ('k, 'u) program =
  user_task :: "nat \<Rightarrow> ('k, 'u) calls \<Rightarrow> ptr \<Rightarrow> ptr \<Rightarrow> ptr \<Rightarrow> ptr \<Rightarrow> ('k, 'u, unit) wm"
  user_err :: "nat \<Rightarrow> ('k, 'u) calls \<Rightarrow> ptr \<Rightarrow> ptr \<Rightarrow> ptr \<Rightarrow> string option \<Rightarrow> ('k, 'u, unit) wm"
  user_conn :: "nat \<Rightarrow> ('k, 'u) calls \<Rightarrow> ptr \<Rightarrow> ptr \<Rightarrow> int \<Rightarrow> sockaddr \<Rightarrow> ('k, 'u, unit) wm"

fun run_task :: "('k, 'u) program \<Rightarrow> ('k, 'u) calls \<Rightarrow> task \<Rightarrow> ptr \<Rightarrow> ptr \<Rightarrow> ptr \<Rightarrow> ptr \<Rightarrow> ('k, 'u, unit) wm" where
  "run_task u call A_read c s d p = readA call c s d p"
| "run_task u call A_write c s d p = writeA call c s d p"
| "run_task u call A_piperead c s d p = pipereadA call c s d p"
| "run_task u call A_pipewrite c s d p = pipewriteA call c s d p"
| "run_task u call A_timeropen c s d p = timeropenA call c s d p"
| "run_task u call A_timersleep c s d p = timersleepA call c s d p"
| "run_task u call A_randopen c s d p = randopenA call c s d"
| "run_task u call A_randread c s d p = randreadA call c s d p"
| "run_task u call A_randenc c s d p = randencA call c s d"
| "run_task u call A_listen c s d p = listenA call c s d p"
| "run_task u call A_accept c s d p = acceptA call c s d p"
| "run_task u call A_connect c s d p = connectA call c s d p"
| "run_task u call A_tls c s d p = tlsA call c s d p"
| "run_task u call A_tlsread c s d p = tlsreadA call c s d p"
| "run_task u call A_tlswrite c s d p = tlswriteA call c s d p"
| "run_task u call A_tunopen c s d p = tunopenA call c s d p"
| "run_task u call (A_user n) c s d p = user_task u n call c s d p"

fun dispatch :: "('k, 'u) program \<Rightarrow> ('k, 'u) calls \<Rightarrow> ('k, 'u) calls" where
  "dispatch u call (Run t c s d p) = run_task u call t c s d p"
| "dispatch u call (OnError e c s d m) = user_err u e call c s d m"
| "dispatch u call (OnConn h c s fd sa) = user_conn u h call c s fd sa"

primrec exec :: "('k, 'u) program \<Rightarrow> nat \<Rightarrow> ('k, 'u) calls" where
  "exec u 0 = (\<lambda>i. mfail OutOfFuel)"
| "exec u (Suc n) = dispatch u (exec u n)"

section \<open>The call depth\<close>

text \<open>User code that depends on the functions it calls only by calling them.\<close>

locale user_code =
  fixes u :: "('k, 'u) program"
  assumes task_mono: "calls_le f g \<Longrightarrow> less_fuel (user_task u n f c s d p) (user_task u n g c s d p)"
    and err_mono: "calls_le f g \<Longrightarrow> less_fuel (user_err u n f c s d m) (user_err u n g c s d m)"
    and conn_mono: "calls_le f g \<Longrightarrow> less_fuel (user_conn u n f c s fd sa) (user_conn u n g c s fd sa)"
begin

lemma run_task_mono: "calls_le f g \<Longrightarrow> less_fuel (run_task u f t c s d p) (run_task u g t c s d p)"
  by (cases t) (simp_all add: task_mono less_fuel_readA less_fuel_writeA less_fuel_pipereadA
      less_fuel_pipewriteA less_fuel_timeropenA less_fuel_timersleepA less_fuel_randopenA
      less_fuel_randreadA less_fuel_randencA less_fuel_listenA less_fuel_acceptA less_fuel_connectA
      less_fuel_tlsA less_fuel_tlsreadA less_fuel_tlswriteA less_fuel_tunopenA)

lemma dispatch_mono: "calls_le f g \<Longrightarrow> calls_le (dispatch u f) (dispatch u g)"
  unfolding calls_le_def [of "dispatch u f"]
proof
  fix i assume "calls_le f g"
  then show "less_fuel (dispatch u f i) (dispatch u g i)"
    by (cases i) (simp_all add: run_task_mono err_mono conn_mono)
qed

lemma exec_mono: "calls_le (exec u n) (exec u (n + m))"
proof (induction n)
  case 0
  show ?case by (simp add: calls_le_def less_fuel_def mfail_apply)
next
  case (Suc n)
  then show ?case by (simp add: dispatch_mono)
qed

lemma result_stable: "n \<le> m \<Longrightarrow> exec u n i w = Inr r \<Longrightarrow> exec u m i w = Inr r"
  using exec_mono [of n "m - n"] less_fuel_Inr less_fuel_call by fastforce

lemma loop_stable:
  "n \<le> m \<Longrightarrow> meloop_io_loop k (exec u n) st w = Inr r \<Longrightarrow> meloop_io_loop (k + j) (exec u m) st w = Inr r"
  using less_fuel_loop [OF exec_mono [of n "m - n"], of k st j] less_fuel_Inr by fastforce

end

section \<open>Programs that keep an invariant\<close>

locale kept_program = process_invariant P F
  for P :: "('k, 'u) world \<Rightarrow> bool" and F :: "fault \<Rightarrow> bool" +
  fixes u :: "('k, 'u) program"
  assumes task_keeps: "(\<And>i. keep P F (call i)) \<Longrightarrow> keep P F (user_task u n call c s d p)"
    and err_keeps: "(\<And>i. keep P F (call i)) \<Longrightarrow> keep P F (user_err u n call c s d m)"
    and conn_keeps: "(\<And>i. keep P F (call i)) \<Longrightarrow> keep P F (user_conn u n call c s fd sa)"
begin

lemma run_task_keeps: "(\<And>i. keep P F (call i)) \<Longrightarrow> keep P F (run_task u call t c s d p)"
  by (cases t) (simp_all add: task_keeps keep_readA keep_writeA keep_pipereadA keep_pipewriteA
      keep_timeropenA keep_timersleepA keep_randopenA keep_randreadA keep_randencA keep_listenA
      keep_acceptA keep_connectA keep_tlsA keep_tlsreadA keep_tlswriteA keep_tunopenA)

lemma exec_keeps: "keep P F (exec u n i)"
proof (induction n arbitrary: i)
  case 0
  show ?case by (simp add: keep_fail)
next
  case (Suc n)
  then show ?case
    by (cases i) (simp_all add: run_task_keeps err_keeps conn_keeps)
qed

end

end
