(* ===== verification/Demo_Kernel.thy ===== *)
theory Demo_Kernel
  imports Program
begin

text \<open>
  A small operating system to run the model on: memory never runs out, epoll works as documented
  (\<open>demo_epoll_spec\<close>), and what the outside world does is a script in the kernel state. It shows
  that the assumptions of the theorems can be met, and what the theorems say about a run.
\<close>

record demo =
  d_entries :: "int \<Rightarrow> (u32 \<times> ptr \<times> bool) option" \<comment> \<open>the interest list of the one epoll instance\<close>
  d_ready :: "(int \<times> u32) list list" \<comment> \<open>what the next calls of \<open>epoll_wait\<close> find\<close>
  d_input :: "(int + byte list) list" \<comment> \<open>the results of the next reads\<close>
  d_clients :: "(int + int \<times> sockaddr) list" \<comment> \<open>the results of the next calls of \<open>accept4\<close>\<close>
  d_fds :: int \<comment> \<open>the next descriptor\<close>

section \<open>epoll\<close>

definition demo_ctl :: "int \<Rightarrow> ctl_op \<Rightarrow> int \<Rightarrow> u32 \<Rightarrow> ptr \<Rightarrow> demo \<Rightarrow> (int + unit) \<times> demo" where
  "demo_ctl ep cop fd evs p k = (case (cop, d_entries k fd) of
     (EPOLL_CTL_ADD, Some _) \<Rightarrow> (Inl 17, k)
   | (EPOLL_CTL_MOD, None) \<Rightarrow> (Inl ENOENT, k)
   | (EPOLL_CTL_DEL, None) \<Rightarrow> (Inl ENOENT, k)
   | (EPOLL_CTL_DEL, Some _) \<Rightarrow> (Inr (), k\<lparr>d_entries := (d_entries k)(fd := None)\<rparr>)
   | _ \<Rightarrow> (Inr (), k\<lparr>d_entries := (d_entries k)(fd := Some (evs, p, True))\<rparr>))"

text \<open>The ready descriptors that are enabled are reported, one event for each.\<close>

definition enabled :: "demo \<Rightarrow> int \<Rightarrow> ptr option" where
  "enabled k fd = (case d_entries k fd of Some (m, p, True) \<Rightarrow> Some p | _ \<Rightarrow> None)"

fun demo_pull :: "(int \<times> u32) list \<Rightarrow> nat \<Rightarrow> demo \<Rightarrow> (u32 \<times> ptr) list \<times> demo" where
  "demo_pull [] n k = ([], k)"
| "demo_pull ((fd, m) # rs) n k =
     (if n = 0 \<or> fd \<in> set (map fst rs) \<or> enabled k fd = None then demo_pull rs n k
      else (let (evs, k') = demo_pull rs (n - 1) k in
        ((m, the (enabled k fd)) # evs,
         k'\<lparr>d_entries := (d_entries k')(fd := reported (d_entries k fd))\<rparr>)))"

definition demo_wait :: "int \<Rightarrow> nat \<Rightarrow> demo \<Rightarrow> (int + (u32 \<times> ptr) list) \<times> demo" where
  "demo_wait ep n k = (case d_ready k of
     [] \<Rightarrow> (Inl 4, k)
   | r # rs \<Rightarrow> (let (evs, k') = demo_pull r n k in (Inr evs, k'\<lparr>d_ready := rs\<rparr>)))"

section \<open>The other calls\<close>

definition demo_fd :: "demo \<Rightarrow> (int + int) \<times> demo" where
  "demo_fd k = (Inr (d_fds k), k\<lparr>d_fds := d_fds k + 1\<rparr>)"

definition demo_fail :: "demo \<Rightarrow> (int + 'a) \<times> demo" where
  "demo_fail k = (Inl 22, k)"

definition demo_ok :: "demo \<Rightarrow> (int + unit) \<times> demo" where
  "demo_ok k = (Inr (), k)"

definition demo_read :: "int \<Rightarrow> nat \<Rightarrow> demo \<Rightarrow> (int + byte list) \<times> demo" where
  "demo_read fd n k = (case d_input k of
     [] \<Rightarrow> (Inl EAGAIN, k)
   | Inl e # rest \<Rightarrow> (Inl e, k\<lparr>d_input := rest\<rparr>)
   | Inr bs # rest \<Rightarrow> (Inr (take n bs), k\<lparr>d_input := rest\<rparr>))"

definition demo_accept :: "int \<Rightarrow> int \<Rightarrow> demo \<Rightarrow> (int + int \<times> sockaddr) \<times> demo" where
  "demo_accept fd fl k = (case d_clients k of
     [] \<Rightarrow> (Inl EAGAIN, k)
   | r # rest \<Rightarrow> (r, k\<lparr>d_clients := rest\<rparr>))"

definition demo_ssl :: "demo openssl" where
  "demo_ssl = \<lparr>
     os_SSL_read = (\<lambda>ssl n e k. ((-1, []), e, k)),
     os_SSL_write = (\<lambda>ssl n bs e k. (int (length bs), e, k)),
     os_SSL_connect = (\<lambda>ssl e k. (-1, e, k)),
     os_SSL_get_error = (\<lambda>ssl r e k. (SSL_ERROR_WANT_READ, e, k)),
     os_ERR_get_error = (\<lambda>e k. (1, e, k)),
     os_ERR_reason = (\<lambda>e. None),
     os_SSL_new = (\<lambda>ctx e k. (1, e, k)),
     os_SSL_set = (\<lambda>st ssl e k. (1, e, k)),
     os_SSLv23_method = 1,
     os_SSL_CTX_new = (\<lambda>m e k. (1, e, k)),
     os_SSL_CTX_set = (\<lambda>st ctx e k. (1, e, k)),
     os_SSL_CTX_free = (\<lambda>ctx e k. ((), e, k))\<rparr>"

definition demo_os :: "demo os" where
  "demo_os = \<lparr>
     os_malloc = (\<lambda>k. (True, k)),
     os_read = demo_read,
     os_write = (\<lambda>fd bs k. (Inr (length bs), k)),
     os_close = (\<lambda>fd. demo_ok),
     os_open = (\<lambda>path fl. demo_fd),
     os_epoll_create1 = (\<lambda>fl k. (Inr 3, k\<lparr>d_entries := (\<lambda>_. None)\<rparr>)),
     os_epoll_ctl = demo_ctl,
     os_epoll_wait = demo_wait,
     os_timerfd_create = (\<lambda>c fl. demo_fd),
     os_timerfd_settime = (\<lambda>fd fl ts. demo_ok),
     os_socket = (\<lambda>fa ty pr. demo_fd),
     os_reuseaddr = (\<lambda>fd. demo_ok),
     os_bind = (\<lambda>fd sa. demo_ok),
     os_listen = (\<lambda>fd bl. demo_ok),
     os_accept4 = demo_accept,
     os_connect = (\<lambda>fd sa k. (Inl EINPROGRESS, k)),
     os_so_error = (\<lambda>fd k. (Inr 0, k)),
     os_getsockname = (\<lambda>fd k. (Inr \<lparr>sin_family = 2, sin_port = 1, sin_addr = 0x0100007F\<rparr>, k)),
     os_getaddrinfo = (\<lambda>h s k. (Some [\<lparr>ai_family = AF_INET, ai_socktype = SOCK_STREAM, ai_protocol = 0,
        ai_addr = \<lparr>sin_family = 2, sin_port = 1, sin_addr = 0x0100007F\<rparr>\<rparr>], k)),
     os_freeaddrinfo = (\<lambda>e. e),
     os_tunsetiff = (\<lambda>fd nm fl k. (Inr nm, k)),
     os_siocsif = (\<lambda>fd which nm a. demo_ok),
     os_dprintf = (\<lambda>fd txt. demo_ok),
     os_strerror = (\<lambda>e. ''error''),
     os_sigaction = demo_ok,
     os_ssl = demo_ssl\<rparr>"

definition demo_interest :: "demo interest" where
  "demo_interest k ep fd = d_entries k fd"

definition demo_start :: demo where
  "demo_start = \<lparr>d_entries = (\<lambda>_. None), d_ready = [], d_input = [], d_clients = [], d_fds = 4\<rparr>"

text \<open>A process with empty stores after \<open>meloop_io_init\<close>.\<close>

definition demo_world :: "demo \<Rightarrow> 'u \<Rightarrow> (demo, 'u) world" where
  "demo_world k us = \<lparr>w_os = demo_os, kern = k, trace = [], errno = 0, elems = empty_store, circs = empty_store,
     bagh = empty_store, objs = empty_store, blobs = empty_store,
     ev = \<lparr>epfd = 3, epflags = EPOLLONESHOT, waitingbags = 0, bags = replicate 16 NULL\<rparr>,
     addrtemp = '''', logging_fd = 2, verbosity = LOGGING_DEBUG, ssl_ctx = NULL, usr = us\<rparr>"

section \<open>It meets the specification\<close>

lemma demo_malloc: "malloc_total demo_os"
  by (simp add: malloc_total_def demo_os_def)

lemma demo_ctl_spec: "epoll_ctl_spec demo_os demo_interest"
  by (auto simp: epoll_ctl_spec_def demo_os_def demo_ctl_def demo_interest_def fun_eq_iff
      split: ctl_op.splits option.splits)

text \<open>\<open>pulled k n evs k' S\<close>: the events \<open>evs\<close> belong to different enabled descriptors of
  \<open>S\<close>, and these are the ones that \<open>k'\<close> has reported.\<close>

definition pulled :: "demo \<Rightarrow> nat \<Rightarrow> (u32 \<times> ptr) list \<Rightarrow> demo \<Rightarrow> int set \<Rightarrow> bool" where
  "pulled k n evs k' S \<longleftrightarrow> length evs \<le> n \<and> (\<exists>fds. length fds = length evs \<and> distinct fds \<and>
     set fds \<subseteq> S \<and>
     (\<forall>i < length evs. \<exists>m. d_entries k (fds ! i) = Some (m, snd (evs ! i), True)) \<and>
     (\<forall>fd. d_entries k' fd = (if fd \<in> set fds then reported (d_entries k fd) else d_entries k fd)))"

lemma pulled_mono: "pulled k n evs k' S \<Longrightarrow> S \<subseteq> T \<Longrightarrow> pulled k n evs k' T"
  unfolding pulled_def by (meson order_trans)

lemma pulled_Nil: "pulled k n [] k S"
  by (simp add: pulled_def)

lemma pulled_Cons:
  assumes "pulled k n evs k' S" and "d_entries k fd = Some (m', p, True)" and "fd \<notin> S"
  shows "pulled k (Suc n) ((m, p) # evs) (k'\<lparr>d_entries := (d_entries k')(fd := reported (d_entries k fd))\<rparr>)
    (insert fd S)"
proof -
  from assms(1) obtain fds where f: "length evs \<le> n" "length fds = length evs" "distinct fds" "set fds \<subseteq> S"
    "\<forall>i < length evs. \<exists>m. d_entries k (fds ! i) = Some (m, snd (evs ! i), True)"
    "\<forall>fd. d_entries k' fd = (if fd \<in> set fds then reported (d_entries k fd) else d_entries k fd)"
    unfolding pulled_def by blast
  have "\<exists>m''. d_entries k ((fd # fds) ! i) = Some (m'', snd (((m, p) # evs) ! i), True)"
    if "i < length ((m, p) # evs)" for i
    using f(5) assms(2) that by (cases i) auto
  then show ?thesis
    unfolding pulled_def using f assms(3) by (intro conjI exI [of _ "fd # fds"]) auto
qed

lemma demo_pull_spec: "demo_pull rs n k = (evs, k') \<Longrightarrow> pulled k n evs k' (fst ` set rs)"
proof (induction rs n k arbitrary: evs k' rule: demo_pull.induct)
  case (1 n k)
  then show ?case by (simp add: pulled_Nil)
next
  case (2 fd m rs n k)
  show ?case
  proof (cases "n = 0 \<or> fd \<in> set (map fst rs) \<or> enabled k fd = None")
    case True
    with 2 have "pulled k n evs k' (fst ` set rs)" by auto
    then show ?thesis by (rule pulled_mono) auto
  next
    case False
    obtain evs1 k1 where p: "demo_pull rs (n - 1) k = (evs1, k1)" by fastforce
    have new: "fd \<notin> fst ` set rs" using False by simp
    from False obtain m' p' where e: "d_entries k fd = Some (m', p', True)" "enabled k fd = Some p'"
      by (auto simp: enabled_def split: option.splits bool.splits)
    have "pulled k (n - 1) evs1 k1 (fst ` set rs)"
      using "2.IH"(2) [OF False p] .
    from pulled_Cons [OF this e(1) new, of m] "2.prems" False p e(2) show ?thesis
      by auto
  qed
qed

lemma demo_wait_spec: "epoll_wait_spec demo_os demo_interest"
  unfolding epoll_wait_spec_def
proof (intro allI impI)
  fix ep n k and r :: "int + (u32 \<times> ptr) list" and k'
  assume w: "os_epoll_wait demo_os ep n k = (r, k')"
  show "case r of
      Inl _ \<Rightarrow> demo_interest k' ep = demo_interest k ep
    | Inr evs \<Rightarrow> length evs \<le> n \<and>
        (\<exists>fds. length fds = length evs \<and> distinct fds \<and>
          (\<forall>i < length evs. \<exists>m. demo_interest k ep (fds ! i) = Some (m, snd (evs ! i), True)) \<and>
          (\<forall>fd. demo_interest k' ep fd =
            (if fd \<in> set fds then reported (demo_interest k ep fd) else demo_interest k ep fd)))"
  proof (cases "d_ready k")
    case Nil
    with w show ?thesis by (auto simp: demo_os_def demo_wait_def demo_interest_def fun_eq_iff)
  next
    case (Cons rs rest)
    obtain evs k1 where p: "demo_pull rs n k = (evs, k1)" by fastforce
    with Cons w have "r = Inr evs" "k' = k1\<lparr>d_ready := rest\<rparr>"
      by (auto simp: demo_os_def demo_wait_def)
    with demo_pull_spec [OF p] show ?thesis
      by (auto simp: demo_interest_def pulled_def)
  qed
qed

lemma demo_other_spec: "epoll_other_spec demo_os demo_interest"
proof -
  have "d_entries k' = d_entries k" if "plain_step demo_os k k'" for k k'
    using that
    by cases (auto simp: demo_os_def demo_ssl_def demo_fd_def demo_ok_def demo_read_def demo_accept_def
        split: list.split sum.split)
  then show ?thesis
    by (auto simp: epoll_other_spec_def demo_interest_def fun_eq_iff)
      (auto simp: demo_os_def)
qed

lemma demo_epoll_spec: "epoll_spec demo_os demo_interest"
  by (simp add: epoll_spec_def demo_ctl_spec demo_wait_spec demo_other_spec)

lemma demo_ev_ok: "ev_ok (demo_world k us)"
  by (simp add: demo_world_def ev_ok_def table_ok_def used_def registered_def store_ok_def empty_store_def
      EV_MAXEVENTS_def)

lemma demo_epoll_inv: "d_entries k = (\<lambda>_. None) \<Longrightarrow> epoll_inv demo_interest [] (demo_world k us)"
  unfolding epoll_inv_def pend_ok_def entry_ok_def
  using demo_epoll_spec demo_ev_ok [of k us]
  by (simp add: demo_world_def demo_interest_def EPOLLONESHOT_def)

end
