(* ===== verification/Pipeline.thy ===== *)
theory Pipeline
  imports Program
begin

text \<open>
  Circuits whose arrows only compute: a task changes the program's state and resumes the circuit
  with \<open>returnA\<close>. An open circuit of such tasks runs each of them once, in order, and ends; a closed
  one never comes back, whatever call depth it may use, because \<open>returnA\<close> calls the next arrow
  before it returns itself.
\<close>

definition on_usr :: "('u \<Rightarrow> 'u) \<Rightarrow> ('k, 'u, unit) wm" where
  "on_usr g = mmod (\<lambda>w. w\<lparr>usr := g (usr w)\<rparr>)"

definition computing :: "(nat \<Rightarrow> ptr \<Rightarrow> 'u \<Rightarrow> 'u) \<Rightarrow> ('k, 'u) program" where
  "computing g = \<lparr>
     user_task = (\<lambda>n call c s d p. mthen (on_usr (g n p)) (returnA call c s d)),
     user_err = (\<lambda>n call c s d m. mret ()),
     user_conn = (\<lambda>n call c s fd sa. mret ())\<rparr>"

interpretation computing: user_code "computing g"
  by unfold_locales (simp_all add: computing_def less_fuel_refl less_fuel_mthen less_fuel_returnA)

fun step_effect :: "(nat \<Rightarrow> ptr \<Rightarrow> 'u \<Rightarrow> 'u) \<Rightarrow> task \<times> ptr \<Rightarrow> 'u \<Rightarrow> 'u" where
  "step_effect g (A_user n, p) = g n p"
| "step_effect g _ = id"

fun is_user :: "task \<times> ptr \<Rightarrow> bool" where
  "is_user (A_user n, p) = True"
| "is_user _ = False"

lemma computing_step:
  assumes "is_user tp"
  shows "exec (computing g) (Suc n) (Run (fst tp) c s d (snd tp)) w =
    returnA (exec (computing g) n) c s d (w\<lparr>usr := step_effect g tp (usr w)\<rparr>)"
  using assms
  by (cases "(g, tp)" rule: step_effect.cases) (simp_all add: computing_def on_usr_def mdefs)

lemma at_step_usr: "at_step w c ps a i \<Longrightarrow> at_step (w\<lparr>usr := us\<rparr>) c ps a i"
  by (simp add: at_step_def)

lemma goto_usr: "goto c p (w\<lparr>usr := us\<rparr>) = (goto c p w)\<lparr>usr := us\<rparr>"
  by (simp add: goto_def)

lemma usr_goto [simp]: "usr (goto c p w) = usr w"
  by (simp add: goto_def)

lemma open_circuit_runs:
  assumes "at_step w c ps a i" and "leads a = None" and "\<forall>tp \<in> set (steps a). is_user tp"
    and "length ps - i \<le> n"
  shows "exec (computing g) n (Run (fst (steps a ! i)) c s d (snd (steps a ! i))) w =
    Inr ((), goto c NULL (w\<lparr>usr := fold (step_effect g) (drop i (steps a)) (usr w)\<rparr>))"
  using assms(1,4)
proof (induction "length ps - i" arbitrary: i n w)
  case 0
  then show ?case by (simp add: at_step_def)
next
  case (Suc l)
  from Suc.prems(1) have i: "i < length ps" and len: "length (steps a) = length ps"
    using circuit_lengths by (auto simp: at_step_def)
  with Suc.prems(2) obtain m where n: "n = Suc m" by (cases n) auto
  have tp: "is_user (steps a ! i)" using assms(3) i len by simp
  let ?w = "w\<lparr>usr := step_effect g (steps a ! i) (usr w)\<rparr>"
  have at: "at_step ?w c ps a i" by (rule at_step_usr [OF Suc.prems(1)])
  have drop: "drop i (steps a) = steps a ! i # drop (Suc i) (steps a)"
    using i len by (simp add: Cons_nth_drop_Suc)
  note run = computing_step [OF tp, of g m c s d w] returnA_step [OF at]
  show ?case
  proof (cases "Suc i < length ps")
    case False
    then have "abs_next a i = None" "drop (Suc i) (steps a) = []"
      using assms(2) len by (simp_all add: abs_next_def)
    then show ?thesis using run drop n by simp
  next
    case True
    then have nx: "abs_next a i = Some (Suc i)" using len by (simp add: abs_next_def)
    have "at_step (goto c (ps ! Suc i) ?w) c ps a (Suc i)" by (rule at_step_goto [OF at True])
    from Suc.hyps(1) [OF _ this] Suc.hyps(2) Suc.prems(2) n
    have "exec (computing g) m (Run (fst (steps a ! Suc i)) c s d (snd (steps a ! Suc i)))
        (goto c (ps ! Suc i) ?w) = Inr ((), goto c NULL ((goto c (ps ! Suc i) ?w)
          \<lparr>usr := fold (step_effect g) (drop (Suc i) (steps a)) (usr ?w)\<rparr>))"
      by simp
    then show ?thesis
      using run nx n drop by (simp add: goto_usr)
  qed
qed

lemma closed_circuit_never_returns:
  assumes "at_step w c ps a i" and "leads a = Some k" and "\<forall>tp \<in> set (steps a). is_user tp"
  shows "exec (computing g) n (Run (fst (steps a ! i)) c s d (snd (steps a ! i))) w = Inl OutOfFuel"
  using assms(1)
proof (induction n arbitrary: i w)
  case 0
  show ?case by (simp add: mfail_apply)
next
  case (Suc n)
  from Suc.prems have i: "i < length ps" and ci: "circuit (elems w) ps a" and
    len: "length (steps a) = length ps"
    using circuit_lengths by (auto simp: at_step_def)
  have tp: "is_user (steps a ! i)" using assms(3) i len by simp
  let ?w = "w\<lparr>usr := step_effect g (steps a ! i) (usr w)\<rparr>"
  have at: "at_step ?w c ps a i" by (rule at_step_usr [OF Suc.prems])
  obtain j where nx: "abs_next a i = Some j" using assms(2) by (cases "Suc i < length (steps a)") (simp_all add: abs_next_def)
  have "at_step (goto c (ps ! j) ?w) c ps a j"
    by (rule at_step_goto [OF at abs_next_less [OF ci nx]])
  from Suc.IH [OF this] show ?case
    using computing_step [OF tp, of g n c s d w] returnA_step [OF at] nx by simp
qed

end
