(* ===== verification/Demo_States.thy ===== *)
theory Demo_States
  imports Demo_Kernel Pipeline
begin

text \<open>
  Concrete processes on the kernel of \<open>Demo_Kernel\<close>: two elements in a circuit, one more element,
  a connection with a buffer, a timer, a server and a client. The witnesses of the theorems run on
  them.
\<close>

section \<open>Circuits\<close>

definition demo_elem :: "nat \<Rightarrow> ptr \<Rightarrow> bool \<Rightarrow> ptr \<Rightarrow> elementE" where
  "demo_elem n p l nx = \<lparr>e_type = MLETSIMPLE, e_run = A_user n, e_priv = p, e_last = l, e_next = nx\<rparr>"

text \<open>Elements 1 and 2 are a circuit, element 3 another one; the argument is where 2 leads.\<close>

definition demo_elems :: "ptr \<Rightarrow> elementE store" where
  "demo_elems nx = \<lparr>cells = [1 \<mapsto> demo_elem 0 10 False 2, 2 \<mapsto> demo_elem 1 20 True nx,
     3 \<mapsto> demo_elem 2 30 True NULL], brk = 4\<rparr>"

definition demo_acirc :: "nat option \<Rightarrow> acirc" where
  "demo_acirc l = \<lparr>steps = [(A_user 0, 10), (A_user 1, 20)], leads = l\<rparr>"

lemma demo_circuit:
  "circuit (demo_elems NULL) [1, 2] (demo_acirc None)"
  "circuit (demo_elems 1) [1, 2] (demo_acirc (Some 0))"
  "circuit (demo_elems 2) [1, 2] (demo_acirc (Some 1))"
  "circuit (demo_elems nx) [3] (single (A_user 2) 30)"
  by (simp_all add: circuit_def demo_elems_def demo_acirc_def demo_elem_def single_def)

text \<open>The circuit of a process whose element \<open>cur\<close> is the current one.\<close>

definition demo_running :: "ptr \<Rightarrow> ptr \<Rightarrow> 'u \<Rightarrow> (demo, 'u) world" where
  "demo_running nx cur us = (demo_world demo_start us)\<lparr>elems := demo_elems nx,
     circs := \<lparr>cells = [1 \<mapsto> \<lparr>c_err = Some 7, c_current = cur, c_nets = 1, c_ptr = None\<rparr>], brk = 2\<rparr>\<rparr>"

lemma demo_at_step:
  "at_step (demo_running NULL 1 us) 1 [1, 2] (demo_acirc None) 0"
  "at_step (demo_running NULL 2 us) 1 [1, 2] (demo_acirc None) 1"
  "at_step (demo_running 1 1 us) 1 [1, 2] (demo_acirc (Some 0)) 0"
  "at_step (demo_running 1 2 us) 1 [1, 2] (demo_acirc (Some 0)) 1"
  using demo_circuit by (simp_all add: at_step_def demo_running_def)

lemma demo_idle: "idle (demo_running nx NULL us) 1"
  by (simp add: idle_def demo_running_def)

lemma demo_circuit_at: "circuit_at (demo_running NULL cur us) 1 [1, 2] (demo_acirc None)"
  using demo_circuit by (simp add: circuit_at_def demo_running_def)

lemma demo_store_ok: "store_ok (elems (demo_running nx cur us))"
  by (auto simp: store_ok_def demo_running_def demo_elems_def)

section \<open>Data\<close>

definition demo_file :: fileS where "demo_file = \<lparr>f_ptr = NULL, f_data = 12, f_fd = 5\<rparr>"
definition demo_string :: stringS where "demo_string = \<lparr>s_blob = 21, s_size = 2\<rparr>"
definition demo_io :: ioP where "demo_io = \<lparr>epollflags = EPOLLET, readsize = 4\<rparr>"

definition demo_timer :: "int \<Rightarrow> timerS" where
  "demo_timer st = \<lparr>t_ptr = NULL, t_fd = 5, t_status = st\<rparr>"

definition demo_timerP :: timerP where
  "demo_timerP = \<lparr>tp_epollflags = EPOLLET, clockid = 0, tp_flags = 0, interval_ns = 1500000000\<rparr>"

definition demo_server :: "string option \<Rightarrow> tcpserverP" where
  "demo_server ad = \<lparr>epollflags = EPOLLET, readsize = 4, bindaddr = ad, bindport = 9090,
     bind_addr = \<lparr>sin_family = 0, sin_port = 0, sin_addr = 0\<rparr>, backlog = 2, client_connected = Some 0\<rparr>"

definition demo_conn :: tcpconnS where
  "demo_conn = \<lparr>f_ptr = NULL, f_data = 12, f_fd = 5,
     localaddr = \<lparr>sin_family = 0, sin_port = 0, sin_addr = 0\<rparr>,
     remoteaddr = \<lparr>sin_family = 0, sin_port = 0, sin_addr = 0\<rparr>\<rparr>"

definition demo_client :: "int \<Rightarrow> tcpclientP" where
  "demo_client st = \<lparr>epollflags = EPOLLET, readsize = 4, tc_hostname = ''localhost'', tc_port = ''80'',
     tc_connected = None, tc_status = st\<rparr>"

definition demo_tls :: tlsclientP where
  "demo_tls = \<lparr>epollflags = EPOLLET, readsize = 4, tc_hostname = ''localhost'', tc_port = ''80'',
     tc_connected = None, tc_status = TC_CONNECTED, tls_ssl = 1, tls_status = TLS_CONNECTED\<rparr>"

text \<open>Object 11 is the given one, 12 the string, 13 the given private struct, 14 an \<open>ioP\<close>.\<close>

definition demo_data :: "obj \<Rightarrow> obj \<Rightarrow> (demo, 'u) world \<Rightarrow> (demo, 'u) world" where
  "demo_data f priv w = w\<lparr>
     objs := \<lparr>cells = [11 \<mapsto> f, 12 \<mapsto> O_string demo_string, 13 \<mapsto> priv, 14 \<mapsto> O_ioP demo_io], brk = 15\<rparr>,
     blobs := \<lparr>cells = [21 \<mapsto> [1, 2, 3, 4]], brk = 22\<rparr>\<rparr>"

lemma demo_data_simps [simp]:
  "w_os (demo_data f priv w) = w_os w" "kern (demo_data f priv w) = kern w"
  "errno (demo_data f priv w) = errno w" "trace (demo_data f priv w) = trace w"
  "elems (demo_data f priv w) = elems w" "circs (demo_data f priv w) = circs w"
  "bagh (demo_data f priv w) = bagh w" "ev (demo_data f priv w) = ev w"
  "usr (demo_data f priv w) = usr w"
  "obj_as (demo_data f priv w) g 11 = g f"
  "obj_as (demo_data f priv w) as_string 12 = Some demo_string"
  "obj_as (demo_data f priv w) g 13 = g priv"
  "obj_as (demo_data f priv w) as_ioP 14 = Some demo_io"
  "cells (objs (demo_data f priv w)) 11 = Some f"
  "cells (objs (demo_data f priv w)) 13 = Some priv"
  "cells (blobs (demo_data f priv w)) 21 = Some [1, 2, 3, 4]"
  by (simp_all add: demo_data_def obj_as_def)

lemma demo_world_simps [simp]:
  "w_os (demo_world k us) = demo_os" "kern (demo_world k us) = k" "trace (demo_world k us) = []"
  "errno (demo_world k us) = 0" "usr (demo_world k us) = us"
  by (simp_all add: demo_world_def)

text \<open>A process with a connection; what the next read gives is the argument.\<close>

definition demo_stream :: "(int + byte list) list \<Rightarrow> obj \<Rightarrow> obj \<Rightarrow> (demo, unit) world" where
  "demo_stream inp f priv = demo_data f priv (demo_world (demo_start\<lparr>d_input := inp\<rparr>) ())"

lemma demo_stream_simps [simp]:
  "w_os (demo_stream inp f priv) = demo_os"
  "kern (demo_stream inp f priv) = demo_start\<lparr>d_input := inp\<rparr>"
  "obj_as (demo_stream inp f priv) g 11 = g f"
  "obj_as (demo_stream inp f priv) as_string 12 = Some demo_string"
  "obj_as (demo_stream inp f priv) g 13 = g priv"
  "obj_as (demo_stream inp f priv) as_ioP 14 = Some demo_io"
  "cells (objs (demo_stream inp f priv)) 11 = Some f"
  "cells (objs (demo_stream inp f priv)) 13 = Some priv"
  "cells (blobs (demo_stream inp f priv)) 21 = Some [1, 2, 3, 4]"
  by (simp_all add: demo_stream_def)

text \<open>A process whose kernel runs the given system.\<close>

definition on_os :: "demo os \<Rightarrow> (demo, 'u) world \<Rightarrow> (demo, 'u) world" where
  "on_os os w = w\<lparr>w_os := os\<rparr>"

lemma on_os_simps [simp]:
  "w_os (on_os os w) = os" "kern (on_os os w) = kern w" "errno (on_os os w) = errno w"
  "trace (on_os os w) = trace w"
  "obj_as (on_os os w) g p = obj_as w g p"
  "objs (on_os os w) = objs w" "blobs (on_os os w) = blobs w" "elems (on_os os w) = elems w"
  "circs (on_os os w) = circs w"
  by (simp_all add: on_os_def obj_as_def)

section \<open>Bags\<close>

text \<open>A bag for descriptor 9 that waits, armed, in the table.\<close>

definition demo_bag :: bagS where
  "demo_bag = \<lparr>b_fd = 9, b_circuit = 1, b_state = 8, b_data = 4\<rparr>"

definition demo_waiting :: "(demo, unit) world" where
  "demo_waiting = (demo_running 1 2 ())\<lparr>
     bagh := \<lparr>cells = [1 \<mapsto> demo_bag], brk = 2\<rparr>,
     ev := \<lparr>epfd = 3, epflags = EPOLLONESHOT, waitingbags = 1, bags = 1 # replicate 15 NULL\<rparr>\<rparr>"

lemma demo_waiting_ok: "ev_ok demo_waiting"
  by (simp add: ev_ok_def table_ok_def registered_def used_def demo_waiting_def store_ok_def EV_MAXEVENTS_def)

lemma demo_waiting_bag: "cells (bagh demo_waiting) 1 = Some demo_bag" "1 \<in> registered (ev demo_waiting)"
  by (simp_all add: demo_waiting_def registered_def used_def)

text \<open>A table without room.\<close>

definition demo_full :: "(demo, unit) world" where
  "demo_full = (demo_world demo_start ())\<lparr>
     bagh := \<lparr>cells = (\<lambda>p. if 1 \<le> p \<and> p \<le> 16 then Some demo_bag else None), brk = 17\<rparr>,
     ev := \<lparr>epfd = 3, epflags = EPOLLONESHOT, waitingbags = 16, bags = [1..<17]\<rparr>\<rparr>"

lemma demo_full_ok: "ev_ok demo_full"
  by (auto simp: ev_ok_def table_ok_def registered_def used_def demo_full_def store_ok_def EV_MAXEVENTS_def
      upt_rec)

end
