(* ===== verification/Circuit_Properties.thy ===== *)
theory Circuit_Properties
  imports Demo_States
begin

text \<open>
  The properties of circuits: how they are built, run and released, each with a witness on
  the processes of \<open>Demo_States\<close>.
\<close>

section \<open>Building and releasing\<close>

text \<open>C1: Any sequence of \<open>appendA\<close> and \<open>loopA\<close> calls on a new circuit, each \<open>loopA\<close> on an
  element that exists by then, makes exactly the circuit that the abstract operations make; where
  these say that a call does not come back (an element is appended behind a loop into the middle),
  the calls of the code do not come back. The elements are new, and nothing else changes: no other element, no other circuit,
  no data, and of the kernel only what one \<open>malloc\<close> for each \<open>appendA\<close> changes.\<close>

theorem circuit_building_refines:
  assumes "malloc_total (w_os w)" and "store_ok (elems w)"
    and "circuit_at w c [] \<lparr>steps = [], leads = None\<rparr>" and "build_ok 0 cmds"
  shows "case abs_build \<lparr>steps = [], leads = None\<rparr> cmds of
      None \<Rightarrow> build c [] cmds w = Inl Diverges
    | Some a \<Rightarrow> \<exists>ps w'. build c [] cmds w = Inr (ps, w') \<and> circuit_at w' c ps a \<and>
        (\<forall>p \<in> set ps. brk (elems w) \<le> p) \<and> extends c (set ps) (appends cmds) w w'"
  using build_refines_aux [OF assms(1-3), of cmds] assms(4) by (auto split: option.splits)

definition demo_empty :: "(demo, unit) world" where
  "demo_empty = (demo_world demo_start ())\<lparr>circs :=
     \<lparr>cells = [1 \<mapsto> \<lparr>c_err = None, c_current = NULL, c_nets = NULL, c_ptr = None\<rparr>], brk = 2\<rparr>\<rparr>"

lemma demo_empty: "malloc_total (w_os demo_empty)" "store_ok (elems demo_empty)"
  "circuit_at demo_empty 1 [] \<lparr>steps = [], leads = None\<rparr>"
  using demo_malloc by (simp_all add: demo_empty_def circuit_at_def demo_world_def)

lemma circuit_building_refines_witness:
  "(\<exists>ps w'. build 1 [] [Append (A_user 0) 5, Append (A_user 1) 6, LoopAt 1] demo_empty = Inr (ps, w') \<and>
     circuit_at w' 1 ps \<lparr>steps = [(A_user 0, 5), (A_user 1, 6)], leads = Some 1\<rparr>) \<and>
   build 1 [] [Append (A_user 0) 5, Append (A_user 1) 6, LoopAt 1, Append (A_user 2) 7] demo_empty = Inl Diverges"
  using circuit_building_refines [OF demo_empty, of "[Append (A_user 0) 5, Append (A_user 1) 6, LoopAt 1]"]
    circuit_building_refines [OF demo_empty,
      of "[Append (A_user 0) 5, Append (A_user 1) 6, LoopAt 1, Append (A_user 2) 7]"]
  by (simp add: abs_append_eq single_def abs_loop_def) blast

text \<open>C2: \<open>bindA\<close> puts one circuit behind another: open circuits are joined, a closed one is opened
  and the result closed again; it changes no other element, and it never returns when the first
  circuit, or the second one behind a closed first one, loops into its middle.\<close>

theorem bindA_refines:
  assumes "circuit E ps a" and "circuit E qs b" and "set ps \<inter> set qs = {}"
  shows "case abs_bind a b of
      None \<Rightarrow> bindA E (hd ps) (hd qs) = None
    | Some c \<Rightarrow> \<exists>E'. bindA E (hd ps) (hd qs) = Some (Inr E') \<and> circuit E' (ps @ qs) c \<and>
        (\<forall>p. p \<notin> set ps \<union> set qs \<longrightarrow> cells E' p = cells E p) \<and> brk E' = brk E"
  by (rule bindA_refines_aux [OF assms])

lemma bindA_refines_witness:
  "(\<exists>E'. bindA (demo_elems 1) 1 3 = Some (Inr E') \<and> circuit E' [1, 2, 3]
     \<lparr>steps = [(A_user 0, 10), (A_user 1, 20), (A_user 2, 30)], leads = Some 0\<rparr>) \<and>
   bindA (demo_elems 2) 1 3 = None"
  using bindA_refines [OF demo_circuit(2) demo_circuit(4)] bindA_refines [OF demo_circuit(3) demo_circuit(4)]
  by (auto simp: abs_bind_def demo_acirc_def single_def)

text \<open>C3: \<open>loopA\<close> on an element of an open circuit makes the last element lead back to it and
  returns \<open>OK\<close>; on an element of the loop of a circuit it changes nothing and returns \<open>ERR\<close>;
  on an element before that loop it never returns.\<close>

theorem loopA_refines:
  assumes "circuit E ps a" and "i < length ps"
  shows "case abs_loop i a of
      None \<Rightarrow> loopA E (ps ! i) = None
    | Some (r, b) \<Rightarrow> \<exists>E'. loopA E (ps ! i) = Some (Inr (r, E')) \<and> circuit E' ps b \<and>
        (\<forall>p. p \<notin> set ps \<longrightarrow> cells E' p = cells E p) \<and> brk E' = brk E"
  by (rule loopA_refines_aux [OF assms])

lemma loopA_refines_witness:
  "(\<exists>E'. loopA (demo_elems NULL) 2 = Some (Inr (OK, E')) \<and> circuit E' [1, 2] (demo_acirc (Some 1))) \<and>
   loopA (demo_elems 2) 1 = None"
  using loopA_refines [OF demo_circuit(1), of 1] loopA_refines [OF demo_circuit(3), of 0]
  by (auto simp: abs_loop_def demo_acirc_def)

text \<open>C4: \<open>freeC\<close> returns on every circuit, open or looped, and frees the circuit and each of its
  elements, exactly once, and nothing else.\<close>

theorem freeC_releases:
  assumes "circuit_at w c ps a" and "c \<noteq> NULL"
  shows "\<exists>w'. freeC c w = Inr ((), w') \<and>
    (\<forall>p. cells (elems w') p = (if p \<in> set ps then None else cells (elems w) p)) \<and>
    (\<forall>x. cells (circs w') x = (if x = c then None else cells (circs w) x))"
  using freeC_circuit [OF assms] by (simp add: mem.look_fold_del)

lemma freeC_releases_witness:
  "\<exists>w'. freeC 1 (demo_running NULL NULL ()) = Inr ((), w') \<and> cells (elems w') 1 = None \<and>
    cells (elems w') 2 = None \<and> cells (elems w') 3 = cells (demo_elems NULL) 3 \<and> cells (circs w') 1 = None"
  using freeC_releases [OF demo_circuit_at [of NULL "()"]] by (fastforce simp: demo_running_def)

section \<open>Running\<close>

text \<open>C5: \<open>returnA\<close> in step \<open>i\<close> of a circuit makes the next step the current one and calls it with the
  private data it was appended with; after the last step of an open circuit it leaves the circuit
  idle and returns.\<close>

theorem returnA_continues:
  assumes "at_step w c ps a i"
  shows "returnA call c s d w = (case abs_next a i of
      Some j \<Rightarrow> call (Run (fst (steps a ! j)) c s d (snd (steps a ! j))) (goto c (ps ! j) w)
    | None \<Rightarrow> Inr ((), goto c NULL w))"
  by (rule returnA_step [OF assms])

lemma returnA_continues_witness:
  "returnA (\<lambda>i. mfail Diverges) 1 5 6 (demo_running NULL 1 ()) = Inl Diverges \<and>
   returnA (\<lambda>i. mret ()) 1 5 6 (demo_running NULL 2 ()) = Inr ((), goto 1 NULL (demo_running NULL 2 ())) \<and>
   returnA (\<lambda>i. mret ()) 1 5 6 (demo_running 1 2 ()) = Inr ((), goto 1 1 (demo_running 1 2 ()))"
  using returnA_continues [OF demo_at_step(1) [of "()"], of "\<lambda>i. mfail Diverges" 5 6]
    returnA_continues [OF demo_at_step(2) [of "()"], of "\<lambda>i. mret ()" 5 6]
    returnA_continues [OF demo_at_step(4) [of "()"], of "\<lambda>i. mret ()" 5 6]
  by (simp add: abs_next_def demo_acirc_def mdefs)

text \<open>C6: An open circuit of arrows that compute and return runs each of them once, from the current
  one on and in order, and then is idle; a call depth of one per arrow is enough.\<close>

theorem open_circuit_in_order:
  assumes "at_step w c ps a i" and "leads a = None" and "\<forall>tp \<in> set (steps a). is_user tp"
    and "length ps - i \<le> n"
  shows "exec (computing g) n (Run (fst (steps a ! i)) c s d (snd (steps a ! i))) w =
    Inr ((), goto c NULL (w\<lparr>usr := fold (step_effect g) (drop i (steps a)) (usr w)\<rparr>))"
  by (rule open_circuit_runs [OF assms])

lemma open_circuit_in_order_witness:
  "exec (computing (\<lambda>n p xs. xs @ [p])) 2 (Run (A_user 0) 1 5 6 10) (demo_running NULL 1 []) =
     Inr ((), goto 1 NULL ((demo_running NULL 1 [])\<lparr>usr := [10, 20]\<rparr>))"
  using open_circuit_in_order [OF demo_at_step(1) [where us = "[] :: nat list"], of 2 "\<lambda>n p xs. xs @ [p]" 5 6]
  by (simp add: demo_acirc_def demo_running_def)

text \<open>C7: A looped circuit of such arrows never comes back, however deep the calls may go: every
  \<open>returnA\<close> calls the next arrow, so the loop uses up the stack. Only an arrow that waits, or that
  ends in an error, unwinds it.\<close>

theorem closed_circuit_exhausts_stack:
  assumes "at_step w c ps a i" and "leads a = Some k" and "\<forall>tp \<in> set (steps a). is_user tp"
  shows "exec (computing g) n (Run (fst (steps a ! i)) c s d (snd (steps a ! i))) w = Inl OutOfFuel"
  by (rule closed_circuit_never_returns [OF assms])

lemma closed_circuit_exhausts_stack_witness:
  "exec (computing (\<lambda>n p x. x + 1)) 1000 (Run (A_user 0) 1 5 6 10) (demo_running 1 1 (0 :: int)) = Inl OutOfFuel"
  using closed_circuit_exhausts_stack [OF demo_at_step(3) [where us = "0 :: int"], of 0 "\<lambda>n p x. x + 1" 1000 5 6]
  by (simp add: demo_acirc_def)

text \<open>\<open>runA\<close> on an idle circuit starts it at its first element; on a circuit that is in some
  step it calls this step again.\<close>

theorem runA_starts_or_resumes:
  assumes "circuit_at w c ps a" and "ps \<noteq> []" and "idle w c \<or> at_step w c ps a i"
  shows "runA call c s d w = (if idle w c
    then call (Run (fst (steps a ! 0)) c s d (snd (steps a ! 0))) (goto c (ps ! 0) w)
    else call (Run (fst (steps a ! i)) c s d (snd (steps a ! i))) w)"
  using assms runA_start [OF _ assms(1,2), of call s d] runA_resume [of w c ps a i call s d] by auto

lemma runA_starts_or_resumes_witness:
  "runA (\<lambda>i. mret ()) 1 5 6 (demo_running NULL NULL ()) = Inr ((), goto 1 1 (demo_running NULL NULL ())) \<and>
   runA (\<lambda>i. mret ()) 1 5 6 (demo_running NULL 2 ()) = Inr ((), demo_running NULL 2 ())"
proof -
  have "\<not> idle (demo_running NULL 2 ()) 1" by (simp add: idle_def demo_running_def)
  then show ?thesis
    using runA_starts_or_resumes [OF demo_circuit_at [of NULL "()"], of 0 "\<lambda>i. mret ()" 5 6]
      runA_starts_or_resumes [OF demo_circuit_at [of 2 "()"], of 1 "\<lambda>i. mret ()" 5 6]
      demo_idle [of NULL "()"] demo_at_step(2) [of "()"]
    by (simp add: demo_acirc_def mdefs)
qed

text \<open>C8: \<open>errorA\<close> hands the state, the data and the message, cut to what the buffer holds, to the error
  function of the circuit, and leaves the circuit idle if that returns; the error function sees the
  circuit still at the step that failed.\<close>

theorem errorA_ends_circuit:
  assumes "cells (circs w) c = Some C" and "c_err C = Some f"
  shows "errorA call c s d (Some msg) w =
      mthen (call (OnError f c s d (Some (take 1023 msg)))) (set_current c NULL) w \<and>
    (\<forall>w'. errorA call c s d (Some msg) w = Inr ((), w') \<longrightarrow> idle w' c)"
  using errorA_eq [OF assms(1), of call s d "Some msg"] assms(2) errorA_idle
  by (auto simp: mthen_apply split: sum.split)

lemma errorA_ends_circuit_witness:
  "errorA (\<lambda>i. mret ()) 1 5 6 (Some ''EOF'') (demo_running NULL 2 ()) =
     Inr ((), goto 1 NULL (demo_running NULL 2 ()))"
  using errorA_ends_circuit [of "demo_running NULL 2 ()" 1 _ 7 "\<lambda>i. mret ()" 5 6 "''EOF''"]
  by (simp add: demo_running_def mdefs set_current_eq)

end
