(* ===== verification/Example_Runtime.thy ===== *)
theory Example_Runtime
  imports Pipeline
begin

text \<open>
  What the programs under \<open>src/examples\<close> share: memory of their own, variables, the signal
  handler, the formats they print with, the event loop with the exit status, and the way from the
  start of the process to the event loop. \<open>fresh\<close> is a process in which nothing was called yet;
  \<open>ensures\<close> composes the phases of a \<open>main\<close>.
\<close>

section \<open>Memory of the program\<close>

text \<open>\<open>malloc\<close> without a check: a null pointer when there is no memory.\<close>

definition malloc_object :: "obj \<Rightarrow> ('k, 'u, ptr) wm" where
  "malloc_object ob = (\<lambda>w. let (ok, k) = os_malloc (w_os w) (kern w); (p, os') = new_cell ob (objs w) in
     if ok then Inr (p, w\<lparr>kern := k, objs := os'\<rparr>) else Inr (NULL, w\<lparr>kern := k\<rparr>))"

definition malloc_buffer :: "nat \<Rightarrow> ('k, 'u, ptr) wm" where
  "malloc_buffer n = (\<lambda>w. let (ok, k) = os_malloc (w_os w) (kern w);
       (p, bs') = new_cell (replicate n 0) (blobs w) in
     if ok then Inr (p, w\<lparr>kern := k, blobs := bs'\<rparr>) else Inr (NULL, w\<lparr>kern := k\<rparr>))"

definition free_object :: "ptr \<Rightarrow> ('k, 'u, unit) wm" where
  "free_object p = (if p = NULL then mret ()
     else mbind (load_obj p) (\<lambda>_. mmod (\<lambda>w. w\<lparr>objs := del_cell p (objs w)\<rparr>)))"

definition free_buffer :: "ptr \<Rightarrow> ('k, 'u, unit) wm" where
  "free_buffer p = (if p = NULL then mret ()
     else mbind (load_blob p) (\<lambda>_. mmod (\<lambda>w. w\<lparr>blobs := del_cell p (blobs w)\<rparr>)))"

text \<open>Structs and arrays that are local or static variables of \<open>main\<close>, with their initial value.\<close>

definition variable :: "obj \<Rightarrow> ('k, 'u, ptr) wm" where
  "variable ob = (\<lambda>w. let (p, os') = new_cell ob (objs w) in Inr (p, w\<lparr>objs := os'\<rparr>))"

definition array_variable :: "byte list \<Rightarrow> ('k, 'u, ptr) wm" where
  "array_variable bs = (\<lambda>w. let (p, bs') = new_cell bs (blobs w) in Inr (p, w\<lparr>blobs := bs'\<rparr>))"

text \<open>\<open>blob[i] = b\<close>, \<open>ctx->member\<close> (the \<open>i\<close>-th pointer of the struct), \<open>file->ptr\<close>.\<close>

definition set_byte :: "ptr \<Rightarrow> nat \<Rightarrow> byte \<Rightarrow> ('k, 'u, unit) wm" where
  "set_byte p i b = mbind (load_blob p) (\<lambda>bs.
     if i < length bs then store_blob p (bs[i := b]) else mfail BufferOverflow)"

definition load_member :: "nat \<Rightarrow> ptr \<Rightarrow> ('k, 'u, ptr) wm" where
  "load_member i ctx = mbind (load_as as_ctx ctx) (\<lambda>ps. if i < length ps then mret (ps ! i) else mfail BadCast)"

definition set_member :: "nat \<Rightarrow> ptr \<Rightarrow> ptr \<Rightarrow> ('k, 'u, unit) wm" where
  "set_member i p ctx = mbind (load_as as_ctx ctx) (\<lambda>ps. store_obj ctx (O_ctx (ps[i := p])))"

definition load_ptr :: "ptr \<Rightarrow> ('k, 'u, ptr) wm" where
  "load_ptr f = load_as ptr_of f"

section \<open>Printing\<close>

definition chars :: "byte list \<Rightarrow> string" where
  "chars bs = map (\<lambda>b. char_of (unat b)) bs"

definition bytes :: "string \<Rightarrow> byte list" where
  "bytes s = map of_char s"

text \<open>\<open>%.*s\<close> with precision \<open>n\<close>: the bytes before the first zero, at most \<open>n\<close> of them; without
  a zero byte in reach the array is overrun. A negative precision is none.\<close>

definition prec_text :: "int \<Rightarrow> byte list \<Rightarrow> string option" where
  "prec_text n bs = (let t = takeWhile (\<lambda>b. b \<noteq> 0) bs in
     if 0 \<le> n \<and> nat n \<le> length t then Some (chars (take (nat n) t))
     else if length t < length bs then Some (chars t)
     else None)"

definition load_text :: "int \<Rightarrow> ptr \<Rightarrow> ('k, 'u, string) wm" where
  "load_text n p = mbind (load_blob p) (\<lambda>bs.
     case prec_text n bs of None \<Rightarrow> mfail BufferOverflow | Some t \<Rightarrow> mret t)"

definition zero_padded :: "nat \<Rightarrow> string \<Rightarrow> string" where
  "zero_padded n s = replicate (n - length s) (CHR ''0'') @ s"

text \<open>\<open>%03d\<close>.\<close>

definition zero_padded_int :: "nat \<Rightarrow> int \<Rightarrow> string" where
  "zero_padded_int n i = (if i < 0 then CHR ''-'' # zero_padded (n - 1) (dec_nat (nat (- i)))
     else zero_padded n (dec_nat (nat i)))"

lemma printf_then [runs]: "mthen (printf t) d w = d (w\<lparr>trace := trace w @ [SysStdout t]\<rparr>)"
  by (simp add: printf_def mmod_then)

text \<open>\<open>perror(e)\<close>.\<close>

definition perror :: "string option \<Rightarrow> ('k, 'u, unit) wm" where
  "perror e = mbind (mgets errno) (\<lambda>en. mbind (mgets w_os) (\<lambda>os.
     dprintf 2 ((case e of None \<Rightarrow> [] | Some m \<Rightarrow> if m = [] then [] else m @ '': '') @ os_strerror os en @ ''\<newline>'')))"

section \<open>Arrows that only change the data\<close>

text \<open>\<open>RETURN_A(c, state, ctx->member)\<close> and \<open>RETURN_A(c, state, file->ptr)\<close>.\<close>

definition member_arrow :: "nat \<Rightarrow> ('k, 'u) calls \<Rightarrow> ptr \<Rightarrow> ptr \<Rightarrow> ptr \<Rightarrow> ('k, 'u, unit) wm" where
  "member_arrow i call c s ctx = mbind (load_member i ctx) (returnA call c s)"

definition ptr_arrow :: "('k, 'u) calls \<Rightarrow> ptr \<Rightarrow> ptr \<Rightarrow> ptr \<Rightarrow> ('k, 'u, unit) wm" where
  "ptr_arrow call c s f = mbind (load_ptr f) (returnA call c s)"

lemma less_fuel_member_arrow [mono_intros]:
  "calls_le f g \<Longrightarrow> less_fuel (member_arrow i f c s d) (member_arrow i g c s d)"
  unfolding member_arrow_def by (intro mono_intros)

lemma less_fuel_ptr_arrow [mono_intros]:
  "calls_le f g \<Longrightarrow> less_fuel (ptr_arrow f c s d) (ptr_arrow g c s d)"
  unfolding ptr_arrow_def by (intro mono_intros)

section \<open>The frame of a \<open>main\<close> function\<close>

definition WORKING :: int where "WORKING = 9999" \<comment> \<open>the status until a signal or an error\<close>

definition catch_signal :: "('k, 'u, unit) wm" where
  "catch_signal = mbind (syscall SysSigaction os_sigaction) (\<lambda>r.
     if res0 r \<noteq> 0 then mfail (Exit EXIT_FAILURE) else mret ())"

text \<open>
  Waiting for events, and the exit status: \<open>if (meloop_io_loop(&status)) ...\<close> with the file and the
  line of the message. The numbers of the rounds and the call depth of the loop are bounded.
\<close>

definition serve :: "string \<Rightarrow> int \<Rightarrow> (int \<Rightarrow> 'u \<Rightarrow> 'u) \<Rightarrow> ('u \<Rightarrow> int) \<Rightarrow> nat \<Rightarrow> ('k, 'u) calls \<Rightarrow> ('k, 'u, unit) wm" where
  "serve file line put status rounds call =
     mbind (meloop_io_loop rounds call (Some (\<lambda>w. status (usr w)))) (\<lambda>r.
     if r \<noteq> 0 then mseq [
       logging_log LOGGING_ERROR file line ''main'' (Some ''meloop_io_loop''),
       on_usr (put EXIT_FAILURE)]
     else on_usr (put 0))"

section \<open>Invariants\<close>

context process_invariant
begin

lemma keep_on_usr [keep_intros]: "keep P F (on_usr g)"
  unfolding on_usr_def by (intro keep_mmod users)

lemma keep_malloc_object [keep_intros]: "keep P F (malloc_object ob)"
proof (rule keepI)
  fix w f assume "malloc_object ob w = Inl f"
  then show "F f" by (auto simp: malloc_object_def split: prod.splits if_splits)
next
  fix w a w' assume P: "P w" and r: "malloc_object ob w = Inr (a, w')"
  from kernel [OF P plain_step.k_malloc] r show "P w'"
    by (auto simp: malloc_object_def Let_def split: prod.splits if_splits intro: objects)
qed

lemma keep_malloc_buffer [keep_intros]: "keep P F (malloc_buffer n)"
proof (rule keepI)
  fix w f assume "malloc_buffer n w = Inl f"
  then show "F f" by (auto simp: malloc_buffer_def split: prod.splits if_splits)
next
  fix w a w' assume P: "P w" and r: "malloc_buffer n w = Inr (a, w')"
  from kernel [OF P plain_step.k_malloc] r show "P w'"
    by (auto simp: malloc_buffer_def Let_def split: prod.splits if_splits intro: buffers)
qed

lemma keep_free_object [keep_intros]: "keep P F (free_object p)"
  unfolding free_object_def by (intro keep_intros keep_mmod objects)

lemma keep_free_buffer [keep_intros]: "keep P F (free_buffer p)"
  unfolding free_buffer_def by (intro keep_intros keep_mmod buffers)

lemma keep_variable [keep_intros]: "keep P F (variable ob)"
  by (auto simp: variable_def keep_def objects split: prod.split)

lemma keep_array_variable [keep_intros]: "keep P F (array_variable bs)"
  by (auto simp: array_variable_def keep_def buffers split: prod.split)

lemma keep_set_byte [keep_intros]: "keep P F (set_byte p i b)"
  unfolding set_byte_def by (intro keep_intros) simp_all

lemma keep_load_member [keep_intros]: "keep P F (load_member i c)"
  unfolding load_member_def by (intro keep_intros) simp_all

lemma keep_set_member [keep_intros]: "keep P F (set_member i p c)"
  unfolding set_member_def by (intro keep_intros)

lemma keep_load_ptr [keep_intros]: "keep P F (load_ptr f)"
  unfolding load_ptr_def by (intro keep_intros)

lemma keep_load_text [keep_intros]: "keep P F (load_text n p)"
  unfolding load_text_def by (intro keep_intros) simp_all

lemma keep_member_arrow [keep_intros]:
  "(\<And>i. keep P F (call i)) \<Longrightarrow> keep P F (member_arrow i call c s d)"
  unfolding member_arrow_def by (intro keep_intros)

lemma keep_ptr_arrow [keep_intros]:
  "(\<And>i. keep P F (call i)) \<Longrightarrow> keep P F (ptr_arrow call c s d)"
  unfolding ptr_arrow_def by (intro keep_intros)

lemma keep_perror [keep_intros]: "keep P F (perror e)"
  unfolding perror_def by (intro keep_intros)

lemma keep_verbosity [keep_intros]: "keep P F (mmod (\<lambda>w. w\<lparr>verbosity := v\<rparr>))"
  by (intro keep_mmod verbosities)

end

section \<open>From the start of the process\<close>

definition fresh :: "'k interest \<Rightarrow> ('k, 'u) world \<Rightarrow> bool" where
  "fresh interest w \<longleftrightarrow> epoll_spec (w_os w) interest \<and> ev w = static_ev \<and> bagh w = empty_store"

definition ensures :: "('w \<Rightarrow> bool) \<Rightarrow> (fault \<Rightarrow> bool) \<Rightarrow> ('w, 'a) m \<Rightarrow> ('w \<Rightarrow> bool) \<Rightarrow> bool" where
  "ensures P F c Q \<longleftrightarrow> (\<forall>w. P w \<longrightarrow> (case c w of Inl f \<Rightarrow> F f | Inr r \<Rightarrow> Q (snd r)))"

lemma ensures_keep: "keep P F c \<Longrightarrow> ensures P F c P"
  by (simp add: ensures_def keep_def)

lemma ensures_seq:
  assumes "ensures P F c Q" and "\<And>a. ensures Q F (k a) R"
  shows "ensures P F (mbind c k) R"
  unfolding ensures_def
proof (intro allI impI)
  fix w assume "P w"
  with assms(1) show "case mbind c k w of Inl f \<Rightarrow> F f | Inr r \<Rightarrow> R (snd r)"
    using assms(2) unfolding ensures_def by (cases "c w") (auto simp: mbind_apply)
qed

lemma ensures_seq_unit: "ensures P F c Q \<Longrightarrow> ensures Q F d R \<Longrightarrow> ensures P F (mthen c d) R"
  by (simp add: mthen_def ensures_seq)

lemma ensures_bind: "keep P F c \<Longrightarrow> (\<And>a. ensures P F (k a) R) \<Longrightarrow> ensures P F (mbind c k) R"
  by (blast intro: ensures_seq ensures_keep)

lemma ensures_then: "keep P F c \<Longrightarrow> ensures P F d R \<Longrightarrow> ensures P F (mthen c d) R"
  by (blast intro: ensures_seq_unit ensures_keep)

text \<open>Before the initialisation.\<close>

lemma keep_fresh_verbosity: "keep (fresh interest) F (mmod (\<lambda>w. w\<lparr>verbosity := v\<rparr>))"
  by (rule keep_mmod) (simp add: fresh_def)

lemma keep_fresh_usr: "keep (fresh interest) F (on_usr g)"
  unfolding on_usr_def by (rule keep_mmod) (simp add: fresh_def)

lemma keep_fresh_catch_signal: "keep (fresh interest) (\<lambda>f. \<not> bag_fault f) catch_signal"
  by (auto simp: keep_def catch_signal_def fresh_def mdefs syscall_def Let_def split: prod.split)

text \<open>The initialisation makes the invariant of the event module true.\<close>

lemma static_ok: "bagh w = empty_store \<Longrightarrow> waitingbags (ev w) = 0 \<Longrightarrow> bags (ev w) = replicate EV_MAXEVENTS NULL \<Longrightarrow> ev_ok w"
  by (simp add: ev_ok_def table_ok_def used_def registered_def store_ok_def empty_store_def)

lemma init_ensures:
  "ensures (fresh interest) (\<lambda>f. \<not> bag_fault f) (meloop_io_init flags) (epoll_inv interest [])"
  unfolding ensures_def
proof (intro allI impI)
  fix w :: "('a, 'b) world" assume f: "fresh interest w"
  obtain r k where r: "os_epoll_create1 (w_os w) 0 (kern w) = (r, k)" by fastforce
  show "case meloop_io_init flags w of Inl f \<Rightarrow> \<not> bag_fault f | Inr r \<Rightarrow> epoll_inv interest [] (snd r)"
  proof (cases "resfd r < 0")
    case True
    with f r show ?thesis
      by (simp add: fresh_def static_ev_def meloop_io_init_def meloop_ev_init_def set_ev_def mdefs syscall_def)
  next
    case False
    then obtain ep where ep: "r = Inr ep" "0 \<le> ep" by (auto simp: resfd_def split: sum.splits)
    define w' where "w' = w\<lparr>kern := k, trace := trace w @ [SysEpollCreate],
      ev := \<lparr>epfd = ep, epflags = epflags static_ev OR flags, waitingbags = 0, bags = replicate EV_MAXEVENTS NULL\<rparr>\<rparr>"
    have run: "meloop_io_init flags w = Inr ((), w')"
      using f r ep
      by (simp add: fresh_def static_ev_def meloop_io_init_def meloop_ev_init_def set_ev_def mdefs syscall_def
          resfd_def w'_def)
    have "interest k ep = (\<lambda>_. None)"
      using f r ep by (auto simp: fresh_def epoll_spec_def epoll_other_spec_def)
    moreover have "ev_ok w'" using f by (intro static_ok) (simp_all add: w'_def fresh_def)
    moreover have "epflags (ev w') AND EPOLLONESHOT \<noteq> 0"
      by (simp add: w'_def static_ev_def oneshot_or EPOLLONESHOT_def)
    ultimately have "epoll_inv interest [] w'"
      using f by (simp add: epoll_inv_def entry_ok_def pend_ok_def w'_def fresh_def)
    with run show ?thesis by simp
  qed
qed

text \<open>After the loop no arrow can misuse a bag by itself, whatever the state is.\<close>

interpretation calm: process_invariant "\<lambda>_. True" "\<lambda>f. \<not> bag_fault f"
proof unfold_locales
  show "keep (\<lambda>_. True) (\<lambda>f. \<not> bag_fault f) (mbind (meloop_bag_new fd c s d) (meloop_ev_arm op))" for fd c s d op
    by (auto simp: keep_def meloop_bag_new_def meloop_ev_arm_def malloc_or_die_def load_bag_def set_ev_def
        epoll_ctl_def set_errno_def new_cell_def get_cell_def mdefs syscall_def Let_def
        split: prod.splits sum.splits if_splits)
  show "keep (\<lambda>_. True) (\<lambda>f. \<not> bag_fault f) (meloop_ev_dearm fd)" for fd
    by (auto simp: keep_def meloop_ev_dearm_def epoll_ctl_def mdefs syscall_def Let_def split: prod.splits)
qed simp_all

lemma deinit_returns:
  assumes "ev_ok w"
  shows "\<exists>w'. meloop_io_deinit w = Inr ((), w')"
proof -
  obtain r k where r: "os_close (w_os w) (epfd (ev w)) (kern w) = (r, k)" by fastforce
  let ?w = "w\<lparr>kern := k, trace := trace w @ [SysClose (epfd (ev w))],
    errno := (case r of Inl e \<Rightarrow> e | Inr _ \<Rightarrow> errno w)\<rparr>"
  have "ev_ok ?w" using assms by (simp add: ev_ok_def)
  moreover have "meloop_io_deinit w = meloop_bags_freeall ?w"
    using r by (simp add: meloop_io_deinit_def meloop_ev_deinit_def sys_close_def mdefs syscall_def
        split: sum.split)
  ultimately show ?thesis using meloop_bags_freeall_eq [of ?w] by simp
qed

text \<open>
  What a \<open>main\<close> function may rely on once the event module is initialised. The locale is about the
  functions \<open>call\<close> that are reached through pointers and the rounds the loop is allowed.
\<close>

locale started = process_invariant P F
  for P :: "('k, 'u) world \<Rightarrow> bool" and F :: "fault \<Rightarrow> bool" +
  fixes call :: "('k, 'u) calls" and rounds :: nat
  assumes calls: "keep P F (call i)"
    and loop: "keep P F (meloop_io_loop rounds call st)"
    and deinit: "ensures P F meloop_io_deinit (\<lambda>_. True)"
    and released: "keep (\<lambda>_ :: ('k, 'u) world. True) F (freeC c)"
begin

lemma keep_run: "keep P F (runA call c s d)"
  by (rule keep_runA) (rule calls)

lemma keep_serve: "keep P F (serve file line put status rounds call)"
  unfolding serve_def by (intro keep_intros loop)

lemma ensures_end: "keep (\<lambda>_. True) F d \<Longrightarrow> ensures P F (mthen meloop_io_deinit d) (\<lambda>_. True)"
  by (rule ensures_seq_unit [OF deinit]) (rule ensures_keep)

end

lemma started_epoll:
  assumes "\<And>ps. kept_program (epoll_inv interest ps) (\<lambda>f. \<not> bag_fault f) u"
  shows "started (epoll_inv interest []) (\<lambda>f. \<not> bag_fault f) (exec u depth) rounds"
proof (intro started.intro started_axioms.intro)
  show "process_invariant (epoll_inv interest []) (\<lambda>f. \<not> bag_fault f)"
    by (rule epl.process_invariant_axioms)
  show "keep (epoll_inv interest []) (\<lambda>f. \<not> bag_fault f) (exec u depth i)" for i
    by (rule kept_program.exec_keeps [OF assms])
  show "keep (epoll_inv interest []) (\<lambda>f. \<not> bag_fault f) (meloop_io_loop rounds (exec u depth) st)" for st
    by (rule epl_loop.loop) (rule kept_program.exec_keeps [OF assms])
  show "ensures (epoll_inv interest []) (\<lambda>f. \<not> bag_fault f) meloop_io_deinit (\<lambda>_. True)"
    unfolding ensures_def epoll_inv_def using deinit_returns by fastforce
  show "keep (\<lambda>_. True) (\<lambda>f. \<not> bag_fault f) (freeC c)" for c
    by (rule calm.keep_freeC)
qed

text \<open>The whole of it: from the start of the process to its end no bag is misused.\<close>

lemma main_safe:
  assumes "fresh interest w"
    and "ensures (epoll_inv interest []) (\<lambda>f. \<not> bag_fault f) rest (\<lambda>_. True)"
    and "keep (fresh interest) (\<lambda>f. \<not> bag_fault f) before"
    and "mthen before (mthen (meloop_io_init flags) rest) w = Inl f"
  shows "\<not> bag_fault f"
proof -
  have "ensures (fresh interest) (\<lambda>f. \<not> bag_fault f) (mthen before (mthen (meloop_io_init flags) rest)) (\<lambda>_. True)"
    by (intro ensures_seq_unit [OF ensures_keep [OF assms(3)]] ensures_seq_unit [OF init_ensures assms(2)])
  with assms(1,4) show ?thesis by (fastforce simp: ensures_def)
qed

section \<open>An interrupted loop\<close>

text \<open>Whatever a signal handler has made of the status: when \<open>epoll_wait\<close> was interrupted, or
  failed for another reason, the program reports a failure.\<close>

lemma serve_interrupted:
  assumes "waitingbags (ev w) \<noteq> 0" and "status (usr w) > EXIT_FAILURE"
    and "os_epoll_wait (w_os w) (epfd (ev w)) EV_MAXEVENTS (kern w) = (Inl e, k)"
    and "\<And>v. status (put EXIT_FAILURE v) = EXIT_FAILURE"
  shows "\<exists>w'. serve file line put status (Suc n) call w = Inr ((), w') \<and> status (usr w') = EXIT_FAILURE"
proof -
  let ?w1 = "w\<lparr>kern := k, trace := trace w @ [SysEpollWait], errno := e\<rparr>"
  have "meloop_io_loop (Suc n) call (Some (\<lambda>w. status (usr w))) w = Inr (ERR, ?w1)"
    using assms by (simp add: keeps_going_def meloop_ev_wait_def mdefs syscall_def)
  moreover obtain w2 where "logging_log LOGGING_ERROR file line ''main'' (Some ''meloop_io_loop'') ?w1 = Inr ((), w2)"
    using logging_log_returns by blast
  ultimately show ?thesis
    using assms(4) by (simp add: serve_def mdefs on_usr_def ERR_def)
qed

end
