(* ===== verification/Alike.thy ===== *)
theory Alike
  imports Example_Runtime
begin

text \<open>
  Two runs of the same code from processes that differ only in the user part, the variables of the
  program that uses the library. \<open>agrees R c\<close>: when the user parts are related by \<open>R\<close>, both runs of
  \<open>c\<close> end in the same fault, or return the same value in processes that again differ only there, and by
  \<open>R\<close>. The library never looks at these variables, so all its functions respect every relation; a
  program does if its own functions do (the locale \<open>blind_program\<close>).
\<close>

definition alike :: "('u \<Rightarrow> 'u \<Rightarrow> bool) \<Rightarrow> ('k, 'u) world \<Rightarrow> ('k, 'u) world \<Rightarrow> bool" where
  "alike R w v \<longleftrightarrow> v = w\<lparr>usr := usr v\<rparr> \<and> R (usr w) (usr v)"

definition alike_results ::
    "('u \<Rightarrow> 'u \<Rightarrow> bool) \<Rightarrow> fault + 'a \<times> ('k, 'u) world \<Rightarrow> fault + 'a \<times> ('k, 'u) world \<Rightarrow> bool" where
  "alike_results R r r' \<longleftrightarrow> (case r of
     Inl f \<Rightarrow> r' = Inl f
   | Inr x \<Rightarrow> \<exists>v. r' = Inr (fst x, v) \<and> alike R (snd x) v)"

definition agrees :: "('u \<Rightarrow> 'u \<Rightarrow> bool) \<Rightarrow> ('k, 'u, 'a) wm \<Rightarrow> bool" where
  "agrees R c \<longleftrightarrow> (\<forall>w v. alike R w v \<longrightarrow> alike_results R (c w) (c v))"

named_theorems agree_intros "rules that show that a computation runs alike from related states: of user states"

lemma alike_usr: "alike R w (w\<lparr>usr := u\<rparr>) \<longleftrightarrow> R (usr w) u"
  by (simp add: alike_def)

lemma alikeE:
  assumes "alike R w v"
  obtains u where "v = w\<lparr>usr := u\<rparr>" and "R (usr w) u"
  using assms unfolding alike_def by blast

lemma agreesI:
  assumes "\<And>w u. R (usr w) u \<Longrightarrow> alike_results R (c w) (c (w\<lparr>usr := u\<rparr>))"
  shows "agrees R c"
  unfolding agrees_def using assms by (blast elim: alikeE)

lemma agreesD: "agrees R c \<Longrightarrow> R (usr w) u \<Longrightarrow> alike_results R (c w) (c (w\<lparr>usr := u\<rparr>))"
  by (simp add: agrees_def alike_usr)

lemma alike_results_simps [simp]:
  "alike_results R (Inl f) r \<longleftrightarrow> r = Inl f"
  "alike_results R (Inr (a, w)) r \<longleftrightarrow> (\<exists>u. r = Inr (a, w\<lparr>usr := u\<rparr>) \<and> R (usr w) u)"
  by (auto simp: alike_results_def alike_usr elim!: alikeE)

section \<open>The monad\<close>

lemma agrees_mret [agree_intros]: "agrees R (mret a)"
  by (intro agreesI) (auto simp: mdefs)

lemma agrees_mfail [agree_intros]: "agrees R (mfail f)"
  by (intro agreesI) (simp add: mdefs)

lemma agrees_mbind [agree_intros]:
  fixes R :: "'u \<Rightarrow> 'u \<Rightarrow> bool" and c :: "('k, 'u, 'a) wm"
  assumes "agrees R c" and "\<And>a. agrees R (k a)"
  shows "agrees R (mbind c k)"
proof (rule agreesI)
  fix w :: "('k, 'u) world" and u assume R: "R (usr w) u"
  note c = agreesD [OF assms(1) R]
  show "alike_results R (mbind c k w) (mbind c k (w\<lparr>usr := u\<rparr>))"
  proof (cases "c w")
    case (Inl f)
    with c show ?thesis by (simp add: mdefs)
  next
    case (Inr x)
    obtain a w1 where x: "x = (a, w1)" by (cases x)
    with c Inr obtain u1 where "c (w\<lparr>usr := u\<rparr>) = Inr (a, w1\<lparr>usr := u1\<rparr>)" "R (usr w1) u1" by auto
    with agreesD [OF assms(2), of w1 u1 a] Inr x show ?thesis by (simp add: mdefs)
  qed
qed

lemma agrees_mthen [agree_intros]: "agrees R c \<Longrightarrow> agrees R d \<Longrightarrow> agrees R (mthen c d)"
  by (simp add: mthen_def agrees_mbind)

lemma agrees_mseq_Nil [agree_intros]: "agrees R (mseq [])"
  by (simp add: agrees_mret)

lemma agrees_mseq_Cons [agree_intros]:
  "agrees R c \<Longrightarrow> agrees R (mseq cs) \<Longrightarrow> agrees R (mseq (c # cs))"
  by (simp add: agrees_mthen)

lemma agrees_if [agree_intros]:
  "(b \<Longrightarrow> agrees R c) \<Longrightarrow> (\<not> b \<Longrightarrow> agrees R d) \<Longrightarrow> agrees R (if b then c else d)"
  by simp

lemma agrees_option [agree_intros]:
  "agrees R c \<Longrightarrow> (\<And>a. agrees R (k a)) \<Longrightarrow> agrees R (case x of None \<Rightarrow> c | Some a \<Rightarrow> k a)"
  by (cases x) simp_all

lemma agrees_sum [agree_intros]:
  "(\<And>a. agrees R (c a)) \<Longrightarrow> (\<And>a. agrees R (k a)) \<Longrightarrow>
    agrees R (case x of Inl a \<Rightarrow> c a | Inr a \<Rightarrow> k a)"
  by (cases x) simp_all

lemma agrees_prod [agree_intros]:
  "(\<And>a b. agrees R (k a b)) \<Longrightarrow> agrees R (case x of (a, b) \<Rightarrow> k a b)"
  by (cases x) simp

lemma agrees_let [agree_intros]: "(\<And>a. agrees R (k a)) \<Longrightarrow> agrees R (let a = x in k a)"
  by simp

lemma agrees_mseq_map [agree_intros]: "(\<And>x. agrees R (h x)) \<Longrightarrow> agrees R (mseq (map h xs))"
  by (induction xs) (simp_all add: agrees_mret agrees_mthen)

text \<open>Reading and changing what is not the user part.\<close>

lemma agrees_mgets: "(\<And>w u. g (w\<lparr>usr := u\<rparr>) = g w) \<Longrightarrow> agrees R (mgets g)"
  by (intro agreesI) (auto simp: mdefs)

lemma agrees_mmod:
  "(\<And>w u. g (w\<lparr>usr := u\<rparr>) = (g w)\<lparr>usr := u\<rparr>) \<Longrightarrow> (\<And>w. usr (g w) = usr w) \<Longrightarrow> agrees R (mmod g)"
  by (intro agreesI) (auto simp: mdefs)

lemma agrees_mlift: "(\<And>w u. g (w\<lparr>usr := u\<rparr>) = g w) \<Longrightarrow> agrees R (mlift g)"
  by (intro agreesI) (auto simp: mdefs split: sum.split)

lemmas agrees_field = agrees_mgets agrees_mmod agrees_mlift

lemma agrees_plain:
  fixes R :: "'u \<Rightarrow> 'u \<Rightarrow> bool" and c :: "('k, 'u, 'a) wm"
  assumes "\<And>w u. c (w\<lparr>usr := u\<rparr>) = map_sum id (map_prod id (\<lambda>v. v\<lparr>usr := u\<rparr>)) (c w)"
    and "\<And>w a w'. c w = Inr (a, w') \<Longrightarrow> usr w' = usr w"
  shows "agrees R c"
proof (rule agreesI)
  fix w :: "('k, 'u) world" and u assume "R (usr w) u"
  then show "alike_results R (c w) (c (w\<lparr>usr := u\<rparr>))"
    using assms(1) [where w = w and u = u] assms(2) [where w = w] by (cases "c w") auto
qed

lemma agrees_syscall [agree_intros]: "agrees R (syscall sc f)"
  by (rule agrees_plain) (auto simp: syscall_def Let_def split: prod.splits sum.split)

lemma agrees_sslcall [agree_intros]: "agrees R (sslcall sc f)"
  by (rule agrees_plain) (auto simp: sslcall_def Let_def split: prod.splits)

section \<open>Memory and system calls\<close>

lemma agrees_loads [agree_intros]:
  "agrees R (load_elem p)" "agrees R (load_circ p)" "agrees R (load_bag p)"
  "agrees R (load_obj p)" "agrees R (load_blob p)"
  unfolding load_elem_def load_circ_def load_bag_def load_obj_def load_blob_def
  by (intro agrees_field; simp)+

lemma agrees_stores [agree_intros]:
  "agrees R (set_current c p)" "agrees R (store_obj p ob)" "agrees R (store_blob p bs)"
  "agrees R (set_errno e)" "agrees R (set_ev h)"
  unfolding set_current_def store_obj_def store_blob_def set_errno_def set_ev_def
  by (intro agree_intros agrees_field; simp)+

lemma agrees_load_as [agree_intros]: "agrees R (load_as g p)"
  unfolding load_as_def by (intro agree_intros)

lemma agrees_change_obj [agree_intros]: "agrees R (change_obj g p)"
  unfolding change_obj_def by (intro agree_intros)

lemma agrees_set_size [agree_intros]: "agrees R (set_size d n)"
  unfolding set_size_def by (intro agree_intros)

lemma agrees_malloc [agree_intros]: "agrees R malloc_or_die"
  by (rule agrees_plain) (auto simp: malloc_or_die_def Let_def split: prod.splits if_splits)

lemma agrees_getters [agree_intros]:
  "agrees R (mgets errno)" "agrees R (mgets ev)" "agrees R (mgets w_os)" "agrees R (mgets verbosity)"
  "agrees R (mgets ssl_ctx)" "agrees R (mgets logging_fd)" "agrees R (mgets (\<lambda>w. epfd (ev w)))"
  "agrees R (mgets (\<lambda>w. waitingbags (ev w)))" "agrees R (mgets (\<lambda>w. bags (ev w) ! i))"
  by (intro agrees_mgets; simp)+

lemma agrees_io_calls [agree_intros]:
  "agrees R (sys_read fd b n)" "agrees R (sys_write fd b n)" "agrees R (sys_close fd)"
  "agrees R (sys_open path fl)" "agrees R (epoll_ctl ep cop fd evs p)"
  unfolding sys_read_def sys_write_def sys_close_def sys_open_def epoll_ctl_def
  by (intro agree_intros)+

lemma agrees_printf [agree_intros]: "agrees R (printf t)"
  unfolding printf_def by (intro agrees_field; simp)

section \<open>The library\<close>

lemma agrees_free_bag [agree_intros]: "agrees R (free_bag b)"
  unfolding free_bag_def by (intro agree_intros agrees_field) simp_all

lemma agrees_bag_free [agree_intros]: "agrees R (meloop_bag_free b)"
  unfolding meloop_bag_free_def by (intro agree_intros)

lemma agrees_new_bag: "agrees R (\<lambda>w. let (bag, B) = new_cell b (bagh w) in Inr (bag, w\<lparr>bagh := B\<rparr>))"
  by (rule agrees_plain) (auto split: prod.splits)

lemma agrees_bag_new [agree_intros]: "agrees R (meloop_bag_new fd c s d)"
  unfolding meloop_bag_new_def by (intro agree_intros agrees_new_bag)

lemma agrees_ev [agree_intros]:
  "agrees R (meloop_ev_arm op b)" "agrees R (meloop_ev_dearm fd)" "agrees R meloop_ev_wait"
  unfolding meloop_ev_arm_def meloop_ev_dearm_def meloop_ev_wait_def by (intro agree_intros)+

lemma agrees_arrow [agree_intros]:
  assumes "\<And>i. agrees R (call i)"
  shows "agrees R (returnA call c s d)" "agrees R (errorA call c s d m)" "agrees R (runA call c s d)"
    "agrees R (waitA call c s d fd op fl)" "agrees R (readA call c s d p)" "agrees R (writeA call c s d p)"
    "agrees R (pipereadA call c s d p)" "agrees R (pipewriteA call c s d p)"
proof -
  show ret: "agrees R (returnA call c s d)" for c s d
    unfolding returnA_def by (intro agree_intros assms)
  show err: "agrees R (errorA call c s d m)" for c s d m
    unfolding errorA_def by (intro agree_intros assms)
  show "agrees R (runA call c s d)"
    unfolding runA_def by (intro agree_intros assms)
  show wait: "agrees R (waitA call c s d fd op fl)" for c s d fd op fl
    unfolding waitA_def by (intro agree_intros err)
  show "agrees R (readA call c s d p)"
    unfolding readA_def by (intro agree_intros ret err wait)
  show "agrees R (writeA call c s d p)"
    unfolding writeA_def by (intro agree_intros ret err wait)
  show "agrees R (pipereadA call c s d p)"
    unfolding pipereadA_def by (intro agree_intros ret err wait)
  show "agrees R (pipewriteA call c s d p)"
    unfolding pipewriteA_def by (intro agree_intros ret err wait)
qed

text \<open>The logger, addresses and the structs of the arrows.\<close>

lemma agrees_log [agree_intros]:
  "agrees R (dprintf fd t)" "agrees R (log_print t)" "agrees R (log_reason level)"
  "agrees R (logging_log level fn ln fu msg)"
  unfolding dprintf_def log_print_def log_reason_def logging_log_def by (intro agree_intros)+

lemma agrees_dump [agree_intros]: "agrees R (meloop_sockaddr_dump sa)"
  unfolding meloop_sockaddr_dump_def by (intro agree_intros agrees_field; simp)

lemma agrees_structs [agree_intros]:
  "agrees R (store_fd fd f)" "agrees R (set_conn g f)" "agrees R (set_status st f)" "agrees R freeaddrinfo"
  "agrees R (read_u64 fd)" "agrees R (set_tls h f)" "agrees R (set_tun k f)" "agrees R (tun_log l n fu m)"
  "agrees R (configure_interface t)" "agrees R (connect_try ais fd0)"
proof -
  show "agrees R (store_fd fd f)" "agrees R (set_conn g f)" "agrees R (set_status st f)"
    unfolding store_fd_def set_conn_def set_status_def by (intro agree_intros)+
  show "agrees R freeaddrinfo"
    unfolding freeaddrinfo_def by (intro agree_intros agrees_mgets) simp
  show "agrees R (read_u64 fd)"
    unfolding read_u64_def by (intro agree_intros)
  show "agrees R (set_tls h f)"
    unfolding set_tls_def by (intro agree_intros)
  show t: "agrees R (set_tun k f)" for k f
    unfolding set_tun_def by (intro agree_intros)
  show l: "agrees R (tun_log l n fu m)" for l n fu m
    unfolding tun_log_def by (intro agree_intros)
  show "agrees R (configure_interface t)"
    unfolding configure_interface_def if_ioctl_def by (intro agree_intros t l)
  show "agrees R (connect_try ais fd0)"
    by (induction ais arbitrary: fd0) (simp_all add: agrees_mret, intro agree_intros, assumption+)
qed

lemma agrees_openssl [agree_intros]:
  "agrees R (ssl_set st ssl)" "agrees R (ctx_set cs ctx)" "agrees R ERR_get_error"
  "agrees R (OPENSSL_REASON e)" "agrees R (openssl_prepare ctx p fd h)"
proof -
  show s: "agrees R (ssl_set st ssl)" for st ssl
    unfolding ssl_set_def by (intro agree_intros)
  show "agrees R (ctx_set cs ctx)"
    unfolding ctx_set_def by (intro agree_intros)
  show e: "agrees R ERR_get_error"
    unfolding ERR_get_error_def by (intro agree_intros)
  show r: "agrees R (OPENSSL_REASON e)" for e
    unfolding OPENSSL_REASON_def by (intro agree_intros agrees_mgets) simp
  show "agrees R (openssl_prepare ctx p fd h)"
    unfolding openssl_prepare_def by (intro agree_intros s e r)
qed

text \<open>The other arrows.\<close>

lemma agrees_timer_random [agree_intros]:
  assumes "\<And>i. agrees R (call i)"
  shows "agrees R (timeropenA call c s d p)" "agrees R (timersleepA call c s d p)"
    "agrees R (randopenA call c s d)" "agrees R (randreadA call c s d p)" "agrees R (randencA call c s d)"
  unfolding timeropenA_def timersleepA_def randopenA_def randreadA_def randencA_def
  by (intro agree_intros assms)+

lemma agrees_tcp [agree_intros]:
  assumes "\<And>i. agrees R (call i)"
  shows "agrees R (listenA call c s d p)" "agrees R (acceptA call c s d p)"
    "agrees R (connect_local call c s d)" "agrees R (connect_continue call c s d p)" "agrees R (connectA call c s d p)"
proof -
  show "agrees R (listenA call c s d p)" "agrees R (acceptA call c s d p)"
    unfolding listenA_def acceptA_def Let_def by (intro agree_intros assms)+
  show l: "agrees R (connect_local call c s d)"
    unfolding connect_local_def by (intro agree_intros assms)
  show n: "agrees R (connect_continue call c s d p)"
    unfolding connect_continue_def by (intro agree_intros assms l)
  show "agrees R (connectA call c s d p)"
    unfolding connectA_def by (intro agree_intros assms n)
qed

lemma agrees_tls [agree_intros]:
  assumes "\<And>i. agrees R (call i)"
  shows "agrees R (tlsreadA call c s d p)" "agrees R (tlswriteA call c s d p)"
    "agrees R (tls_connected call c s d p)" "agrees R (tls_handshake call c s d p)" "agrees R (tlsA call c s d p)"
proof -
  show "agrees R (tlsreadA call c s d p)" "agrees R (tlswriteA call c s d p)"
    unfolding tlsreadA_def tlswriteA_def Let_def by (intro agree_intros assms)+
  show n: "agrees R (tls_connected call c s d p)"
    unfolding tls_connected_def by (intro agree_intros assms)
  show h: "agrees R (tls_handshake call c s d p)"
    unfolding tls_handshake_def by (intro agree_intros assms n)
  show "agrees R (tlsA call c s d p)"
    unfolding tlsA_def by (intro agree_intros assms h)
qed

lemma agrees_tunopenA [agree_intros]: "(\<And>i. agrees R (call i)) \<Longrightarrow> agrees R (tunopenA call c s d p)"
  unfolding tunopenA_def Let_def by (intro agree_intros)

lemma agrees_handle_event [agree_intros]: "(\<And>i. agrees R (call i)) \<Longrightarrow> agrees R (handle_event call e)"
  unfolding handle_event_def Let_def by (intro agree_intros)

section \<open>What the programs use\<close>

lemma agrees_memory [agree_intros]:
  "agrees R (free_object p)" "agrees R (free_buffer p)" "agrees R (set_byte p i b)" "agrees R (load_member j c)"
  "agrees R (load_ptr f)" "agrees R (load_text n p)" "agrees R (perror e)"
  unfolding free_object_def free_buffer_def set_byte_def load_member_def load_ptr_def load_text_def perror_def
  by (intro agree_intros agrees_field; simp)+

lemma agrees_new_memory [agree_intros]: "agrees R (malloc_object ob)" "agrees R (malloc_buffer n)"
  by (rule agrees_plain; auto simp: malloc_object_def malloc_buffer_def new_cell_def Let_def split: prod.splits if_splits)+

lemma agrees_data_arrows [agree_intros]:
  assumes "\<And>i. agrees R (call i)"
  shows "agrees R (member_arrow i call c s d)" "agrees R (ptr_arrow call c s d)"
  unfolding member_arrow_def ptr_arrow_def by (intro agree_intros assms)+

lemma agrees_on_usr: "(\<And>u v. R u v \<Longrightarrow> R (g u) (g v)) \<Longrightarrow> agrees R (on_usr g)"
  by (rule agreesI) (simp add: on_usr_def mdefs, rule exI, rule conjI, rule refl, simp)

lemma agrees_usr: "(\<And>u v. R u v \<Longrightarrow> g u = g v) \<Longrightarrow> agrees R (mgets (\<lambda>w. g (usr w)))"
  by (rule agreesI) (auto simp: mdefs)

section \<open>Programs\<close>

text \<open>A program whose own functions run alike from states related by \<open>R\<close>.\<close>

locale blind_program =
  fixes R :: "'u \<Rightarrow> 'u \<Rightarrow> bool" and u :: "('k, 'u) program"
  assumes task_agrees: "(\<And>i. agrees R (call i)) \<Longrightarrow> agrees R (user_task u n call c s d p)"
    and err_agrees: "(\<And>i. agrees R (call i)) \<Longrightarrow> agrees R (user_err u n call c s d m)"
    and conn_agrees: "(\<And>i. agrees R (call i)) \<Longrightarrow> agrees R (user_conn u n call c s fd sa)"
begin

lemma run_task_agrees: "(\<And>i. agrees R (call i)) \<Longrightarrow> agrees R (run_task u call t c s d p)"
  by (cases t) (simp_all add: task_agrees agree_intros)

lemma exec_agrees: "agrees R (exec u n i)"
proof (induction n arbitrary: i)
  case 0
  show ?case by (simp add: agrees_mfail)
next
  case (Suc n)
  then show ?case by (cases i) (simp_all add: run_task_agrees err_agrees conn_agrees)
qed

lemma event_agrees: "agrees R (handle_event (exec u n) e)"
  by (intro agree_intros exec_agrees)

end

section \<open>Relations about the status\<close>

text \<open>
  \<open>apart\<close>: the user parts differ in the status only, which is \<open>s\<close> in one and \<open>n\<close> in the other, or they are
  the same and the status is a failure. \<open>both\<close>: they are the same, and \<open>I\<close> holds.
\<close>

definition apart :: "('u \<Rightarrow> int) \<Rightarrow> (int \<Rightarrow> 'u \<Rightarrow> 'u) \<Rightarrow> int \<Rightarrow> int \<Rightarrow> 'u \<Rightarrow> 'u \<Rightarrow> bool" where
  "apart status put s n u v \<longleftrightarrow> status u = s \<and> v = put n u \<or> status u = EXIT_FAILURE \<and> v = u"

definition both :: "('u \<Rightarrow> bool) \<Rightarrow> 'u \<Rightarrow> 'u \<Rightarrow> bool" where
  "both I u v \<longleftrightarrow> u = v \<and> I u"

lemma agrees_both:
  fixes w :: "('k, 'u) world"
  assumes "agrees (both I) c" and "I (usr w)" and "c w = Inr (a, w')"
  shows "I (usr w')"
proof -
  have both: "both I (usr w) (usr w)" using assms(2) by (simp add: both_def)
  have "alike_results (both I) (Inr (a, w')) (c (w\<lparr>usr := usr w\<rparr>))"
    using agreesD [OF assms(1) both, unfolded assms(3)] .
  then show ?thesis unfolding alike_results_simps both_def by blast
qed

end
