(* ===== verification/Echo_Server.thy ===== *)
theory Echo_Server
  imports Alike Demo_Kernel
begin

text \<open>
  \<open>src/examples/echoserver.c\<close>: the callbacks and \<open>main\<close> of the echo server, a program that uses
  the library. The variables \<open>status\<close> and \<open>worker\<close> and the local \<open>clients\<close> of \<open>main\<close> are the
  user part of the process.
\<close>

record echo =
  es_status :: int
  es_worker :: ptr
  es_clients :: u32

definition ECHO_CHUNK :: nat where "ECHO_CHUNK = 1024"

section \<open>Callbacks\<close>

definition echo_log :: "logging_verbosity \<Rightarrow> int \<Rightarrow> string \<Rightarrow> string \<Rightarrow> ('k, 'u, unit) wm" where
  "echo_log level line func msg = logging_log level ''echoserver.c'' line func (Some msg)"

definition total_clients :: "u32 \<Rightarrow> string" where
  "total_clients n = ''[total clients: '' @ dec_nat (unat n) @ ''] ''"

definition errorcb :: "string option \<Rightarrow> ('k, echo, unit) wm" where
  "errorcb error = mseq [
     echo_log LOGGING_ERROR 38 ''errorcb'' (text_of error),
     on_usr (\<lambda>v. v\<lparr>es_status := 1\<rparr>)]"

definition client_error :: "ptr \<Rightarrow> string option \<Rightarrow> ('k, echo, unit) wm" where
  "client_error conn error =
     mthen (on_usr (\<lambda>v. v\<lparr>es_clients := es_clients v - 1\<rparr>))
     (mbind (mgets (\<lambda>w. es_clients (usr w))) (\<lambda>n.
     mbind (load_as as_tcpconn conn) (\<lambda>cn.
     mbind (meloop_sockaddr_dump (remoteaddr cn)) (\<lambda>addr.
     mthen (echo_log LOGGING_INFO 47 ''client_error'' (total_clients n @ addr @ '', '' @ text_of error))
     (if f_data cn \<noteq> NULL then
        mbind (load_as as_string (f_data cn)) (\<lambda>st. mseq [
          if s_blob st \<noteq> NULL then free_buffer (s_blob st) else mret (),
          free_object (f_data cn)])
      else mret ())))))"

definition echo_client_connected :: "('k, echo) calls \<Rightarrow> ptr \<Rightarrow> ptr \<Rightarrow> int \<Rightarrow> sockaddr \<Rightarrow> ('k, echo, unit) wm" where
  "echo_client_connected call c clients fd addr =
     mthen (on_usr (\<lambda>v. v\<lparr>es_clients := es_clients v + 1\<rparr>))
     (mbind (mgets (\<lambda>w. es_clients (usr w))) (\<lambda>n.
     mbind (meloop_sockaddr_dump addr) (\<lambda>txt.
     mthen (echo_log LOGGING_INFO 64 ''client_connected'' (total_clients n @ txt))
     (mbind (malloc_object (O_tcpconn \<lparr>f_ptr = NULL, f_data = NULL, f_fd = fd,
          localaddr = \<lparr>sin_family = 0, sin_port = 0, sin_addr = 0\<rparr>, remoteaddr = addr\<rparr>)) (\<lambda>conn.
      if conn = NULL then
        mbind (sys_close fd) (\<lambda>_. errorA call c clients NULL (Some ''Out of memory''))
      else
        mbind (malloc_object (O_string \<lparr>s_blob = NULL, s_size = 0\<rparr>)) (\<lambda>d.
        mthen (set_conn (\<lambda>cn. cn\<lparr>f_data := d\<rparr>) conn)
        (mbind (malloc_buffer ECHO_CHUNK) (\<lambda>b.
         mthen (mbind (load_as as_string d) (\<lambda>st. store_obj d (O_string (st\<lparr>s_blob := b, s_size := 0\<rparr>))))
         (if b = NULL then errorA call c clients NULL (Some ''Out of memory'')
          else mbind (mgets (\<lambda>w. es_worker (usr w))) (\<lambda>worker. runA call worker clients conn))))))))))"

text \<open>The signal handler; the process calls it at any time.\<close>

definition echo_sighandler :: "('k, echo, unit) wm" where
  "echo_sighandler = on_usr (\<lambda>v. v\<lparr>es_status := 0\<rparr>)"

definition echo_program :: "('k, echo) program" where
  "echo_program = \<lparr>
     user_task = (\<lambda>n call c s d p. mret ()),
     user_err = (\<lambda>n call c s d m. if n = 0 then errorcb m else client_error d m),
     user_conn = (\<lambda>n call c s fd sa. echo_client_connected call c s fd sa)\<rparr>"

section \<open>\<open>main\<close>\<close>

definition echo_server :: tcpserverP where
  "echo_server = \<lparr>epollflags = EPOLLET, readsize = of_nat ECHO_CHUNK,
     bindaddr = Some ''127.0.0.1'', bindport = 9090,
     bind_addr = \<lparr>sin_family = 0, sin_port = 0, sin_addr = 0\<rparr>, backlog = 2, client_connected = Some 0\<rparr>"

definition worker_cmds :: "ptr \<Rightarrow> build_cmd list" where
  "worker_cmds io = [Append A_read io, Append A_write io, LoopAt 0]"

definition server_cmds :: "ptr \<Rightarrow> build_cmd list" where
  "server_cmds server = [Append A_listen server, Append A_accept server, LoopAt 1]"

text \<open>
  \<open>main\<close> in two parts: up to \<open>meloop_io_init\<close>, and the rest over the functions \<open>call\<close> and the number of
  rounds of the event loop that are allowed; the depth is that of the calls.
\<close>

definition echo_rest :: "('k, echo) calls \<Rightarrow> nat \<Rightarrow> ('k, echo, int) wm" where
  "echo_rest call rounds =
     mbind (variable (O_ioP \<lparr>epollflags = EPOLLET, readsize = of_nat ECHO_CHUNK\<rparr>)) (\<lambda>io.
     mbind (newC (Some 1)) (\<lambda>worker.
     mthen (on_usr (\<lambda>v. v\<lparr>es_worker := worker\<rparr>))
     (mbind (build worker [] (worker_cmds io)) (\<lambda>_.
     mbind (variable (O_tcpserverP echo_server)) (\<lambda>server.
     mbind (variable (O_file \<lparr>f_ptr = NULL, f_data = NULL, f_fd = -1\<rparr>)) (\<lambda>file.
     mbind (newC (Some 0)) (\<lambda>circ.
     mbind (build circ [] (server_cmds server)) (\<lambda>_.
     mthen (runA call circ NULL file)
     (mthen (serve ''echoserver.c'' 133 (\<lambda>st v. v\<lparr>es_status := st\<rparr>) es_status rounds call)
     (mthen meloop_io_deinit
     (mthen (freeC worker)
     (mthen (freeC circ)
     (mgets (\<lambda>w. es_status (usr w)))))))))))))))"

definition echo_main :: "nat \<Rightarrow> nat \<Rightarrow> ('k, echo, int) wm" where
  "echo_main depth rounds =
     mthen (mseq [mmod (\<lambda>w. w\<lparr>verbosity := LOGGING_DEBUG\<rparr>), catch_signal])
     (mthen (meloop_io_init 0)
     (echo_rest (exec echo_program depth) rounds))"

section \<open>The interfaces\<close>

interpretation ut_echo: user_code echo_program
  by unfold_locales (auto simp: echo_program_def echo_client_connected_def
      intro!: mono_intros)

context process_invariant
begin

lemma keep_echo_log [keep_intros]: "keep P F (echo_log l n fu m)"
  unfolding echo_log_def by (intro keep_intros)

end

text \<open>What keeps an invariant of the library is kept by the echo server as well.\<close>

locale echo_invariant = process_invariant P F
  for P :: "('k, echo) world \<Rightarrow> bool" and F :: "fault \<Rightarrow> bool"
begin

lemma keep_client_error [keep_intros]: "keep P F (client_error d m)"
  unfolding client_error_def by (intro keep_intros keep_on_usr)

lemma keep_errorcb [keep_intros]: "keep P F (errorcb m)"
  unfolding errorcb_def by (intro keep_intros keep_on_usr)

lemma keep_echo_client_connected [keep_intros]:
  "(\<And>i. keep P F (call i)) \<Longrightarrow> keep P F (echo_client_connected call c s fd sa)"
  unfolding echo_client_connected_def by (intro keep_intros keep_on_usr)

end

sublocale echo_invariant \<subseteq> served: kept_program P F echo_program
  by unfold_locales (simp_all add: echo_program_def keep_client_error keep_errorcb
      keep_echo_client_connected keep_mret)

text \<open>The echo server keeps the account of the bags, and never uses a bag that was freed.\<close>

interpretation echo_acc: echo_invariant ev_ok "\<lambda>_. True"
  by unfold_locales

interpretation echo_epl: echo_invariant "epoll_inv interest ps" "\<lambda>f. \<not> bag_fault f"
  by unfold_locales

section \<open>The whole program\<close>

locale echo_started = started P F call rounds
  for P :: "('k, echo) world \<Rightarrow> bool" and F :: "fault \<Rightarrow> bool" and call :: "('k, echo) calls" and rounds :: nat
begin

lemma echo_phases: "ensures P F (echo_rest call rounds) (\<lambda>_. True)"
  unfolding echo_rest_def
  by (rule ensures_bind ensures_then keep_variable keep_newC keep_build keep_run keep_serve keep_on_usr
      ensures_end keep_mthen released keep_mgets)+

end

lemma echo_kept: "kept_program (epoll_inv interest ps) (\<lambda>f. \<not> bag_fault f) echo_program"
  by unfold_locales

interpretation echo_run: echo_started "epoll_inv interest []" "\<lambda>f. \<not> bag_fault f" "exec echo_program depth" rounds
  by (intro echo_started.intro started_epoll echo_kept)

lemma echo_main_safe:
  assumes "fresh interest w" and "echo_main depth rounds w = Inl f"
  shows "\<not> bag_fault f"
  by (rule main_safe [OF assms(1) echo_run.echo_phases _ assms(2) [unfolded echo_main_def mseq.simps]])
    (intro keep_mthen keep_fresh_verbosity keep_fresh_catch_signal keep_mret)

section \<open>What the callbacks look at\<close>

text \<open>The callbacks read the number of clients and the worker, never the status.\<close>

locale echo_relation =
  fixes R :: "echo \<Rightarrow> echo \<Rightarrow> bool"
  assumes same_clients: "R u v \<Longrightarrow> es_clients u = es_clients v"
    and same_worker: "R u v \<Longrightarrow> es_worker u = es_worker v"
    and counted: "R u v \<Longrightarrow> R (u\<lparr>es_clients := n\<rparr>) (v\<lparr>es_clients := n\<rparr>)"
    and failed: "R u v \<Longrightarrow> R (u\<lparr>es_status := EXIT_FAILURE\<rparr>) (v\<lparr>es_status := EXIT_FAILURE\<rparr>)"
begin

lemma agrees_echo_log [agree_intros]: "agrees R (echo_log l n fu m)"
  unfolding echo_log_def by (intro agree_intros)

lemma agrees_count: "agrees R (on_usr (\<lambda>v. v\<lparr>es_clients := g (es_clients v)\<rparr>))"
  by (rule agrees_on_usr) (simp add: same_clients counted)

lemma agrees_clients: "agrees R (mgets (\<lambda>w. es_clients (usr w)))"
  by (rule agrees_usr) (rule same_clients)

lemma agrees_errorcb: "agrees R (errorcb m)"
  unfolding errorcb_def using failed by (intro agree_intros agrees_on_usr) (simp add: EXIT_FAILURE_def)

lemma agrees_client_error: "agrees R (client_error d m)"
  unfolding client_error_def by (intro agree_intros agrees_count agrees_clients)

lemma agrees_connected: "(\<And>i. agrees R (call i)) \<Longrightarrow> agrees R (echo_client_connected call c s fd sa)"
  unfolding echo_client_connected_def
  by (intro agree_intros agrees_count agrees_clients agrees_usr [of R es_worker] same_worker)

end

sublocale echo_relation \<subseteq> blind_program R echo_program
  by unfold_locales
    (simp_all add: echo_program_def agrees_mret agrees_errorcb agrees_client_error agrees_connected)

interpretation echo_apart: echo_relation "apart es_status (\<lambda>st v. v\<lparr>es_status := st\<rparr>) s n"
  by unfold_locales (auto simp: apart_def)

interpretation echo_stopped: echo_relation "both (\<lambda>v. es_status v \<le> EXIT_FAILURE)"
  by unfold_locales (auto simp: both_def)

section \<open>One message\<close>

text \<open>
  The worker circuit: \<open>readA\<close> followed by \<open>writeA\<close> on the same connection writes back what was
  read, no more and no less.
\<close>

lemma echo_message:
  assumes at: "at_step w c ps a i" and i: "steps a ! i = (A_read, io)"
    and nx: "abs_next a i = Some j" and j: "steps a ! j = (A_write, io)"
    and f: "obj_as w as_file f = Some fl" "obj_as w as_string (f_data fl) = Some st"
      "obj_as w as_ioP io = Some p" and neq: "f \<noteq> f_data fl"
    and rd: "os_read (w_os w) (f_fd fl) (unat (readsize p)) (kern w) = (Inr bs, k)" "bs \<noteq> []"
    and buf: "cells (blobs w) (s_blob st) = Some old" "length bs \<le> length old" "length old < 2 ^ 63"
    and wr: "os_write (w_os w) (f_fd fl) bs k = (Inr m, k')" "m < 2 ^ 63"
  shows "\<exists>w'. exec u (Suc (Suc n)) (Run A_read c s f io) w = returnA (exec u n) c s f w' \<and>
    trace w' = trace w @ [SysRead (f_fd fl) (unat (readsize p)), SysWrite (f_fd fl) bs] \<and>
    at_step w' c ps a j \<and> kern w' = k'"
proof -
  have len: "length bs < 2 ^ 63" using buf by simp
  let ?w1 = "rd.filled (f_data fl) st bs old (after_call (SysRead (f_fd fl) (unat (readsize p))) k w)"
  have un: "unat (of_nat (length bs) :: u64) = length bs" using len by (simp add: unat_of_nat)
  have "exec u (Suc (Suc n)) (Run A_read c s f io) w = returnA (exec u (Suc n)) c s f ?w1"
    using rd.on_data [OF f rd(1) buf(1,2) rd(2) len] by simp
  also have at1: "at_step ?w1 c ps a i"
    using at by (simp add: at_step_def rd.filled_def)
  have j': "j < length ps" using at nx by (auto simp: at_step_def intro: abs_next_less)
  note returnA_step [OF at1, of "exec u (Suc n)" s f]
  also have "(case abs_next a i of
      Some j \<Rightarrow> exec u (Suc n) (Run (fst (steps a ! j)) c s f (snd (steps a ! j))) (goto c (ps ! j) ?w1)
    | None \<Rightarrow> Inr ((), goto c NULL ?w1)) = writeA (exec u n) c s f io (goto c (ps ! j) ?w1)"
    using nx j by simp
  also have "\<dots> = returnA (exec u n) c s f (after_call (SysWrite (f_fd fl) bs) k' (goto c (ps ! j) ?w1))"
  proof -
    let ?w2 = "goto c (ps ! j) ?w1" and ?st = "st\<lparr>s_size := of_nat (length bs)\<rparr>"
    have o: "obj_as ?w2 as_file f = Some fl" "obj_as ?w2 as_string (f_data fl) = Some ?st"
      using f neq by (simp_all add: obj_as_def goto_def rd.filled_def put_cell_def)
    have b: "cells (blobs ?w2) (s_blob ?st) = Some (bs @ drop (length bs) old)"
      by (simp add: goto_def rd.filled_def)
    have t: "take (unat (s_size ?st)) (bs @ drop (length bs) old) = bs"
      "unat (s_size ?st) \<le> length (bs @ drop (length bs) old)"
      using un by simp_all
    have w: "os_write (w_os ?w2) (f_fd fl) (take (unat (s_size ?st)) (bs @ drop (length bs) old)) (kern ?w2)
        = (Inr m, k')"
      unfolding t(1) using wr(1) by (simp add: goto_def rd.filled_def)
    show ?thesis
      by (rule wr.on_written [OF o b t(2) w wr(2), of "exec u n" c s io, unfolded t(1)])
  qed
  finally have run: "exec u (Suc (Suc n)) (Run A_read c s f io) w =
      returnA (exec u n) c s f (after_call (SysWrite (f_fd fl) bs) k' (goto c (ps ! j) ?w1))" .
  have "at_step (after_call (SysWrite (f_fd fl) bs) k' (goto c (ps ! j) ?w1)) c ps a j"
    using at_step_goto [OF at1 j'] by (simp add: at_step_def)
  moreover have "trace (goto c (ps ! j) ?w1) = trace w @ [SysRead (f_fd fl) (unat (readsize p))]"
    by (simp add: goto_def rd.filled_def)
  ultimately show ?thesis
    using run
    by (intro exI [of _ "after_call (SysWrite (f_fd fl) bs) k' (goto c (ps ! j) ?w1)"] conjI) simp_all
qed

end
