(* ===== verification/Event_Properties.thy ===== *)
theory Event_Properties
  imports Demo_States Echo_Server
begin

text \<open>
  The properties of the event module: the invariants of the loop over any program, the table of
  bags, and the dispatch of events.
\<close>

section \<open>The loop\<close>

text \<open>C12: For a kernel that does epoll as its manual says and a program whose own functions respect the
  event module, no run of the event loop ever loads, arms or frees a bag that was freed or never
  made, for any number of rounds and any call depth; and what epoll still knows after the loop leads
  to live bags.\<close>

theorem loop_never_uses_freed_bag:
  assumes "\<forall>ps. kept_program (epoll_inv interest ps) (\<lambda>f. \<not> bag_fault f) u"
    and "epoll_inv interest [] w"
  shows "case meloop_io_loop rounds (exec u depth) status w of
      Inl f \<Rightarrow> \<not> bag_fault f
    | Inr r \<Rightarrow> epoll_inv interest [] (snd r)"
  by (rule keepD [OF epl_loop.loop assms(2)]) (rule kept_program.exec_keeps, use assms(1) in blast)

definition demo_echo :: "(demo, echo) world" where
  "demo_echo = demo_world demo_start \<lparr>es_status = WORKING, es_worker = NULL, es_clients = 0\<rparr>"

lemma loop_never_uses_freed_bag_witness:
  "case meloop_io_loop 20 (exec echo_program 30) (Some (\<lambda>w. es_status (usr w))) demo_echo of
      Inl f \<Rightarrow> \<not> bag_fault f
    | Inr r \<Rightarrow> epoll_inv demo_interest [] (snd r)"
proof (rule loop_never_uses_freed_bag)
  show "epoll_inv demo_interest [] demo_echo"
    unfolding demo_echo_def by (rule demo_epoll_inv) (simp add: demo_start_def)
qed (intro allI echo_kept)

text \<open>C13: Whatever the kernel does, the counter of waiting bags is after the loop what it was before:
  the number of the bags in the table, between 0 and 16, and all of them are live.\<close>

theorem loop_keeps_accounts:
  assumes "kept_program ev_ok (\<lambda>_. True) u" and "ev_ok w"
    and "meloop_io_loop rounds (exec u depth) status w = Inr (r, w')"
  shows "waitingbags (ev w') = int (card (registered (ev w'))) \<and> 0 \<le> waitingbags (ev w') \<and>
    waitingbags (ev w') \<le> int EV_MAXEVENTS \<and>
    (\<forall>p \<in> registered (ev w'). cells (bagh w') p \<noteq> None)"
proof -
  have "ev_ok w'"
    by (rule keepD_Inr [OF acc_loop.loop assms(2,3)]) (rule kept_program.exec_keeps [OF assms(1)])
  then have "table_ok (ev w')" "\<forall>p \<in> registered (ev w'). cells (bagh w') p \<noteq> None"
    by (simp_all add: ev_ok_def)
  then show ?thesis using reg.count_card reg.count_bounds by auto
qed

lemma demo_echo_ends: "meloop_io_loop 1 (exec echo_program 30) None demo_echo = Inr (OK, demo_echo)"
  by (simp add: keeps_going_def mdefs demo_echo_def demo_world_def)

lemma loop_keeps_accounts_witness: "waitingbags (ev demo_echo) = int (card (registered (ev demo_echo)))"
  by (rule loop_keeps_accounts [OF echo_acc.served.kept_program_axioms _ demo_echo_ends, THEN conjunct1])
    (simp add: demo_echo_def demo_ev_ok)

text \<open>The loop ends with \<open>OK\<close>, without asking epoll, as soon as no bag is waiting or the status is
  no longer above \<open>EXIT_FAILURE\<close>; otherwise it asks epoll, and an error of it ends the loop with
  \<open>ERR\<close>.\<close>

theorem loop_ends:
  shows "meloop_io_loop (Suc n) call status w =
    (if waitingbags (ev w) = 0 \<or> (\<exists>rd. status = Some rd \<and> rd w \<le> 1) then Inr (OK, w)
     else case meloop_ev_wait w of
       Inl f \<Rightarrow> Inl f
     | Inr (Inl e, w') \<Rightarrow> Inr (ERR, w')
     | Inr (Inr [], w') \<Rightarrow> Inr (OK, w')
     | Inr (Inr (e # es), w') \<Rightarrow> mthen (handle_events call (e # es)) (meloop_io_loop n call status) w')"
proof -
  have go: "keeps_going status w \<longleftrightarrow> \<not> (waitingbags (ev w) = 0 \<or> (\<exists>rd. status = Some rd \<and> rd w \<le> 1))"
    by (cases status) (auto simp: keeps_going_def EXIT_FAILURE_def)
  show ?thesis
    unfolding meloop_io_loop.simps mgets_bind go
    by (auto simp: mdefs split: sum.split list.split)
qed

section \<open>Dispatch\<close>

text \<open>C16: An event without a hang-up or error takes its bag out of the table, frees it, and resumes
  exactly the circuit that waits in it, with the state and data it left there.\<close>

theorem event_resumes_circuit:
  assumes "ev_ok w" and "p \<in> registered (ev w)" and "cells (bagh w) p = Some b"
    and "m AND EPOLLRDHUP = 0" and "m AND EPOLLERR = 0"
  shows "handle_event call (m, p) w = runA call (b_circuit b) (b_state b) (b_data b)
    (w\<lparr>bagh := del_cell p (bagh w), ev := bags_forget p (ev w)\<rparr>)"
  using assms registered_live [OF assms(1,2)]
  by (simp add: handle_event_def mdefs load_bag_def get_cell_Some meloop_bag_free_eq)

lemma event_resumes_circuit_witness:
  "handle_event (\<lambda>i. mret ()) (EPOLLIN, 1) demo_waiting = runA (\<lambda>i. mret ()) 1 8 4
     (demo_waiting\<lparr>bagh := del_cell 1 (bagh demo_waiting), ev := bags_forget 1 (ev demo_waiting)\<rparr>)"
  using event_resumes_circuit [OF demo_waiting_ok demo_waiting_bag(2,1), of EPOLLIN "\<lambda>i. mret ()"]
  by (simp add: demo_bag_def EPOLLIN_def EPOLLRDHUP_def EPOLLERR_def)

text \<open>C17: A hang-up takes the descriptor out of epoll, closes it, and ends the waiting circuit in an error;
  the bag is freed here as well.\<close>

theorem event_hangup_ends_circuit:
  assumes "ev_ok w" and "p \<in> registered (ev w)" and "cells (bagh w) p = Some b"
    and "m AND EPOLLRDHUP \<noteq> 0"
  shows "\<exists>w'. handle_event call (m, p) w =
      errorA call (b_circuit b) (b_state b) (b_data b) (Some ''Remote hanged up'') w' \<and>
    trace w' = trace w @ [SysEpollCtl EPOLL_CTL_DEL (b_fd b), SysClose (b_fd b)] \<and>
    cells (bagh w') p = None \<and> registered (ev w') = registered (ev w) - {p}"
proof -
  have p: "p \<noteq> NULL" using registered_live [OF assms(1,2)] by simp
  have t: "table_ok (ev w)" using assms(1) by (simp add: ev_ok_def)
  let ?w1 = "w\<lparr>bagh := del_cell p (bagh w), ev := bags_forget p (ev w)\<rparr>"
  obtain r k where r: "os_epoll_ctl (w_os w) (epfd (bags_forget p (ev w))) EPOLL_CTL_DEL (b_fd b) 0 NULL (kern w)
      = (r, k)" by fastforce
  obtain r2 k2 where r2: "os_close (w_os w) (b_fd b) k = (r2, k2)" by fastforce
  let ?err = "errorA call (b_circuit b) (b_state b) (b_data b) (Some ''Remote hanged up'')"
  have run: "handle_event call (m, p) w =
      mbind (meloop_ev_dearm (b_fd b)) (\<lambda>_. mbind (sys_close (b_fd b)) (\<lambda>_. ?err)) ?w1"
    using assms p by (simp add: handle_event_def mdefs load_bag_def get_cell_Some meloop_bag_free_eq)
  obtain v where v: "sys_close (b_fd b) ((?w1\<lparr>kern := k, trace := trace w @ [SysEpollCtl EPOLL_CTL_DEL (b_fd b)],
      errno := (case r of Inl e \<Rightarrow> e | Inr _ \<Rightarrow> errno w)\<rparr>)) = Inr (res0 r2, v)"
    "trace v = trace w @ [SysEpollCtl EPOLL_CTL_DEL (b_fd b), SysClose (b_fd b)]"
    "bagh v = bagh ?w1" "ev v = ev ?w1"
    using r2 by (simp add: sys_close_def mdefs syscall_def)
  have "\<exists>x. meloop_ev_dearm (b_fd b) ?w1 = Inr (x, ?w1\<lparr>kern := k,
      trace := trace w @ [SysEpollCtl EPOLL_CTL_DEL (b_fd b)],
      errno := (case r of Inl e \<Rightarrow> e | Inr _ \<Rightarrow> errno w)\<rparr>)"
    using r by (cases r) (simp_all add: meloop_ev_dearm_def epoll_ctl_def mdefs syscall_def)
  then have "handle_event call (m, p) w = ?err v"
    using run v(1) by (auto simp: mdefs)
  with v(2-4) obtain w' where "handle_event call (m, p) w = ?err w'"
    "trace w' = trace w @ [SysEpollCtl EPOLL_CTL_DEL (b_fd b), SysClose (b_fd b)]"
    "bagh w' = bagh ?w1" "ev w' = ev ?w1" by blast
  then show ?thesis using reg.forget_members [OF t p] by (intro exI [of _ w']) simp
qed

lemma event_hangup_ends_circuit_witness:
  "\<exists>w'. handle_event (\<lambda>i. mret ()) (EPOLLRDHUP, 1) demo_waiting =
      errorA (\<lambda>i. mret ()) 1 8 4 (Some ''Remote hanged up'') w' \<and>
    trace w' = [SysEpollCtl EPOLL_CTL_DEL 9, SysClose 9] \<and> cells (bagh w') 1 = None"
  using event_hangup_ends_circuit [OF demo_waiting_ok demo_waiting_bag(2,1), of EPOLLRDHUP "\<lambda>i. mret ()"]
  by (auto simp: demo_bag_def EPOLLRDHUP_def demo_waiting_def demo_running_def demo_world_def)

section \<open>Bags\<close>

text \<open>A new bag is a live object with what it was given, and it is in the table if the table has
  room.\<close>

theorem bag_new_registers:
  assumes "ev_ok w" and "os_malloc (w_os w) (kern w) = (True, k)"
    and "card (registered (ev w)) < EV_MAXEVENTS"
  shows "\<exists>p w'. meloop_bag_new fd c s d w = Inr (p, w') \<and> ev_ok w' \<and>
    cells (bagh w') p = Some \<lparr>b_fd = fd, b_circuit = c, b_state = s, b_data = d\<rparr> \<and>
    registered (ev w') = insert p (registered (ev w)) \<and> waitingbags (ev w') = waitingbags (ev w) + 1"
proof -
  have t: "table_ok (ev w)" using assms(1) by (simp add: ev_ok_def)
  note f = fresh_bag [OF assms(1)]
  have "waitingbags (ev w) < int EV_MAXEVENTS"
    using assms(3) reg.count_card [OF t] by simp
  then show ?thesis
    using reg.remember_room [OF t assms(3), of "brk (bagh w)"] f reg.remember_count [OF t, of "brk (bagh w)"]
      ev_ok_bag_new [OF assms(1)] meloop_bag_new_eq [OF assms(2), of fd c s d]
    by simp
qed

lemma bag_new_registers_witness:
  "\<exists>p w'. meloop_bag_new 10 1 8 4 demo_waiting = Inr (p, w') \<and> waitingbags (ev w') = 2"
proof -
  have "os_malloc (w_os demo_waiting) (kern demo_waiting) = (True, kern demo_waiting)"
    by (simp add: demo_waiting_def demo_running_def demo_os_def)
  moreover have "card (registered (ev demo_waiting)) < EV_MAXEVENTS"
    by (simp add: demo_waiting_def registered_def used_def EV_MAXEVENTS_def)
  ultimately show ?thesis
    using bag_new_registers [OF demo_waiting_ok, of _ 10 1 8 4] by (fastforce simp: demo_waiting_def)
qed



text \<open>Freeing a bag right after it was made gives back the account and the objects as they were.\<close>

theorem bag_free_undoes_new:
  assumes "ev_ok w" and "meloop_bag_new fd c s d w = Inr (p, w')"
    and "card (registered (ev w)) < EV_MAXEVENTS"
  shows "\<exists>w''. meloop_bag_free p w' = Inr ((), w'') \<and> cells (bagh w'') = cells (bagh w) \<and>
    registered (ev w'') = registered (ev w) \<and> waitingbags (ev w'') = waitingbags (ev w)"
proof -
  obtain k where k: "os_malloc (w_os w) (kern w) = (True, k)"
    using assms(2) by (cases rule: meloop_bag_new_cases [of fd c s d w]) auto
  have p: "p = brk (bagh w)" and w': "w' = w\<lparr>kern := k,
      bagh := snd (new_cell \<lparr>b_fd = fd, b_circuit = c, b_state = s, b_data = d\<rparr> (bagh w)),
      ev := snd (bags_remember (brk (bagh w)) (ev w))\<rparr>"
    using assms(2) unfolding meloop_bag_new_eq [OF k] by auto
  have t: "table_ok (ev w)" using assms(1) by (simp add: ev_ok_def)
  note f = fresh_bag [OF assms(1)]
  have ok: "ev_ok w'" unfolding w' by (rule ev_ok_bag_new [OF assms(1)])
  have t': "table_ok (snd (bags_remember p (ev w)))" using ok by (simp add: ev_ok_def w' p)
  have r: "registered (snd (bags_remember p (ev w))) = insert p (registered (ev w))"
    using reg.remember_room [OF t assms(3)] f p by simp
  have "meloop_bag_free p w' = Inr ((), w'\<lparr>bagh := del_cell p (bagh w'), ev := bags_forget p (ev w')\<rparr>)"
    using meloop_bag_free_eq [OF ok, of p] r f p by (simp add: w')
  moreover have "registered (bags_forget p (ev w')) = registered (ev w)"
    using reg.remember_forget [OF t] f p by (simp add: w')
  moreover have "waitingbags (bags_forget p (ev w')) = waitingbags (ev w)"
    using reg.forget_members [OF t', of p] reg.count_card [OF t] reg.count_card [of "bags_forget p (ev w')"]
      calculation(2) f p by (simp add: w')
  moreover have "cells (del_cell p (bagh w')) = cells (bagh w)"
    using mem.del_alloc [of "bagh w"] assms(1) p by (simp add: w' ev_ok_def fun_eq_iff store_ok_def)
  ultimately show ?thesis by simp
qed

lemma bag_free_undoes_new_witness:
  "\<exists>p w' w''. meloop_bag_new 10 1 8 4 demo_waiting = Inr (p, w') \<and> meloop_bag_free p w' = Inr ((), w'') \<and>
    waitingbags (ev w'') = 1"
proof -
  have "card (registered (ev demo_waiting)) < EV_MAXEVENTS"
    by (simp add: demo_waiting_def registered_def used_def EV_MAXEVENTS_def)
  moreover obtain p w' where "meloop_bag_new 10 1 8 4 demo_waiting = Inr (p, w')"
    by (simp add: meloop_bag_new_eq demo_waiting_def demo_running_def demo_os_def)
  ultimately show ?thesis
    using bag_free_undoes_new [OF demo_waiting_ok, of 10 1 8 4 p w'] by (fastforce simp: demo_waiting_def)
qed

text \<open>\<open>meloop_bags_freeall\<close> frees every bag of the table once and empties it, but leaves the counter.\<close>

theorem freeall_releases:
  assumes "ev_ok w"
  shows "\<exists>w'. meloop_bags_freeall w = Inr ((), w') \<and> registered (ev w') = {} \<and>
    (\<forall>p. cells (bagh w') p = (if p \<in> registered (ev w) then None else cells (bagh w) p)) \<and>
    waitingbags (ev w') = waitingbags (ev w)"
  using meloop_bags_freeall_eq [OF assms]
  by (simp add: mem.look_fold_del registered_def) (simp add: used_def)

lemma freeall_releases_witness:
  "\<exists>w'. meloop_bags_freeall demo_waiting = Inr ((), w') \<and> registered (ev w') = {} \<and>
    cells (bagh w') 1 = None \<and> waitingbags (ev w') = 1"
  using freeall_releases [OF demo_waiting_ok] demo_waiting_bag(2) by (fastforce simp: demo_waiting_def)

section \<open>epoll\<close>

text \<open>Arming a bag modifies the registration of its descriptor, and makes a new one when there is none;
  any other failure is reported as \<open>ERR\<close>.\<close>

theorem ev_arm_result:
  assumes "cells (bagh w) p = Some b"
  shows "map_sum id fst (meloop_ev_arm op p w) =
    (case os_epoll_ctl (w_os w) (epfd (ev w)) EPOLL_CTL_MOD (b_fd b) (epflags (ev w) OR op) p (kern w) of
       (Inr u, k) \<Rightarrow> Inr OK
     | (Inl e, k) \<Rightarrow> if e \<noteq> ENOENT then Inr ERR
         else (case fst (os_epoll_ctl (w_os w) (epfd (ev w)) EPOLL_CTL_ADD (b_fd b) (epflags (ev w) OR op) p k) of
           Inr u \<Rightarrow> Inr OK | Inl e' \<Rightarrow> Inr ERR))"
  using assms
  by (auto simp: meloop_ev_arm_def epoll_ctl_def mdefs load_bag_def get_cell_Some syscall_def Let_def
      res0_def set_errno_def OK_def split: prod.split sum.split)

lemma ev_arm_result_witness: "map_sum id fst (meloop_ev_arm EPOLLIN 1 demo_waiting) = Inr OK"
  using ev_arm_result [OF demo_waiting_bag(1), of EPOLLIN]
  by (simp add: demo_waiting_def demo_running_def demo_os_def demo_ctl_def demo_start_def demo_bag_def)

text \<open>C25: \<open>meloop_io_deinit\<close> closes the epoll instance but leaves its descriptor in \<open>_epfd\<close>, so a
  later \<open>meloop_io_init\<close> does nothing and the module goes on with a closed descriptor.\<close>

theorem reinit_does_nothing:
  assumes "ev_ok w" and "epfd (ev w) \<noteq> -1" and "meloop_io_deinit w = Inr ((), w')"
  shows "meloop_io_init flags w' = Inr ((), w') \<and> trace w' = trace w @ [SysClose (epfd (ev w))] \<and>
    epfd (ev w') = epfd (ev w)"
proof -
  obtain r k where r: "os_close (w_os w) (epfd (ev w)) (kern w) = (r, k)" by fastforce
  let ?w1 = "w\<lparr>kern := k, trace := trace w @ [SysClose (epfd (ev w))],
      errno := (case r of Inl e \<Rightarrow> e | Inr _ \<Rightarrow> errno w)\<rparr>"
  have "meloop_io_deinit w = meloop_bags_freeall ?w1"
    using r by (simp add: meloop_io_deinit_def meloop_ev_deinit_def sys_close_def mdefs syscall_def
        split: sum.split)
  moreover have "ev_ok ?w1" using assms(1) by (simp add: ev_ok_def)
  ultimately have w': "w' = ?w1\<lparr>bagh := fold del_cell (used (bags (ev w))) (bagh w),
      ev := (ev w)\<lparr>bags := replicate EV_MAXEVENTS NULL\<rparr>\<rparr>"
    using meloop_bags_freeall_eq [of ?w1] assms(3) by simp
  show ?thesis
    using assms(2) w' by (simp add: meloop_io_init_def meloop_ev_init_def mdefs)
qed

lemma reinit_does_nothing_witness:
  "\<exists>w'. meloop_io_deinit demo_waiting = Inr ((), w') \<and> meloop_io_init 0 w' = Inr ((), w')"
proof -
  let ?w = "demo_waiting\<lparr>trace := [SysClose 3]\<rparr>"
  have "ev_ok ?w" using demo_waiting_ok by (simp add: ev_ok_def)
  moreover have "meloop_io_deinit demo_waiting = meloop_bags_freeall ?w"
    by (simp add: meloop_io_deinit_def meloop_ev_deinit_def sys_close_def runs mdefs syscall_def
        demo_waiting_def demo_running_def demo_os_def demo_ok_def demo_world_def split: sum.split)
  ultimately obtain w' where "meloop_io_deinit demo_waiting = Inr ((), w')"
    using meloop_bags_freeall_eq by metis
  moreover have "epfd (ev demo_waiting) \<noteq> -1" by (simp add: demo_waiting_def)
  ultimately show ?thesis using reinit_does_nothing [OF demo_waiting_ok] by blast
qed

text \<open>C26: Only one circuit can wait for a descriptor. A second \<open>waitA\<close> on it puts its own bag in the place of
  the first one: that stays in the table and is counted, but nothing in the interest list leads to it
  any more, so no event can wake its circuit.\<close>

theorem second_wait_steals_event:
  assumes inv: "epoll_inv interest [] w"
    and first: "p \<in> registered (ev w)" "cells (bagh w) p = Some b" "b_fd b = fd"
    and room: "card (registered (ev w)) < EV_MAXEVENTS" and m: "os_malloc (w_os w) (kern w) = (True, k)"
    and c: "os_epoll_ctl (w_os w) (epfd (ev w)) EPOLL_CTL_MOD fd (epflags (ev w) OR (op OR flags)) (brk (bagh w)) k =
      (Inr (), k')"
  shows "\<exists>w'. waitA call c s d fd op flags w = Inr ((), w') \<and>
    entries interest w' fd = Some (epflags (ev w) OR (op OR flags), brk (bagh w), True) \<and>
    (\<forall>fd' evs. entries interest w' fd' \<noteq> Some (evs, p, True)) \<and>
    p \<in> registered (ev w') \<and> cells (bagh w') p = Some b \<and> waitingbags (ev w') = waitingbags (ev w) + 1"
proof -
  let ?q = "brk (bagh w)" and ?bag = "\<lparr>b_fd = fd, b_circuit = c, b_state = s, b_data = d\<rparr>"
  let ?e = "snd (bags_remember ?q (ev w))"
  let ?w = "w\<lparr>kern := k', bagh := snd (new_cell ?bag (bagh w)), ev := ?e,
      trace := trace w @ [SysEpollCtl EPOLL_CTL_MOD fd]\<rparr>"
  from inv have ok: "ev_ok w" and spec: "epoll_ctl_spec (w_os w) interest" "epoll_other_spec (w_os w) interest"
    and ent: "\<And>fd. entry_ok w fd (entries interest w fd)"
    by (simp_all add: epoll_inv_def epoll_spec_def)
  have t: "table_ok (ev w)" using ok by (simp add: ev_ok_def)
  note q = fresh_bag [OF ok]
  have e: "epfd ?e = epfd (ev w)" "epflags ?e = epflags (ev w)" by (simp_all add: bags_remember_def split: option.split)
  have run: "waitA call c s d fd op flags w = Inr ((), ?w)"
    using meloop_bag_new_eq [OF m, of fd c s d] c e
    by (simp add: waitA_def mdefs meloop_ev_arm_def load_bag_def get_cell_Some epoll_ctl_def syscall_def res0_def OK_def)
  have "interest k ep fd' = interest (kern w) ep fd' \<or> interest k ep fd' = None" for ep fd'
    using spec(2) plain_step.k_malloc [of "w_os w" "kern w"] m by (auto simp: epoll_other_spec_def)
  moreover have "entries interest ?w = (interest k (epfd (ev w)))(fd := Some (epflags (ev w) OR (op OR flags), ?q, True))"
    using spec(1) c e by (fastforce simp: epoll_ctl_spec_def)
  ultimately have i: "entries interest ?w fd = Some (epflags (ev w) OR (op OR flags), ?q, True)"
    "fd' \<noteq> fd \<Longrightarrow> entries interest ?w fd' = entries interest w fd' \<or> entries interest ?w fd' = None" for fd'
    by simp_all
  have p: "p \<noteq> ?q" using first(1) q by blast
  have "entries interest ?w fd' \<noteq> Some (evs, p, True)" for fd' evs
  proof (cases "fd' = fd")
    case True
    with i(1) p show ?thesis by simp
  next
    case False
    with i(2) [OF False] ent [of fd'] first(2,3) show ?thesis by (auto simp: entry_ok_def)
  qed
  moreover have "registered ?e = insert ?q (registered (ev w))" "waitingbags ?e = waitingbags (ev w) + 1"
    using reg.remember_room [OF t room] q reg.remember_count [OF t, of ?q] reg.count_card [OF t] room by simp_all
  moreover have "cells (bagh ?w) p = Some b" using first(2) p by (simp add: new_cell_def)
  ultimately show ?thesis using run i(1) first(1) by (intro exI [of _ ?w]) simp
qed

text \<open>The waiting circuit of \<open>demo_waiting\<close> and epoll, which was told of it.\<close>

definition demo_armed :: "(demo, unit) world" where
  "demo_armed = demo_waiting\<lparr>kern := demo_start\<lparr>d_entries := [9 \<mapsto> (EPOLLONESHOT OR EPOLLIN, 1, True)]\<rparr>\<rparr>"

lemma demo_armed_inv: "epoll_inv demo_interest [] demo_armed"
proof -
  have "ev_ok demo_armed" using demo_waiting_ok by (simp add: ev_ok_def demo_armed_def)
  moreover have "cells (bagh demo_armed) 1 = Some demo_bag" using demo_waiting_bag(1) by (simp add: demo_armed_def)
  moreover have "w_os demo_armed = demo_os" "epflags (ev demo_armed) = EPOLLONESHOT"
    by (simp_all add: demo_armed_def demo_waiting_def demo_running_def demo_world_def)
  ultimately show ?thesis
    using demo_epoll_spec
    by (simp add: epoll_inv_def entry_ok_def pend_ok_def demo_interest_def demo_armed_def demo_bag_def
        EPOLLONESHOT_def EPOLLIN_def)
qed

lemma second_wait_steals_event_witness:
  "\<exists>w'. waitA (\<lambda>i. mret ()) 2 0 5 9 EPOLLOUT EPOLLET demo_armed = Inr ((), w') \<and>
    (\<forall>fd evs. entries demo_interest w' fd \<noteq> Some (evs, 1, True)) \<and> 1 \<in> registered (ev w') \<and> waitingbags (ev w') = 2"
proof -
  let ?k = "demo_start\<lparr>d_entries := [9 \<mapsto> (EPOLLONESHOT OR EPOLLIN, 1, True)]\<rparr>"
  have a: "1 \<in> registered (ev demo_armed)" "cells (bagh demo_armed) 1 = Some demo_bag" "b_fd demo_bag = 9"
    "card (registered (ev demo_armed)) < EV_MAXEVENTS" "waitingbags (ev demo_armed) = 1" "bagh demo_armed = bagh demo_waiting"
    using demo_waiting_bag by (simp_all add: demo_armed_def demo_bag_def)
      (simp_all add: demo_waiting_def registered_def used_def EV_MAXEVENTS_def)
  have m: "os_malloc (w_os demo_armed) (kern demo_armed) = (True, ?k)"
    by (simp add: demo_armed_def demo_waiting_def demo_running_def demo_os_def)
  have c: "os_epoll_ctl (w_os demo_armed) (epfd (ev demo_armed)) EPOLL_CTL_MOD 9
      (epflags (ev demo_armed) OR (EPOLLOUT OR EPOLLET)) (brk (bagh demo_armed)) ?k =
    (Inr (), ?k\<lparr>d_entries := (d_entries ?k)(9 \<mapsto> (epflags (ev demo_armed) OR (EPOLLOUT OR EPOLLET), brk (bagh demo_armed), True))\<rparr>)"
    by (simp add: demo_armed_def demo_waiting_def demo_running_def demo_os_def demo_ctl_def)
  show ?thesis
    using second_wait_steals_event [OF demo_armed_inv a(1-4) m c, of "\<lambda>i. mret ()" 2 0 5] a(5) by auto
qed



end
