(* ===== verification/Arrow_Properties.thy ===== *)
theory Arrow_Properties
  imports Demo_States Echo_Server
begin

text \<open>
  The properties of the library's arrows and of the functions around them, each with a witness
  on the processes of \<open>Demo_States\<close>.
\<close>

section \<open>Streams\<close>

text \<open>On the worker circuit of the echo server a message that was read is written back, byte for byte,
  by two system calls, and the circuit then goes on behind \<open>writeA\<close>.\<close>

theorem echo_writes_back:
  assumes "at_step w c ps a i" and "steps a ! i = (A_read, io)"
    and "abs_next a i = Some j" and "steps a ! j = (A_write, io)"
    and "obj_as w as_file f = Some fl" and "obj_as w as_string (f_data fl) = Some st"
    and "obj_as w as_ioP io = Some p" and "f \<noteq> f_data fl"
    and "os_read (w_os w) (f_fd fl) (unat (readsize p)) (kern w) = (Inr bs, k)" and "bs \<noteq> []"
    and "cells (blobs w) (s_blob st) = Some old" and "length bs \<le> length old" and "length old < 2 ^ 63"
    and "os_write (w_os w) (f_fd fl) bs k = (Inr m, k')" and "m < 2 ^ 63"
  shows "\<exists>w'. exec u (Suc (Suc n)) (Run A_read c s f io) w = returnA (exec u n) c s f w' \<and>
    trace w' = trace w @ [SysRead (f_fd fl) (unat (readsize p)), SysWrite (f_fd fl) bs] \<and>
    at_step w' c ps a j \<and> kern w' = k'"
  by (rule echo_message [OF assms])

definition demo_worker :: "(demo, echo) world" where
  "demo_worker = demo_data (O_file demo_file) (O_ioP demo_io)
     ((demo_world (demo_start\<lparr>d_input := [Inr [104, 105]]\<rparr>) \<lparr>es_status = WORKING, es_worker = 1, es_clients = 1\<rparr>)
       \<lparr>elems := \<lparr>cells = [1 \<mapsto> \<lparr>e_type = MLETSIMPLE, e_run = A_read, e_priv = 14, e_last = False, e_next = 2\<rparr>,
           2 \<mapsto> \<lparr>e_type = MLETSIMPLE, e_run = A_write, e_priv = 14, e_last = True, e_next = 1\<rparr>], brk = 3\<rparr>,
        circs := \<lparr>cells = [1 \<mapsto> \<lparr>c_err = Some 1, c_current = 1, c_nets = 1, c_ptr = None\<rparr>], brk = 2\<rparr>\<rparr>)"

lemma demo_worker_at: "at_step demo_worker 1 [1, 2] \<lparr>steps = [(A_read, 14), (A_write, 14)], leads = Some 0\<rparr> 0"
  by (simp add: at_step_def circuit_def demo_worker_def)

lemma echo_writes_back_witness:
  "\<exists>w'. exec echo_program 7 (Run A_read 1 0 11 14) demo_worker = returnA (exec echo_program 5) 1 0 11 w' \<and>
    trace w' = [SysRead 5 4, SysWrite 5 [104, 105]]"
proof -
  have "\<exists>w'. exec echo_program (Suc (Suc 5)) (Run A_read 1 0 11 14) demo_worker =
      returnA (exec echo_program 5) 1 0 11 w' \<and>
    trace w' = trace demo_worker @ [SysRead (f_fd demo_file) (unat (readsize demo_io)), SysWrite (f_fd demo_file) [104, 105]] \<and>
    at_step w' 1 [1, 2] \<lparr>steps = [(A_read, 14), (A_write, 14)], leads = Some 0\<rparr> 1 \<and> kern w' = demo_start"
    by (rule echo_writes_back [OF demo_worker_at, where j = 1 and old = "[1, 2, 3, 4]" and st = demo_string and m = 2])
      (simp_all add: abs_next_def demo_worker_def demo_file_def demo_string_def demo_io_def demo_os_def
        demo_read_def demo_start_def)
  then show ?thesis by (simp add: demo_worker_def demo_file_def demo_io_def) blast
qed

text \<open>\<open>readA\<close> and \<open>pipereadA\<close> put what was read at the start of the buffer, leave the rest of it, and
  store its length as the size of the string, before the next arrow runs.\<close>

theorem read_fills_string:
  assumes "obj_as w as_file f = Some fl" and "obj_as w as_string (f_data fl) = Some st"
    and "obj_as w as_ioP priv = Some p"
    and "os_read (w_os w) (f_fd fl) (unat (readsize p)) (kern w) = (Inr bs, k)"
    and "cells (blobs w) (s_blob st) = Some old" and "length bs \<le> length old"
    and "bs \<noteq> []" and "length bs < 2 ^ 63"
  shows "\<exists>w'. readA call c s f priv w = returnA call c s f w' \<and>
    cells (blobs w') (s_blob st) = Some (bs @ drop (length bs) old) \<and>
    obj_as w' as_string (f_data fl) = Some (st\<lparr>s_size := of_nat (length bs)\<rparr>) \<and>
    unat (of_nat (length bs) :: u64) = length bs"
proof -
  have "unat (of_nat (length bs) :: u64) = length bs" using assms(8) by (simp add: unat_of_nat)
  then show ?thesis
    by - (rule exI, rule conjI, rule rd.on_data [OF assms], simp add: rd.filled_def obj_as_def)
qed

lemma read_fills_string_witness:
  "\<exists>w'. readA (\<lambda>i. mret ()) 1 0 11 13 (demo_stream [Inr [104, 105]] (O_file demo_file) (O_ioP demo_io)) =
      returnA (\<lambda>i. mret ()) 1 0 11 w' \<and> cells (blobs w') 21 = Some [104, 105, 3, 4]"
  using read_fills_string [of "demo_stream [Inr [104, 105]] (O_file demo_file) (O_ioP demo_io)" 11 demo_file
      demo_string 13 demo_io "[104, 105]" demo_start "[1, 2, 3, 4]" "\<lambda>i. mret ()" 1 0]
  by (auto simp: demo_file_def demo_string_def demo_io_def demo_os_def demo_read_def demo_start_def)

text \<open>When there is nothing to read yet, \<open>readA\<close> parks the circuit: a bag with the descriptor, the
  circuit, the state and the connection is in the table, epoll was told of it, and the arrow returns
  to its caller without running another one.\<close>

theorem read_parks_circuit:
  assumes "obj_as w as_file f = Some fl" and "obj_as w as_string (f_data fl) = Some st"
    and "obj_as w as_ioP priv = Some p"
    and "os_read (w_os w) (f_fd fl) (unat (readsize p)) (kern w) = (Inl EAGAIN, k)"
    and "ev_ok w" and "card (registered (ev w)) < EV_MAXEVENTS"
    and "os_malloc (w_os w) k = (True, k2)"
    and "os_epoll_ctl (w_os w) (epfd (ev w)) EPOLL_CTL_MOD (f_fd fl)
      (epflags (ev w) OR (EPOLLIN OR epollflags p)) (brk (bagh w)) k2 = (Inr (), k3)"
  shows "\<exists>w'. readA call c s f priv w = Inr ((), w') \<and>
    cells (bagh w') (brk (bagh w)) = Some \<lparr>b_fd = f_fd fl, b_circuit = c, b_state = s, b_data = f\<rparr> \<and>
    registered (ev w') = insert (brk (bagh w)) (registered (ev w)) \<and> circs w' = circs w \<and>
    trace w' = trace w @ [SysRead (f_fd fl) (unat (readsize p)), SysEpollCtl EPOLL_CTL_MOD (f_fd fl)]"
proof -
  let ?w1 = "(after_call (SysRead (f_fd fl) (unat (readsize p))) k w)\<lparr>errno := EAGAIN\<rparr>"
  have t: "table_ok (ev w)" using assms(5) by (simp add: ev_ok_def)
  have "os_malloc (w_os ?w1) (kern ?w1) = (True, k2)" using assms(7) by simp
  note new = meloop_bag_new_eq [OF this, of "f_fd fl" c s f]
  have e: "epfd (snd (bags_remember p e)) = epfd e" "epflags (snd (bags_remember p e)) = epflags e" for p e
    by (simp_all add: bags_remember_def split: option.split)
  have "readA call c s f priv w = waitA call c s f (f_fd fl) EPOLLIN (epollflags p) ?w1"
    by (rule rd.on_again [OF assms(1-4)])
  also have "\<dots> = Inr ((), ?w1\<lparr>kern := k3,
      bagh := snd (new_cell \<lparr>b_fd = f_fd fl, b_circuit = c, b_state = s, b_data = f\<rparr> (bagh w)),
      ev := snd (bags_remember (brk (bagh w)) (ev w)),
      trace := trace ?w1 @ [SysEpollCtl EPOLL_CTL_MOD (f_fd fl)]\<rparr>)"
    using new assms(8) e
    by (simp add: waitA_def mdefs meloop_ev_arm_def load_bag_def get_cell_Some epoll_ctl_def syscall_def
        res0_def OK_def)
  finally show ?thesis
    using reg.remember_room [OF t assms(6)] fresh_bag [OF assms(5)] by (simp add: new_cell_def after_call_def)
qed

text \<open>The system on which a file descriptor is known to epoll already.\<close>

definition known_os :: "demo os" where
  "known_os = demo_os\<lparr>os_epoll_ctl := (\<lambda>ep cop fd evs p k. (Inr (), k))\<rparr>"

lemma read_parks_circuit_witness:
  "\<exists>w'. readA (\<lambda>i. mret ()) 1 0 11 13 (on_os known_os (demo_stream [] (O_file demo_file) (O_ioP demo_io))) = Inr ((), w') \<and>
    registered (ev w') = {1}"
proof -
  let ?w = "on_os known_os (demo_stream [] (O_file demo_file) (O_ioP demo_io))"
  have ev: "ev ?w = ev (demo_world demo_start ())" "bagh ?w = empty_store"
    by (simp_all add: on_os_def demo_stream_def) (simp_all add: demo_world_def)
  have "ev_ok ?w" using demo_ev_ok [of demo_start "()"] ev by (simp add: ev_ok_def demo_world_def)
  moreover have "registered (ev ?w) = {}" "card (registered (ev ?w)) < EV_MAXEVENTS"
    by (simp_all add: ev) (simp_all add: demo_world_def registered_def used_def EV_MAXEVENTS_def)
  moreover have "obj_as ?w as_file 11 = Some demo_file" "obj_as ?w as_string (f_data demo_file) = Some demo_string"
    "obj_as ?w as_ioP 13 = Some demo_io"
    "os_read (w_os ?w) (f_fd demo_file) (unat (readsize demo_io)) (kern ?w) = (Inl EAGAIN, demo_start)"
    "os_malloc (w_os ?w) demo_start = (True, demo_start)"
    "os_epoll_ctl (w_os ?w) (epfd (ev ?w)) EPOLL_CTL_MOD (f_fd demo_file)
      (epflags (ev ?w) OR (EPOLLIN OR epollflags demo_io)) (brk (bagh ?w)) demo_start = (Inr (), demo_start)"
    by (simp_all add: demo_file_def known_os_def demo_os_def demo_read_def demo_start_def)
  ultimately have "\<exists>w'. readA (\<lambda>i. mret ()) 1 0 11 13 ?w = Inr ((), w') \<and>
      registered (ev w') = insert (brk (bagh ?w)) (registered (ev ?w))"
    using read_parks_circuit [of ?w 11 demo_file demo_string 13 demo_io demo_start demo_start demo_start
        "\<lambda>i. mret ()" 1 0] by blast
  then show ?thesis using \<open>registered (ev ?w) = {}\<close> ev by (simp add: empty_store_def)
qed

text \<open>C33: \<open>writeA\<close> passes the whole string to one \<open>write\<close> and goes on to the next arrow whatever
  number of bytes the kernel took, so a short write loses the rest.\<close>

theorem write_ignores_short_count:
  assumes "obj_as w as_file f = Some fl" and "obj_as w as_string (f_data fl) = Some st"
    and "cells (blobs w) (s_blob st) = Some bs" and "unat (s_size st) \<le> length bs"
    and "os_write (w_os w) (f_fd fl) (take (unat (s_size st)) bs) (kern w) = (Inr m, k)"
    and "m < 2 ^ 63"
  shows "writeA call c s f priv w = returnA call c s f
    (after_call (SysWrite (f_fd fl) (take (unat (s_size st)) bs)) k w)"
  by (rule wr.on_written [OF assms])

text \<open>A kernel that takes one byte of a write.\<close>

definition short_os :: "demo os" where
  "short_os = demo_os\<lparr>os_write := (\<lambda>fd bs k. (Inr 1, k))\<rparr>"

lemma write_ignores_short_count_witness:
  "\<exists>w'. writeA (\<lambda>i. mret ()) 1 0 11 13 (on_os short_os (demo_stream [] (O_file demo_file) (O_ioP demo_io))) =
    returnA (\<lambda>i. mret ()) 1 0 11 w'"
  using write_ignores_short_count [of "on_os short_os (demo_stream [] (O_file demo_file) (O_ioP demo_io))" 11
      demo_file demo_string "[1, 2, 3, 4]" 1 "demo_start\<lparr>d_input := []\<rparr>" "\<lambda>i. mret ()" 1 0 13]
  by (auto simp: demo_file_def demo_string_def short_os_def demo_os_def)

section \<open>Timers and random bytes\<close>

text \<open>The interval of a timer in nanoseconds is handed to the kernel without loss, in whole seconds and
  less than a second, and the first expiration is one period away.\<close>

theorem timer_interval_split:
  assumes "0 \<le> sint iv"
  shows "uint (it_value_sec (timer_spec iv)) * NS + uint (it_value_nsec (timer_spec iv)) = sint iv \<and>
    uint (it_value_nsec (timer_spec iv)) < NS \<and>
    it_interval_sec (timer_spec iv) = it_value_sec (timer_spec iv) \<and>
    it_interval_nsec (timer_spec iv) = it_value_nsec (timer_spec iv)"
  using timer_spec_split [OF assms] by blast

lemma timer_interval_split_witness:
  "uint (it_value_sec (timer_spec 2500000000)) * NS + uint (it_value_nsec (timer_spec 2500000000)) = 2500000000"
  using timer_interval_split [of 2500000000] by simp

text \<open>\<open>timeropenA\<close> on a kernel that gives it a timer stores the descriptor, marks the timer idle and goes
  on.\<close>

theorem timer_opens:
  assumes "obj_as w as_timerP priv = Some p" and "obj_as w as_timer t = Some tm"
    and "os_timerfd_create (w_os w) (clockid p) (tp_flags p OR TFD_NONBLOCK) (kern w) = (Inr fd, k)"
    and "0 \<le> fd"
    and "os_timerfd_settime (w_os w) fd 0 (timer_spec (interval_ns p)) k = (Inr (), k')"
  shows "\<exists>w'. timeropenA call c s t priv w = returnA call c s t w' \<and>
    obj_as w' as_timer t = Some (tm\<lparr>t_fd := fd, t_status := IDLE\<rparr>) \<and>
    trace w' = trace w @ [SysTimerCreate, SysTimerSet fd]"
  by (rule exI, rule conjI, rule timeropenA_open [OF assms]) (simp add: timer_set_def obj_as_def)

lemma timer_opens_witness:
  "\<exists>w'. timeropenA (\<lambda>i. mret ()) 1 0 11 13 (demo_stream [] (O_timer (demo_timer 7)) (O_timerP demo_timerP)) =
      returnA (\<lambda>i. mret ()) 1 0 11 w' \<and> obj_as w' as_timer 11 = Some (demo_timer IDLE\<lparr>t_fd := 4\<rparr>)"
  using timer_opens [of "demo_stream [] (O_timer (demo_timer 7)) (O_timerP demo_timerP)" 13 demo_timerP 11
      "demo_timer 7" 4 "demo_start\<lparr>d_input := [], d_fds := 5\<rparr>" "demo_start\<lparr>d_input := [], d_fds := 5\<rparr>"
      "\<lambda>i. mret ()" 1 0]
  by (auto simp: demo_os_def demo_fd_def demo_ok_def demo_start_def demo_timer_def)

text \<open>Once a timer is waiting, \<open>timersleepA\<close> goes on exactly when the timer has expired; before that
  it waits again.\<close>

theorem timer_wakes:
  assumes "obj_as w as_timer t = Some tm" and "t_status tm \<noteq> IDLE"
    and "obj_as w as_timerP priv = Some p"
    and "os_read (w_os w) (t_fd tm) 8 (kern w) = (r, k)"
    and "r = Inl EAGAIN \<or> (\<exists>bs. r = Inr bs \<and> length bs = 8)"
  shows "timersleepA call c s t priv w = (case r of
      Inr bs \<Rightarrow> returnA call c s t (after_call (SysRead (t_fd tm) 8) k w)
    | Inl e \<Rightarrow> waitA call c s t (t_fd tm) EPOLLIN (tp_epollflags p)
        ((after_call (SysRead (t_fd tm) 8) k w)\<lparr>errno := EAGAIN\<rparr>))"
  using timersleepA_expired [OF assms(1,2)] timersleepA_early [OF assms(1-3)] assms(4,5) by fastforce

lemma timer_wakes_witness:
  "timersleepA (\<lambda>i. mret ()) 1 0 11 13
      (demo_stream [Inr (replicate 8 0)] (O_timer (demo_timer WAITING)) (O_timerP demo_timerP)) =
    returnA (\<lambda>i. mret ()) 1 0 11 (after_call (SysRead 5 8) demo_start
      (demo_stream [Inr (replicate 8 0)] (O_timer (demo_timer WAITING)) (O_timerP demo_timerP)))"
  using timer_wakes [of "demo_stream [Inr (replicate 8 0)] (O_timer (demo_timer WAITING)) (O_timerP demo_timerP)"
      11 "demo_timer WAITING" 13 demo_timerP "Inr (replicate 8 0)" demo_start "\<lambda>i. mret ()" 1 0]
  by (simp add: demo_os_def demo_read_def demo_start_def demo_timer_def WAITING_def IDLE_def)

text \<open>\<open>randencA\<close> turns the string into lower-case letters and leaves the rest of the buffer alone.\<close>

theorem random_letters:
  assumes "obj_as w as_file f = Some fl" and "obj_as w as_string (f_data fl) = Some st"
    and "cells (blobs w) (s_blob st) = Some bs"
    and "unat (s_size st) \<le> length bs" and "unat (s_size st) < 2 ^ 31"
  shows "\<exists>w' bs'. randencA call c s f w = returnA call c s f w' \<and>
    cells (blobs w') (s_blob st) = Some bs' \<and> length bs' = length bs \<and>
    (\<forall>b \<in> set (take (unat (s_size st)) bs'). 97 \<le> b \<and> b \<le> 122) \<and>
    drop (unat (s_size st)) bs' = drop (unat (s_size st)) bs"
proof -
  let ?n = "unat (s_size st)"
  let ?bs = "map randenc_byte (take ?n bs) @ drop ?n bs"
  have "length ?bs = length bs" "drop ?n ?bs = drop ?n bs" "take ?n ?bs = map randenc_byte (take ?n bs)"
    using assms(4) by simp_all
  moreover have "\<forall>b \<in> set (map randenc_byte (take ?n bs)). 97 \<le> b \<and> b \<le> 122"
    using randenc_byte_letter by simp
  ultimately obtain bs' where b: "?bs = bs'" "length bs' = length bs" "drop ?n bs' = drop ?n bs"
    "\<forall>b \<in> set (take ?n bs'). 97 \<le> b \<and> b \<le> 122" by metis
  have "randencA call c s f w = returnA call c s f (w\<lparr>blobs := put_cell (s_blob st) bs' (blobs w)\<rparr>)"
    using randencA_ok [OF assms, of call c s] unfolding b(1) .
  then show ?thesis
    using b(2-4) by (intro exI [of _ "w\<lparr>blobs := put_cell (s_blob st) bs' (blobs w)\<rparr>"] exI [of _ bs']) simp
qed

lemma random_letters_witness:
  "\<exists>w' bs'. randencA (\<lambda>i. mret ()) 1 0 11 (demo_stream [] (O_file demo_file) (O_ioP demo_io)) =
      returnA (\<lambda>i. mret ()) 1 0 11 w' \<and> cells (blobs w') 21 = Some bs' \<and> length bs' = 4 \<and>
      drop 2 bs' = [3, 4]"
  using random_letters [of "demo_stream [] (O_file demo_file) (O_ioP demo_io)" 11 demo_file demo_string
      "[1, 2, 3, 4]" "\<lambda>i. mret ()" 1 0]
  by (auto simp: demo_file_def demo_string_def)

text \<open>C34: A failing read of random bytes is not noticed: the size of the string becomes the error value,
  and \<open>randencA\<close>, the next arrow, runs over the end of the buffer.\<close>

theorem failed_random_read_overflows:
  assumes "at_step w c ps a i" and "steps a ! i = (A_randread, priv)"
    and "abs_next a i = Some j" and "steps a ! j = (A_randenc, q)"
    and "obj_as w as_file f = Some fl" and "obj_as w as_string (f_data fl) = Some st"
    and "obj_as w as_ioP priv = Some p" and "f \<noteq> f_data fl"
    and "cells (blobs w) (s_blob st) = Some bs" and "length bs < 2 ^ 31"
    and "os_read (w_os w) (f_fd fl) (unat (readsize p)) (kern w) = (Inl e, k)"
  shows "exec u (Suc (Suc n)) (Run A_randread c s f priv) w = Inl BufferOverflow"
proof -
  let ?w1 = "(after_call (SysRead (f_fd fl) (unat (readsize p))) k w)\<lparr>errno := e,
      objs := put_cell (f_data fl) (O_string (st\<lparr>s_size := MINUS1\<rparr>)) (objs w)\<rparr>"
  have at1: "at_step ?w1 c ps a i" using assms(1) by (simp add: at_step_def)
  have "exec u (Suc (Suc n)) (Run A_randread c s f priv) w = returnA (exec u (Suc n)) c s f ?w1"
    using randreadA_error [OF assms(5-7,11)] by simp
  also have "\<dots> = randencA (exec u n) c s f (goto c (ps ! j) ?w1)"
    using returnA_step [OF at1, of "exec u (Suc n)" s f] assms(3,4) by simp
  also have "\<dots> = Inl BufferOverflow"
  proof (rule randencA_overflow)
    show "obj_as (goto c (ps ! j) ?w1) as_file f = Some fl"
      "obj_as (goto c (ps ! j) ?w1) as_string (f_data fl) = Some (st\<lparr>s_size := MINUS1\<rparr>)"
      using assms(5,8) by (simp_all add: obj_as_def goto_def)
    show "cells (blobs (goto c (ps ! j) ?w1)) (s_blob (st\<lparr>s_size := MINUS1\<rparr>)) = Some bs"
      using assms(9) by (simp add: goto_def)
    show "length bs < unat (s_size (st\<lparr>s_size := MINUS1\<rparr>))"
      using assms(10) by (simp add: MINUS1_def unsigned_minus_1_eq_mask mask_eq_exp_minus_1)
  qed (rule assms(10))
  finally show ?thesis .
qed

definition demo_random :: "(demo, unit) world" where
  "demo_random = demo_data (O_file demo_file) (O_ioP demo_io)
     ((demo_world (demo_start\<lparr>d_input := [Inl 5]\<rparr>) ())
       \<lparr>elems := \<lparr>cells = [1 \<mapsto> \<lparr>e_type = MLETSIMPLE, e_run = A_randread, e_priv = 13, e_last = False, e_next = 2\<rparr>,
           2 \<mapsto> \<lparr>e_type = MLETSIMPLE, e_run = A_randenc, e_priv = 13, e_last = True, e_next = NULL\<rparr>], brk = 3\<rparr>,
        circs := \<lparr>cells = [1 \<mapsto> \<lparr>c_err = None, c_current = 1, c_nets = 1, c_ptr = None\<rparr>], brk = 2\<rparr>\<rparr>)"

lemma demo_random_at: "at_step demo_random 1 [1, 2] \<lparr>steps = [(A_randread, 13), (A_randenc, 13)], leads = None\<rparr> 0"
  by (simp add: at_step_def circuit_def demo_random_def)

lemma failed_random_read_overflows_witness:
  "exec (computing (\<lambda>n p x. x)) (Suc (Suc 3)) (Run A_randread 1 0 11 13) demo_random = Inl BufferOverflow"
  by (rule failed_random_read_overflows [OF demo_random_at, where j = 1 and bs = "[1, 2, 3, 4]" and
        fl = demo_file and st = demo_string and p = demo_io and q = 13 and e = 5 and k = demo_start])
    (simp_all add: abs_next_def demo_random_def demo_file_def demo_string_def demo_io_def demo_os_def
        demo_read_def demo_start_def)

end
