(* ===== verification/Net_Properties.thy ===== *)
theory Net_Properties
  imports Demo_States Echo_Server
begin

text \<open>
  The properties of addresses, TCP, TLS, tunnels and logging, and the repository's tests.
\<close>

section \<open>Addresses\<close>


text \<open>Printing a socket address never overflows the static buffer: the text and its terminating zero
  take at most 22 of the 256 bytes.\<close>

theorem address_text_fits:
  "meloop_sockaddr_dump a w = Inr (sockaddr_text a, w\<lparr>addrtemp := sockaddr_text a\<rparr>) \<and>
   length (sockaddr_text a) + 1 \<le> 22"
  using dump_eq length_sockaddr_text [of a] by simp

section \<open>TCP\<close>

text \<open>A bind address that cannot be parsed is not an error: the server listens on all interfaces, on a
  port that the kernel chooses.\<close>

theorem listen_ignores_bad_address:
  assumes "cells (objs w) priv = Some (O_tcpserverP p)" and "bindaddr p = Some ad" and "inet_pton ad = None"
    and "cells (objs w) f = Some ob" and "as_file ob = Some fl" and "f \<noteq> priv"
    and "os_socket (w_os w) AF_INET (SOCK_STREAM OR SOCK_NONBLOCK) 0 (kern w) = (Inr fd, k1)"
    and "os_reuseaddr (w_os w) fd k1 = (Inr (), k2)"
    and "os_bind (w_os w) fd \<lparr>sin_family = 2, sin_port = 0, sin_addr = INADDR_ANY\<rparr> k2 = (Inr (), k3)"
    and "os_listen (w_os w) fd (backlog p) k3 = (Inr (), k4)"
  shows "\<exists>w'. listenA call c s f priv w = returnA call c s f w' \<and>
    obj_as w' as_file f = Some (fl\<lparr>f_fd := fd\<rparr>) \<and>
    trace w' = trace w @ [SysSocket AF_INET (SOCK_STREAM OR SOCK_NONBLOCK), SysReuse fd, SysBind fd, SysListen fd]"
proof -
  have "listen_addr p = \<lparr>sin_family = 2, sin_port = 0, sin_addr = INADDR_ANY\<rparr>"
    using assms(2,3) by (simp add: listen_addr_def parse_error INADDR_ANY_def)
  then have bind: "os_bind (w_os w) fd (listen_addr p) k2 = (Inr (), k3)" using assms(9) by simp
  show ?thesis
    by (rule exI, rule conjI, rule listenA_opened [OF assms(1,4,5,6,7,8) bind assms(10)])
      (use assms(5) in \<open>simp add: as_file_with_fd\<close>)
qed

lemma bad_address: "inet_pton ''localhost'' = None"
  by (simp add: inet_pton_def digit_val_def)

lemma listen_ignores_bad_address_witness:
  "\<exists>w'. listenA (\<lambda>i. mret ()) 1 0 11 13
      (demo_stream [] (O_file demo_file) (O_tcpserverP (demo_server (Some ''localhost'')))) =
    returnA (\<lambda>i. mret ()) 1 0 11 w'"
proof -
  let ?w = "demo_stream [] (O_file demo_file) (O_tcpserverP (demo_server (Some ''localhost'')))"
  have "\<exists>w'. listenA (\<lambda>i. mret ()) 1 0 11 13 ?w = returnA (\<lambda>i. mret ()) 1 0 11 w' \<and>
    obj_as w' as_file 11 = Some (demo_file\<lparr>f_fd := 4\<rparr>) \<and>
    trace w' = trace ?w @ [SysSocket AF_INET (SOCK_STREAM OR SOCK_NONBLOCK), SysReuse 4, SysBind 4, SysListen 4]"
    by (rule listen_ignores_bad_address [where ob = "O_file demo_file" and p = "demo_server (Some ''localhost'')"
          and ad = "''localhost''"])
      (simp_all add: demo_server_def bad_address demo_os_def demo_fd_def demo_ok_def demo_start_def)
  then show ?thesis by blast
qed

text \<open>C36: \<open>acceptA\<close> hands every new connection to the program and then resumes the circuit, even if the
  program's function ended the circuit: when it called \<open>errorA\<close> on it, the circuit is idle and
  \<open>returnA\<close> follows a null pointer.\<close>

theorem accept_after_error_crashes:
  assumes "obj_as w as_file f = Some fl" and "obj_as w as_tcpserverP priv = Some p"
    and "client_connected p = Some h"
    and "os_accept4 (w_os w) (f_fd fl) SOCK_NONBLOCK (kern w) = (Inr (fd, sa), k)"
    and "call (OnConn h c s fd sa) (after_call (SysAccept (f_fd fl)) k w) = Inr ((), w')"
    and "idle w' c" and "store_ok (elems w')"
  shows "acceptA call c s f priv w = Inl (NullDeref HElem)"
  using acceptA_client [OF assms(1-4), of call c s] returnA_idle [OF assms(6,7)] assms(5)
  by (simp add: then_run)

lemma accept_after_error_crashes_witness:
  "acceptA (\<lambda>i. errorA (\<lambda>i. mret ()) 1 0 NULL (Some ''Out of memory'')) 1 0 11 13
     (demo_data (O_file demo_file) (O_tcpserverP (demo_server None))
       ((demo_running NULL 1 ())\<lparr>kern := demo_start\<lparr>d_clients := [Inr (9, \<lparr>sin_family = 2, sin_port = 0, sin_addr = 0\<rparr>)]\<rparr>\<rparr>))
   = Inl (NullDeref HElem)"
proof -
  let ?w = "demo_data (O_file demo_file) (O_tcpserverP (demo_server None))
       ((demo_running NULL 1 ())\<lparr>kern := demo_start\<lparr>d_clients := [Inr (9, \<lparr>sin_family = 2, sin_port = 0, sin_addr = 0\<rparr>)]\<rparr>\<rparr>)"
  let ?v = "after_call (SysAccept 5) demo_start ?w"
  have C: "cells (circs ?v) 1 = Some \<lparr>c_err = Some 7, c_current = 1, c_nets = 1, c_ptr = None\<rparr>"
    by (simp add: demo_running_def)
  have e: "errorA (\<lambda>i. mret ()) 1 0 NULL (Some ''Out of memory'') ?v = Inr ((), goto 1 NULL ?v)"
    unfolding errorA_eq [OF C] mret_apply
    by (simp add: set_current_eq [OF C] del: One_nat_def)
  show ?thesis
  proof (rule accept_after_error_crashes [where fl = demo_file and p = "demo_server None" and h = 0 and fd = 9
          and sa = "\<lparr>sin_family = 2, sin_port = 0, sin_addr = 0\<rparr>" and k = demo_start and w' = "goto 1 NULL ?v"])
    show "os_accept4 (w_os ?w) (f_fd demo_file) SOCK_NONBLOCK (kern ?w) =
        (Inr (9, \<lparr>sin_family = 2, sin_port = 0, sin_addr = 0\<rparr>), demo_start)"
      by (simp add: demo_running_def demo_os_def demo_accept_def demo_start_def)
    show "idle (goto 1 NULL ?v) 1" by (rule errorA_idle [OF e])
    show "store_ok (elems (goto 1 NULL ?v))" using demo_store_ok by simp
  qed (use e in \<open>simp_all add: demo_file_def demo_server_def\<close>)
qed

text \<open>C37: A connection that cannot be made at once is started once and finished when the descriptor is
  writable: the first call of \<open>connectA\<close> records the peer and waits, the state of the client says so;
  a call in this state asks how the connection ended, records the local address and goes on.\<close>

theorem connect_in_two_steps:
  assumes "cells (objs w) priv = Some ob" and "as_tcpclientP ob = Some cl" and "as_ioP ob = Some io"
    and "tc_status cl \<noteq> TC_CONNECTING"
    and "cells (objs w) conn = Some (O_tcpconn cn)" and "conn \<noteq> priv"
    and "immediate w cl a fd (Inl EINPROGRESS) k"
    and "os_freeaddrinfo (w_os w) EINPROGRESS = EINPROGRESS"
    and "objs v = objs w1" and "w_os v = w_os w"
    and "os_so_error (w_os w) fd (kern v) = (Inr 0, k1)"
    and "os_getsockname (w_os w) fd k1 = (Inr sa, k2)"
    and "w1 = obj_set priv (with_status TC_CONNECTING ob)
      (errno_set EINPROGRESS (obj_set conn (O_tcpconn (cn\<lparr>remoteaddr := ai_addr a, f_fd := fd\<rparr>))
        (errno_set EINPROGRESS (attempted a fd k w))))"
  shows "connectA call c s conn priv w = waitA call c s conn fd EPOLLOUT (epollflags io) w1 \<and>
    (\<exists>v'. connectA call c s conn priv v = returnA call c s conn v' \<and>
      cells (objs v') conn = Some (O_tcpconn (cn\<lparr>remoteaddr := ai_addr a, f_fd := fd, localaddr := sa\<rparr>)) \<and>
      cells (objs v') priv = Some (with_status TC_CONNECTED (with_status TC_CONNECTING ob)))"
proof -
  have first: "connectA call c s conn priv w = waitA call c s conn fd EPOLLOUT (epollflags io) w1"
    unfolding assms(13) by (rule connectA_in_progress [OF assms(1-8)])
  have o: "cells (objs v) priv = Some (with_status TC_CONNECTING ob)"
    "cells (objs v) conn = Some (O_tcpconn (cn\<lparr>remoteaddr := ai_addr a, f_fd := fd\<rparr>))"
    using assms(6,9,13) by simp_all
  have e: "os_so_error (w_os v) (f_fd (cn\<lparr>remoteaddr := ai_addr a, f_fd := fd\<rparr>)) (kern v) = (Inr 0, k1)"
    "os_getsockname (w_os v) (f_fd (cn\<lparr>remoteaddr := ai_addr a, f_fd := fd\<rparr>)) k1 = (Inr sa, k2)"
    using assms(10-12) by simp_all
  note second = connectA_completed [OF o(1) with_status_casts(1) [OF assms(2)] _ o(2) assms(6) e, of call c s]
  have "\<exists>v'. connectA call c s conn priv v = returnA call c s conn v' \<and>
      cells (objs v') conn = Some (O_tcpconn (cn\<lparr>remoteaddr := ai_addr a, f_fd := fd, localaddr := sa\<rparr>)) \<and>
      cells (objs v') priv = Some (with_status TC_CONNECTED (with_status TC_CONNECTING ob))"
    by (rule exI, rule conjI, rule second) (use assms(6) in simp_all)
  with first show ?thesis by blast
qed

lemma connect_in_two_steps_witness:
  "\<exists>w1. connectA (\<lambda>i. mret ()) 1 0 11 13
       (demo_stream [] (O_tcpconn demo_conn) (O_tcpclientP (demo_client TC_IDLE))) =
     waitA (\<lambda>i. mret ()) 1 0 11 4 EPOLLOUT EPOLLET w1 \<and>
   (\<exists>v'. connectA (\<lambda>i. mret ()) 1 0 11 13 w1 = returnA (\<lambda>i. mret ()) 1 0 11 v' \<and>
     cells (objs v') 13 = Some (O_tcpclientP (demo_client TC_CONNECTED)))"
proof -
  let ?w = "demo_stream [] (O_tcpconn demo_conn) (O_tcpclientP (demo_client TC_IDLE))"
  let ?a = "\<lparr>ai_family = AF_INET, ai_socktype = SOCK_STREAM, ai_protocol = 0,
        ai_addr = \<lparr>sin_family = 2, sin_port = 1, sin_addr = 0x0100007F\<rparr>\<rparr>"
  let ?k = "demo_start\<lparr>d_fds := 5\<rparr>"
  let ?w1 = "obj_set 13 (with_status TC_CONNECTING (O_tcpclientP (demo_client TC_IDLE)))
      (errno_set EINPROGRESS (obj_set 11 (O_tcpconn (demo_conn\<lparr>remoteaddr := ai_addr ?a, f_fd := 4\<rparr>))
        (errno_set EINPROGRESS (attempted ?a 4 ?k ?w))))"
  have "connectA (\<lambda>i. mret ()) 1 0 11 13 ?w = waitA (\<lambda>i. mret ()) 1 0 11 4 EPOLLOUT (epollflags demo_io) ?w1 \<and>
    (\<exists>v'. connectA (\<lambda>i. mret ()) 1 0 11 13 ?w1 = returnA (\<lambda>i. mret ()) 1 0 11 v' \<and>
      cells (objs v') 11 = Some (O_tcpconn (demo_conn\<lparr>remoteaddr := ai_addr ?a, f_fd := 4,
        localaddr := \<lparr>sin_family = 2, sin_port = 1, sin_addr = 0x0100007F\<rparr>\<rparr>)) \<and>
      cells (objs v') 13 = Some (with_status TC_CONNECTED (with_status TC_CONNECTING (O_tcpclientP (demo_client TC_IDLE)))))"
    by (rule connect_in_two_steps [where cl = "demo_client TC_IDLE" and k = ?k])
      (simp_all add: demo_client_def demo_io_def ioP.defs immediate_def demo_os_def demo_fd_def demo_start_def
        TC_IDLE_def TC_CONNECTING_def)
  then show ?thesis
    by (auto simp: demo_io_def demo_client_def)
qed

text \<open>C38: A connection that is there at once makes \<open>connectA\<close> resume the circuit twice; behind the last
  arrow of an open circuit the second time follows a null pointer.\<close>

theorem connect_at_once_crashes:
  assumes "at_step w c ps b i" and "abs_next b i = None" and "store_ok (elems w)"
    and "cells (objs w) priv = Some ob" and "as_tcpclientP ob = Some cl"
    and "tc_status cl \<noteq> TC_CONNECTING"
    and "cells (objs w) conn = Some (O_tcpconn cn)" and "conn \<noteq> priv"
    and "immediate w cl a fd (Inr ()) k"
    and "os_freeaddrinfo (w_os w) (errno w) = e" and "e \<noteq> EINPROGRESS"
    and "os_getsockname (w_os w) fd k = (Inr sa, k4)"
  shows "connectA call c s conn priv w = Inl (NullDeref HElem)"
proof -
  obtain w' where run: "connectA call c s conn priv w = mthen (returnA call c s conn) (returnA call c s conn) w'"
    and same: "elems w' = elems w" "circs w' = circs w"
    using connectA_immediate [OF assms(4-12), of call c s]
    by (fastforce simp: obj_set_def errno_set_def attempted_def)
  have at: "at_step w' c ps b i" using assms(1) same by (simp add: at_step_def)
  have "returnA call c s conn w' = Inr ((), goto c NULL w')"
    using returnA_step [OF at, of call s conn] assms(2) by simp
  moreover have "returnA call c s conn (goto c NULL w') = Inl (NullDeref HElem)"
    by (rule returnA_idle [OF idle_goto [OF at]]) (use assms(3) same in simp)
  ultimately show ?thesis using run by (simp add: then_run)
qed

definition quick_os :: "demo os" where
  \<comment> \<open>a system where every connection is there at once\<close>
  "quick_os = demo_os\<lparr>os_connect := (\<lambda>fd sa k. (Inr (), k))\<rparr>"

lemma connect_at_once_crashes_witness:
  "connectA (\<lambda>i. mret ()) 1 0 11 13
     (on_os quick_os (demo_data (O_tcpconn demo_conn) (O_tcpclientP (demo_client TC_IDLE)) (demo_running NULL 2 ())))
   = Inl (NullDeref HElem)"
proof -
  let ?w = "on_os quick_os (demo_data (O_tcpconn demo_conn) (O_tcpclientP (demo_client TC_IDLE)) (demo_running NULL 2 ()))"
  let ?a = "\<lparr>ai_family = AF_INET, ai_socktype = SOCK_STREAM, ai_protocol = 0,
        ai_addr = \<lparr>sin_family = 2, sin_port = 1, sin_addr = 0x0100007F\<rparr>\<rparr>"
  have at: "at_step ?w 1 [1, 2] (demo_acirc None) 1"
    using demo_at_step(2) by (simp add: at_step_def)
  show ?thesis
    by (rule connect_at_once_crashes [OF at, where ob = "O_tcpclientP (demo_client TC_IDLE)" and cl = "demo_client TC_IDLE" and a = ?a and fd = 4
          and k = "demo_start\<lparr>d_fds := 5\<rparr>" and e = 0])
      (use demo_store_ok in \<open>simp_all add: abs_next_def demo_acirc_def demo_client_def immediate_def quick_os_def
        demo_os_def demo_fd_def demo_start_def demo_running_def TC_IDLE_def TC_CONNECTING_def EINPROGRESS_def\<close>)
qed

section \<open>TLS\<close>

text \<open>C39: \<open>tlsreadA\<close> never reports an error of OpenSSL: whatever the reason for which there is no data, a closed
  or broken connection included, it waits for the descriptor to become readable.\<close>

theorem tls_read_never_fails:
  assumes "obj_as w as_tlsclientP priv = Some p" and "obj_as w as_file f = Some fl"
    and "obj_as w as_string (f_data fl) = Some st" and "cells (blobs w) (s_blob st) = Some old"
    and "os_SSL_read (os_ssl (w_os w)) (tls_ssl p) (to_int (readsize p)) (errno w) (kern w)
      = ((n, []), e, k)" and "n \<le> 0"
    and "os_ERR_get_error (os_ssl (w_os w)) e k = (code, e', k')"
  shows "tlsreadA call c s f priv w = waitA call c s f (f_fd fl) EPOLLIN (epollflags p)
    (w\<lparr>kern := k', trace := trace w @ [SslRead (tls_ssl p), SslError], errno := e'\<rparr>)"
  by (rule tlsreadA_no_data [OF assms])

lemma tls_read_never_fails_witness:
  "\<exists>w'. tlsreadA (\<lambda>i. mret ()) 1 0 11 13 (demo_stream [] (O_file demo_file) (O_tlsclientP demo_tls)) =
    waitA (\<lambda>i. mret ()) 1 0 11 5 EPOLLIN EPOLLET w'"
  using tls_read_never_fails [of "demo_stream [] (O_file demo_file) (O_tlsclientP demo_tls)" 13 demo_tls 11 demo_file
      demo_string "[1, 2, 3, 4]" "-1" "errno (demo_stream [] (O_file demo_file) (O_tlsclientP demo_tls))"
      "demo_start\<lparr>d_input := []\<rparr>" 1 "errno (demo_stream [] (O_file demo_file) (O_tlsclientP demo_tls))"
      "demo_start\<lparr>d_input := []\<rparr>" "\<lambda>i. mret ()" 1 0]
  by (auto simp: demo_file_def demo_string_def demo_tls_def demo_os_def demo_ssl_def)

text \<open>The callback for certificates always returns, and returns the verdict that OpenSSL came to: it
  only prints the reason.\<close>

theorem certificate_verdict_kept:
  "\<exists>w'. openssl_verify_callback preverify depth err w = Inr (preverify, w')"
  by (rule verify_callback_result)

section \<open>Logging\<close>

text \<open>A message above the verbosity prints nothing and changes nothing; any other one is printed in
  one line: header, message, the reason if it is an error or a warning and \<open>errno\<close> is set, newline.\<close>

theorem log_line:
  assumes "log_works (w_os w) (logging_fd w)"
  shows "if level > verbosity w then logging_log level fn ln fu msg w = Inr ((), w)
    else \<exists>w'. logging_log level fn ln fu msg w = Inr ((), w') \<and>
      prints w (log_header level fn ln fu # (case msg of None \<Rightarrow> [] | Some t \<Rightarrow> ['' '', t]) @
        log_errno level w @ [''\<newline>'']) w'"
  using logging_log_silent [of w level] logging_log_prints [OF _ assms] by (simp add: not_less)

lemma char_seven: "char_of (55 :: nat) = CHR ''7''"
  by code_simp

lemma log_line_witness:
  "\<exists>w'. logging_log LOGGING_INFO ''a.c'' 7 ''main'' (Some ''hello'') (demo_world demo_start ()) = Inr ((), w') \<and>
    trace w' = [SysPrint 2 ''[info] [a.c:7 main]'', SysPrint 2 '' '', SysPrint 2 ''hello'', SysPrint 2 ''\<newline>'']"
proof -
  have "log_works (w_os (demo_world demo_start ())) (logging_fd (demo_world demo_start ()))"
    by (simp add: log_works_def demo_os_def demo_ok_def)
  from log_line [OF this, of LOGGING_INFO "''a.c''" 7 "''main''" "Some ''hello''"]
  obtain w' where run: "logging_log LOGGING_INFO ''a.c'' 7 ''main'' (Some ''hello'') (demo_world demo_start ()) = Inr ((), w')"
    and "prints (demo_world demo_start ()) (log_header LOGGING_INFO ''a.c'' 7 ''main'' # ['' '', ''hello''] @
        log_errno LOGGING_INFO (demo_world demo_start ()) @ [''\<newline>'']) w'"
    by (auto simp: demo_world_def less_logging_verbosity_def split: if_splits)
  then have "trace w' = [SysPrint 2 ''[info] [a.c:7 main]'', SysPrint 2 '' '', SysPrint 2 ''hello'', SysPrint 2 ''\<newline>'']"
    by (auto simp: demo_world_def prints_def log_errno_def log_header_def
        logging_verbosities_def pad4_def dec_int_def dec_nat.simps char_seven)
  with run show ?thesis by blast
qed

end
