(* ===== verification/Flow.thy ===== *)
theory Flow
  imports Example_Runtime
begin

text \<open>
  A small-step view of a running circuit. A configuration is the number of the current step, the
  data it was called with, and the process; \<open>flow\<close> relates it to the next one when the arrow of the
  step does its work and resumes the circuit with \<open>returnA\<close>, whatever the call depth. \<open>k\<close> steps of
  \<open>flow\<close> are \<open>k\<close> nested calls of \<open>exec\<close> (\<open>flows_exec\<close>).
\<close>

type_synonym ('k, 'u) config = "nat \<times> ptr \<times> ('k, 'u) world"

inductive flow :: "('k, 'u) program \<Rightarrow> ptr \<Rightarrow> ptr \<Rightarrow> ptr list \<Rightarrow> acirc \<Rightarrow>
    ('k, 'u) config \<Rightarrow> ('k, 'u) config \<Rightarrow> bool" for u c s ps a where
  resumed: "at_step w c ps a i \<Longrightarrow> elems w1 = elems w \<Longrightarrow> circs w1 = circs w \<Longrightarrow>
    abs_next a i = Some j \<Longrightarrow>
    (\<And>call. run_task u call (fst (steps a ! i)) c s d (snd (steps a ! i)) w = returnA call c s d' w1) \<Longrightarrow>
    flow u c s ps a (i, d, w) (j, d', goto c (ps ! j) w1)"

inductive_cases flowE: "flow u c s ps a (i, d, w) y"

text \<open>The call of the current step of a configuration.\<close>

fun resume :: "acirc \<Rightarrow> ptr \<Rightarrow> ptr \<Rightarrow> ('k, 'u) calls \<Rightarrow> ('k, 'u) config \<Rightarrow> fault + unit \<times> ('k, 'u) world" where
  "resume a c s call (i, d, w) = call (Run (fst (steps a ! i)) c s d (snd (steps a ! i))) w"

fun placed :: "ptr \<Rightarrow> ptr list \<Rightarrow> acirc \<Rightarrow> ('k, 'u) config \<Rightarrow> bool" where
  "placed c ps a (i, d, w) = at_step w c ps a i"

lemma flow_exec:
  assumes "flow u c s ps a x y"
  shows "resume a c s (exec u (Suc n)) x = resume a c s (exec u n) y" and "placed c ps a y"
proof -
  obtain i d w where x: "x = (i, d, w)" by (cases x)
  from assms [unfolded x] obtain w1 j d' where w: "at_step w c ps a i" "elems w1 = elems w" "circs w1 = circs w"
    and j: "abs_next a i = Some j" and y: "y = (j, d', goto c (ps ! j) w1)"
    and run: "\<And>call. run_task u call (fst (steps a ! i)) c s d (snd (steps a ! i)) w = returnA call c s d' w1"
    by (auto elim!: flowE)
  have at: "at_step w1 c ps a i" using w by (simp add: at_step_def)
  have "j < length ps" using w(1) j by (auto simp: at_step_def intro: abs_next_less)
  then show "placed c ps a y" using at_step_goto [OF at] y by simp
  show "resume a c s (exec u (Suc n)) x = resume a c s (exec u n) y"
    using run [of "exec u n"] returnA_step [OF at, of "exec u n" s d'] j x y by simp
qed

lemma flows_exec:
  "(flow u c s ps a ^^ k) x y \<Longrightarrow> resume a c s (exec u (n + k)) x = resume a c s (exec u n) y"
proof (induction k arbitrary: y n)
  case 0
  then show ?case by simp
next
  case (Suc k)
  then obtain z where z: "(flow u c s ps a ^^ k) x z" "flow u c s ps a z y" by auto
  from Suc.IH [OF z(1), of "Suc n"] have "resume a c s (exec u (n + Suc k)) x = resume a c s (exec u (Suc n)) z"
    by simp
  then show ?case using flow_exec(1) [OF z(2)] by simp
qed

text \<open>Chains of steps, one after the other.\<close>

lemma flows_one: "flow u c s ps a x y \<Longrightarrow> (flow u c s ps a ^^ 1) x y"
  by auto

lemma flows_step: "flow u c s ps a x y \<Longrightarrow> (flow u c s ps a ^^ k) y z \<Longrightarrow> (flow u c s ps a ^^ Suc k) x z"
  by (rule relpowp_Suc_I2)

lemma flows_placed: "(flow u c s ps a ^^ k) x y \<Longrightarrow> placed c ps a x \<Longrightarrow> placed c ps a y"
  by (cases k) (auto dest: flow_exec(2))

text \<open>Going to another step changes nothing that the arrows look at.\<close>

lemma goto_frame [simp]:
  "kern (goto c p w) = kern w" "w_os (goto c p w) = w_os w" "trace (goto c p w) = trace w"
  "errno (goto c p w) = errno w" "objs (goto c p w) = objs w" "blobs (goto c p w) = blobs w"
  "bagh (goto c p w) = bagh w" "ev (goto c p w) = ev w" "usr (goto c p w) = usr w"
  "obj_as (goto c p w) cast q = obj_as w cast q"
  by (simp_all add: goto_def obj_as_def)

section \<open>Walks\<close>

text \<open>
  \<open>yields arrow c s Phi d' Psi\<close>: in a state with \<open>Phi\<close> the arrow does not touch the circuit, reaches \<open>Psi\<close>
  and resumes with the data \<open>d'\<close>. \<open>walks\<close> is \<open>k\<close> steps of \<open>flow\<close> from every state with \<open>Phi\<close> to one
  with \<open>Psi\<close>; the conditions must not look at the current step.
\<close>

definition yields :: "(('k, 'u) calls \<Rightarrow> ('k, 'u, unit) wm) \<Rightarrow> ptr \<Rightarrow> ptr \<Rightarrow> (('k, 'u) world \<Rightarrow> bool) \<Rightarrow>
    ptr \<Rightarrow> (('k, 'u) world \<Rightarrow> bool) \<Rightarrow> bool" where
  "yields arrow c s \<Phi> d' \<Psi> \<longleftrightarrow> (\<forall>w. \<Phi> w \<longrightarrow> (\<exists>w1. (\<forall>call. arrow call w = returnA call c s d' w1) \<and>
     elems w1 = elems w \<and> circs w1 = circs w \<and> \<Psi> w1))"

definition blind :: "(('k, 'u) world \<Rightarrow> bool) \<Rightarrow> bool" where
  "blind \<Phi> \<longleftrightarrow> (\<forall>c p w. \<Phi> (goto c p w) = \<Phi> w)"

definition walks :: "('k, 'u) program \<Rightarrow> ptr \<Rightarrow> ptr \<Rightarrow> ptr list \<Rightarrow> acirc \<Rightarrow> nat \<Rightarrow>
    nat \<Rightarrow> ptr \<Rightarrow> (('k, 'u) world \<Rightarrow> bool) \<Rightarrow> nat \<Rightarrow> ptr \<Rightarrow> (('k, 'u) world \<Rightarrow> bool) \<Rightarrow> bool" where
  "walks u c s ps a k i d \<Phi> j d' \<Psi> \<longleftrightarrow> (\<forall>w. at_step w c ps a i \<longrightarrow> \<Phi> w \<longrightarrow>
     (\<exists>w'. (flow u c s ps a ^^ k) (i, d, w) (j, d', w') \<and> \<Psi> w'))"

lemma yieldsI:
  assumes "\<And>w. \<Phi> w \<Longrightarrow> (\<forall>call. arrow call w = returnA call c s d' (g w)) \<and>
    elems (g w) = elems w \<and> circs (g w) = circs w \<and> \<Psi> (g w)"
  shows "yields arrow c s \<Phi> d' \<Psi>"
  using assms unfolding yields_def by blast

lemma walks_one:
  assumes "steps a ! i = (t, q)" and "yields (\<lambda>call. run_task u call t c s d q) c s \<Phi> d' \<Psi>"
    and "abs_next a i = Some j" and "blind \<Psi>"
  shows "walks u c s ps a 1 i d \<Phi> j d' \<Psi>"
  unfolding walks_def
proof (intro allI impI)
  fix w assume at: "at_step w c ps a i" and "\<Phi> w"
  with assms(2) obtain w1 where run: "\<And>call. run_task u call t c s d q w = returnA call c s d' w1"
    and w1: "elems w1 = elems w" "circs w1 = circs w" "\<Psi> w1"
    unfolding yields_def by blast
  have "flow u c s ps a (i, d, w) (j, d', goto c (ps ! j) w1)"
    using assms(1,3) run by (intro flow.resumed [OF at w1(1,2)]) simp_all
  moreover have "\<Psi> (goto c (ps ! j) w1)" using assms(4) w1(3) by (simp add: blind_def)
  ultimately show "\<exists>w'. (flow u c s ps a ^^ 1) (i, d, w) (j, d', w') \<and> \<Psi> w'" by auto
qed

lemma walks_arrow:
  assumes "yields arrow c s \<Phi> d' \<Psi>" and "blind \<Psi>"
    and "\<And>call. run_task u call (fst (steps a ! i)) c s d (snd (steps a ! i)) = arrow call"
    and "abs_next a i = Some j"
  shows "walks u c s ps a 1 i d \<Phi> j d' \<Psi>"
  using assms by (intro walks_one [where t = "fst (steps a ! i)" and q = "snd (steps a ! i)"]) simp_all

lemma walks_trans [trans]:
  assumes "walks u c s ps a k i d \<Phi> j d' \<Psi>" and "walks u c s ps a m j d' \<Psi> l d'' \<Theta>"
  shows "walks u c s ps a (k + m) i d \<Phi> l d'' \<Theta>"
  unfolding walks_def
proof (intro allI impI)
  fix w assume at: "at_step w c ps a i" and "\<Phi> w"
  with assms(1) obtain w1 where w1: "(flow u c s ps a ^^ k) (i, d, w) (j, d', w1)" "\<Psi> w1"
    unfolding walks_def by blast
  moreover have "at_step w1 c ps a j" using flows_placed [OF w1(1)] at by simp
  ultimately obtain w2 where "(flow u c s ps a ^^ m) (j, d', w1) (l, d'', w2)" "\<Theta> w2"
    using assms(2) unfolding walks_def by blast
  with w1 show "\<exists>w'. (flow u c s ps a ^^ (k + m)) (i, d, w) (l, d'', w') \<and> \<Theta> w'"
    unfolding relpowp_add by blast
qed

lemma walks_exec:
  assumes "walks u c s ps a k i d \<Phi> j d' \<Psi>" and "at_step w c ps a i" and "\<Phi> w"
    and "steps a ! i = (t, q)" and "steps a ! j = (t', q')"
  shows "\<exists>w'. exec u (n + k) (Run t c s d q) w = exec u n (Run t' c s d' q') w' \<and> at_step w' c ps a j \<and> \<Psi> w'"
proof -
  from assms(1-3) obtain w' where w': "(flow u c s ps a ^^ k) (i, d, w) (j, d', w')" "\<Psi> w'"
    unfolding walks_def by blast
  show ?thesis
    using flows_exec [OF w'(1), of n] flows_placed [OF w'(1)] w'(2) assms(2,4,5) by auto
qed

text \<open>Arrows that only look up a pointer.\<close>

lemma load_member_bind [runs]: "cells (objs w) ctx = Some (O_ctx ps) \<Longrightarrow> i < length ps \<Longrightarrow>
    mbind (load_member i ctx) k w = k (ps ! i) w"
  by (simp add: load_member_def mbind_assoc load_as_bind obj_as_def)

lemma load_ptr_bind [runs]: "cells (objs w) f = Some ob \<Longrightarrow> ptr_of ob = Some p \<Longrightarrow> mbind (load_ptr f) k w = k p w"
  by (simp add: load_ptr_def obj_as_def load_as_bind)

text \<open>Arrows that print.\<close>

definition printed :: "int \<Rightarrow> string \<Rightarrow> int + unit \<Rightarrow> 'k \<Rightarrow> ('k, 'u) world \<Rightarrow> ('k, 'u) world" where
  "printed fd t r k w = (after_call (SysPrint fd t) k w)\<lparr>errno := (case r of Inl e \<Rightarrow> e | Inr _ \<Rightarrow> errno w)\<rparr>"

lemma printed_simps [simp]:
  "kern (printed fd t r k w) = k" "trace (printed fd t r k w) = trace w @ [SysPrint fd t]"
  "elems (printed fd t r k w) = elems w" "circs (printed fd t r k w) = circs w"
  "objs (printed fd t r k w) = objs w" "blobs (printed fd t r k w) = blobs w"
  "w_os (printed fd t r k w) = w_os w" "usr (printed fd t r k w) = usr w"
  by (simp_all add: printed_def)

lemma dprintf_then [runs]: "os_dprintf (w_os w) fd t (kern w) = (r, k) \<Longrightarrow>
    mthen (dprintf fd t) d w = d (printed fd t r k w)"
  by (cases r) (simp_all add: dprintf_def printed_def mthen_apply mret_apply mbind_apply syscall_def after_call_def)

lemma yields_member:
  assumes "\<And>w. \<Phi> w \<Longrightarrow> \<exists>ps. cells (objs w) ctx = Some (O_ctx ps) \<and> i < length ps \<and> ps ! i = p"
  shows "yields (\<lambda>call. member_arrow i call c s ctx) c s \<Phi> p \<Phi>"
  using assms by (intro yieldsI [where g = "\<lambda>w. w"]) (fastforce simp: member_arrow_def runs)

lemma yields_ptr:
  assumes "\<And>w. \<Phi> w \<Longrightarrow> \<exists>ob. cells (objs w) f = Some ob \<and> ptr_of ob = Some p"
  shows "yields (\<lambda>call. ptr_arrow call c s f) c s \<Phi> p \<Phi>"
  using assms by (intro yieldsI [where g = "\<lambda>w. w"]) (fastforce simp: ptr_arrow_def runs)

text \<open>What a buffer becomes when \<open>xs\<close> is read into them.\<close>

definition refilled :: "byte list \<Rightarrow> byte list \<Rightarrow> byte list" where
  "refilled xs bs = xs @ drop (length xs) bs"

lemma length_refilled [simp]: "length xs \<le> length bs \<Longrightarrow> length (refilled xs bs) = length bs"
  by (simp add: refilled_def)

lemma take_refilled [simp]: "take (length xs) (refilled xs bs) = xs"
  by (simp add: refilled_def)

lemma refilled_take: "take (length xs) (refilled xs bs) = xs" "length xs \<le> length (refilled xs bs)"
  by (simp_all add: refilled_def)

lemma load_text_bind [runs]: "cells (blobs w) p = Some bs \<Longrightarrow> prec_text n bs = Some t \<Longrightarrow>
    mbind (load_text n p) k w = k t w"
  by (simp add: load_text_def mbind_assoc load_blob_bind)

declare mthen_ret [simp]

lemma mfail_then [runs]: "mthen (mfail f) d w = Inl f"
  by (simp add: mthen_apply mfail_apply)

lemma on_usr_then [runs]: "mthen (on_usr g) d w = d (w\<lparr>usr := g (usr w)\<rparr>)"
  by (simp add: on_usr_def mmod_then)

section \<open>Arrows over streams\<close>

text \<open>\<open>sees\<close>: an object, the string it leads to and the buffer of that; \<open>outside\<close>: the kernel.\<close>

definition sees :: "(obj \<Rightarrow> 'f option) \<Rightarrow> ('f \<Rightarrow> ptr) \<Rightarrow> ptr \<Rightarrow> 'f \<Rightarrow> stringS \<Rightarrow> byte list \<Rightarrow> ('k, 'u) world \<Rightarrow> bool" where
  "sees cast data_of f fl st bs w \<longleftrightarrow> obj_as w cast f = Some fl \<and> obj_as w as_string (data_of fl) = Some st \<and>
     cells (blobs w) (s_blob st) = Some bs"

definition outside :: "'k os \<Rightarrow> 'k \<Rightarrow> ('k, 'u) world \<Rightarrow> bool" where
  "outside os k w \<longleftrightarrow> w_os w = os \<and> kern w = k"

context stream_reader
begin

lemma filled_frame [simp]: "elems (filled d st xs old w) = elems w" "circs (filled d st xs old w) = circs w"
  by (simp_all add: filled_def)

lemma yields_data:
  assumes "\<And>w. \<Phi> w \<Longrightarrow> sees cast data_of f fl st old w" and "\<And>w. \<Phi> w \<Longrightarrow> obj_as w as_ioP priv = Some p"
    and "\<And>w. \<Phi> w \<Longrightarrow> outside os k w"
    and "os_read os (fd_of fl) (unat (readsize p)) k = (Inr xs, k')"
    and "xs \<noteq> []" and "length xs \<le> length old" and "length xs < 2 ^ 31"
    and "\<And>w. \<Phi> w \<Longrightarrow> \<Psi> (filled (data_of fl) st xs old (after_call (SysRead (fd_of fl) (unat (readsize p))) k' w))"
  shows "yields (\<lambda>call. arrow call c s f priv) c s \<Phi> f \<Psi>"
proof (rule yieldsI [where g = "\<lambda>w. filled (data_of fl) st xs old (after_call (SysRead (fd_of fl) (unat (readsize p))) k' w)"],
    intro conjI allI)
  fix w call assume "\<Phi> w"
  note a = assms(1-3) [OF this]
  show "arrow call c s f priv w = returnA call c s f
      (filled (data_of fl) st xs old (after_call (SysRead (fd_of fl) (unat (readsize p))) k' w))"
    by (rule on_data) (use a assms(4-7) in \<open>simp_all add: sees_def outside_def\<close>)
qed (simp_all add: assms(8))

end

context stream_writer
begin

lemma yields_written:
  assumes "\<And>w. \<Phi> w \<Longrightarrow> sees cast data_of f fl st bs w" and "\<And>w. \<Phi> w \<Longrightarrow> outside os k w"
    and "unat (s_size st) \<le> length bs"
    and "os_write os (fd_of fl) (take (unat (s_size st)) bs) k = (Inr m, k')" and "m < 2 ^ 63"
    and "\<And>w. \<Phi> w \<Longrightarrow> \<Psi> (after_call (SysWrite (fd_of fl) (take (unat (s_size st)) bs)) k' w)"
  shows "yields (\<lambda>call. arrow call c s f priv) c s \<Phi> f \<Psi>"
proof (rule yieldsI [where g = "after_call (SysWrite (fd_of fl) (take (unat (s_size st)) bs)) k'"], intro conjI allI)
  fix w call assume "\<Phi> w"
  note a = assms(1,2) [OF this]
  show "arrow call c s f priv w = returnA call c s f (after_call (SysWrite (fd_of fl) (take (unat (s_size st)) bs)) k' w)"
    by (rule on_written) (use a assms(3-5) in \<open>simp_all add: sees_def outside_def\<close>)
qed (simp_all add: assms(6))

end

text \<open>The random source fills a buffer like a reader, and \<open>randencA\<close> encodes what is in it.\<close>

lemma yields_random:
  assumes "\<And>w. \<Phi> w \<Longrightarrow> sees as_file f_data f fl st old w" and "\<And>w. \<Phi> w \<Longrightarrow> obj_as w as_ioP priv = Some p"
    and "\<And>w. \<Phi> w \<Longrightarrow> outside os k w"
    and "os_read os (f_fd fl) (unat (readsize p)) k = (Inr xs, k')" and "length xs \<le> length old"
    and "\<And>w. \<Phi> w \<Longrightarrow> \<Psi> (rd.filled (f_data fl) st xs old (after_call (SysRead (f_fd fl) (unat (readsize p))) k' w))"
  shows "yields (\<lambda>call. randreadA call c s f priv) c s \<Phi> f \<Psi>"
proof (rule yieldsI [where g = "\<lambda>w. rd.filled (f_data fl) st xs old (after_call (SysRead (f_fd fl) (unat (readsize p))) k' w)"],
    intro conjI allI)
  fix w call assume "\<Phi> w"
  note a = assms(1-3) [OF this, unfolded sees_def outside_def]
  have r: "sys_read (f_fd fl) (s_blob st) (readsize p) w = Inr (of_nat (length xs),
      (after_call (SysRead (f_fd fl) (unat (readsize p))) k' w)
        \<lparr>blobs := put_cell (s_blob st) (xs @ drop (length xs) old) (blobs w)\<rparr>)"
    by (rule sys_read_Inr) (use a assms(4,5) in simp_all)
  show "randreadA call c s f priv w = returnA call c s f
      (rd.filled (f_data fl) st xs old (after_call (SysRead (f_fd fl) (unat (readsize p))) k' w))"
    using randreadA_any [OF _ _ _ r] a by (simp add: rd.filled_def after_call_def)
qed (simp_all add: assms(6))

lemma yields_encoded:
  assumes "\<And>w. \<Phi> w \<Longrightarrow> sees as_file f_data f fl st (refilled xs bs) w"
    and "s_size st = of_nat (length xs)" and "length xs < 2 ^ 31"
    and "\<And>w. \<Phi> w \<Longrightarrow> \<Psi> (w\<lparr>blobs := put_cell (s_blob st) (refilled (map randenc_byte xs) bs) (blobs w)\<rparr>)"
  shows "yields (\<lambda>call. randencA call c s f) c s \<Phi> f \<Psi>"
proof (rule yieldsI [where g = "\<lambda>w. w\<lparr>blobs := put_cell (s_blob st) (refilled (map randenc_byte xs) bs) (blobs w)\<rparr>"],
    intro conjI allI)
  fix w call assume "\<Phi> w"
  note a = assms(1) [OF this, unfolded sees_def]
  have "unat (s_size st) = length xs" using assms(2,3) by (simp add: unat_of_nat)
  then show "randencA call c s f w = returnA call c s f
      (w\<lparr>blobs := put_cell (s_blob st) (refilled (map randenc_byte xs) bs) (blobs w)\<rparr>)"
    using a assms(3) randencA_ok [where w = w and f = f and fl = fl and st = st] by (simp add: refilled_def)
qed (simp_all add: assms(4))

end
