(* ===== verification/Random_Program.thy ===== *)
theory Random_Program
  imports Flow
begin

text \<open>
  \<open>src/examples/random.c\<close>: random letters in rounds of a line, on a pipe from the standard input
  to the standard output. The counter is the user part of the process; the state pointer of the
  circuit is not followed by the library.
\<close>

record rounds =
  rx_counter :: u32

definition RX_BUFFSIZE :: nat where "RX_BUFFSIZE = 32"

section \<open>The arrows\<close>

text \<open>\<open>randA\<close>, \<open>pipeA\<close> and \<open>ctxA\<close>: the members of \<open>struct ctx\<close> are \<open>rand\<close> and \<open>pipe\<close>.\<close>

definition randA :: "('k, 'u) calls \<Rightarrow> ptr \<Rightarrow> ptr \<Rightarrow> ptr \<Rightarrow> ('k, 'u, unit) wm" where
  "randA = member_arrow 0"

definition pipeA :: "('k, 'u) calls \<Rightarrow> ptr \<Rightarrow> ptr \<Rightarrow> ptr \<Rightarrow> ('k, 'u, unit) wm" where
  "pipeA = member_arrow 1"

definition ctxA :: "('k, 'u) calls \<Rightarrow> ptr \<Rightarrow> ptr \<Rightarrow> ptr \<Rightarrow> ('k, 'u, unit) wm" where
  "ctxA = ptr_arrow"

definition countA :: "('k, rounds) calls \<Rightarrow> ptr \<Rightarrow> ptr \<Rightarrow> ptr \<Rightarrow> ('k, rounds, unit) wm" where
  "countA call c counter pipe =
     mthen (on_usr (\<lambda>v. v\<lparr>rx_counter := rx_counter v + 1\<rparr>))
     (mbind (load_as as_pipe pipe) (\<lambda>p.
      mbind (mgets (\<lambda>w. rx_counter (usr w))) (\<lambda>n.
      mthen (dprintf (p_wfd p) (zero_padded 3 (dec_nat (unat n)) @ '' ''))
        (returnA call c counter pipe))))"

definition random_errorcb :: "string option \<Rightarrow> ('k, 'u, unit) wm" where
  "random_errorcb e = perror e"

definition random_program :: "('k, rounds) program" where
  "random_program = \<lparr>
     user_task = (\<lambda>n call c s d p. if n = 0 then randA call c s d else if n = 1 then pipeA call c s d
       else if n = 2 then ctxA call c s d else countA call c s d),
     user_err = (\<lambda>n call c s d m. random_errorcb m),
     user_conn = (\<lambda>n call c s fd sa. mret ())\<rparr>"

section \<open>\<open>main\<close>\<close>

definition random_cmds :: "ptr \<Rightarrow> build_cmd list" where
  "random_cmds io = [
     Append (A_user 0) NULL, Append A_randopen io,
     Append A_randread io, Append A_randenc io, Append (A_user 2) NULL, Append (A_user 1) NULL,
     Append (A_user 3) NULL, Append A_pipewrite io, Append A_piperead io, Append (A_user 2) NULL,
     Append (A_user 0) NULL, LoopAt 2]"

text \<open>From the event loop on, and from the variables on.\<close>

definition random_end :: "('k, rounds) calls \<Rightarrow> nat \<Rightarrow> ptr \<Rightarrow> ('k, rounds, int) wm" where
  "random_end call rounds c =
     mbind (meloop_io_loop rounds call None) (\<lambda>r.
     mthen (if r \<noteq> 0 then mfail (Exit 1) else mret ())
     (mthen meloop_io_deinit
     (mthen (freeC c)
     (mret 0))))"

definition random_rest :: "('k, rounds) calls \<Rightarrow> nat \<Rightarrow> ('k, rounds, int) wm" where
  "random_rest call rounds =
     mbind (variable (O_ctx [NULL, NULL])) (\<lambda>ctx.
     mbind (variable (O_ioP \<lparr>epollflags = EPOLLET, readsize = of_nat RX_BUFFSIZE\<rparr>)) (\<lambda>io.
     mbind (array_variable (replicate RX_BUFFSIZE 0)) (\<lambda>buff.
     mbind (variable (O_string \<lparr>s_blob = buff, s_size = 0\<rparr>)) (\<lambda>data.
     mbind (variable (O_file \<lparr>f_ptr = ctx, f_data = data, f_fd = -1\<rparr>)) (\<lambda>rand.
     mbind (variable (O_pipe \<lparr>p_ptr = ctx, p_data = data, p_rfd = 0, p_wfd = 1\<rparr>)) (\<lambda>pipe.
     mthen (set_member 0 rand ctx)
     (mthen (set_member 1 pipe ctx)
     (mbind (newC (Some 0)) (\<lambda>c.
     mbind (build c [] (random_cmds io)) (\<lambda>_.
     mthen (runA call c NULL ctx)
     (random_end call rounds c)))))))))))"

definition random_main :: "nat \<Rightarrow> nat \<Rightarrow> ('k, rounds, int) wm" where
  "random_main depth rounds =
     mthen (on_usr (\<lambda>v. v\<lparr>rx_counter := 0\<rparr>))
     (mthen (meloop_io_init 0)
     (random_rest (exec random_program depth) rounds))"

section \<open>The interfaces\<close>

interpretation ut_random: user_code random_program
  by unfold_locales (auto simp: random_program_def countA_def randA_def pipeA_def ctxA_def intro!: mono_intros)

locale random_invariant = process_invariant P F
  for P :: "('k, rounds) world \<Rightarrow> bool" and F :: "fault \<Rightarrow> bool"
begin

lemma keep_countA [keep_intros]: "(\<And>i. keep P F (call i)) \<Longrightarrow> keep P F (countA call c s d)"
  unfolding countA_def by (intro keep_intros)

end

sublocale random_invariant \<subseteq> drawn: kept_program P F random_program
  by unfold_locales (simp_all add: random_program_def keep_countA keep_member_arrow keep_ptr_arrow
      keep_perror keep_mret random_errorcb_def randA_def pipeA_def ctxA_def)

interpretation random_epl: random_invariant "epoll_inv interest ps" "\<lambda>f. \<not> bag_fault f"
  by unfold_locales

locale random_started = started P F call rounds
  for P :: "('k, rounds) world \<Rightarrow> bool" and F :: "fault \<Rightarrow> bool" and call :: "('k, rounds) calls" and rounds :: nat
begin

lemma random_phases: "ensures P F (random_rest call rounds) (\<lambda>_. True)"
  unfolding random_rest_def random_end_def
  by (rule ensures_bind ensures_then keep_variable keep_array_variable keep_set_member keep_newC keep_build
      keep_run loop keep_if keep_fail ensures_end keep_mthen released keep_mret | simp)+

end

interpretation random_run: random_started "epoll_inv interest []" "\<lambda>f. \<not> bag_fault f" "exec random_program depth" rounds
  by (intro random_started.intro started_epoll random_epl.drawn.kept_program_axioms)

lemma random_main_safe:
  assumes "fresh interest w" and "random_main depth rounds w = Inl f"
  shows "\<not> bag_fault f"
  by (rule main_safe [OF assms(1) random_run.random_phases _ assms(2) [unfolded random_main_def]])
    (intro keep_fresh_usr)

end
