(* ===== verification/Setup.thy ===== *)
theory Setup
  imports Flow
begin

text \<open>
  The start of a \<open>main\<close> function: its variables, its circuit, and the first call of \<open>RUN_A\<close>. Building a
  circuit leaves everything alone but the circuits and the memory the kernel gives out
  (\<open>built\<close>); the circuit then starts at its first step (\<open>program_starts\<close>). And its end: the epoll
  instance, the bags and the circuits are released.
\<close>

text \<open>
  \<open>built err n w0 c ps a w\<close>: on top of \<open>w0\<close> the circuit \<open>c\<close> was made from the new elements \<open>ps\<close>,
  stands for \<open>a\<close> and is idle; that took \<open>n\<close> allocations.
\<close>

definition built :: "errcb option \<Rightarrow> nat \<Rightarrow> ('k, 'u) world \<Rightarrow> ptr \<Rightarrow> ptr list \<Rightarrow> acirc \<Rightarrow> ('k, 'u) world \<Rightarrow> bool" where
  "built err n w0 c ps a w \<longleftrightarrow> c = brk (circs w0) \<and> circuit_at w c ps a \<and> same_data w0 w \<and> store_ok (elems w) \<and>
     kern w = (fed (w_os w0) ^^ n) (kern w0) \<and> (\<forall>p \<in> set ps. brk (elems w0) \<le> p) \<and>
     (\<forall>p. p \<notin> set ps \<longrightarrow> cells (elems w) p = cells (elems w0) p) \<and> brk (elems w0) \<le> brk (elems w) \<and>
     (\<forall>c'. c' \<noteq> c \<longrightarrow> cells (circs w) c' = cells (circs w0) c') \<and> brk (circs w) = Suc c \<and>
     (\<exists>C. cells (circs w) c = Some C \<and> c_err C = err \<and> c_current C = NULL)"

lemma circuit_built:
  assumes m: "malloc_total (w_os w)" and e: "store_ok (elems w)"
    and a: "abs_build \<lparr>steps = [], leads = None\<rparr> cmds = Some a" "build_ok 0 cmds"
  shows "\<exists>c ps w1 w'. newC err w = Inr (c, w1) \<and> build c [] cmds w1 = Inr (ps, w') \<and>
    built err (Suc (appends cmds)) w c ps a w'"
proof -
  have k1: "os_malloc (w_os w) (kern w) = (True, fed (w_os w) (kern w))"
    using malloc_totalD [OF m, of "kern w"] by (auto simp: fed_def)
  let ?c = "brk (circs w)"
  let ?w1 = "w\<lparr>kern := fed (w_os w) (kern w),
    circs := snd (new_cell \<lparr>c_err = err, c_current = NULL, c_nets = NULL, c_ptr = None\<rparr> (circs w))\<rparr>"
  have new: "newC err w = Inr (?c, ?w1)"
    using k1 by (simp add: newC_def mdefs malloc_or_die_def new_cell_def)
  have "circuit_at ?w1 ?c [] \<lparr>steps = [], leads = None\<rparr>" by (simp add: circuit_at_def)
  from build_refines_aux [OF _ _ this, of cmds] m e a
  obtain ps w2 where w2: "build ?c [] cmds ?w1 = Inr (ps, w2)" "circuit_at w2 ?c ps a" "store_ok (elems w2)"
    "extends ?c (set ps) (appends cmds) ?w1 w2" "\<forall>p \<in> set ps. brk (elems w) \<le> p" by auto
  have "built err (Suc (appends cmds)) w ?c ps a w2"
    using w2(2-5) by (simp add: built_def extends_def same_data_def funpow_swap1)
  then show ?thesis using new w2(1) by blast
qed

text \<open>\<open>RUN_A\<close> on a circuit that was just built.\<close>

lemma built_starts:
  assumes "built err n w c ps a w'" and "steps a \<noteq> []" and "steps a ! 0 = (t, q)"
  shows "runA call c s d w' = call (Run t c s d q) (goto c (ps ! 0) w')" and "at_step (goto c (ps ! 0) w') c ps a 0"
proof -
  have ps: "ps \<noteq> []" "circuit (elems w') ps a"
    using assms(1,2) by (auto simp: built_def circuit_at_def split: if_splits)
  obtain C where "cells (circs w') c = Some C" "c_current C = NULL" using assms(1) by (auto simp: built_def)
  then show "at_step (goto c (ps ! 0) w') c ps a 0" using ps by (simp add: at_step_def goto_def)
  have "idle w' c" "circuit_at w' c ps a" using assms(1) by (auto simp: built_def idle_def)
  from runA_start [OF this ps(1), of call s d] show "runA call c s d w' = call (Run t c s d q) (goto c (ps ! 0) w')"
    using assms(3) by simp
qed

text \<open>\<open>NEW_C\<close>, the appended arrows and \<open>loopA\<close>, and \<open>RUN_A\<close>.\<close>

theorem program_starts:
  assumes m: "malloc_total (w_os w)" and e: "store_ok (elems w)"
    and a: "abs_build \<lparr>steps = [], leads = None\<rparr> cmds = Some a" "build_ok 0 cmds" "steps a ! 0 = (t, q)" "steps a \<noteq> []"
  shows "\<exists>c ps w'. mbind (newC err) (\<lambda>c. mbind (build c [] cmds) (\<lambda>_. mthen (runA call c s d) (k c))) w =
      mthen (call (Run t c s d q)) (k c) w' \<and> at_step w' c ps a 0 \<and> same_data w w'"
proof -
  from circuit_built [OF m e a(1,2), of err] obtain c ps w0 w1 where
    w1: "newC err w = Inr (c, w0)" "build c [] cmds w0 = Inr (ps, w1)"
    and b: "built err (Suc (appends cmds)) w c ps a w1" by blast
  note start = built_starts [OF b a(4,3)]
  have "same_data w (goto c (ps ! 0) w1)" using b by (simp add: built_def same_data_def goto_def)
  moreover have "mthen (runA call c s d) (k c) w1 = mthen (call (Run t c s d q)) (k c) (goto c (ps ! 0) w1)"
    using start(1) [of call s d] by (simp add: mthen_apply)
  ultimately show ?thesis using w1 start(2)
    by (intro exI [of _ c] exI [of _ ps] exI [of _ "goto c (ps ! 0) w1"]) (simp add: mbind_apply)
qed

section \<open>Variables\<close>

lemma variable_bind [runs]: "mbind (variable ob) k w = k (brk (objs w)) (w\<lparr>objs := snd (new_cell ob (objs w))\<rparr>)"
  by (simp add: variable_def mbind_apply new_cell_def)

lemma array_variable_bind [runs]:
  "mbind (array_variable bs) k w = k (brk (blobs w)) (w\<lparr>blobs := snd (new_cell bs (blobs w))\<rparr>)"
  by (simp add: array_variable_def mbind_apply new_cell_def)

lemma set_member_then [runs]: "cells (objs w) ctx = Some (O_ctx ps) \<Longrightarrow>
    mthen (set_member i p ctx) k w = k (w\<lparr>objs := put_cell ctx (O_ctx (ps[i := p])) (objs w)\<rparr>)"
  by (simp add: set_member_def mthen_mbind load_as_bind obj_as_def mthen_apply store_obj_eq)

section \<open>Memory\<close>

lemma fed_eq: "malloc_total os \<Longrightarrow> os_malloc os k = (True, fed os k)"
  using malloc_totalD [of os k] by (auto simp: fed_def)

section \<open>The end\<close>

lemma freeC_element:
  assumes "cells (circs w) c = Some C" and "c_nets C = hd ps" and "circuit (elems w) ps a"
  shows "\<exists>w'. freeC c w = Inr ((), w') \<and> usr w' = usr w \<and> trace w' = trace w \<and>
    (\<forall>c'. c' \<noteq> c \<longrightarrow> cells (circs w') c' = cells (circs w) c') \<and>
    (\<forall>p. p \<notin> set ps \<longrightarrow> cells (elems w') p = cells (elems w) p)"
proof (cases "c = NULL")
  case True
  then show ?thesis by (simp add: freeC_def mret_apply)
next
  case False
  have "circuit_at w c ps a" using assms by (auto simp: circuit_at_def circuit_def)
  from freeC_circuit [OF this False] show ?thesis by (simp add: mem.look_fold_del)
qed

lemma deinit_runs:
  assumes "ev_ok w"
  shows "\<exists>w'. meloop_io_deinit w = Inr ((), w') \<and> usr w' = usr w \<and> circs w' = circs w \<and> elems w' = elems w \<and>
    trace w' = trace w @ [SysClose (epfd (ev w))]"
proof -
  obtain r k where r: "os_close (w_os w) (epfd (ev w)) (kern w) = (r, k)" by fastforce
  let ?w = "w\<lparr>kern := k, trace := trace w @ [SysClose (epfd (ev w))],
    errno := (case r of Inl e \<Rightarrow> e | Inr _ \<Rightarrow> errno w)\<rparr>"
  have "ev_ok ?w" using assms by (simp add: ev_ok_def)
  moreover have "meloop_io_deinit w = meloop_bags_freeall ?w"
    using r by (simp add: meloop_io_deinit_def meloop_ev_deinit_def sys_close_def mdefs syscall_def split: sum.split)
  ultimately show ?thesis using meloop_bags_freeall_eq [of ?w] by simp
qed

end
