(* ===== verification/Random_Round.thy ===== *)
theory Random_Round
  imports Random_Program Setup
begin

text \<open>
  A round of \<open>src/examples/random.c\<close>: what its variables hold between the arrows
  (\<open>random_state\<close>), what each arrow does to them, and the walk through the nine arrows of the loop.
\<close>

section \<open>The state between two arrows\<close>

record random_vars =
  rv_ctx :: ptr
  rv_io :: ptr
  rv_data :: ptr
  rv_buff :: ptr
  rv_rand :: ptr
  rv_pipe :: ptr

text \<open>The descriptor of the random source, the size of the string, the buffer, the counter, and the
  world outside.\<close>

definition random_state :: "random_vars \<Rightarrow> 'k os \<Rightarrow> int \<Rightarrow> u64 \<Rightarrow> byte list \<Rightarrow> u32 \<Rightarrow> 'k \<Rightarrow> sysev list \<Rightarrow>
    ('k, rounds) world \<Rightarrow> bool" where
  "random_state v os fd sz bs n k tr w \<longleftrightarrow>
     cells (objs w) (rv_ctx v) = Some (O_ctx [rv_rand v, rv_pipe v]) \<and>
     cells (objs w) (rv_io v) = Some (O_ioP \<lparr>epollflags = EPOLLET, readsize = of_nat RX_BUFFSIZE\<rparr>) \<and>
     cells (objs w) (rv_rand v) = Some (O_file \<lparr>f_ptr = rv_ctx v, f_data = rv_data v, f_fd = fd\<rparr>) \<and>
     cells (objs w) (rv_pipe v) = Some (O_pipe \<lparr>p_ptr = rv_ctx v, p_data = rv_data v, p_rfd = 0, p_wfd = 1\<rparr>) \<and>
     cells (objs w) (rv_data v) = Some (O_string \<lparr>s_blob = rv_buff v, s_size = sz\<rparr>) \<and>
     cells (blobs w) (rv_buff v) = Some bs \<and>
     rx_counter (usr w) = n \<and> w_os w = os \<and> kern w = k \<and> trace w = tr"

lemma blind_random [simp]: "blind (random_state v os fd sz bs n k tr)"
  by (simp add: blind_def random_state_def)

lemma random_views:
  assumes "random_state v os fd sz bs n k tr w"
  shows "sees as_file f_data (rv_rand v) \<lparr>f_ptr = rv_ctx v, f_data = rv_data v, f_fd = fd\<rparr>
      \<lparr>s_blob = rv_buff v, s_size = sz\<rparr> bs w"
    and "sees as_pipe p_data (rv_pipe v) \<lparr>p_ptr = rv_ctx v, p_data = rv_data v, p_rfd = 0, p_wfd = 1\<rparr>
      \<lparr>s_blob = rv_buff v, s_size = sz\<rparr> bs w"
    and "obj_as w as_ioP (rv_io v) = Some \<lparr>epollflags = EPOLLET, readsize = of_nat RX_BUFFSIZE\<rparr>"
    and "outside os k w"
    and "obj_as w as_pipe (rv_pipe v) = Some \<lparr>p_ptr = rv_ctx v, p_data = rv_data v, p_rfd = 0, p_wfd = 1\<rparr>"
  using assms by (simp_all add: random_state_def obj_as_def sees_def outside_def)

lemma random_readsize [simp]: "unat (of_nat RX_BUFFSIZE :: u64) = RX_BUFFSIZE"
  by (simp add: RX_BUFFSIZE_def)

lemma random_filled:
  assumes "random_state v os fd sz bs n k tr w"
  shows "random_state v os fd (of_nat (length xs)) (refilled xs bs) n k' (tr @ [e])
    (rd.filled (rv_data v) \<lparr>s_blob = rv_buff v, s_size = sz\<rparr> xs bs (after_call e k' w))"
  using assms by (auto simp: random_state_def rd.filled_def put_cell_def refilled_def)

section \<open>The arrows\<close>

lemma yields_randread:
  assumes "os_read os fd RX_BUFFSIZE k = (Inr xs, k')" and "length xs \<le> length bs"
  shows "yields (\<lambda>call. randreadA call c s (rv_rand v) (rv_io v)) c s (random_state v os fd sz bs n k tr)
    (rv_rand v) (random_state v os fd (of_nat (length xs)) (refilled xs bs) n k' (tr @ [SysRead fd RX_BUFFSIZE]))"
  by (rule yields_random [OF random_views(1,3,4)]) (use random_filled assms in auto)

lemma yields_randenc:
  assumes "length xs < 2 ^ 31"
  shows "yields (\<lambda>call. randencA call c s (rv_rand v)) c s
    (random_state v os fd (of_nat (length xs)) (refilled xs bs) n k tr)
    (rv_rand v) (random_state v os fd (of_nat (length xs)) (refilled (map randenc_byte xs) bs) n k tr)"
  by (rule yields_encoded [OF random_views(1)]) (use assms in \<open>simp_all add: random_state_def\<close>)

lemma yields_count:
  assumes "os_dprintf os 1 (zero_padded 3 (dec_nat (unat (n + 1))) @ '' '') k = (r, k')"
  shows "yields (\<lambda>call. countA call c s (rv_pipe v)) c s (random_state v os fd sz bs n k tr)
    (rv_pipe v) (random_state v os fd sz bs (n + 1) k'
      (tr @ [SysPrint 1 (zero_padded 3 (dec_nat (unat (n + 1))) @ '' '')]))"
proof (rule yieldsI [where g = "\<lambda>w. printed 1 (zero_padded 3 (dec_nat (unat (n + 1))) @ '' '') r k'
      (w\<lparr>usr := (usr w)\<lparr>rx_counter := n + 1\<rparr>\<rparr>)"], intro conjI allI)
  fix w :: "('a, rounds) world" and call assume st: "random_state v os fd sz bs n k tr w"
  let ?w = "w\<lparr>usr := (usr w)\<lparr>rx_counter := n + 1\<rparr>\<rparr>"
  have "random_state v os fd sz bs (n + 1) k tr ?w" using st by (simp add: random_state_def)
  note o = random_views(5) [OF this]
  have b: "w_os ?w = os" "kern ?w = k" "rx_counter (usr w) = n" using st by (simp_all add: random_state_def)
  have "countA call c s (rv_pipe v) w = mbind (load_as as_pipe (rv_pipe v)) (\<lambda>p.
      mbind (mgets (\<lambda>w. rx_counter (usr w))) (\<lambda>n.
      mthen (dprintf (p_wfd p) (zero_padded 3 (dec_nat (unat n)) @ '' '')) (returnA call c s (rv_pipe v)))) ?w"
    using b(3) by (simp add: countA_def on_usr_def mmod_then)
  also have "\<dots> = returnA call c s (rv_pipe v) (printed 1 (zero_padded 3 (dec_nat (unat (n + 1))) @ '' '') r k' ?w)"
    using assms b by (simp add: load_as_bind [OF o] mgets_bind dprintf_then)
  finally show "countA call c s (rv_pipe v) w = returnA call c s (rv_pipe v)
    (printed 1 (zero_padded 3 (dec_nat (unat (n + 1))) @ '' '') r k' ?w)" .
qed (simp_all add: random_state_def)

lemma yields_pipewrite:
  assumes "os_write os 1 xs k = (Inr m, k')" and "m < 2 ^ 63" and "length xs < 2 ^ 31"
  shows "yields (\<lambda>call. pipewriteA call c s (rv_pipe v) (rv_io v)) c s
    (random_state v os fd (of_nat (length xs)) (refilled xs bs) n k tr)
    (rv_pipe v) (random_state v os fd (of_nat (length xs)) (refilled xs bs) n k' (tr @ [SysWrite 1 xs]))"
proof -
  have "unat (of_nat (length xs) :: u64) = length xs" using assms(3) by (simp add: unat_of_nat)
  then show ?thesis
    by (intro pwr.yields_written [OF random_views(2,4)])
      (use assms refilled_take in \<open>auto simp: random_state_def\<close>)
qed

lemma yields_piperead:
  assumes "os_read os 0 RX_BUFFSIZE k = (Inr xs, k')" and "xs \<noteq> []" and "length xs \<le> length bs" and "length xs < 2 ^ 31"
  shows "yields (\<lambda>call. pipereadA call c s (rv_pipe v) (rv_io v)) c s (random_state v os fd sz bs n k tr)
    (rv_pipe v) (random_state v os fd (of_nat (length xs)) (refilled xs bs) n k' (tr @ [SysRead 0 RX_BUFFSIZE]))"
  by (rule prd.yields_data [OF random_views(2,3,4)]) (use random_filled assms in auto)

lemma yields_ctx:
  assumes "d = rv_rand v \<or> d = rv_pipe v"
  shows "yields (\<lambda>call. ctxA call c s d) c s (random_state v os fd sz bs n k tr) (rv_ctx v)
    (random_state v os fd sz bs n k tr)"
  unfolding ctxA_def by (rule yields_ptr) (use assms in \<open>auto simp: random_state_def\<close>)

lemma yields_rand:
  "yields (\<lambda>call. randA call c s (rv_ctx v)) c s (random_state v os fd sz bs n k tr) (rv_rand v)
    (random_state v os fd sz bs n k tr)"
  unfolding randA_def by (rule yields_member) (simp add: random_state_def)

lemma yields_pipe:
  "yields (\<lambda>call. pipeA call c s (rv_ctx v)) c s (random_state v os fd sz bs n k tr) (rv_pipe v)
    (random_state v os fd sz bs n k tr)"
  unfolding pipeA_def by (rule yields_member) (simp add: random_state_def)

section \<open>The round\<close>

text \<open>The circuit that \<open>main\<close> builds, and the system calls of a round: the random bytes, the counter, the
  letters, and a line that is read and dropped.\<close>

definition random_circuit :: "ptr \<Rightarrow> acirc" where
  "random_circuit io = \<lparr>steps = [(A_user 0, NULL), (A_randopen, io), (A_randread, io), (A_randenc, io),
     (A_user 2, NULL), (A_user 1, NULL), (A_user 3, NULL), (A_pipewrite, io), (A_piperead, io),
     (A_user 2, NULL), (A_user 0, NULL)], leads = Some 2\<rparr>"

definition count_text :: "u32 \<Rightarrow> string" where
  "count_text n = zero_padded 3 (dec_nat (unat n)) @ '' ''"

definition random_calls :: "int \<Rightarrow> u32 \<Rightarrow> byte list \<Rightarrow> sysev list" where
  "random_calls fd n xs = [SysRead fd RX_BUFFSIZE, SysPrint 1 (count_text n), SysWrite 1 (map randenc_byte xs),
     SysRead 0 RX_BUFFSIZE]"

lemmas random_steps = random_circuit_def abs_next_def random_program_def

lemma walks_random_round:
  assumes "os_read os fd RX_BUFFSIZE k = (Inr xs, k1)" and "length xs \<le> RX_BUFFSIZE"
    and "os_dprintf os 1 (count_text (n + 1)) k1 = (r, k2)"
    and "os_write os 1 (map randenc_byte xs) k2 = (Inr m, k3)" and "m < 2 ^ 63"
    and "os_read os 0 RX_BUFFSIZE k3 = (Inr ys, k4)" and "ys \<noteq> []" and "length ys \<le> RX_BUFFSIZE"
    and "length bs = RX_BUFFSIZE"
  shows "walks random_program c s ps (random_circuit (rv_io v)) 9
    2 (rv_rand v) (random_state v os fd sz bs n k tr)
    2 (rv_rand v) (random_state v os fd (of_nat (length ys)) (refilled ys (refilled (map randenc_byte xs) bs)) (n + 1) k4
      (tr @ random_calls fd (n + 1) xs))"
proof -
  let ?S = "random_state v os fd" and ?l = "of_nat (length xs) :: u64"
  let ?W = "walks random_program c s ps (random_circuit (rv_io v)) 1"
  let ?b2 = "refilled (map randenc_byte xs) bs" and ?t1 = "tr @ [SysRead fd RX_BUFFSIZE]"
  let ?t2 = "?t1 @ [SysPrint 1 (count_text (n + 1))]"
  let ?t3 = "?t2 @ [SysWrite 1 (map randenc_byte xs)]"
  let ?last = "?S (of_nat (length ys)) (refilled ys ?b2) (n + 1) k4 (?t3 @ [SysRead 0 RX_BUFFSIZE])"
  have x: "length xs \<le> length bs" "length xs < 2 ^ 31" "length ys < 2 ^ 31" "length (map randenc_byte xs) < 2 ^ 31"
      "length ys \<le> length ?b2"
    using assms(2,8,9) by (simp_all add: RX_BUFFSIZE_def)
  note step = walks_arrow [OF _ blind_random, of _ c s]
  have "?W 2 (rv_rand v) (?S sz bs n k tr) 3 (rv_rand v) (?S ?l (refilled xs bs) n k1 ?t1)"
    by (rule step [OF yields_randread [OF assms(1) x(1)]]) (simp_all add: random_steps)
  also have "?W 3 (rv_rand v) (?S ?l (refilled xs bs) n k1 ?t1) 4 (rv_rand v) (?S ?l ?b2 n k1 ?t1)"
    by (rule step [OF yields_randenc [OF x(2)]]) (simp_all add: random_steps)
  also have "?W 4 (rv_rand v) (?S ?l ?b2 n k1 ?t1) 5 (rv_ctx v) (?S ?l ?b2 n k1 ?t1)"
    by (rule step [OF yields_ctx]) (simp_all add: random_steps)
  also have "?W 5 (rv_ctx v) (?S ?l ?b2 n k1 ?t1) 6 (rv_pipe v) (?S ?l ?b2 n k1 ?t1)"
    by (rule step [OF yields_pipe]) (simp_all add: random_steps)
  also have "?W 6 (rv_pipe v) (?S ?l ?b2 n k1 ?t1) 7 (rv_pipe v) (?S ?l ?b2 (n + 1) k2 ?t2)"
    by (rule step [OF yields_count [OF assms(3) [unfolded count_text_def], folded count_text_def]])
      (simp_all add: random_steps)
  also have "?W 7 (rv_pipe v) (?S ?l ?b2 (n + 1) k2 ?t2) 8 (rv_pipe v) (?S ?l ?b2 (n + 1) k3 ?t3)"
    by (rule step [OF yields_pipewrite [OF assms(4,5) x(4), unfolded length_map]]) (simp_all add: random_steps)
  also have "?W 8 (rv_pipe v) (?S ?l ?b2 (n + 1) k3 ?t3) 9 (rv_pipe v) ?last"
    by (rule step [OF yields_piperead [OF assms(6,7) x(5,3)]]) (simp_all add: random_steps)
  also have "?W 9 (rv_pipe v) ?last 10 (rv_ctx v) ?last"
    by (rule step [OF yields_ctx]) (simp_all add: random_steps)
  also have "?W 10 (rv_ctx v) ?last 2 (rv_rand v) ?last"
    by (rule step [OF yields_rand]) (simp_all add: random_steps)
  finally show ?thesis by (simp add: random_calls_def del: One_nat_def)
qed

section \<open>The way to the first round\<close>

lemma random_built: "abs_build \<lparr>steps = [], leads = None\<rparr> (random_cmds io) = Some (random_circuit io)"
  "build_ok 0 (random_cmds io)"
  by (simp_all add: random_cmds_def random_circuit_def abs_append_eq single_def abs_loop_def)

lemma random_first: "steps (random_circuit io) ! 0 = (A_user 0, NULL)" "steps (random_circuit io) \<noteq> []"
    "steps (random_circuit io) ! 2 = (A_randread, io)"
  by (simp_all add: random_circuit_def)

lemma yields_randopen:
  assumes "os_open os ''/dev/urandom'' (O_RDONLY OR O_NONBLOCK) k = (Inr fd', k')" and "0 \<le> fd'"
  shows "yields (\<lambda>call. randopenA call c s (rv_rand v)) c s (random_state v os fd sz bs n k tr)
    (rv_rand v) (random_state v os fd' sz bs n k' (tr @ [SysOpen ''/dev/urandom'']))"
proof (rule yieldsI [where g = "\<lambda>w. (after_call (SysOpen ''/dev/urandom'') k' w)\<lparr>objs := put_cell (rv_rand v)
    (O_file \<lparr>f_ptr = rv_ctx v, f_data = rv_data v, f_fd = fd'\<rparr>) (objs w)\<rparr>"], intro conjI allI)
  fix w :: "('a, rounds) world" and call assume st: "random_state v os fd sz bs n k tr w"
  then show "randopenA call c s (rv_rand v) w = returnA call c s (rv_rand v)
      ((after_call (SysOpen ''/dev/urandom'') k' w)\<lparr>objs := put_cell (rv_rand v)
        (O_file \<lparr>f_ptr = rv_ctx v, f_data = rv_data v, f_fd = fd'\<rparr>) (objs w)\<rparr>)"
    using randopenA_opened [of w "rv_rand v"] assms by (simp add: random_state_def)
qed (auto simp: random_state_def)

lemma walks_random_open:
  assumes "os_open os ''/dev/urandom'' (O_RDONLY OR O_NONBLOCK) k = (Inr fd', k')" and "0 \<le> fd'"
  shows "walks random_program c s ps (random_circuit (rv_io v)) 2
    0 (rv_ctx v) (random_state v os fd sz bs n k tr)
    2 (rv_rand v) (random_state v os fd' sz bs n k' (tr @ [SysOpen ''/dev/urandom'']))"
proof -
  let ?W = "walks random_program c s ps (random_circuit (rv_io v)) 1"
  note step = walks_arrow [OF _ blind_random, of _ c s]
  have "?W 0 (rv_ctx v) (random_state v os fd sz bs n k tr) 1 (rv_rand v) (random_state v os fd sz bs n k tr)"
    by (rule step [OF yields_rand]) (simp_all add: random_steps)
  also have "?W 1 (rv_rand v) (random_state v os fd sz bs n k tr)
      2 (rv_rand v) (random_state v os fd' sz bs n k' (tr @ [SysOpen ''/dev/urandom'']))"
    by (rule step [OF yields_randopen [OF assms]]) (simp_all add: random_steps)
  finally show ?thesis by (simp del: One_nat_def)
qed

text \<open>From the variables to the head of the loop.\<close>

lemma random_variables:
  "\<exists>v w1. random_rest call rounds w = mbind (newC (Some 0)) (\<lambda>c. mbind (build c [] (random_cmds (rv_io v)))
      (\<lambda>_. mthen (runA call c NULL (rv_ctx v)) (random_end call rounds c))) w1 \<and>
    random_state v (w_os w) (-1) 0 (replicate RX_BUFFSIZE 0) (rx_counter (usr w)) (kern w1) (trace w) w1 \<and>
    elems w1 = elems w"
proof -
  let ?b = "brk (objs w)"
  let ?v = "\<lparr>rv_ctx = ?b, rv_io = ?b + 1, rv_data = ?b + 2, rv_buff = brk (blobs w), rv_rand = ?b + 3, rv_pipe = ?b + 4\<rparr>"
  show ?thesis
    unfolding random_rest_def
    by (rule exI [of _ ?v], rule exI, rule conjI, simp add: runs new_cell_def)
      (simp add: random_state_def)
qed

lemma random_reaches_loop:
  assumes m: "malloc_total (w_os w)" and e: "store_ok (elems w)"
    and opens: "\<And>k. \<exists>fd k'. os_open (w_os w) ''/dev/urandom'' (O_RDONLY OR O_NONBLOCK) k = (Inr fd, k') \<and> 0 \<le> fd"
  shows "\<exists>c ps v fd k w'. random_rest (exec random_program (n + 2)) rounds w =
      mthen (exec random_program n (Run A_randread c NULL (rv_rand v) (rv_io v)))
        (random_end (exec random_program (n + 2)) rounds c) w' \<and>
    at_step w' c ps (random_circuit (rv_io v)) 2 \<and>
    random_state v (w_os w) fd 0 (replicate RX_BUFFSIZE 0) (rx_counter (usr w)) k (trace w @ [SysOpen ''/dev/urandom'']) w'"
proof -
  let ?call = "exec random_program (n + 2)"
  obtain v w1 where start: "random_rest ?call rounds w = mbind (newC (Some 0)) (\<lambda>c. mbind (build c [] (random_cmds (rv_io v)))
      (\<lambda>_. mthen (runA ?call c NULL (rv_ctx v)) (random_end ?call rounds c))) w1"
    and st: "random_state v (w_os w) (-1) 0 (replicate RX_BUFFSIZE 0) (rx_counter (usr w)) (kern w1) (trace w) w1"
    and w1: "elems w1 = elems w"
    using random_variables [of ?call rounds w] by blast
  have "malloc_total (w_os w1)" "store_ok (elems w1)" using m e w1 st by (simp_all add: random_state_def)
  note go = program_starts [OF this random_built random_first(1,2), where err = "Some 0" and call = ?call and s = NULL and
      d = "rv_ctx v" and k = "random_end ?call rounds"]
  obtain c ps w2 where w2: "random_rest ?call rounds w = mthen (?call (Run (A_user 0) c NULL (rv_ctx v) NULL))
      (random_end ?call rounds c) w2" "at_step w2 c ps (random_circuit (rv_io v)) 0" "same_data w1 w2"
    using go unfolding start by blast
  from st w2(3) have st2: "random_state v (w_os w) (-1) 0 (replicate RX_BUFFSIZE 0) (rx_counter (usr w)) (kern w2) (trace w) w2"
    by (simp add: random_state_def same_data_def)
  obtain fd k where o: "os_open (w_os w) ''/dev/urandom'' (O_RDONLY OR O_NONBLOCK) (kern w2) = (Inr fd, k)" "0 \<le> fd"
    using opens by blast
  obtain w3 where "?call (Run (A_user 0) c NULL (rv_ctx v) NULL) w2 =
      exec random_program n (Run A_randread c NULL (rv_rand v) (rv_io v)) w3"
    "at_step w3 c ps (random_circuit (rv_io v)) 2"
    "random_state v (w_os w) fd 0 (replicate RX_BUFFSIZE 0) (rx_counter (usr w)) k (trace w @ [SysOpen ''/dev/urandom'']) w3"
    using walks_exec [OF walks_random_open [OF o] w2(2) st2 random_first(1,3), of n] by blast
  with w2(1) show ?thesis by (metis mthen_apply)
qed

end
