(* ===== verification/Echo_Shell.thy ===== *)
theory Echo_Shell
  imports Flow
begin

text \<open>
  \<open>src/examples/echoshell.c\<close>: a shell that prompts, reads a line and echoes it. The counter is the
  user part of the process. Its circuit treats a \<open>struct pipeS\<close> as a \<open>struct fileS\<close>, whose
  descriptor is the reading end of the pipe.
\<close>

record shell =
  sh_counter :: u32

definition BUFFSIZE :: nat where "BUFFSIZE = 1024"

section \<open>The arrows\<close>

definition promptA :: "('k, shell) calls \<Rightarrow> ptr \<Rightarrow> ptr \<Rightarrow> ptr \<Rightarrow> ptr \<Rightarrow> ('k, shell, unit) wm" where
  "promptA call c counter pipe priv =
     mthen (on_usr (\<lambda>v. v\<lparr>sh_counter := sh_counter v + 1\<rparr>))
     (mbind (load_as as_pipe pipe) (\<lambda>p.
      mbind (mgets (\<lambda>w. sh_counter (usr w))) (\<lambda>n.
      mbind (load_text (-1) priv) (\<lambda>prompt.
      mthen (dprintf (p_wfd p) (zero_padded 3 (dec_nat (unat n)) @ '' '' @ prompt))
        (returnA call c counter pipe)))))"

definition echoA :: "('k, shell) calls \<Rightarrow> ptr \<Rightarrow> ptr \<Rightarrow> ptr \<Rightarrow> ('k, shell, unit) wm" where
  "echoA call c counter pipe =
     mbind (load_as as_pipe pipe) (\<lambda>p.
     mbind (load_as as_string (p_data p)) (\<lambda>st.
     mthen (if s_size st = 1 then
         mbind (load_blob (s_blob st)) (\<lambda>bs.
         if bs = [] then mfail BufferOverflow
         else if hd bs = 10 then set_size (p_data p) 0 else mret ())
       else mret ())
     (returnA call c counter pipe)))"

text \<open>\<open>ERROR(error)\<close>: the message is the format, so a percent sign in it is a directive without an
  argument.\<close>

definition shell_errorcb :: "string option \<Rightarrow> ('k, shell, unit) wm" where
  "shell_errorcb error =
     (if (case error of None \<Rightarrow> False | Some m \<Rightarrow> CHR ''%'' \<in> set m) then mfail Indeterminate
      else logging_log LOGGING_ERROR ''echoshell.c'' 37 ''errorcb'' error)"

definition shell_program :: "('k, shell) program" where
  "shell_program = \<lparr>
     user_task = (\<lambda>n call c s d p. if n = 0 then promptA call c s d p else echoA call c s d),
     user_err = (\<lambda>n call c s d m. shell_errorcb m),
     user_conn = (\<lambda>n call c s fd sa. mret ())\<rparr>"

section \<open>\<open>main\<close>\<close>

definition shell_cmds :: "ptr \<Rightarrow> ptr \<Rightarrow> build_cmd list" where
  "shell_cmds prompt io = [Append (A_user 0) prompt, Append A_read io, Append (A_user 1) io, Append A_write io, LoopAt 0]"

text \<open>From the event loop on, and from the variables on.\<close>

definition shell_end :: "('k, shell) calls \<Rightarrow> nat \<Rightarrow> ptr \<Rightarrow> ('k, shell, int) wm" where
  "shell_end call rounds c =
     mbind (meloop_io_loop rounds call None) (\<lambda>r.
     mthen (if r \<noteq> 0 then mfail (Exit 1) else mret ())
     (mthen meloop_io_deinit
     (mthen (freeC c)
     (mret 0))))"

definition shell_rest :: "('k, shell) calls \<Rightarrow> nat \<Rightarrow> ('k, shell, int) wm" where
  "shell_rest call rounds =
     mbind (variable (O_ioP \<lparr>epollflags = EPOLLET, readsize = of_nat BUFFSIZE\<rparr>)) (\<lambda>io.
     mbind (array_variable (replicate BUFFSIZE 0)) (\<lambda>buff.
     mbind (variable (O_string \<lparr>s_blob = buff, s_size = 0\<rparr>)) (\<lambda>data.
     mbind (variable (O_pipe \<lparr>p_ptr = NULL, p_data = data, p_rfd = 0, p_wfd = 1\<rparr>)) (\<lambda>pipe.
     mbind (array_variable (bytes ''me@loop:~$ '' @ [0])) (\<lambda>prompt.
     mbind (newC (Some 0)) (\<lambda>c.
     mbind (build c [] (shell_cmds prompt io)) (\<lambda>_.
     mthen (runA call c NULL pipe)
     (shell_end call rounds c))))))))"

definition shell_main :: "nat \<Rightarrow> nat \<Rightarrow> ('k, shell, int) wm" where
  "shell_main depth rounds =
     mthen (mseq [on_usr (\<lambda>v. v\<lparr>sh_counter := 0\<rparr>), mmod (\<lambda>w. w\<lparr>verbosity := LOGGING_DEBUG\<rparr>)])
     (mthen (meloop_io_init 0)
     (shell_rest (exec shell_program depth) rounds))"

section \<open>The interfaces\<close>

interpretation ut_shell: user_code shell_program
  by unfold_locales (auto simp: shell_program_def promptA_def echoA_def intro!: mono_intros)

locale shell_invariant = process_invariant P F
  for P :: "('k, shell) world \<Rightarrow> bool" and F :: "fault \<Rightarrow> bool"
begin

lemma keep_promptA [keep_intros]: "(\<And>i. keep P F (call i)) \<Longrightarrow> keep P F (promptA call c s d p)"
  unfolding promptA_def by (intro keep_intros)

lemma keep_echoA [keep_intros]: "(\<And>i. keep P F (call i)) \<Longrightarrow> keep P F (echoA call c s d)"
  unfolding echoA_def by (intro keep_intros) simp_all

lemma keep_shell_errorcb [keep_intros]: "keep P F (shell_errorcb m)"
  unfolding shell_errorcb_def by (intro keep_intros) simp_all

end

sublocale shell_invariant \<subseteq> shown: kept_program P F shell_program
  by unfold_locales (simp_all add: shell_program_def keep_promptA keep_echoA keep_shell_errorcb keep_mret)

interpretation shell_epl: shell_invariant "epoll_inv interest ps" "\<lambda>f. \<not> bag_fault f"
  by unfold_locales

locale shell_started = started P F call rounds
  for P :: "('k, shell) world \<Rightarrow> bool" and F :: "fault \<Rightarrow> bool" and call :: "('k, shell) calls" and rounds :: nat
begin

lemma shell_phases: "ensures P F (shell_rest call rounds) (\<lambda>_. True)"
  unfolding shell_rest_def shell_end_def
  by (rule ensures_bind ensures_then keep_variable keep_array_variable keep_newC keep_build keep_run loop
      keep_if keep_fail ensures_end keep_mthen released keep_mret | simp)+

end

interpretation shell_run: shell_started "epoll_inv interest []" "\<lambda>f. \<not> bag_fault f" "exec shell_program depth" rounds
  by (intro shell_started.intro started_epoll shell_epl.shown.kept_program_axioms)

lemma shell_main_safe:
  assumes "fresh interest w" and "shell_main depth rounds w = Inl f"
  shows "\<not> bag_fault f"
  by (rule main_safe [OF assms(1) shell_run.shell_phases _ assms(2) [unfolded shell_main_def mseq.simps]])
    (intro keep_mthen keep_fresh_usr keep_fresh_verbosity keep_mret)

end
