(* ===== verification/Shell_Round.thy ===== *)
theory Shell_Round
  imports Echo_Shell Setup
begin

text \<open>
  A round of \<open>src/examples/echoshell.c\<close>: what its variables hold between the arrows
  (\<open>shell_state\<close>), what each arrow does to them, and the walk through the four arrows of the loop.
\<close>

section \<open>The state between two arrows\<close>

record shell_vars =
  sv_io :: ptr
  sv_data :: ptr
  sv_buff :: ptr
  sv_pipe :: ptr
  sv_prompt :: ptr

text \<open>The size of the string, the buffer, the counter, and the world outside.\<close>

definition shell_state :: "shell_vars \<Rightarrow> 'k os \<Rightarrow> u64 \<Rightarrow> byte list \<Rightarrow> u32 \<Rightarrow> 'k \<Rightarrow> sysev list \<Rightarrow>
    ('k, shell) world \<Rightarrow> bool" where
  "shell_state v os sz bs n k tr w \<longleftrightarrow>
     cells (objs w) (sv_io v) = Some (O_ioP \<lparr>epollflags = EPOLLET, readsize = of_nat BUFFSIZE\<rparr>) \<and>
     cells (objs w) (sv_pipe v) = Some (O_pipe \<lparr>p_ptr = NULL, p_data = sv_data v, p_rfd = 0, p_wfd = 1\<rparr>) \<and>
     cells (objs w) (sv_data v) = Some (O_string \<lparr>s_blob = sv_buff v, s_size = sz\<rparr>) \<and>
     cells (blobs w) (sv_buff v) = Some bs \<and> sv_buff v \<noteq> sv_prompt v \<and>
     cells (blobs w) (sv_prompt v) = Some (bytes ''me@loop:~$ '' @ [0]) \<and>
     sh_counter (usr w) = n \<and> w_os w = os \<and> kern w = k \<and> trace w = tr"

lemma blind_shell [simp]: "blind (shell_state v os sz bs n k tr)"
  by (simp add: blind_def shell_state_def)

lemma shell_views:
  assumes "shell_state v os sz bs n k tr w"
  shows "sees as_file f_data (sv_pipe v) \<lparr>f_ptr = NULL, f_data = sv_data v, f_fd = 0\<rparr>
      \<lparr>s_blob = sv_buff v, s_size = sz\<rparr> bs w"
    and "obj_as w as_pipe (sv_pipe v) = Some \<lparr>p_ptr = NULL, p_data = sv_data v, p_rfd = 0, p_wfd = 1\<rparr>"
    and "obj_as w as_string (sv_data v) = Some \<lparr>s_blob = sv_buff v, s_size = sz\<rparr>"
    and "obj_as w as_ioP (sv_io v) = Some \<lparr>epollflags = EPOLLET, readsize = of_nat BUFFSIZE\<rparr>"
    and "outside os k w"
  using assms by (simp_all add: shell_state_def obj_as_def sees_def outside_def)

lemma shell_readsize [simp]: "unat (of_nat BUFFSIZE :: u64) = BUFFSIZE"
  by (simp add: BUFFSIZE_def)

section \<open>The arrows\<close>

definition prompt_text :: "u32 \<Rightarrow> string" where
  "prompt_text n = zero_padded 3 (dec_nat (unat n)) @ '' '' @ ''me@loop:~$ ''"

lemma prompt_bytes: "prec_text (-1) (bytes ''me@loop:~$ '' @ [0]) = Some ''me@loop:~$ ''"
  by code_simp

lemma yields_prompt:
  assumes "os_dprintf os 1 (prompt_text (n + 1)) k = (r, k')"
  shows "yields (\<lambda>call. promptA call c s (sv_pipe v) (sv_prompt v)) c s (shell_state v os sz bs n k tr)
    (sv_pipe v) (shell_state v os sz bs (n + 1) k' (tr @ [SysPrint 1 (prompt_text (n + 1))]))"
proof (rule yieldsI [where g = "\<lambda>w. printed 1 (prompt_text (n + 1)) r k' (w\<lparr>usr := (usr w)\<lparr>sh_counter := n + 1\<rparr>\<rparr>)"],
    intro conjI allI)
  fix w :: "('a, shell) world" and call assume st: "shell_state v os sz bs n k tr w"
  let ?w = "w\<lparr>usr := (usr w)\<lparr>sh_counter := n + 1\<rparr>\<rparr>"
  have "shell_state v os sz bs (n + 1) k tr ?w" using st by (simp add: shell_state_def)
  note o = shell_views(2) [OF this]
  have b: "w_os ?w = os" "kern ?w = k" "sh_counter (usr w) = n"
      "cells (blobs ?w) (sv_prompt v) = Some (bytes ''me@loop:~$ '' @ [0])"
    using st by (simp_all add: shell_state_def)
  show "promptA call c s (sv_pipe v) (sv_prompt v) w = returnA call c s (sv_pipe v)
      (printed 1 (prompt_text (n + 1)) r k' ?w)"
    unfolding promptA_def on_usr_then b(3) load_as_bind [OF o] mgets_bind load_text_bind [OF b(4) prompt_bytes]
    using dprintf_then [of ?w] assms b by (simp add: prompt_text_def)
qed (simp_all add: shell_state_def)

lemma yields_shell_read:
  assumes "os_read os 0 BUFFSIZE k = (Inr xs, k')" and "xs \<noteq> []" and "length xs \<le> length bs" and "length xs < 2 ^ 31"
  shows "yields (\<lambda>call. readA call c s (sv_pipe v) (sv_io v)) c s (shell_state v os sz bs n k tr)
    (sv_pipe v) (shell_state v os (of_nat (length xs)) (refilled xs bs) n k' (tr @ [SysRead 0 BUFFSIZE]))"
  by (rule rd.yields_data [OF shell_views(1,4,5)])
    (use assms in \<open>auto simp: shell_state_def rd.filled_def refilled_def\<close>)

text \<open>What is echoed: an empty line is nothing.\<close>

definition echoed :: "byte list \<Rightarrow> byte list" where
  "echoed xs = (if xs = [10] then [] else xs)"

lemma echoed_le: "length (echoed xs) \<le> length xs" "take (length (echoed xs)) (refilled xs bs) = echoed xs"
  by (simp_all add: echoed_def refilled_def)

lemma yields_echo:
  assumes "xs \<noteq> []" and "length xs < 2 ^ 31"
  shows "yields (\<lambda>call. echoA call c s (sv_pipe v)) c s
    (shell_state v os (of_nat (length xs)) (refilled xs bs) n k tr)
    (sv_pipe v) (shell_state v os (of_nat (length (echoed xs))) (refilled xs bs) n k tr)"
proof (rule yieldsI [where g = "\<lambda>w. if xs = [10]
    then w\<lparr>objs := put_cell (sv_data v) (O_string \<lparr>s_blob = sv_buff v, s_size = 0\<rparr>) (objs w)\<rparr> else w"], intro conjI allI)
  fix w :: "('a, shell) world" and call assume st: "shell_state v os (of_nat (length xs)) (refilled xs bs) n k tr w"
  note o = shell_views [OF st]
  have sz: "unat (of_nat (length xs) :: u64) = length xs" using assms(2) by (simp add: unat_of_nat)
  then have one: "(of_nat (length xs) = (1 :: u64)) = (length xs = 1)"
    using sz by (simp add: word_unat_eq_iff)
  have b: "cells (blobs w) (sv_buff v) = Some (refilled xs bs)" using st by (simp add: shell_state_def)
  have hd: "length xs = 1 \<Longrightarrow> (xs = [10]) = (hd (refilled xs bs) = 10)" "refilled xs bs \<noteq> []"
    using assms(1) by (auto simp: refilled_def length_Suc_conv)
  show "echoA call c s (sv_pipe v) w = returnA call c s (sv_pipe v) (if xs = [10]
      then w\<lparr>objs := put_cell (sv_data v) (O_string \<lparr>s_blob = sv_buff v, s_size = 0\<rparr>) (objs w)\<rparr> else w)"
    using o(3) b hd one by (auto simp: echoA_def load_as_bind [OF o(2)] runs)
qed (use assms in \<open>auto simp: shell_state_def echoed_def\<close>)

lemma yields_shell_write:
  assumes "os_write os 0 (echoed xs) k = (Inr m, k')" and "m < 2 ^ 63" and "length xs < 2 ^ 31"
  shows "yields (\<lambda>call. writeA call c s (sv_pipe v) (sv_io v)) c s
    (shell_state v os (of_nat (length (echoed xs))) (refilled xs bs) n k tr)
    (sv_pipe v) (shell_state v os (of_nat (length (echoed xs))) (refilled xs bs) n k' (tr @ [SysWrite 0 (echoed xs)]))"
proof -
  have "unat (of_nat (length (echoed xs)) :: u64) = length (echoed xs)"
    using assms(3) echoed_le(1) [of xs] by (simp add: unat_of_nat)
  moreover have "length (echoed xs) \<le> length (refilled xs bs)" using echoed_le(1) [of xs] by (simp add: refilled_def)
  ultimately show ?thesis
    by (intro wr.yields_written [OF shell_views(1,5)])
      (use assms echoed_le in \<open>auto simp: shell_state_def\<close>)
qed

section \<open>The round\<close>

definition shell_circuit :: "ptr \<Rightarrow> ptr \<Rightarrow> acirc" where
  "shell_circuit prompt io =
     \<lparr>steps = [(A_user 0, prompt), (A_read, io), (A_user 1, io), (A_write, io)], leads = Some 0\<rparr>"

lemma shell_built: "abs_build \<lparr>steps = [], leads = None\<rparr> (shell_cmds prompt io) = Some (shell_circuit prompt io)"
  "build_ok 0 (shell_cmds prompt io)"
  by (simp_all add: shell_cmds_def shell_circuit_def abs_append_eq single_def abs_loop_def)

lemma shell_first: "steps (shell_circuit prompt io) ! 0 = (A_user 0, prompt)" "steps (shell_circuit prompt io) \<noteq> []"
  by (simp_all add: shell_circuit_def)

lemmas shell_steps = shell_circuit_def abs_next_def shell_program_def

definition shell_calls :: "u32 \<Rightarrow> byte list \<Rightarrow> sysev list" where
  "shell_calls n xs = [SysPrint 1 (prompt_text n), SysRead 0 BUFFSIZE, SysWrite 0 (echoed xs)]"

lemma walks_shell_round:
  assumes "os_dprintf os 1 (prompt_text (n + 1)) k = (r, k1)"
    and "os_read os 0 BUFFSIZE k1 = (Inr xs, k2)" and "xs \<noteq> []" and "length xs \<le> BUFFSIZE"
    and "os_write os 0 (echoed xs) k2 = (Inr m, k3)" and "m < 2 ^ 63"
    and "length bs = BUFFSIZE"
  shows "walks shell_program c s ps (shell_circuit (sv_prompt v) (sv_io v)) 4
    0 (sv_pipe v) (shell_state v os sz bs n k tr)
    0 (sv_pipe v) (shell_state v os (of_nat (length (echoed xs))) (refilled xs bs) (n + 1) k3
      (tr @ shell_calls (n + 1) xs))"
proof -
  let ?S = "shell_state v os" and ?l = "of_nat (length xs) :: u64" and ?b = "refilled xs bs"
  let ?W = "walks shell_program c s ps (shell_circuit (sv_prompt v) (sv_io v)) 1"
  let ?t1 = "tr @ [SysPrint 1 (prompt_text (n + 1))]"
  let ?t2 = "?t1 @ [SysRead 0 BUFFSIZE]"
  let ?last = "?S (of_nat (length (echoed xs))) ?b (n + 1) k3 (?t2 @ [SysWrite 0 (echoed xs)])"
  have x: "length xs \<le> length bs" "length xs < 2 ^ 31"
    using assms(4,7) by (simp_all add: BUFFSIZE_def)
  note step = walks_arrow [OF _ blind_shell, of _ c s]
  have "?W 0 (sv_pipe v) (?S sz bs n k tr) 1 (sv_pipe v) (?S sz bs (n + 1) k1 ?t1)"
    by (rule step [OF yields_prompt [OF assms(1)]]) (simp_all add: shell_steps)
  also have "?W 1 (sv_pipe v) (?S sz bs (n + 1) k1 ?t1) 2 (sv_pipe v) (?S ?l ?b (n + 1) k2 ?t2)"
    by (rule step [OF yields_shell_read [OF assms(2,3) x]]) (simp_all add: shell_steps)
  also have "?W 2 (sv_pipe v) (?S ?l ?b (n + 1) k2 ?t2) 3 (sv_pipe v) (?S (of_nat (length (echoed xs))) ?b (n + 1) k2 ?t2)"
    by (rule step [OF yields_echo [OF assms(3) x(2)]]) (simp_all add: shell_steps)
  also have "?W 3 (sv_pipe v) (?S (of_nat (length (echoed xs))) ?b (n + 1) k2 ?t2) 0 (sv_pipe v) ?last"
    by (rule step [OF yields_shell_write [OF assms(5,6) x(2)]]) (simp_all add: shell_steps)
  finally show ?thesis by (simp add: shell_calls_def del: One_nat_def)
qed

section \<open>The way to the first round\<close>

lemma shell_variables:
  "\<exists>v w1. shell_rest call rounds w = mbind (newC (Some 0)) (\<lambda>c. mbind (build c [] (shell_cmds (sv_prompt v) (sv_io v)))
      (\<lambda>_. mthen (runA call c NULL (sv_pipe v)) (shell_end call rounds c))) w1 \<and>
    shell_state v (w_os w) 0 (replicate BUFFSIZE 0) (sh_counter (usr w)) (kern w1) (trace w) w1 \<and>
    elems w1 = elems w"
proof -
  let ?b = "brk (objs w)"
  let ?v = "\<lparr>sv_io = ?b, sv_data = ?b + 1, sv_buff = brk (blobs w), sv_pipe = ?b + 2, sv_prompt = brk (blobs w) + 1\<rparr>"
  show ?thesis
    unfolding shell_rest_def
    by (rule exI [of _ ?v], rule exI, rule conjI, simp add: runs new_cell_def)
      (simp add: shell_state_def)
qed

lemma shell_reaches_loop:
  assumes m: "malloc_total (w_os w)" and e: "store_ok (elems w)"
  shows "\<exists>c ps v k w'. shell_rest call rounds w =
      mthen (call (Run (A_user 0) c NULL (sv_pipe v) (sv_prompt v))) (shell_end call rounds c) w' \<and>
    at_step w' c ps (shell_circuit (sv_prompt v) (sv_io v)) 0 \<and>
    shell_state v (w_os w) 0 (replicate BUFFSIZE 0) (sh_counter (usr w)) k (trace w) w'"
proof -
  obtain v w1 where start: "shell_rest call rounds w =
      mbind (newC (Some 0)) (\<lambda>c. mbind (build c [] (shell_cmds (sv_prompt v) (sv_io v)))
      (\<lambda>_. mthen (runA call c NULL (sv_pipe v)) (shell_end call rounds c))) w1"
    and st: "shell_state v (w_os w) 0 (replicate BUFFSIZE 0) (sh_counter (usr w)) (kern w1) (trace w) w1"
    and w1: "elems w1 = elems w"
    using shell_variables [of call rounds w] by blast
  have "malloc_total (w_os w1)" "store_ok (elems w1)" using m e w1 st by (simp_all add: shell_state_def)
  note go = program_starts [OF this shell_built shell_first, where err = "Some 0" and call = call and s = NULL and
      d = "sv_pipe v" and k = "shell_end call rounds"]
  obtain c ps w2 where w2: "shell_rest call rounds w = mthen (call (Run (A_user 0) c NULL (sv_pipe v) (sv_prompt v)))
      (shell_end call rounds c) w2" "at_step w2 c ps (shell_circuit (sv_prompt v) (sv_io v)) 0" "same_data w1 w2"
    using go unfolding start by blast
  moreover from st w2(3)
  have "shell_state v (w_os w) 0 (replicate BUFFSIZE 0) (sh_counter (usr w)) (kern w2) (trace w) w2"
    by (simp add: shell_state_def same_data_def)
  ultimately show ?thesis by blast
qed

end
