(* ===== verification/Echo_Client.thy ===== *)
theory Echo_Client
  imports Flow Alike
begin

text \<open>
  \<open>src/examples/echoclient.c\<close>: a client of the echo server that sends a line of random letters
  every second and prints what comes back. The variables \<open>status\<close> and \<open>state\<close> are the user part
  of the process.
\<close>

record client =
  ec_status :: int
  ec_state :: int

definition EC_CHUNK :: nat where "EC_CHUNK = 32"

section \<open>The arrows\<close>

text \<open>\<open>randA\<close>, \<open>timerA\<close>, \<open>connA\<close> and \<open>ctxA\<close>: the members of \<open>struct ctx\<close> are \<open>timer\<close>, \<open>conn\<close> and
  \<open>rand\<close>.\<close>

definition timerA :: "('k, 'u) calls \<Rightarrow> ptr \<Rightarrow> ptr \<Rightarrow> ptr \<Rightarrow> ('k, 'u, unit) wm" where
  "timerA = member_arrow 0"

definition connA :: "('k, 'u) calls \<Rightarrow> ptr \<Rightarrow> ptr \<Rightarrow> ptr \<Rightarrow> ('k, 'u, unit) wm" where
  "connA = member_arrow 1"

definition client_randA :: "('k, 'u) calls \<Rightarrow> ptr \<Rightarrow> ptr \<Rightarrow> ptr \<Rightarrow> ('k, 'u, unit) wm" where
  "client_randA = member_arrow 2"

definition client_ctxA :: "('k, 'u) calls \<Rightarrow> ptr \<Rightarrow> ptr \<Rightarrow> ptr \<Rightarrow> ('k, 'u, unit) wm" where
  "client_ctxA = ptr_arrow"

text \<open>\<open>(*state)++\<close> is signed; \<open>blob[size - 1]\<close> wraps to the largest index when the size is 0.\<close>

definition newlineA :: "('k, client) calls \<Rightarrow> ptr \<Rightarrow> ptr \<Rightarrow> ptr \<Rightarrow> ('k, client, unit) wm" where
  "newlineA call c state f =
     mbind (mgets (\<lambda>w. ec_state (usr w))) (\<lambda>n.
     if n \<ge> INT_MAX then mfail SignedOverflow
     else mthen (on_usr (\<lambda>v. v\<lparr>ec_state := n + 1\<rparr>))
     (mbind (load_as as_file f) (\<lambda>fl.
     mbind (load_as as_string (f_data fl)) (\<lambda>st.
     mthen (set_byte (s_blob st) (unat (s_size st - 1)) 10)
     (returnA call c state f)))))"

definition greetingA :: "('k, client) calls \<Rightarrow> ptr \<Rightarrow> ptr \<Rightarrow> ptr \<Rightarrow> ('k, client, unit) wm" where
  "greetingA call c state conn =
     mbind (load_as as_tcpconn conn) (\<lambda>cn.
     mbind (meloop_sockaddr_dump (localaddr cn)) (\<lambda>la.
     mthen (printf (''Successfully connected from '' @ la))
     (mbind (meloop_sockaddr_dump (remoteaddr cn)) (\<lambda>ra.
     mthen (printf ('' to '' @ ra @ ''.\<newline>''))
     (returnA call c state conn)))))"

definition printA :: "('k, client) calls \<Rightarrow> ptr \<Rightarrow> ptr \<Rightarrow> ptr \<Rightarrow> ('k, client, unit) wm" where
  "printA call c state f =
     mbind (mgets (\<lambda>w. ec_state (usr w))) (\<lambda>n.
     mbind (load_as as_file f) (\<lambda>fl.
     mbind (load_as as_string (f_data fl)) (\<lambda>st.
     mbind (load_text (to_int (s_size st)) (s_blob st)) (\<lambda>t.
     mthen (printf (zero_padded_int 3 n @ '' '' @ t))
     (returnA call c state f)))))"

definition client_errorcb :: "string option \<Rightarrow> ('k, client, unit) wm" where
  "client_errorcb error = mseq [
     logging_log LOGGING_ERROR ''echoclient.c'' 96 ''errorcb'' (Some (text_of error)),
     on_usr (\<lambda>v. v\<lparr>ec_status := EXIT_FAILURE\<rparr>)]"

text \<open>The signal handler; the process calls it at any time.\<close>

definition client_sighandler :: "('k, client, unit) wm" where
  "client_sighandler = mseq [dprintf 2 ''\<newline>'', on_usr (\<lambda>v. v\<lparr>ec_status := 0\<rparr>)]"

definition client_program :: "('k, client) program" where
  "client_program = \<lparr>
     user_task = (\<lambda>n call c s d p.
       if n = 0 then timerA call c s d else if n = 1 then connA call c s d
       else if n = 2 then client_randA call c s d else if n = 3 then client_ctxA call c s d
       else if n = 4 then newlineA call c s d else if n = 5 then greetingA call c s d
       else printA call c s d),
     user_err = (\<lambda>n call c s d m. client_errorcb m),
     user_conn = (\<lambda>n call c s fd sa. mret ())\<rparr>"

section \<open>\<open>main\<close>\<close>

definition client_tcp :: tcpclientP where
  "client_tcp = \<lparr>epollflags = EPOLLET, readsize = of_nat EC_CHUNK, tc_hostname = ''127.0.0.1'',
     tc_port = ''9090'', tc_connected = None, tc_status = 0\<rparr>"

definition client_timer :: timerP where
  "client_timer = \<lparr>tp_epollflags = EPOLLET, clockid = 0, tp_flags = 0, interval_ns = 1000000000\<rparr>"

definition client_cmds :: "ptr \<Rightarrow> ptr \<Rightarrow> ptr \<Rightarrow> build_cmd list" where
  "client_cmds timer tcp rand = [
     Append (A_user 0) timer, Append A_timeropen timer,
     Append (A_user 3) NULL, Append (A_user 1) NULL, Append A_connect tcp, Append (A_user 5) tcp,
     Append (A_user 3) NULL, Append (A_user 2) NULL, Append A_randopen rand,
     Append A_randread rand, Append A_randenc rand, Append (A_user 4) NULL,
     Append (A_user 3) NULL, Append (A_user 1) NULL, Append A_write tcp, Append A_read tcp, Append (A_user 6) NULL,
     Append (A_user 3) NULL, Append (A_user 0) timer, Append A_timersleep timer,
     Append (A_user 3) NULL, Append (A_user 2) NULL, LoopAt 9]"

definition no_sockaddr :: sockaddr where
  "no_sockaddr = \<lparr>sin_family = 0, sin_port = 0, sin_addr = 0\<rparr>"

definition client_rest :: "('k, client) calls \<Rightarrow> nat \<Rightarrow> ('k, client, int) wm" where
  "client_rest call rounds =
     mthen (on_usr (\<lambda>v. v\<lparr>ec_state := 0\<rparr>))
     (mbind (variable (O_ctx [NULL, NULL, NULL])) (\<lambda>ctx.
     mbind (array_variable (replicate EC_CHUNK 0)) (\<lambda>b.
     mbind (variable (O_string \<lparr>s_blob = b, s_size = 0\<rparr>)) (\<lambda>data.
     mbind (variable (O_tcpconn \<lparr>f_ptr = ctx, f_data = data, f_fd = -1,
        localaddr = no_sockaddr, remoteaddr = no_sockaddr\<rparr>)) (\<lambda>conn.
     mthen (set_member 1 conn ctx)
     (mbind (variable (O_timer \<lparr>t_ptr = ctx, t_fd = -1, t_status = 0\<rparr>)) (\<lambda>tmr.
     mthen (set_member 0 tmr ctx)
     (mbind (variable (O_file \<lparr>f_ptr = ctx, f_data = data, f_fd = -1\<rparr>)) (\<lambda>rnd.
     mthen (set_member 2 rnd ctx)
     (mbind (variable (O_tcpclientP client_tcp)) (\<lambda>tcp.
     mbind (variable (O_ioP \<lparr>epollflags = EPOLLET, readsize = of_nat EC_CHUNK\<rparr>)) (\<lambda>rand.
     mbind (variable (O_timerP client_timer)) (\<lambda>timer.
     mbind (newC (Some 0)) (\<lambda>circ.
     mbind (build circ [] (client_cmds timer tcp rand)) (\<lambda>_.
     mthen (runA call circ NULL ctx)
     (mthen (serve ''echoclient.c'' 197 (\<lambda>st v. v\<lparr>ec_status := st\<rparr>) ec_status rounds call)
     (mthen meloop_io_deinit
     (mthen (freeC circ)
     (mgets (\<lambda>w. ec_status (usr w)))))))))))))))))))))"

definition client_main :: "nat \<Rightarrow> nat \<Rightarrow> ('k, client, int) wm" where
  "client_main depth rounds =
     mthen (mseq [mmod (\<lambda>w. w\<lparr>verbosity := LOGGING_DEBUG\<rparr>), catch_signal])
     (mthen (meloop_io_init 0)
     (client_rest (exec client_program depth) rounds))"

section \<open>The interfaces\<close>

interpretation ut_client: user_code client_program
  by unfold_locales (auto simp: client_program_def newlineA_def greetingA_def printA_def
      timerA_def connA_def client_randA_def client_ctxA_def intro!: mono_intros)

locale client_invariant = process_invariant P F
  for P :: "('k, client) world \<Rightarrow> bool" and F :: "fault \<Rightarrow> bool"
begin

lemma keep_newlineA [keep_intros]: "(\<And>i. keep P F (call i)) \<Longrightarrow> keep P F (newlineA call c s d)"
  unfolding newlineA_def by (intro keep_intros) simp_all

lemma keep_greetingA [keep_intros]: "(\<And>i. keep P F (call i)) \<Longrightarrow> keep P F (greetingA call c s d)"
  unfolding greetingA_def by (intro keep_intros)

lemma keep_printA [keep_intros]: "(\<And>i. keep P F (call i)) \<Longrightarrow> keep P F (printA call c s d)"
  unfolding printA_def by (intro keep_intros)

lemma keep_client_errorcb [keep_intros]: "keep P F (client_errorcb m)"
  unfolding client_errorcb_def by (intro keep_intros)

lemma keep_client_sighandler: "keep P F client_sighandler"
  unfolding client_sighandler_def by (intro keep_intros)

end

sublocale client_invariant \<subseteq> spoken: kept_program P F client_program
  by unfold_locales (simp_all add: client_program_def keep_newlineA keep_greetingA keep_printA
      keep_client_errorcb keep_member_arrow keep_ptr_arrow keep_mret timerA_def connA_def client_randA_def
      client_ctxA_def)

interpretation client_epl: client_invariant "epoll_inv interest ps" "\<lambda>f. \<not> bag_fault f"
  by unfold_locales

locale client_started = started P F call rounds
  for P :: "('k, client) world \<Rightarrow> bool" and F :: "fault \<Rightarrow> bool" and call :: "('k, client) calls" and rounds :: nat
begin

lemma client_phases: "ensures P F (client_rest call rounds) (\<lambda>_. True)"
  unfolding client_rest_def
  by (rule ensures_bind ensures_then keep_variable keep_array_variable keep_set_member keep_newC keep_build
      keep_run keep_serve keep_on_usr ensures_end keep_mthen released keep_mgets)+

end

interpretation client_run: client_started "epoll_inv interest []" "\<lambda>f. \<not> bag_fault f" "exec client_program depth" rounds
  by (intro client_started.intro started_epoll client_epl.spoken.kept_program_axioms)

lemma client_main_safe:
  assumes "fresh interest w" and "client_main depth rounds w = Inl f"
  shows "\<not> bag_fault f"
  by (rule main_safe [OF assms(1) client_run.client_phases _ assms(2) [unfolded client_main_def mseq.simps]])
    (intro keep_mthen keep_fresh_verbosity keep_fresh_catch_signal keep_mret)

section \<open>What the arrows look at\<close>

text \<open>The arrows read and count \<open>state\<close>, never the status.\<close>

locale client_relation =
  fixes R :: "client \<Rightarrow> client \<Rightarrow> bool"
  assumes same_state: "R u v \<Longrightarrow> ec_state u = ec_state v"
    and counted: "R u v \<Longrightarrow> R (u\<lparr>ec_state := n\<rparr>) (v\<lparr>ec_state := n\<rparr>)"
    and failed: "R u v \<Longrightarrow> R (u\<lparr>ec_status := EXIT_FAILURE\<rparr>) (v\<lparr>ec_status := EXIT_FAILURE\<rparr>)"
begin

lemma agrees_state: "agrees R (mgets (\<lambda>w. ec_state (usr w)))"
  by (rule agrees_usr) (rule same_state)

lemma agrees_newlineA: "(\<And>i. agrees R (call i)) \<Longrightarrow> agrees R (newlineA call c s d)"
  unfolding newlineA_def by (intro agree_intros agrees_state agrees_on_usr counted)

lemma agrees_greetingA: "(\<And>i. agrees R (call i)) \<Longrightarrow> agrees R (greetingA call c s d)"
  unfolding greetingA_def by (intro agree_intros)

lemma agrees_printA: "(\<And>i. agrees R (call i)) \<Longrightarrow> agrees R (printA call c s d)"
  unfolding printA_def by (intro agree_intros agrees_state)

lemma agrees_client_errorcb: "agrees R (client_errorcb m)"
  unfolding client_errorcb_def by (intro agree_intros agrees_on_usr failed)

end

sublocale client_relation \<subseteq> blind_program R client_program
  by unfold_locales
    (simp_all add: client_program_def agrees_mret agrees_newlineA agrees_greetingA agrees_printA agrees_client_errorcb
      agrees_data_arrows timerA_def connA_def client_randA_def client_ctxA_def)

interpretation client_apart: client_relation "apart ec_status (\<lambda>st v. v\<lparr>ec_status := st\<rparr>) s n"
  by unfold_locales (auto simp: apart_def)

interpretation client_stopped: client_relation "both (\<lambda>v. ec_status v \<le> EXIT_FAILURE)"
  by unfold_locales (auto simp: both_def)

end
