(* ===== verification/Client_Round.thy ===== *)
theory Client_Round
  imports Echo_Client Setup
begin

text \<open>
  A round of \<open>src/examples/echoclient.c\<close>: what its variables hold between the arrows
  (\<open>client_state\<close>), what each arrow does to them, and the walk through the thirteen arrows of the
  loop: random bytes, letters, a line, to the server and back, printed, and a second of sleep.
\<close>

section \<open>The state between two arrows\<close>

record client_vars =
  cv_ctx :: ptr
  cv_data :: ptr
  cv_buff :: ptr
  cv_conn :: ptr
  cv_tmr :: ptr
  cv_rnd :: ptr
  cv_tcp :: ptr
  cv_rand :: ptr
  cv_timer :: ptr

text \<open>What does not change in a round: the pointers, the descriptors, the addresses and the settings.\<close>

record client_fixed =
  cf_vars :: client_vars
  cf_conn :: tcpconnS
  cf_tmr :: timerS
  cf_rnd :: fileS
  cf_tcp :: tcpclientP

definition client_ok :: "client_fixed \<Rightarrow> bool" where
  "client_ok e \<longleftrightarrow> (let v = cf_vars e in
     f_ptr (cf_conn e) = cv_ctx v \<and> f_data (cf_conn e) = cv_data v \<and>
     t_ptr (cf_tmr e) = cv_ctx v \<and> t_status (cf_tmr e) = WAITING \<and>
     f_ptr (cf_rnd e) = cv_ctx v \<and> f_data (cf_rnd e) = cv_data v \<and>
     epollflags (cf_tcp e) = EPOLLET \<and> readsize (cf_tcp e) = of_nat EC_CHUNK)"

definition client_state :: "client_fixed \<Rightarrow> 'k os \<Rightarrow> u64 \<Rightarrow> byte list \<Rightarrow> int \<Rightarrow> 'k \<Rightarrow> sysev list \<Rightarrow>
    ('k, client) world \<Rightarrow> bool" where
  "client_state e os sz bs n k tr w \<longleftrightarrow> (let v = cf_vars e in client_ok e \<and>
     cells (objs w) (cv_ctx v) = Some (O_ctx [cv_tmr v, cv_conn v, cv_rnd v]) \<and>
     cells (objs w) (cv_conn v) = Some (O_tcpconn (cf_conn e)) \<and>
     cells (objs w) (cv_tmr v) = Some (O_timer (cf_tmr e)) \<and>
     cells (objs w) (cv_rnd v) = Some (O_file (cf_rnd e)) \<and>
     cells (objs w) (cv_tcp v) = Some (O_tcpclientP (cf_tcp e)) \<and>
     cells (objs w) (cv_rand v) = Some (O_ioP \<lparr>epollflags = EPOLLET, readsize = of_nat EC_CHUNK\<rparr>) \<and>
     cells (objs w) (cv_timer v) = Some (O_timerP client_timer) \<and>
     cells (objs w) (cv_data v) = Some (O_string \<lparr>s_blob = cv_buff v, s_size = sz\<rparr>) \<and>
     cells (blobs w) (cv_buff v) = Some bs \<and>
     ec_state (usr w) = n \<and> w_os w = os \<and> kern w = k \<and> trace w = tr)"

lemma blind_client [simp]: "blind (client_state e os sz bs n k tr)"
  by (simp add: blind_def client_state_def)

lemma client_views:
  assumes "client_state e os sz bs n k tr w"
  shows "sees as_file f_data (cv_rnd (cf_vars e)) (cf_rnd e) \<lparr>s_blob = cv_buff (cf_vars e), s_size = sz\<rparr> bs w"
    and "sees as_file f_data (cv_conn (cf_vars e)) (fileS.truncate (cf_conn e))
      \<lparr>s_blob = cv_buff (cf_vars e), s_size = sz\<rparr> bs w"
    and "obj_as w as_ioP (cv_rand (cf_vars e)) = Some \<lparr>epollflags = EPOLLET, readsize = of_nat EC_CHUNK\<rparr>"
    and "obj_as w as_ioP (cv_tcp (cf_vars e)) = Some \<lparr>epollflags = EPOLLET, readsize = of_nat EC_CHUNK\<rparr>"
    and "outside os k w"
    and "obj_as w as_timer (cv_tmr (cf_vars e)) = Some (cf_tmr e)"
  using assms
  by (simp_all add: client_state_def client_ok_def Let_def obj_as_def sees_def outside_def fileS.truncate_def
      ioP.truncate_def)

lemma client_readsize [simp]: "unat (of_nat EC_CHUNK :: u64) = EC_CHUNK"
  by (simp add: EC_CHUNK_def)

lemma client_filled:
  assumes "client_state e os sz bs n k tr w" and "d = f_data (cf_rnd e) \<or> d = f_data (cf_conn e)"
  shows "client_state e os (of_nat (length xs)) (refilled xs bs) n k' (tr @ [sc])
    (rd.filled d \<lparr>s_blob = cv_buff (cf_vars e), s_size = sz\<rparr> xs bs (after_call sc k' w))"
  using assms by (auto simp: client_state_def client_ok_def Let_def rd.filled_def put_cell_def refilled_def)

lemma client_data: "client_state e os sz bs n k tr w \<Longrightarrow> f_data (cf_rnd e) = cv_data (cf_vars e)"
    "client_state e os sz bs n k tr w \<Longrightarrow> f_data (cf_conn e) = cv_data (cf_vars e)"
  by (simp_all add: client_state_def client_ok_def Let_def)

section \<open>The arrows\<close>

lemma yields_client_random:
  assumes "os_read os (f_fd (cf_rnd e)) EC_CHUNK k = (Inr xs, k')" and "length xs \<le> length bs"
  shows "yields (\<lambda>call. randreadA call c s (cv_rnd (cf_vars e)) (cv_rand (cf_vars e))) c s (client_state e os sz bs n k tr)
    (cv_rnd (cf_vars e)) (client_state e os (of_nat (length xs)) (refilled xs bs) n k' (tr @ [SysRead (f_fd (cf_rnd e)) EC_CHUNK]))"
  by (rule yields_random [OF client_views(1,3,5)]) (auto simp: assms intro: client_filled)

lemma yields_client_encode:
  assumes "length xs < 2 ^ 31"
  shows "yields (\<lambda>call. randencA call c s (cv_rnd (cf_vars e))) c s
    (client_state e os (of_nat (length xs)) (refilled xs bs) n k tr)
    (cv_rnd (cf_vars e)) (client_state e os (of_nat (length xs)) (refilled (map randenc_byte xs) bs) n k tr)"
  by (rule yields_encoded [OF client_views(1)]) (use assms in \<open>simp_all add: client_state_def Let_def\<close>)

text \<open>The line that is sent: the last letter becomes the end of the line.\<close>

definition as_line :: "byte list \<Rightarrow> byte list" where
  "as_line xs = butlast xs @ [10]"

lemma length_as_line [simp]: "xs \<noteq> [] \<Longrightarrow> length (as_line xs) = length xs"
  by (cases xs rule: rev_cases) (simp_all add: as_line_def)

lemma refilled_line: "xs \<noteq> [] \<Longrightarrow> (refilled xs bs)[length xs - 1 := 10] = refilled (as_line xs) bs"
  by (cases xs rule: rev_cases) (simp_all add: as_line_def refilled_def list_update_append)

lemma yields_newline:
  assumes "n < INT_MAX" and "xs \<noteq> []" and "length xs < 2 ^ 31"
  shows "yields (\<lambda>call. newlineA call c s (cv_rnd (cf_vars e))) c s
    (client_state e os (of_nat (length xs)) (refilled xs bs) n k tr)
    (cv_rnd (cf_vars e)) (client_state e os (of_nat (length xs)) (refilled (as_line xs) bs) (n + 1) k tr)"
proof (rule yieldsI [where g = "\<lambda>w. w\<lparr>usr := (usr w)\<lparr>ec_state := n + 1\<rparr>,
    blobs := put_cell (cv_buff (cf_vars e)) (refilled (as_line xs) bs) (blobs w)\<rparr>"], intro conjI allI)
  fix w :: "('a, client) world" and call
  assume st: "client_state e os (of_nat (length xs)) (refilled xs bs) n k tr w"
  let ?w = "w\<lparr>usr := (usr w)\<lparr>ec_state := n + 1\<rparr>\<rparr>"
  have "client_state e os (of_nat (length xs)) (refilled xs bs) (n + 1) k tr ?w"
    using st by (simp add: client_state_def Let_def)
  note o = client_views(1) [OF this, unfolded sees_def] and d = client_data(1) [OF this]
  have l: "unat (of_nat (length xs) :: u64) = length xs" using assms(3) by (simp add: unat_of_nat)
  have "unat (of_nat (length xs) - 1 :: u64) = length xs - 1"
    using assms(2) l by (subst unat_sub) (auto simp: word_le_nat_alt Suc_leI)
  moreover have "length xs - 1 < length (refilled xs bs)" using assms(2) by (cases xs) (simp_all add: refilled_def)
  moreover have "ec_state (usr w) = n" using st by (simp add: client_state_def Let_def)
  ultimately show "newlineA call c s (cv_rnd (cf_vars e)) w = returnA call c s (cv_rnd (cf_vars e))
      (w\<lparr>usr := (usr w)\<lparr>ec_state := n + 1\<rparr>, blobs := put_cell (cv_buff (cf_vars e)) (refilled (as_line xs) bs) (blobs w)\<rparr>)"
    using o assms(1) refilled_line [OF assms(2)]
    by (simp add: newlineA_def set_byte_def runs mthen_mbind)
qed (simp_all add: client_state_def Let_def)

text \<open>\<open>ctxA\<close> from any of the three, and the way to the three.\<close>

lemma yields_client_ctx:
  assumes "d \<in> {cv_tmr (cf_vars e), cv_conn (cf_vars e), cv_rnd (cf_vars e)}"
  shows "yields (\<lambda>call. client_ctxA call c s d) c s (client_state e os sz bs n k tr) (cv_ctx (cf_vars e))
    (client_state e os sz bs n k tr)"
  unfolding client_ctxA_def by (rule yields_ptr) (use assms in \<open>auto simp: client_state_def client_ok_def Let_def\<close>)

lemma yields_client_member:
  "yields (\<lambda>call. timerA call c s (cv_ctx (cf_vars e))) c s (client_state e os sz bs n k tr) (cv_tmr (cf_vars e))
    (client_state e os sz bs n k tr)"
  "yields (\<lambda>call. connA call c s (cv_ctx (cf_vars e))) c s (client_state e os sz bs n k tr) (cv_conn (cf_vars e))
    (client_state e os sz bs n k tr)"
  "yields (\<lambda>call. client_randA call c s (cv_ctx (cf_vars e))) c s (client_state e os sz bs n k tr) (cv_rnd (cf_vars e))
    (client_state e os sz bs n k tr)"
  unfolding timerA_def connA_def client_randA_def
  by (rule yields_member, simp add: client_state_def Let_def)+

lemma yields_client_write:
  assumes "os_write os (f_fd (cf_conn e)) xs k = (Inr m, k')" and "m < 2 ^ 63" and "length xs < 2 ^ 31"
  shows "yields (\<lambda>call. writeA call c s (cv_conn (cf_vars e)) q) c s
    (client_state e os (of_nat (length xs)) (refilled xs bs) n k tr)
    (cv_conn (cf_vars e)) (client_state e os (of_nat (length xs)) (refilled xs bs) n k' (tr @ [SysWrite (f_fd (cf_conn e)) xs]))"
proof -
  have "unat (of_nat (length xs) :: u64) = length xs" using assms(3) by (simp add: unat_of_nat)
  then show ?thesis
    by (intro wr.yields_written [OF client_views(2,5)])
      (use assms refilled_take in \<open>auto simp: client_state_def Let_def fileS.truncate_def\<close>)
qed

lemma yields_client_read:
  assumes "os_read os (f_fd (cf_conn e)) EC_CHUNK k = (Inr xs, k')" and "xs \<noteq> []" and "length xs \<le> length bs"
    and "length xs < 2 ^ 31"
  shows "yields (\<lambda>call. readA call c s (cv_conn (cf_vars e)) (cv_tcp (cf_vars e))) c s (client_state e os sz bs n k tr)
    (cv_conn (cf_vars e)) (client_state e os (of_nat (length xs)) (refilled xs bs) n k' (tr @ [SysRead (f_fd (cf_conn e)) EC_CHUNK]))"
  by (rule rd.yields_data [OF client_views(2,4,5)])
    (use assms in \<open>auto simp: fileS.truncate_def intro: client_filled\<close>)

definition reply_text :: "int \<Rightarrow> byte list \<Rightarrow> string" where
  "reply_text n xs = zero_padded_int 3 n @ '' '' @ chars xs"

lemma to_int_of_nat: "n < 2 ^ 31 \<Longrightarrow> to_int (of_nat n) = int n"
  by (simp add: to_int_def unsigned_of_nat take_bit_nat_eq_self signed_of_nat signed_take_bit_int_eq_self)

lemma prec_text_all:
  assumes "0 \<notin> set xs"
  shows "prec_text (int (length xs)) (refilled xs bs) = Some (chars xs)"
proof -
  have "takeWhile (\<lambda>b. b \<noteq> 0) (xs @ ys) = xs @ takeWhile (\<lambda>b. b \<noteq> 0) ys" for ys
    by (rule takeWhile_append2) (use assms in auto)
  then show ?thesis by (simp add: prec_text_def refilled_def Let_def)
qed

lemma yields_print:
  assumes "0 \<notin> set xs" and "length xs < 2 ^ 31"
  shows "yields (\<lambda>call. printA call c s (cv_conn (cf_vars e))) c s
    (client_state e os (of_nat (length xs)) (refilled xs bs) n k tr)
    (cv_conn (cf_vars e)) (client_state e os (of_nat (length xs)) (refilled xs bs) n k (tr @ [SysStdout (reply_text n xs)]))"
proof (rule yieldsI [where g = "\<lambda>w. w\<lparr>trace := trace w @ [SysStdout (reply_text n xs)]\<rparr>"], intro conjI allI)
  fix w :: "('a, client) world" and call
  assume st: "client_state e os (of_nat (length xs)) (refilled xs bs) n k tr w"
  note o = client_views(2) [OF st, unfolded sees_def]
  have "ec_state (usr w) = n" using st by (simp add: client_state_def Let_def)
  then show "printA call c s (cv_conn (cf_vars e)) w = returnA call c s (cv_conn (cf_vars e))
      (w\<lparr>trace := trace w @ [SysStdout (reply_text n xs)]\<rparr>)"
    using o prec_text_all [OF assms(1)] to_int_of_nat [OF assms(2)]
    by (simp add: printA_def runs reply_text_def)
qed (simp_all add: client_state_def Let_def)

lemma yields_sleep:
  assumes "os_read os (t_fd (cf_tmr e)) 8 k = (Inr ts, k')" and "length ts = 8"
  shows "yields (\<lambda>call. timersleepA call c s (cv_tmr (cf_vars e)) q) c s (client_state e os sz bs n k tr)
    (cv_tmr (cf_vars e)) (client_state e os sz bs n k' (tr @ [SysRead (t_fd (cf_tmr e)) 8]))"
proof (rule yieldsI [where g = "after_call (SysRead (t_fd (cf_tmr e)) 8) k'"], intro conjI allI)
  fix w :: "('a, client) world" and call assume st: "client_state e os sz bs n k tr w"
  then have "t_status (cf_tmr e) \<noteq> IDLE" "w_os w = os" "kern w = k"
    by (simp_all add: client_state_def client_ok_def Let_def WAITING_def IDLE_def)
  then show "timersleepA call c s (cv_tmr (cf_vars e)) q w = returnA call c s (cv_tmr (cf_vars e))
      (after_call (SysRead (t_fd (cf_tmr e)) 8) k' w)"
    using timersleepA_expired [OF client_views(6) [OF st]] assms by fastforce
qed (simp_all add: client_state_def Let_def)

section \<open>The round\<close>

definition client_circuit :: "client_vars \<Rightarrow> acirc" where
  "client_circuit v = (let timer = cv_timer v; tcp = cv_tcp v; rand = cv_rand v in \<lparr>steps = [
     (A_user 0, timer), (A_timeropen, timer), (A_user 3, NULL), (A_user 1, NULL), (A_connect, tcp), (A_user 5, tcp),
     (A_user 3, NULL), (A_user 2, NULL), (A_randopen, rand), (A_randread, rand), (A_randenc, rand), (A_user 4, NULL),
     (A_user 3, NULL), (A_user 1, NULL), (A_write, tcp), (A_read, tcp), (A_user 6, NULL),
     (A_user 3, NULL), (A_user 0, timer), (A_timersleep, timer), (A_user 3, NULL), (A_user 2, NULL)], leads = Some 9\<rparr>)"

lemma client_built:
  "abs_build \<lparr>steps = [], leads = None\<rparr> (client_cmds (cv_timer v) (cv_tcp v) (cv_rand v)) = Some (client_circuit v)"
  by (simp add: client_cmds_def client_circuit_def abs_append_eq single_def abs_loop_def Let_def)

lemmas client_steps = client_circuit_def client_program_def abs_next_def Let_def

text \<open>The line of a round, and its system calls.\<close>

definition line_of :: "byte list \<Rightarrow> byte list" where
  "line_of xs = as_line (map randenc_byte xs)"

definition client_calls :: "client_fixed \<Rightarrow> int \<Rightarrow> byte list \<Rightarrow> byte list \<Rightarrow> sysev list" where
  "client_calls e n xs ys = [SysRead (f_fd (cf_rnd e)) EC_CHUNK, SysWrite (f_fd (cf_conn e)) (line_of xs),
     SysRead (f_fd (cf_conn e)) EC_CHUNK, SysStdout (reply_text n ys), SysRead (t_fd (cf_tmr e)) 8]"

lemma walks_client_line:
  assumes "os_read os (f_fd (cf_rnd e)) EC_CHUNK k = (Inr xs, k1)" and "xs \<noteq> []" and "length xs \<le> length bs"
    and "length xs < 2 ^ 31" and "n < INT_MAX"
    and "os_write os (f_fd (cf_conn e)) (line_of xs) k1 = (Inr m, k2)" and "m < 2 ^ 63"
  shows "walks client_program c s ps (client_circuit (cf_vars e)) 6
    9 (cv_rnd (cf_vars e)) (client_state e os sz bs n k tr)
    15 (cv_conn (cf_vars e)) (client_state e os (of_nat (length xs)) (refilled (line_of xs) bs) (n + 1) k2
      (tr @ [SysRead (f_fd (cf_rnd e)) EC_CHUNK, SysWrite (f_fd (cf_conn e)) (line_of xs)]))"
proof -
  let ?v = "cf_vars e" and ?S = "client_state e os (of_nat (length xs))" and ?t = "tr @ [SysRead (f_fd (cf_rnd e)) EC_CHUNK]"
  let ?W = "walks client_program c s ps (client_circuit (cf_vars e)) 1" and ?b = "refilled (line_of xs) bs"
  have l: "length (line_of xs) = length xs" "map randenc_byte xs \<noteq> []" "length (line_of xs) < 2 ^ 31"
    "length (map randenc_byte xs) < 2 ^ 31" using assms(2,4) by (simp_all add: line_of_def)
  note step = walks_arrow [OF _ blind_client, of _ c s]
  note lined = yields_newline [OF assms(5) l(2,4), unfolded length_map, folded line_of_def]
  note wrote = yields_client_write [OF assms(6,7) l(3), unfolded l(1)]
  have "?W 9 (cv_rnd ?v) (client_state e os sz bs n k tr) 10 (cv_rnd ?v) (?S (refilled xs bs) n k1 ?t)"
    by (rule step [OF yields_client_random [OF assms(1,3)]]) (simp_all add: client_steps)
  also have "?W 10 (cv_rnd ?v) (?S (refilled xs bs) n k1 ?t) 11 (cv_rnd ?v) (?S (refilled (map randenc_byte xs) bs) n k1 ?t)"
    by (rule step [OF yields_client_encode [OF assms(4)]]) (simp_all add: client_steps)
  also have "?W 11 (cv_rnd ?v) (?S (refilled (map randenc_byte xs) bs) n k1 ?t) 12 (cv_rnd ?v) (?S ?b (n + 1) k1 ?t)"
    by (rule step [OF lined]) (simp_all add: client_steps)
  also have "?W 12 (cv_rnd ?v) (?S ?b (n + 1) k1 ?t) 13 (cv_ctx ?v) (?S ?b (n + 1) k1 ?t)"
    by (rule step [OF yields_client_ctx]) (simp_all add: client_steps)
  also have "?W 13 (cv_ctx ?v) (?S ?b (n + 1) k1 ?t) 14 (cv_conn ?v) (?S ?b (n + 1) k1 ?t)"
    by (rule step [OF yields_client_member(2)]) (simp_all add: client_steps)
  also have "?W 14 (cv_conn ?v) (?S ?b (n + 1) k1 ?t) 15 (cv_conn ?v) (?S ?b (n + 1) k2
      (?t @ [SysWrite (f_fd (cf_conn e)) (line_of xs)]))"
    by (rule step [OF wrote]) (simp_all add: client_steps)
  finally show ?thesis by (simp del: One_nat_def)
qed

lemma walks_client_reply:
  assumes "os_read os (f_fd (cf_conn e)) EC_CHUNK k = (Inr ys, k1)" and "ys \<noteq> []" and "length ys \<le> length bs"
    and "length ys < 2 ^ 31" and "0 \<notin> set ys"
    and "os_read os (t_fd (cf_tmr e)) 8 k1 = (Inr ts, k2)" and "length ts = 8"
  shows "walks client_program c s ps (client_circuit (cf_vars e)) 7
    15 (cv_conn (cf_vars e)) (client_state e os sz bs n k tr)
    9 (cv_rnd (cf_vars e)) (client_state e os (of_nat (length ys)) (refilled ys bs) n k2
      (tr @ [SysRead (f_fd (cf_conn e)) EC_CHUNK, SysStdout (reply_text n ys), SysRead (t_fd (cf_tmr e)) 8]))"
proof -
  let ?v = "cf_vars e" and ?S = "client_state e os (of_nat (length ys)) (refilled ys bs) n"
  let ?W = "walks client_program c s ps (client_circuit (cf_vars e)) 1"
  let ?t = "tr @ [SysRead (f_fd (cf_conn e)) EC_CHUNK]" let ?u = "?t @ [SysStdout (reply_text n ys)]"
  let ?x = "?u @ [SysRead (t_fd (cf_tmr e)) 8]"
  note step = walks_arrow [OF _ blind_client, of _ c s]
  have "?W 15 (cv_conn ?v) (client_state e os sz bs n k tr) 16 (cv_conn ?v) (?S k1 ?t)"
    by (rule step [OF yields_client_read [OF assms(1-4)]]) (simp_all add: client_steps)
  also have "?W 16 (cv_conn ?v) (?S k1 ?t) 17 (cv_conn ?v) (?S k1 ?u)"
    by (rule step [OF yields_print [OF assms(5,4)]]) (simp_all add: client_steps)
  also have "?W 17 (cv_conn ?v) (?S k1 ?u) 18 (cv_ctx ?v) (?S k1 ?u)"
    by (rule step [OF yields_client_ctx]) (simp_all add: client_steps)
  also have "?W 18 (cv_ctx ?v) (?S k1 ?u) 19 (cv_tmr ?v) (?S k1 ?u)"
    by (rule step [OF yields_client_member(1)]) (simp_all add: client_steps)
  also have "?W 19 (cv_tmr ?v) (?S k1 ?u) 20 (cv_tmr ?v) (?S k2 ?x)"
    by (rule step [OF yields_sleep [OF assms(6,7)]]) (simp_all add: client_steps)
  also have "?W 20 (cv_tmr ?v) (?S k2 ?x) 21 (cv_ctx ?v) (?S k2 ?x)"
    by (rule step [OF yields_client_ctx]) (simp_all add: client_steps)
  also have "?W 21 (cv_ctx ?v) (?S k2 ?x) 9 (cv_rnd ?v) (?S k2 ?x)"
    by (rule step [OF yields_client_member(3)]) (simp_all add: client_steps)
  finally show ?thesis by (simp del: One_nat_def)
qed

lemma walks_client_round:
  assumes "os_read os (f_fd (cf_rnd e)) EC_CHUNK k = (Inr xs, k1)" and "xs \<noteq> []" and "length xs \<le> EC_CHUNK"
    and "n < INT_MAX" and "os_write os (f_fd (cf_conn e)) (line_of xs) k1 = (Inr m, k2)" and "m < 2 ^ 63"
    and "os_read os (f_fd (cf_conn e)) EC_CHUNK k2 = (Inr ys, k3)" and "ys \<noteq> []" and "length ys \<le> EC_CHUNK" and "0 \<notin> set ys"
    and "os_read os (t_fd (cf_tmr e)) 8 k3 = (Inr ts, k4)" and "length ts = 8" and "length bs = EC_CHUNK"
  shows "walks client_program c s ps (client_circuit (cf_vars e)) 13
    9 (cv_rnd (cf_vars e)) (client_state e os sz bs n k tr)
    9 (cv_rnd (cf_vars e)) (client_state e os (of_nat (length ys)) (refilled ys (refilled (line_of xs) bs)) (n + 1) k4
      (tr @ client_calls e (n + 1) xs ys))"
proof -
  have l: "length xs \<le> length bs" "length xs < 2 ^ 31" "length (line_of xs) = length xs" "length ys < 2 ^ 31"
    "length ys \<le> length (refilled (line_of xs) bs)"
    using assms(2,3,9,13) by (simp_all add: EC_CHUNK_def line_of_def)
  show ?thesis
    using walks_trans [OF walks_client_line [OF assms(1,2) l(1,2) assms(4-6)]
        walks_client_reply [OF assms(7,8) l(5,4) assms(10-12)]]
    by (simp add: client_calls_def)
qed

end
