(* ===== verification/Tls_Client.thy ===== *)
theory Tls_Client
  imports Flow Alike
begin

text \<open>
  \<open>src/examples/tlsclient.c\<close>: one HTTP request over TLS, and its answer on the standard output. The
  variable \<open>status\<close> is the user part of the process.
\<close>

record https =
  tl_status :: int

definition TL_CHUNK :: nat where "TL_CHUNK = 1440"

section \<open>The arrows\<close>

text \<open>\<open>sprintf(b + l, ...)\<close> writes the text and a zero byte and returns the length of the text.\<close>

definition sprintf_at :: "ptr \<Rightarrow> nat \<Rightarrow> string \<Rightarrow> ('k, 'u, nat) wm" where
  "sprintf_at b l t = mbind (load_blob b) (\<lambda>bs.
     if l + length t + 1 > length bs then mfail BufferOverflow
     else mthen (store_blob b (take l bs @ bytes t @ 0 # drop (l + length t + 1) bs))
       (mret (length t)))"

primrec sprintfs :: "ptr \<Rightarrow> nat \<Rightarrow> string list \<Rightarrow> ('k, 'u, nat) wm" where
  "sprintfs b l [] = mret l"
| "sprintfs b l (t # ts) = mbind (sprintf_at b l t) (\<lambda>n. sprintfs b (l + n) ts)"

definition HCR :: string where "HCR = [char_of (13::nat), char_of (10::nat)]"

definition http_request :: "string \<Rightarrow> string list" where
  "http_request host = [
     ''GET / HTTP/1.1'' @ HCR,
     ''Host: '' @ host @ HCR,
     ''User-Agent: meloop/0.1 curl'' @ HCR,
     ''Connection: close'' @ HCR,
     ''Content-Length: 0'' @ HCR,
     ''Accept: */*'' @ HCR,
     HCR]"

definition httpreqA :: "('k, 'u) calls \<Rightarrow> ptr \<Rightarrow> ptr \<Rightarrow> ptr \<Rightarrow> ptr \<Rightarrow> ('k, 'u, unit) wm" where
  "httpreqA call c s f priv =
     mbind (load_as as_file f) (\<lambda>fl.
     mbind (load_as as_string (f_data fl)) (\<lambda>st.
     mbind (load_as as_tlsclientP priv) (\<lambda>p.
     mbind (sprintfs (s_blob st) 0 (http_request (tc_hostname p))) (\<lambda>l.
     mthen (set_size (f_data fl) (of_nat l))
     (returnA call c s f)))))"

definition tls_newlineA :: "('k, 'u) calls \<Rightarrow> ptr \<Rightarrow> ptr \<Rightarrow> ptr \<Rightarrow> ('k, 'u, unit) wm" where
  \<comment> \<open>not in the circuit\<close>
  "tls_newlineA call c s f =
     mbind (load_as as_file f) (\<lambda>fl.
     mbind (load_as as_string (f_data fl)) (\<lambda>st.
     mthen (set_byte (s_blob st) (unat (s_size st - 1)) 10)
     (returnA call c s f)))"

definition tls_printA :: "('k, 'u) calls \<Rightarrow> ptr \<Rightarrow> ptr \<Rightarrow> ptr \<Rightarrow> ('k, 'u, unit) wm" where
  "tls_printA call c s f =
     mbind (load_as as_file f) (\<lambda>fl.
     mbind (load_as as_string (f_data fl)) (\<lambda>st.
     mbind (load_text (to_int (s_size st)) (s_blob st)) (\<lambda>t.
     mthen (printf t)
     (mthen (set_size (f_data fl) 0)
     (returnA call c s f)))))"

definition tls_errorcb :: "string option \<Rightarrow> ('k, https, unit) wm" where
  "tls_errorcb error = mseq [
     logging_log LOGGING_ERROR ''tlsclient.c'' 76 ''errorcb'' (Some (text_of error)),
     on_usr (\<lambda>v. v\<lparr>tl_status := EXIT_FAILURE\<rparr>)]"

text \<open>The signal handler; the process calls it at any time.\<close>

definition tls_sighandler :: "('k, https, unit) wm" where
  "tls_sighandler = mseq [dprintf 2 ''\<newline>'', on_usr (\<lambda>v. v\<lparr>tl_status := 0\<rparr>)]"

definition https_program :: "('k, https) program" where
  "https_program = \<lparr>
     user_task = (\<lambda>n call c s d p. if n = 0 then httpreqA call c s d p
       else if n = 1 then tls_printA call c s d else tls_newlineA call c s d),
     user_err = (\<lambda>n call c s d m. tls_errorcb m),
     user_conn = (\<lambda>n call c s fd sa. mret ())\<rparr>"

section \<open>\<open>main\<close>\<close>

definition https_tls :: tlsclientP where
  "https_tls = \<lparr>epollflags = EPOLLET, readsize = of_nat TL_CHUNK, tc_hostname = ''wttr.in'',
     tc_port = ''443'', tc_connected = None, tc_status = 0, tls_ssl = NULL, tls_status = 0\<rparr>"

definition https_cmds :: "ptr \<Rightarrow> build_cmd list" where
  "https_cmds tls = [Append A_connect tls, Append A_tls tls, Append (A_user 0) tls, Append A_tlswrite tls,
     Append A_tlsread tls, Append (A_user 1) NULL, LoopAt 4]"

definition https_rest :: "('k, https) calls \<Rightarrow> nat \<Rightarrow> ('k, https, int) wm" where
  "https_rest call rounds =
     mthen meloop_tls_init
     (mbind (array_variable (replicate TL_CHUNK 0)) (\<lambda>b.
     mbind (variable (O_string \<lparr>s_blob = b, s_size = 0\<rparr>)) (\<lambda>data.
     mbind (variable (O_tcpconn \<lparr>f_ptr = NULL, f_data = data, f_fd = 0,
        localaddr = \<lparr>sin_family = 0, sin_port = 0, sin_addr = 0\<rparr>,
        remoteaddr = \<lparr>sin_family = 0, sin_port = 0, sin_addr = 0\<rparr>\<rparr>)) (\<lambda>conn.
     mbind (variable (O_tlsclientP https_tls)) (\<lambda>tls.
     mbind (newC (Some 0)) (\<lambda>circ.
     mbind (build circ [] (https_cmds tls)) (\<lambda>_.
     mthen (runA call circ NULL conn)
     (mthen (serve ''tlsclient.c'' 123 (\<lambda>st v. v\<lparr>tl_status := st\<rparr>) tl_status rounds call)
     (mthen meloop_tls_deinit
     (mthen meloop_io_deinit
     (mthen (freeC circ)
     (mgets (\<lambda>w. tl_status (usr w))))))))))))))"

definition https_main :: "nat \<Rightarrow> nat \<Rightarrow> ('k, https, int) wm" where
  "https_main depth rounds =
     mthen (mseq [mmod (\<lambda>w. w\<lparr>verbosity := LOGGING_DEBUG\<rparr>), catch_signal])
     (mthen (meloop_io_init 0)
     (https_rest (exec https_program depth) rounds))"

section \<open>The interfaces\<close>

lemma less_fuel_httpreqA [mono_intros]:
  "calls_le f g \<Longrightarrow> less_fuel (httpreqA f c s d p) (httpreqA g c s d p)"
  unfolding httpreqA_def by (intro mono_intros)

interpretation ut_https: user_code https_program
  by unfold_locales (auto simp: https_program_def tls_printA_def tls_newlineA_def intro!: mono_intros)

context process_invariant
begin

lemma keep_sprintf_at [keep_intros]: "keep P F (sprintf_at b l t)"
  unfolding sprintf_at_def by (intro keep_intros) simp_all

lemma keep_sprintfs [keep_intros]: "keep P F (sprintfs b l ts)"
  by (induction ts arbitrary: l) (simp_all add: keep_mret keep_mbind keep_sprintf_at)

lemma keep_ctx_set [keep_intros]: "keep P F (ctx_set st ctx)"
  unfolding ctx_set_def by (intro keep_sslcall plain_step.intros)

lemma keep_meloop_tls_init [keep_intros]: "keep P F meloop_tls_init"
  unfolding meloop_tls_init_def openssl_init_def
  by (intro keep_intros keep_mmod contexts keep_sslcall plain_step.intros) simp_all

lemma keep_meloop_tls_deinit [keep_intros]: "keep P F meloop_tls_deinit"
  unfolding meloop_tls_deinit_def openssl_deinit_def
  by (intro keep_intros keep_sslcall plain_step.intros)

end

locale https_invariant = process_invariant P F
  for P :: "('k, https) world \<Rightarrow> bool" and F :: "fault \<Rightarrow> bool"
begin

lemma keep_httpreqA [keep_intros]: "(\<And>i. keep P F (call i)) \<Longrightarrow> keep P F (httpreqA call c s d p)"
  unfolding httpreqA_def by (intro keep_intros)

lemma keep_tls_newlineA [keep_intros]: "(\<And>i. keep P F (call i)) \<Longrightarrow> keep P F (tls_newlineA call c s d)"
  unfolding tls_newlineA_def by (intro keep_intros)

lemma keep_tls_printA [keep_intros]: "(\<And>i. keep P F (call i)) \<Longrightarrow> keep P F (tls_printA call c s d)"
  unfolding tls_printA_def by (intro keep_intros)

lemma keep_tls_errorcb [keep_intros]: "keep P F (tls_errorcb m)"
  unfolding tls_errorcb_def by (intro keep_intros)

lemma keep_tls_sighandler: "keep P F tls_sighandler"
  unfolding tls_sighandler_def by (intro keep_intros)

end

sublocale https_invariant \<subseteq> fetched: kept_program P F https_program
  by unfold_locales (simp_all add: https_program_def keep_httpreqA keep_tls_newlineA keep_tls_printA
      keep_tls_errorcb keep_mret)

interpretation https_epl: https_invariant "epoll_inv interest ps" "\<lambda>f. \<not> bag_fault f"
  by unfold_locales

locale https_started = started P F call rounds
  for P :: "('k, https) world \<Rightarrow> bool" and F :: "fault \<Rightarrow> bool" and call :: "('k, https) calls" and rounds :: nat
begin

lemma https_phases: "ensures P F (https_rest call rounds) (\<lambda>_. True)"
  unfolding https_rest_def
  by (rule ensures_bind ensures_then keep_variable keep_array_variable keep_newC keep_build
      keep_run keep_serve keep_meloop_tls_init keep_meloop_tls_deinit ensures_end keep_mthen released keep_mgets)+

end

interpretation https_run: https_started "epoll_inv interest []" "\<lambda>f. \<not> bag_fault f" "exec https_program depth" rounds
  by (intro https_started.intro started_epoll https_epl.fetched.kept_program_axioms)

lemma https_main_safe:
  assumes "fresh interest w" and "https_main depth rounds w = Inl f"
  shows "\<not> bag_fault f"
  by (rule main_safe [OF assms(1) https_run.https_phases _ assms(2) [unfolded https_main_def mseq.simps]])
    (intro keep_mthen keep_fresh_verbosity keep_fresh_catch_signal keep_mret)

section \<open>What the arrows look at\<close>

text \<open>The status is written by the error callback only, and read by no arrow.\<close>

lemma agrees_sprintf_at [agree_intros]: "agrees R (sprintf_at b l t)"
  unfolding sprintf_at_def by (intro agree_intros)

lemma agrees_sprintfs [agree_intros]: "agrees R (sprintfs b l ts)"
  by (induction ts arbitrary: l) (simp_all add: agrees_mret agrees_mbind agrees_sprintf_at)

locale https_relation =
  fixes R :: "https \<Rightarrow> https \<Rightarrow> bool"
  assumes failed: "R u v \<Longrightarrow> R (u\<lparr>tl_status := EXIT_FAILURE\<rparr>) (v\<lparr>tl_status := EXIT_FAILURE\<rparr>)"
begin

lemma agrees_https_arrows:
  assumes "\<And>i. agrees R (call i)"
  shows "agrees R (httpreqA call c s d p)" "agrees R (tls_printA call c s d)" "agrees R (tls_newlineA call c s d)"
  unfolding httpreqA_def tls_printA_def tls_newlineA_def by (intro agree_intros assms)+

lemma agrees_tls_errorcb: "agrees R (tls_errorcb m)"
  unfolding tls_errorcb_def by (intro agree_intros agrees_on_usr failed)

end

sublocale https_relation \<subseteq> blind_program R https_program
  by unfold_locales (simp_all add: https_program_def agrees_mret agrees_https_arrows agrees_tls_errorcb)

interpretation https_apart: https_relation "apart tl_status (\<lambda>st v. v\<lparr>tl_status := st\<rparr>) s n"
  by unfold_locales (auto simp: apart_def)

interpretation https_stopped: https_relation "both (\<lambda>v. tl_status v \<le> EXIT_FAILURE)"
  by unfold_locales (auto simp: both_def)

section \<open>The request\<close>

text \<open>Text after text, the buffer holds their concatenation and a zero; one byte too many is an overflow.\<close>

lemma sprintf_at_fits: "cells (blobs w) b = Some bs \<Longrightarrow> l + length t < length bs \<Longrightarrow>
    mbind (sprintf_at b l t) k w = k (length t)
      (w\<lparr>blobs := put_cell b (take l bs @ bytes t @ 0 # drop (l + length t + 1) bs) (blobs w)\<rparr>)"
  by (simp add: sprintf_at_def mbind_assoc load_blob_bind mbind_mthen store_blob_then)

lemma sprintf_at_overflows: "cells (blobs w) b = Some bs \<Longrightarrow> length bs \<le> l + length t \<Longrightarrow>
    mbind (sprintf_at b l t) k w = Inl BufferOverflow"
  by (simp add: sprintf_at_def mbind_assoc load_blob_bind mfail_bind)

lemma sprintfs_result:
  assumes "cells (blobs w) b = Some bs" and "ts \<noteq> []"
  shows "sprintfs b l ts w = (if l + length (concat ts) < length bs
    then Inr (l + length (concat ts), w\<lparr>blobs := put_cell b (take l bs @ bytes (concat ts) @ 0 #
      drop (l + length (concat ts) + 1) bs) (blobs w)\<rparr>)
    else Inl BufferOverflow)"
  using assms
proof (induction ts arbitrary: l bs w)
  case (Cons t ts)
  show ?case
  proof (cases "l + length t < length bs")
    case False
    then show ?thesis using Cons.prems by (simp add: sprintf_at_overflows)
  next
    case True
    let ?bs = "take l bs @ bytes t @ 0 # drop (l + length t + 1) bs"
    let ?w = "w\<lparr>blobs := put_cell b ?bs (blobs w)\<rparr>"
    have b: "take (l + length t) ?bs = take l bs @ bytes t" "length ?bs = length bs"
      "drop (l + length t + m + 1) ?bs = drop (l + length t + m + 1) bs" for m
      using True by (simp_all add: bytes_def min_def add_ac)
    have "sprintfs b l (t # ts) w = sprintfs b (l + length t) ts ?w"
      using sprintf_at_fits [OF Cons.prems(1) True] by simp
    then show ?thesis
      using Cons.IH [of ?w ?bs "l + length t"] b True
      by (cases "ts = []") (simp_all add: mret_apply bytes_def put_cell_def add.assoc)
  qed
qed simp

definition request :: "string \<Rightarrow> string" where
  "request host = concat (http_request host)"

lemma length_request: "length (request host) = length host + 106"
  by (simp add: request_def http_request_def HCR_def)

lemma httpreqA_result:
  assumes "sees as_file f_data f fl st bs w" and "obj_as w as_tlsclientP priv = Some p"
  shows "httpreqA call c s f priv w = (if length (request (tc_hostname p)) < length bs
    then returnA call c s f (w\<lparr>
        blobs := put_cell (s_blob st) (refilled (bytes (request (tc_hostname p)) @ [0]) bs) (blobs w),
        objs := put_cell (f_data fl) (O_string (st\<lparr>s_size := of_nat (length (request (tc_hostname p)))\<rparr>)) (objs w)\<rparr>)
    else Inl BufferOverflow)"
proof -
  have ne: "http_request (tc_hostname p) \<noteq> []" by (simp add: http_request_def)
  have a: "obj_as w as_file f = Some fl" "obj_as w as_string (f_data fl) = Some st" "cells (blobs w) (s_blob st) = Some bs"
    using assms(1) by (simp_all add: sees_def)
  have "httpreqA call c s f priv w = mbind (sprintfs (s_blob st) 0 (http_request (tc_hostname p)))
      (\<lambda>l. mthen (set_size (f_data fl) (of_nat l)) (returnA call c s f)) w"
    by (simp add: httpreqA_def load_as_bind a assms(2))
  then show ?thesis
    unfolding mbind_apply sprintfs_result [OF a(3) ne]
    using a(2) by (simp add: refilled_def bytes_def request_def set_size_then)
qed

end
