(* ===== verification/Demo_Programs.thy ===== *)
theory Demo_Programs
  imports Demo_States Random_Round Shell_Round Client_Round Tls_Client
begin

text \<open>
  Concrete processes of the example programs: a circuit in memory (\<open>demo_store\<close>), the variables that the
  programs' states ask for, and what the kernel of \<open>Demo_Kernel\<close> gives them to read.
\<close>

section \<open>A circuit in memory\<close>

definition demo_store :: "acirc \<Rightarrow> elementE store" where
  "demo_store a = (let n = length (steps a) in \<lparr>cells = (\<lambda>p. if 1 \<le> p \<and> p \<le> n then Some
       \<lparr>e_type = MLETSIMPLE, e_run = fst (steps a ! (p - 1)), e_priv = snd (steps a ! (p - 1)), e_last = (p = n),
        e_next = (if p < n then p + 1 else case leads a of None \<Rightarrow> NULL | Some k \<Rightarrow> k + 1)\<rparr> else None), brk = n + 1\<rparr>)"

definition demo_ptrs :: "acirc \<Rightarrow> ptr list" where
  "demo_ptrs a = map Suc [0..<length (steps a)]"

lemma demo_cell:
  assumes "i < length (steps a)"
  shows "cells (demo_store a) (Suc i) = Some \<lparr>e_type = MLETSIMPLE, e_run = fst (steps a ! i), e_priv = snd (steps a ! i),
    e_last = (Suc i = length (steps a)), e_next = (if Suc i < length (steps a) then Suc (Suc i)
      else case leads a of None \<Rightarrow> NULL | Some k \<Rightarrow> Suc k)\<rparr>"
  using assms by (simp add: demo_store_def Let_def split: option.split)

lemma demo_chain:
  assumes "i < length (steps a)"
  shows "chain (demo_store a) (Suc i) (map Suc [i..<length (steps a)]) (case leads a of None \<Rightarrow> NULL | Some k \<Rightarrow> Suc k)"
  using assms
proof (induction "length (steps a) - i" arbitrary: i)
  case (Suc l)
  have u: "[i..<length (steps a)] = i # [Suc i..<length (steps a)]" using Suc.prems by (simp add: upt_conv_Cons)
  show ?case
  proof (cases "Suc i < length (steps a)")
    case True
    with Suc have "chain (demo_store a) (Suc (Suc i)) (map Suc [Suc i..<length (steps a)])
        (case leads a of None \<Rightarrow> NULL | Some k \<Rightarrow> Suc k)" by simp
    with u True demo_cell [OF Suc.prems] show ?thesis by simp
  next
    case False
    with u demo_cell [OF Suc.prems] show ?thesis by simp
  qed
qed simp

lemma demo_store_circuit:
  assumes "steps a \<noteq> []" and "case leads a of None \<Rightarrow> True | Some k \<Rightarrow> k < length (steps a)"
  shows "circuit (demo_store a) (demo_ptrs a) a"
proof -
  let ?n = "length (steps a)" and ?ps = "demo_ptrs a"
  have hd: "hd ?ps = Suc 0" "?ps \<noteq> []" using assms(1) by (simp_all add: demo_ptrs_def hd_map upt_conv_Cons)
  have "target ?ps (leads a) = (case leads a of None \<Rightarrow> NULL | Some k \<Rightarrow> Suc k)"
    using assms(2) by (cases "leads a") (simp_all add: demo_ptrs_def)
  with demo_chain [of 0 a] assms(1) hd have c: "chain (demo_store a) (hd ?ps) ?ps (target ?ps (leads a))"
    by (simp add: demo_ptrs_def)
  have m: "map (\<lambda>p. map_option (\<lambda>e. (e_run e, e_priv e)) (cells (demo_store a) p)) ?ps = map Some (steps a)"
    by (rule nth_equalityI) (simp_all add: demo_ptrs_def demo_cell)
  have l: "map (\<lambda>p. map_option e_last (cells (demo_store a) p)) ?ps = map Some (replicate (?n - 1) False @ [True])"
    using assms(1) by (intro nth_equalityI) (auto simp: demo_ptrs_def demo_cell nth_append)
  have "length ?ps = ?n" "distinct ?ps" by (simp_all add: demo_ptrs_def distinct_map)
  then show ?thesis unfolding circuit_def using hd c m l assms(2) by (cases "leads a") simp_all
qed

definition demo_process :: "acirc \<Rightarrow> nat \<Rightarrow> demo \<Rightarrow> 'u \<Rightarrow> (demo, 'u) world" where
  "demo_process a i k us = (demo_world k us)\<lparr>elems := demo_store a,
     circs := \<lparr>cells = [1 \<mapsto> \<lparr>c_err = Some 0, c_current = i + 1, c_nets = 1, c_ptr = None\<rparr>], brk = 2\<rparr>\<rparr>"

lemma demo_process_at:
  assumes "i < length (steps a)" and "case leads a of None \<Rightarrow> True | Some k \<Rightarrow> k < length (steps a)"
  shows "at_step (demo_process a i k us) 1 (demo_ptrs a) a i"
proof -
  have "circuit (demo_store a) (demo_ptrs a) a"
    using assms by (intro demo_store_circuit) auto
  then show ?thesis using assms(1) by (simp add: at_step_def demo_process_def demo_ptrs_def)
qed

text \<open>Objects and buffers for it.\<close>

definition with_data :: "(ptr \<rightharpoonup> obj) \<Rightarrow> (ptr \<rightharpoonup> byte list) \<Rightarrow> ('k, 'u) world \<Rightarrow> ('k, 'u) world" where
  "with_data ob bl w = w\<lparr>objs := \<lparr>cells = ob, brk = 100\<rparr>, blobs := \<lparr>cells = bl, brk = 100\<rparr>\<rparr>"

lemma with_data_simps [simp]:
  "cells (objs (with_data ob bl w)) = ob" "cells (blobs (with_data ob bl w)) = bl"
  "kern (with_data ob bl w) = kern w" "w_os (with_data ob bl w) = w_os w" "trace (with_data ob bl w) = trace w"
  "usr (with_data ob bl w) = usr w" "at_step (with_data ob bl w) c ps a i = at_step w c ps a i"
  by (simp_all add: with_data_def at_step_def)

lemma demo_process_simps [simp]:
  "kern (demo_process a i k us) = k" "w_os (demo_process a i k us) = demo_os" "trace (demo_process a i k us) = []"
  "usr (demo_process a i k us) = us"
  by (simp_all add: demo_process_def)

section \<open>\<open>random.c\<close>\<close>

definition demo_rv :: random_vars where
  "demo_rv = \<lparr>rv_ctx = 10, rv_io = 11, rv_data = 12, rv_buff = 21, rv_rand = 13, rv_pipe = 14\<rparr>"

definition demo_inputs :: "(int + byte list) list \<Rightarrow> demo" where
  "demo_inputs ins = demo_start\<lparr>d_input := ins\<rparr>"

definition demo_random_loop :: "(demo, rounds) world" where
  "demo_random_loop = with_data [10 \<mapsto> O_ctx [13, 14], 11 \<mapsto> O_ioP \<lparr>epollflags = EPOLLET, readsize = of_nat RX_BUFFSIZE\<rparr>,
       12 \<mapsto> O_string \<lparr>s_blob = 21, s_size = 0\<rparr>, 13 \<mapsto> O_file \<lparr>f_ptr = 10, f_data = 12, f_fd = 5\<rparr>,
       14 \<mapsto> O_pipe \<lparr>p_ptr = 10, p_data = 12, p_rfd = 0, p_wfd = 1\<rparr>] [21 \<mapsto> replicate RX_BUFFSIZE 0]
     (demo_process (random_circuit 11) 2 (demo_inputs [Inr [7, 200, 26], Inr [10]]) \<lparr>rx_counter = 6\<rparr>)"

lemma demo_random_loop_at: "at_step demo_random_loop 1 (demo_ptrs (random_circuit 11)) (random_circuit 11) 2"
  unfolding demo_random_loop_def with_data_simps by (rule demo_process_at) (simp_all add: random_circuit_def)

lemma demo_random_loop_state:
  "random_state demo_rv demo_os 5 0 (replicate RX_BUFFSIZE 0) 6 (demo_inputs [Inr [7, 200, 26], Inr [10]]) [] demo_random_loop"
  by (simp add: random_state_def demo_random_loop_def demo_rv_def)

section \<open>\<open>echoshell.c\<close>\<close>

definition demo_sv :: shell_vars where
  "demo_sv = \<lparr>sv_io = 11, sv_data = 12, sv_buff = 21, sv_pipe = 14, sv_prompt = 22\<rparr>"

definition demo_shell_loop :: "(demo, shell) world" where
  "demo_shell_loop = with_data [11 \<mapsto> O_ioP \<lparr>epollflags = EPOLLET, readsize = of_nat BUFFSIZE\<rparr>,
       12 \<mapsto> O_string \<lparr>s_blob = 21, s_size = 0\<rparr>, 14 \<mapsto> O_pipe \<lparr>p_ptr = NULL, p_data = 12, p_rfd = 0, p_wfd = 1\<rparr>]
       [21 \<mapsto> replicate BUFFSIZE 0, 22 \<mapsto> bytes ''me@loop:~$ '' @ [0]]
     (demo_process (shell_circuit 22 11) 0 (demo_inputs [Inr [104, 105, 10]]) \<lparr>sh_counter = 0\<rparr>)"

lemma demo_shell_loop_at: "at_step demo_shell_loop 1 (demo_ptrs (shell_circuit 22 11)) (shell_circuit 22 11) 0"
  unfolding demo_shell_loop_def with_data_simps by (rule demo_process_at) (simp_all add: shell_circuit_def)

lemma demo_shell_loop_state:
  "shell_state demo_sv demo_os 0 (replicate BUFFSIZE 0) 0 (demo_inputs [Inr [104, 105, 10]]) [] demo_shell_loop"
  by (simp add: shell_state_def demo_shell_loop_def demo_sv_def)

section \<open>\<open>echoclient.c\<close>\<close>

definition demo_cf :: client_fixed where
  "demo_cf = \<lparr>cf_vars = \<lparr>cv_ctx = 10, cv_data = 12, cv_buff = 21, cv_conn = 13, cv_tmr = 14, cv_rnd = 15, cv_tcp = 16,
       cv_rand = 17, cv_timer = 18\<rparr>,
     cf_conn = \<lparr>f_ptr = 10, f_data = 12, f_fd = 6, localaddr = no_sockaddr, remoteaddr = no_sockaddr\<rparr>,
     cf_tmr = \<lparr>t_ptr = 10, t_fd = 7, t_status = WAITING\<rparr>, cf_rnd = \<lparr>f_ptr = 10, f_data = 12, f_fd = 5\<rparr>,
     cf_tcp = client_tcp\<lparr>tc_status := TC_CONNECTED\<rparr>\<rparr>"

definition demo_client_inputs :: demo where
  "demo_client_inputs = demo_inputs [Inr [7, 200, 26], Inr [104, 119, 10], Inr (replicate 8 0)]"

definition demo_client_loop :: "(demo, client) world" where
  "demo_client_loop = with_data [10 \<mapsto> O_ctx [14, 13, 15], 12 \<mapsto> O_string \<lparr>s_blob = 21, s_size = 0\<rparr>,
       13 \<mapsto> O_tcpconn (cf_conn demo_cf), 14 \<mapsto> O_timer (cf_tmr demo_cf), 15 \<mapsto> O_file (cf_rnd demo_cf),
       16 \<mapsto> O_tcpclientP (cf_tcp demo_cf), 17 \<mapsto> O_ioP \<lparr>epollflags = EPOLLET, readsize = of_nat EC_CHUNK\<rparr>,
       18 \<mapsto> O_timerP client_timer] [21 \<mapsto> replicate EC_CHUNK 0]
     (demo_process (client_circuit (cf_vars demo_cf)) 9 demo_client_inputs \<lparr>ec_status = 9999, ec_state = 0\<rparr>)"

lemma demo_client_loop_at: "at_step demo_client_loop 1 (demo_ptrs (client_circuit (cf_vars demo_cf))) (client_circuit (cf_vars demo_cf)) 9"
  unfolding demo_client_loop_def with_data_simps by (rule demo_process_at) (simp_all add: client_circuit_def Let_def)

lemma demo_client_loop_state:
  "client_state demo_cf demo_os 0 (replicate EC_CHUNK 0) 0 demo_client_inputs [] demo_client_loop"
  by (simp add: client_state_def client_ok_def demo_client_loop_def demo_cf_def client_tcp_def Let_def)

section \<open>Processes in which nothing was called yet\<close>

definition demo_fresh :: "'u \<Rightarrow> (demo, 'u) world" where
  "demo_fresh us = (demo_world demo_start us)\<lparr>ev := static_ev\<rparr>"

lemma demo_fresh: "fresh demo_interest (demo_fresh us)"
  using demo_epoll_spec by (simp add: fresh_def demo_fresh_def demo_world_def)

end
