(* ===== verification/Testing.thy ===== *)
theory Testing
  imports Example_Runtime
begin

text \<open>
  \<open>src/tests/testing.h\<close>: the assertions of the test programs. Every one prints where it stands,
  returns after printing that it passed, or prints both values and ends the process.
\<close>

definition ESC :: char where "ESC = char_of (27 :: nat)"

definition RED :: string where "RED = ESC # ''[0;31m''"
definition GREEN :: string where "GREEN = ESC # ''[0;32m''"
definition YELLOW :: string where "YELLOW = ESC # ''[0;33m''"
definition BLUE :: string where "BLUE = ESC # ''[0;34m''"
definition MAGENTA :: string where "MAGENTA = ESC # ''[0;35m''"
definition CYAN :: string where "CYAN = ESC # ''[0;36m''"
definition WHITE :: string where "WHITE = ESC # ''[0;37m''"
definition CLR :: string where "CLR = ESC # ''[0m''"

definition CRLF :: string where "CRLF = [char_of (13 :: nat), char_of (10 :: nat)]"

section \<open>The macros\<close>

definition pcolor :: "string \<Rightarrow> string \<Rightarrow> ('k, 'u, unit) wm" where
  "pcolor c text = mseq [printf c, printf text, printf CLR]"

definition pcolorln :: "string \<Rightarrow> string \<Rightarrow> ('k, 'u, unit) wm" where
  "pcolorln c text = mseq [pcolor c text, printf CRLF]"

definition pokln :: "string \<Rightarrow> ('k, 'u, unit) wm" where "pokln text = pcolorln GREEN text"
definition perrln :: "string \<Rightarrow> ('k, 'u, unit) wm" where "perrln text = pcolorln RED text"
definition pdataln :: "string \<Rightarrow> ('k, 'u, unit) wm" where "pdataln text = pcolorln WHITE text"

text \<open>
  \<open>SUCCESS(ok)\<close> and what follows it in every function: the name of the function, the printing of
  the expected and of the given value.
\<close>

definition verdict :: "string \<Rightarrow> bool \<Rightarrow> ('k, 'u, unit) wm \<Rightarrow> ('k, 'u, unit) wm \<Rightarrow> ('k, 'u, unit) wm" where
  "verdict func ok expected given =
     (if ok then pokln (func @ '' Ok'')
      else mseq [
        perrln (func @ '' Failed''),
        pcolor BLUE ''Expected: '', expected,
        pcolor YELLOW ''Given: '', given,
        mfail (Exit EXIT_FAILURE)])"

section \<open>The assertions\<close>

definition hex_digit :: "nat \<Rightarrow> char" where
  "hex_digit n = (if n < 10 then char_of (48 + n) else char_of (55 + n))"

definition printbinary :: "byte list \<Rightarrow> ('k, 'u, unit) wm" where
  "printbinary buf = mseq (map (\<lambda>b. printf [CHR 0x5C, hex_digit (unat b div 16), hex_digit (unat b mod 16)]) buf
     @ [printf ''\<newline>''])"

definition equalbin :: "byte list \<Rightarrow> byte list \<Rightarrow> nat \<Rightarrow> ('k, 'u, unit) wm" where
  "equalbin expected given len =
     (if len > length expected \<or> len > length given then mfail BufferOverflow
      else verdict ''equalbin'' (take len given = take len expected)
        (printbinary (take len expected)) (printbinary (take len given)))"

definition equalchr :: "char \<Rightarrow> char \<Rightarrow> ('k, 'u, unit) wm" where
  "equalchr expected given = verdict ''equalchr'' (given = expected) (pdataln [expected]) (pdataln [given])"

definition equalstr :: "string \<Rightarrow> string \<Rightarrow> ('k, 'u, unit) wm" where
  "equalstr expected given = verdict ''equalstr'' (given = expected) (pdataln expected) (pdataln given)"

definition equalnstr :: "string \<Rightarrow> string \<Rightarrow> nat \<Rightarrow> ('k, 'u, unit) wm" where
  "equalnstr expected given len = verdict ''equalnstr'' (take len given = take len expected)
     (pdataln (take len expected)) (pdataln (take len given))"

definition equalint :: "int \<Rightarrow> int \<Rightarrow> ('k, 'u, unit) wm" where
  "equalint expected given = verdict ''equalint'' (given = expected)
     (pdataln (dec_int expected)) (pdataln (dec_int given))"

definition bool_text :: "bool \<Rightarrow> string" where
  "bool_text b = (if b then ''true'' else ''false'')"

definition equalbool :: "bool \<Rightarrow> bool \<Rightarrow> ('k, 'u, unit) wm" where
  "equalbool expected given = verdict ''equalbool'' (given = expected)
     (pdataln (bool_text expected)) (pdataln (bool_text given))"

text \<open>\<open>assert(f, ...)\<close> with the place it stands at.\<close>

definition assert_at :: "string \<Rightarrow> int \<Rightarrow> string \<Rightarrow> ('k, 'u, unit) wm \<Rightarrow> ('k, 'u, unit) wm" where
  "assert_at file line func check = mseq [
     pcolor CYAN (file @ '':'' @ dec_int line),
     pcolor MAGENTA ('' ['' @ func @ ''] ''),
     check]"

section \<open>They decide\<close>

lemma returns_printf: "returns (printf t)"
  by (simp add: returns_def printf_def mdefs)

lemma returns_mseq: "(\<And>c. c \<in> set cs \<Longrightarrow> returns c) \<Longrightarrow> returns (mseq cs)"
  by (induction cs) (simp_all add: returns_mret returns_then)

lemma returns_pcolor: "returns (pcolor c t)"
  unfolding pcolor_def by (rule returns_mseq) (auto intro: returns_printf)

lemma returns_pcolorln: "returns (pcolorln c t)"
  unfolding pcolorln_def by (rule returns_mseq) (auto intro: returns_printf returns_pcolor)

lemma returns_pdataln: "returns (pdataln t)"
  unfolding pdataln_def by (rule returns_pcolorln)

lemma returns_printbinary: "returns (printbinary bs)"
  unfolding printbinary_def by (rule returns_mseq) (auto intro: returns_printf)

lemma returns_run: "returns c \<Longrightarrow> \<exists>w'. mthen c d w = d w'"
  unfolding returns_def by (metis then_run)

lemma fails_then: "returns c \<Longrightarrow> (\<And>w. d w = Inl f) \<Longrightarrow> mthen c d w = Inl f"
  using returns_run by metis

lemma verdict_decides:
  assumes "returns e" and "returns g"
  shows "verdict func ok e g w = (if ok then pokln (func @ '' Ok'') w else Inl (Exit EXIT_FAILURE))"
proof (cases ok)
  case False
  have "mseq [perrln (func @ '' Failed''), pcolor BLUE ''Expected: '', e, pcolor YELLOW ''Given: '', g,
      mfail (Exit EXIT_FAILURE)] w = Inl (Exit EXIT_FAILURE)"
    unfolding mseq.simps mthen_mret perrln_def
    by (intro fails_then returns_pcolorln returns_pcolor assms mfail_apply)
  with False show ?thesis by (simp add: verdict_def)
qed (simp add: verdict_def)

text \<open>An assertion returns if and only if what it compares is equal; otherwise the process ends with
  \<open>EXIT_FAILURE\<close>.\<close>

definition decides :: "('w, unit) m \<Rightarrow> bool \<Rightarrow> bool" where
  "decides c ok \<longleftrightarrow> (\<forall>w. if ok then (\<exists>w'. c w = Inr ((), w')) else c w = Inl (Exit EXIT_FAILURE))"

lemma decides_verdict:
  assumes "returns e" and "returns g"
  shows "decides (verdict func ok e g) ok"
proof -
  have "returns (pokln (func @ '' Ok'') :: ('a, 'b, unit) wm)"
    unfolding pokln_def by (rule returns_pcolorln)
  then show ?thesis
    unfolding decides_def verdict_decides [OF assms] by (auto simp: returns_def)
qed

lemma assertions_decide_aux:
  "decides (equalint m n) (n = m)" "decides (equalbool a b) (b = a)" "decides (equalstr s t) (t = s)"
  "decides (equalchr x y) (y = x)" "decides (equalnstr s t k) (take k t = take k s)"
  "k \<le> length bs \<Longrightarrow> k \<le> length cs \<Longrightarrow> decides (equalbin bs cs k) (take k cs = take k bs)"
  by (simp_all add: equalint_def equalbool_def equalstr_def equalchr_def equalnstr_def equalbin_def
      decides_verdict returns_pdataln returns_printbinary)

text \<open>An assertion that holds changes nothing but what was printed.\<close>

definition passes :: "'u \<Rightarrow> ('k, 'u, unit) wm \<Rightarrow> bool" where
  "passes v c \<longleftrightarrow> (\<forall>w. usr w = v \<longrightarrow> (\<exists>t. c w = Inr ((), w\<lparr>trace := t\<rparr>)))"

lemma passes_printf: "passes v (printf t)"
  by (auto simp: passes_def printf_def mdefs)

lemma passes_then: "passes v c \<Longrightarrow> passes v d \<Longrightarrow> passes v (mthen c d)"
  unfolding passes_def
proof (intro allI impI)
  fix w :: "('b, 'a) world"
  assume c: "\<forall>w. usr w = v \<longrightarrow> (\<exists>t. c w = Inr ((), w\<lparr>trace := t\<rparr>))"
    and d: "\<forall>w. usr w = v \<longrightarrow> (\<exists>t. d w = Inr ((), w\<lparr>trace := t\<rparr>))" and v: "usr w = v"
  from c v obtain t where t: "c w = Inr ((), w\<lparr>trace := t\<rparr>)" by blast
  from d [rule_format, of "w\<lparr>trace := t\<rparr>"] v
  have "\<exists>t'. d (w\<lparr>trace := t\<rparr>) = Inr ((), w\<lparr>trace := t'\<rparr>)" by simp
  with t show "\<exists>t. mthen c d w = Inr ((), w\<lparr>trace := t\<rparr>)" by (auto simp: then_run)
qed

lemma passes_mret: "passes v (mret ())"
  unfolding passes_def mret_apply
proof (intro allI impI)
  show "\<exists>t. Inr ((), w) = Inr ((), w\<lparr>trace := t\<rparr>)" for w :: "('b, 'a) world"
    by (rule exI [of _ "trace w"]) simp
qed

lemma passes_mseq: "(\<And>c. c \<in> set cs \<Longrightarrow> passes v c) \<Longrightarrow> passes v (mseq cs)"
  by (induction cs) (simp_all add: passes_mret passes_then)

lemma passes_pcolor: "passes v (pcolor c t)"
  unfolding pcolor_def by (rule passes_mseq) (auto intro: passes_printf)

lemma passes_verdict: "ok \<Longrightarrow> passes v (verdict func ok e g)"
  unfolding verdict_def pokln_def pcolorln_def
  by (simp add: passes_then passes_mret passes_pcolor passes_printf)

lemma passes_assert: "passes v c \<Longrightarrow> passes v (assert_at file line func c)"
  unfolding assert_at_def by (rule passes_mseq) (auto intro: passes_pcolor)

end
