(* ===== verification/Circuit_Tests.thy ===== *)
theory Circuit_Tests
  imports Testing
begin

text \<open>
  The repository's own tests, \<open>src/tests/test_circuit_*.c\<close>, as programs of the model: the
  arrows and error callbacks of each file are user code, and each test function builds its circuit,
  runs it, checks the results with the assertions of \<open>Testing\<close>, and frees the circuit.
\<close>

definition CHUNK_SIZE :: nat where "CHUNK_SIZE = 256"

text \<open>\<open>strcpy(s->error, error)\<close>: a null pointer or a text that does not fit is undefined.\<close>

definition strcpy_error :: "(string \<Rightarrow> 'u \<Rightarrow> 'u) \<Rightarrow> string option \<Rightarrow> ('k, 'u, unit) wm" where
  "strcpy_error upd msg = (case msg of
     None \<Rightarrow> mfail (NullDeref HBlob)
   | Some m \<Rightarrow> if length m + 1 > CHUNK_SIZE then mfail BufferOverflow
       else mmod (\<lambda>w. w\<lparr>usr := upd m (usr w)\<rparr>))"

text \<open>The state, the data and the private struct of a test are variables of the test function;
  the pointers to them are not otherwise used.\<close>

section \<open>\<open>test_circuit_simple.c\<close>\<close>

record simple =
  s_foo :: bool
  s_bar :: bool
  s_error :: string
  s_data :: int

definition simple_start :: simple where
  "simple_start = \<lparr>s_foo = False, s_bar = False, s_error = [], s_data = 0\<rparr>"

definition simple_fooA :: "('k, simple) calls \<Rightarrow> ptr \<Rightarrow> ptr \<Rightarrow> ptr \<Rightarrow> ('k, simple, unit) wm" where
  "simple_fooA call c s data = mseq [
     on_usr (\<lambda>v. v\<lparr>s_foo := True\<rparr>),
     on_usr (\<lambda>v. v\<lparr>s_data := s_data v + 1\<rparr>),
     returnA call c s data]"

definition simple_barA :: "('k, simple) calls \<Rightarrow> ptr \<Rightarrow> ptr \<Rightarrow> ptr \<Rightarrow> ('k, simple, unit) wm" where
  "simple_barA call c s data = mseq [
     on_usr (\<lambda>v. v\<lparr>s_bar := True\<rparr>),
     on_usr (\<lambda>v. v\<lparr>s_data := s_data v + 1\<rparr>),
     returnA call c s data]"

definition simple_oops :: "string option \<Rightarrow> ('k, simple, unit) wm" where
  "simple_oops error = strcpy_error (\<lambda>m v. v\<lparr>s_error := m\<rparr>) error"

definition simple_program :: "('k, simple) program" where
  "simple_program = \<lparr>
     user_task = (\<lambda>n call c s d p. if n = 0 then simple_fooA call c s d else simple_barA call c s d),
     user_err = (\<lambda>n call c s d m. simple_oops m),
     user_conn = (\<lambda>n call c s fd sa. mret ())\<rparr>"

text \<open>A test: the state and the data are set, the circuit is made and run, the assertions follow.
  The number is the call depth.\<close>

definition run_test :: "('k, 'u) program \<Rightarrow> 'u \<Rightarrow> build_cmd list \<Rightarrow> ('k, 'u, unit) wm list \<Rightarrow> nat \<Rightarrow> ('k, 'u, unit) wm" where
  "run_test u start cmds asserts n =
     mthen (on_usr (\<lambda>_. start))
     (mbind (newC (Some 0)) (\<lambda>c.
     mbind (build c [] cmds) (\<lambda>_. mseq [
       runA (exec u n) c NULL NULL,
       mseq asserts,
       freeC c])))"

text \<open>\<open>eqint(e, g)\<close> with its place; the arguments are read from the state.\<close>

definition eqint_on :: "string \<Rightarrow> int \<Rightarrow> string \<Rightarrow> ('u \<Rightarrow> int) \<Rightarrow> ('u \<Rightarrow> int) \<Rightarrow> ('k, 'u, unit) wm" where
  "eqint_on file line func e g = mbind (mgets usr) (\<lambda>v. assert_at file line func (equalint (e v) (g v)))"

definition eqbool_on :: "string \<Rightarrow> int \<Rightarrow> string \<Rightarrow> ('u \<Rightarrow> bool) \<Rightarrow> ('u \<Rightarrow> bool) \<Rightarrow> ('k, 'u, unit) wm" where
  "eqbool_on file line func e g = mbind (mgets usr) (\<lambda>v. assert_at file line func (equalbool (e v) (g v)))"

definition eqstr_on :: "string \<Rightarrow> int \<Rightarrow> string \<Rightarrow> ('u \<Rightarrow> string) \<Rightarrow> ('u \<Rightarrow> string) \<Rightarrow> ('k, 'u, unit) wm" where
  "eqstr_on file line func e g = mbind (mgets usr) (\<lambda>v. assert_at file line func (equalstr (e v) (g v)))"

definition test_foo :: "nat \<Rightarrow> ('k, simple, unit) wm" where
  "test_foo = run_test simple_program simple_start [Append (A_user 0) NULL] [
     eqint_on ''test_circuit_simple.c'' 46 ''test_foo'' s_data (\<lambda>_. 1),
     eqbool_on ''test_circuit_simple.c'' 47 ''test_foo'' s_foo (\<lambda>_. True),
     eqstr_on ''test_circuit_simple.c'' 48 ''test_foo'' s_error (\<lambda>_. [])]"

definition test_foobar :: "nat \<Rightarrow> ('k, simple, unit) wm" where
  "test_foobar = run_test simple_program simple_start [Append (A_user 0) NULL, Append (A_user 1) NULL] [
     eqint_on ''test_circuit_simple.c'' 63 ''test_foobar'' s_data (\<lambda>_. 2),
     eqbool_on ''test_circuit_simple.c'' 64 ''test_foobar'' s_foo (\<lambda>_. True),
     eqbool_on ''test_circuit_simple.c'' 65 ''test_foobar'' s_bar (\<lambda>_. True),
     eqstr_on ''test_circuit_simple.c'' 66 ''test_foobar'' s_error (\<lambda>_. [])]"

definition simple_tests :: "nat \<Rightarrow> ('k, simple, unit) wm" where
  "simple_tests n = mseq [test_foo n, test_foobar n]"

section \<open>\<open>test_circuit_loop.c\<close>\<close>

record looped =
  l_foo :: int
  l_bar :: int
  l_error :: string
  l_data :: int

definition looped_start :: looped where
  "looped_start = \<lparr>l_foo = 0, l_bar = 0, l_error = [], l_data = 0\<rparr>"

definition loop_fooA :: "('k, looped) calls \<Rightarrow> ptr \<Rightarrow> ptr \<Rightarrow> ptr \<Rightarrow> ('k, looped, unit) wm" where
  "loop_fooA call c s data = mseq [
     on_usr (\<lambda>v. v\<lparr>l_foo := l_foo v + 1\<rparr>),
     on_usr (\<lambda>v. v\<lparr>l_data := l_data v + 1\<rparr>),
     mbind (mgets (\<lambda>w. l_data (usr w))) (\<lambda>d.
       if d \<ge> 10 then errorA call c s data (Some ''All done'')
       else returnA call c s data)]"

definition loop_barA :: "('k, looped) calls \<Rightarrow> ptr \<Rightarrow> ptr \<Rightarrow> ptr \<Rightarrow> ('k, looped, unit) wm" where
  "loop_barA call c s data = mseq [
     on_usr (\<lambda>v. v\<lparr>l_bar := l_bar v + 1\<rparr>),
     on_usr (\<lambda>v. v\<lparr>l_data := l_data v + 1\<rparr>),
     returnA call c s data]"

definition loop_oops :: "string option \<Rightarrow> ('k, looped, unit) wm" where
  "loop_oops error = strcpy_error (\<lambda>m v. v\<lparr>l_error := m\<rparr>) error"

definition loop_program :: "('k, looped) program" where
  "loop_program = \<lparr>
     user_task = (\<lambda>n call c s d p. if n = 0 then loop_fooA call c s d else loop_barA call c s d),
     user_err = (\<lambda>n call c s d m. loop_oops m),
     user_conn = (\<lambda>n call c s fd sa. mret ())\<rparr>"

definition test_foo_loop :: "nat \<Rightarrow> ('k, looped, unit) wm" where
  "test_foo_loop = run_test loop_program looped_start [Append (A_user 0) NULL, LoopAt 0] [
     eqint_on ''test_circuit_loop.c'' 52 ''test_foo_loop'' l_data (\<lambda>_. 10),
     eqint_on ''test_circuit_loop.c'' 53 ''test_foo_loop'' l_foo (\<lambda>_. 10),
     eqstr_on ''test_circuit_loop.c'' 54 ''test_foo_loop'' l_error (\<lambda>_. ''All done'')]"

definition test_foobar_loop :: "nat \<Rightarrow> ('k, looped, unit) wm" where
  "test_foobar_loop = run_test loop_program looped_start
     [Append (A_user 0) NULL, Append (A_user 1) NULL, LoopAt 0] [
     eqint_on ''test_circuit_loop.c'' 70 ''test_foobar_loop'' (\<lambda>_. 11) l_data,
     eqint_on ''test_circuit_loop.c'' 71 ''test_foobar_loop'' (\<lambda>_. 6) l_foo,
     eqint_on ''test_circuit_loop.c'' 72 ''test_foobar_loop'' (\<lambda>_. 5) l_bar,
     eqstr_on ''test_circuit_loop.c'' 73 ''test_foobar_loop'' l_error (\<lambda>_. ''All done'')]"

definition loop_tests :: "nat \<Rightarrow> ('k, looped, unit) wm" where
  "loop_tests n = mseq [test_foo_loop n, test_foobar_loop n]"

section \<open>\<open>test_circuit_priv.c\<close>\<close>

record with_priv =
  p_foo :: int
  p_error :: string
  p_dat :: int
  p_qux :: int

definition with_priv_start :: with_priv where
  "with_priv_start = \<lparr>p_foo = 0, p_error = [], p_dat = 0, p_qux = 0\<rparr>"

text \<open>The private struct is reached through the pointer that the element holds.\<close>

definition PRIV :: ptr where "PRIV = 77"

definition priv_fooA :: "('k, with_priv) calls \<Rightarrow> ptr \<Rightarrow> ptr \<Rightarrow> ptr \<Rightarrow> ptr \<Rightarrow> ('k, with_priv, unit) wm" where
  "priv_fooA call c s data priv = mseq [
     on_usr (\<lambda>v. v\<lparr>p_foo := p_foo v + 1\<rparr>),
     on_usr (\<lambda>v. v\<lparr>p_dat := p_dat v + 1\<rparr>),
     if priv = PRIV then on_usr (\<lambda>v. v\<lparr>p_qux := p_qux v + 1\<rparr>) else mfail (WildPointer HObj),
     mbind (mgets (\<lambda>w. p_dat (usr w))) (\<lambda>d.
       if d \<ge> 10 then errorA call c s data (Some ''All done'')
       else returnA call c s data)]"

definition priv_program :: "('k, with_priv) program" where
  "priv_program = \<lparr>
     user_task = (\<lambda>n call c s d p. priv_fooA call c s d p),
     user_err = (\<lambda>n call c s d m. strcpy_error (\<lambda>m v. v\<lparr>p_error := m\<rparr>) m),
     user_conn = (\<lambda>n call c s fd sa. mret ())\<rparr>"

definition test_foo_priv :: "nat \<Rightarrow> ('k, with_priv, unit) wm" where
  "test_foo_priv = run_test priv_program with_priv_start [Append (A_user 0) PRIV] [
     eqint_on ''test_circuit_priv.c'' 50 ''test_foo_priv'' p_dat (\<lambda>_. 1),
     eqint_on ''test_circuit_priv.c'' 51 ''test_foo_priv'' p_qux (\<lambda>_. 1),
     eqint_on ''test_circuit_priv.c'' 52 ''test_foo_priv'' p_foo (\<lambda>_. 1),
     eqstr_on ''test_circuit_priv.c'' 53 ''test_foo_priv'' p_error (\<lambda>_. [])]"

section \<open>The interfaces of user code\<close>

interpretation ut_simple: user_code simple_program
  by unfold_locales (simp_all add: simple_program_def simple_fooA_def simple_barA_def
      less_fuel_refl less_fuel_mthen less_fuel_returnA)

interpretation ut_loop: user_code loop_program
  by unfold_locales (simp_all add: loop_program_def loop_fooA_def loop_barA_def
      less_fuel_refl less_fuel_mthen less_fuel_mbind less_fuel_returnA less_fuel_errorA)

interpretation ut_priv: user_code priv_program
  by unfold_locales (simp_all add: priv_program_def priv_fooA_def
      less_fuel_refl less_fuel_mthen less_fuel_mbind less_fuel_returnA less_fuel_errorA)

section \<open>Passing\<close>

lemma passes_eqint:
  assumes "e v = g v"
  shows "passes v (eqint_on file line func e g)"
proof -
  have "passes v (assert_at file line func (equalint (e v) (g v)))"
    unfolding equalint_def by (intro passes_assert passes_verdict) (simp add: assms)
  then show ?thesis by (simp add: passes_def eqint_on_def mgets_bind)
qed

lemma passes_eqbool:
  assumes "e v = g v"
  shows "passes v (eqbool_on file line func e g)"
proof -
  have "passes v (assert_at file line func (equalbool (e v) (g v)))"
    unfolding equalbool_def by (intro passes_assert passes_verdict) (simp add: assms)
  then show ?thesis by (simp add: passes_def eqbool_on_def mgets_bind)
qed

lemma passes_eqstr:
  assumes "e v = g v"
  shows "passes v (eqstr_on file line func e g)"
proof -
  have "passes v (assert_at file line func (equalstr (e v) (g v)))"
    unfolding equalstr_def by (intro passes_assert passes_verdict) (simp add: assms)
  then show ?thesis by (simp add: passes_def eqstr_on_def mgets_bind)
qed

text \<open>A test returns if, without the assertions, it returns with values that satisfy them.\<close>

lemma freeC_trace:
  assumes "freeC c w = Inr ((), w')"
  shows "freeC c (w\<lparr>trace := t\<rparr>) = Inr ((), w'\<lparr>trace := t\<rparr>)" and "usr w' = usr w"
  using assms
  by (auto simp: freeC_def mdefs load_circ_def on_elems_def get_cell_Some
      split: if_splits option.splits sum.splits)

lemma run_test_passes:
  assumes run: "map_sum id (\<lambda>r. usr (snd r)) (run_test u start cmds [] n w) = Inr v"
    and asserts: "\<And>c. c \<in> set asserts \<Longrightarrow> passes v c"
  shows "\<exists>w'. run_test u start cmds asserts n w = Inr ((), w')"
proof -
  obtain c es w1 w2 w3 w4 where m: "newC (Some 0) (w\<lparr>usr := start\<rparr>) = Inr (c, w1)"
    "build c [] cmds w1 = Inr (es, w2)" "runA (exec u n) c NULL NULL w2 = Inr ((), w3)"
    "freeC c w3 = Inr ((), w4)" "usr w4 = v"
    using run by (auto simp: run_test_def on_usr_def mdefs split: sum.splits)
  have "usr w3 = v" using freeC_trace(2) [OF m(4)] m(5) by simp
  with passes_mseq [OF asserts] obtain t where t: "mseq asserts w3 = Inr ((), w3\<lparr>trace := t\<rparr>)"
    unfolding passes_def by blast
  from freeC_trace(1) [OF m(4), of t] m t show ?thesis
    by (auto simp: run_test_def on_usr_def mmod_then bind_run then_run mret_apply)
qed

end
