(* ===== verification/Example_Properties.thy ===== *)
theory Example_Properties
  imports Demo_Programs Echo_Server Circuit_Tests
begin

text \<open>
  The properties of the example programs and of the repository's tests.
\<close>

section \<open>Whole programs\<close>

definition respects_bags :: "('k, 'u, 'a) wm \<Rightarrow> ('k, 'u) world \<Rightarrow> bool" where
  "respects_bags m w \<longleftrightarrow> (case m w of Inl f \<Rightarrow> \<not> bag_fault f | Inr _ \<Rightarrow> True)"

text \<open>C14: None of the five example programs ever uses a bag that was freed or never made, from the start of
  its process to the end of \<open>main\<close>, on any kernel whose epoll does what its manual says, whatever its
  other calls return.\<close>

theorem examples_respect_bags:
  assumes "fresh i1 w1" and "fresh i2 w2" and "fresh i3 w3" and "fresh i4 w4" and "fresh i5 w5"
  shows "respects_bags (echo_main depth rounds) w1 \<and> respects_bags (client_main depth rounds) w2 \<and>
    respects_bags (shell_main depth rounds) w3 \<and> respects_bags (random_main depth rounds) w4 \<and>
    respects_bags (https_main depth rounds) w5"
  unfolding respects_bags_def
  using echo_main_safe [OF assms(1)] client_main_safe [OF assms(2)] shell_main_safe [OF assms(3)]
    random_main_safe [OF assms(4)] https_main_safe [OF assms(5)]
  by (auto split: sum.split)

lemma examples_respect_bags_witness:
  "respects_bags (echo_main 30 20) (demo_fresh \<lparr>es_status = WORKING, es_worker = NULL, es_clients = 0\<rparr>) \<and>
    respects_bags (https_main 30 20) (demo_fresh \<lparr>tl_status = WORKING\<rparr>)"
  using examples_respect_bags [OF demo_fresh demo_fresh demo_fresh demo_fresh demo_fresh, of 30 20
      "\<lparr>es_status = WORKING, es_worker = NULL, es_clients = 0\<rparr>" "\<lparr>ec_status = WORKING, ec_state = 0\<rparr>"
      "\<lparr>sh_counter = 0\<rparr>" "\<lparr>rx_counter = 0\<rparr>" "\<lparr>tl_status = WORKING\<rparr>"]
  by simp




section \<open>Rounds\<close>

text \<open>C28: Where there is memory and a source of random bytes, \<open>main\<close> of \<open>random.c\<close> lays out its variables,
  builds its circuit, opens the source and reaches the third arrow, the head of its loop, with an empty string, a zeroed
  buffer and no output so far; the rest of \<open>main\<close> follows when that call returns.\<close>

theorem random_program_starts:
  assumes "malloc_total (w_os w)" and "store_ok (elems w)"
    and "\<forall>k. \<exists>fd k'. os_open (w_os w) ''/dev/urandom'' (O_RDONLY OR O_NONBLOCK) k = (Inr fd, k') \<and> 0 \<le> fd"
  shows "\<exists>c ps v fd k w'. random_rest (exec random_program (n + 2)) rounds w =
      mthen (exec random_program n (Run A_randread c NULL (rv_rand v) (rv_io v)))
        (random_end (exec random_program (n + 2)) rounds c) w' \<and>
    at_step w' c ps (random_circuit (rv_io v)) 2 \<and>
    random_state v (w_os w) fd 0 (replicate RX_BUFFSIZE 0) (rx_counter (usr w)) k (trace w @ [SysOpen ''/dev/urandom'']) w'"
  using random_reaches_loop [OF assms(1,2)] assms(3) by blast

text \<open>A kernel that opens every file.\<close>

definition opening_os :: "demo os" where
  "opening_os = demo_os\<lparr>os_open := (\<lambda>path fl k. (Inr 5, k))\<rparr>"

lemma random_program_starts_witness:
  "\<exists>c (v :: random_vars) w'. random_rest (exec random_program (20 + 2)) 5 (on_os opening_os (demo_world demo_start \<lparr>rx_counter = 0\<rparr>)) =
      mthen (exec random_program 20 (Run A_randread c NULL (rv_rand v) (rv_io v)))
        (random_end (exec random_program (20 + 2)) 5 c) w' \<and> trace w' = [SysOpen ''/dev/urandom'']"
proof -
  let ?w = "on_os opening_os (demo_world demo_start \<lparr>rx_counter = 0\<rparr>)"
  have w: "malloc_total (w_os ?w)" "store_ok (elems ?w)" and tr: "trace ?w = []"
    using demo_malloc by (simp_all add: on_os_def demo_world_def opening_os_def malloc_total_def)
  have "\<forall>k. \<exists>fd k'. os_open (w_os ?w) ''/dev/urandom'' (O_RDONLY OR O_NONBLOCK) k = (Inr fd, k') \<and> 0 \<le> fd"
    by (simp add: opening_os_def)
  from random_program_starts [OF w this, of 20 5]
  obtain c v fd k w' where "random_rest (exec random_program (20 + 2)) 5 ?w =
      mthen (exec random_program 20 (Run A_randread c NULL (rv_rand v) (rv_io v)))
        (random_end (exec random_program (20 + 2)) 5 c) w'"
    and st: "random_state v (w_os ?w) fd 0 (replicate RX_BUFFSIZE 0) (rx_counter (usr ?w)) k (trace ?w @ [SysOpen ''/dev/urandom'']) w'"
    by blast
  moreover have "trace w' = [SysOpen ''/dev/urandom'']" using st tr by (simp add: random_state_def)
  ultimately show ?thesis by (intro exI [of _ c] exI [of _ v] exI [of _ w'] conjI)
qed

text \<open>C29: A round of \<open>random.c\<close>: random bytes become as many letters, which are written to the standard output
  behind the number of the round, and the line that is then read from the standard input brings the
  circuit back to the head of its loop with its variables in the same shape. The C stack is nine calls
  deeper.\<close>

theorem random_round:
  assumes "at_step w c ps (random_circuit (rv_io v)) 2" and "random_state v os fd sz bs n k tr w" and "length bs = RX_BUFFSIZE"
    and "os_read os fd RX_BUFFSIZE k = (Inr xs, k1)" and "length xs \<le> RX_BUFFSIZE"
    and "os_dprintf os 1 (count_text (n + 1)) k1 = (r, k2)"
    and "os_write os 1 (map randenc_byte xs) k2 = (Inr m, k3)" and "m < 2 ^ 63"
    and "os_read os 0 RX_BUFFSIZE k3 = (Inr ys, k4)" and "ys \<noteq> []" and "length ys \<le> RX_BUFFSIZE"
  shows "\<exists>w' bs'. exec random_program (d + 9) (Run A_randread c s (rv_rand v) (rv_io v)) w =
      exec random_program d (Run A_randread c s (rv_rand v) (rv_io v)) w' \<and>
    at_step w' c ps (random_circuit (rv_io v)) 2 \<and> length bs' = RX_BUFFSIZE \<and>
    random_state v os fd (of_nat (length ys)) bs' (n + 1) k4 (tr @ [SysRead fd RX_BUFFSIZE,
      SysPrint 1 (count_text (n + 1)), SysWrite 1 (map randenc_byte xs), SysRead 0 RX_BUFFSIZE]) w'"
proof -
  let ?b = "refilled ys (refilled (map randenc_byte xs) bs)"
  have "length ?b = RX_BUFFSIZE" using assms(3,5,11) by simp
  moreover obtain w' where "exec random_program (d + 9) (Run A_randread c s (rv_rand v) (rv_io v)) w =
      exec random_program d (Run A_randread c s (rv_rand v) (rv_io v)) w'"
    "at_step w' c ps (random_circuit (rv_io v)) 2"
    "random_state v os fd (of_nat (length ys)) ?b (n + 1) k4 (tr @ random_calls fd (n + 1) xs) w'"
    using walks_exec [OF walks_random_round [OF assms(4-11,3), of c s ps v sz tr] assms(1,2) random_first(3,3), of d] by blast
  ultimately show ?thesis unfolding random_calls_def by blast
qed

lemma random_round_witness:
  "\<exists>w'. exec random_program (0 + 9) (Run A_randread 1 NULL 13 11) demo_random_loop =
      exec random_program 0 (Run A_randread 1 NULL 13 11) w' \<and>
    trace w' = [SysRead 5 32, SysPrint 1 ''007 '', SysWrite 1 [104, 115, 97], SysRead 0 32]"
proof -
  have os: "os_read demo_os 5 RX_BUFFSIZE (demo_inputs [Inr [7, 200, 26], Inr [10]]) = (Inr [7, 200, 26], demo_inputs [Inr [10]])"
    "os_dprintf demo_os 1 (count_text (6 + 1)) (demo_inputs [Inr [10]]) = (Inr (), demo_inputs [Inr [10]])"
    "os_write demo_os 1 (map randenc_byte [7, 200, 26]) (demo_inputs [Inr [10]]) = (Inr 3, demo_inputs [Inr [10]])"
    "os_read demo_os 0 RX_BUFFSIZE (demo_inputs [Inr [10]]) = (Inr [10], demo_inputs [])"
    by (simp_all add: demo_os_def demo_read_def demo_inputs_def RX_BUFFSIZE_def demo_ok_def)
  have shown: "count_text (6 + 1) = ''007 ''" "map randenc_byte [7, 200, 26] = [104, 115, 97]" by code_simp+
  have v: "rv_io demo_rv = 11" "rv_rand demo_rv = 13" by (simp_all add: demo_rv_def)
  have start: "at_step demo_random_loop 1 (demo_ptrs (random_circuit 11)) (random_circuit (rv_io demo_rv)) 2"
    unfolding v by (rule demo_random_loop_at)
  show ?thesis
    using random_round [OF start demo_random_loop_state _ os(1) _ os(2,3) _ os(4), of 0 NULL] shown v
    by (auto simp: random_state_def RX_BUFFSIZE_def)
qed

text \<open>C30: A round of \<open>echoshell.c\<close>: the prompt with its number on the standard output, a line from the standard
  input, and its echo, which is nothing for an empty line. The echo is written to descriptor 0, the
  standard input: \<open>writeA\<close> takes the \<open>struct pipeS\<close> for a \<open>struct fileS\<close> and finds the reading end
  where that has its descriptor.\<close>

theorem shell_round:
  assumes "at_step w c ps (shell_circuit (sv_prompt v) (sv_io v)) 0" and "shell_state v os sz bs n k tr w"
    and "length bs = BUFFSIZE"
    and "os_dprintf os 1 (prompt_text (n + 1)) k = (r, k1)"
    and "os_read os 0 BUFFSIZE k1 = (Inr xs, k2)" and "xs \<noteq> []" and "length xs \<le> BUFFSIZE"
    and "os_write os 0 (if xs = [10] then [] else xs) k2 = (Inr m, k3)" and "m < 2 ^ 63"
  shows "\<exists>w' bs' sz'. exec shell_program (d + 4) (Run (A_user 0) c s (sv_pipe v) (sv_prompt v)) w =
      exec shell_program d (Run (A_user 0) c s (sv_pipe v) (sv_prompt v)) w' \<and>
    at_step w' c ps (shell_circuit (sv_prompt v) (sv_io v)) 0 \<and> length bs' = BUFFSIZE \<and>
    shell_state v os sz' bs' (n + 1) k3 (tr @ [SysPrint 1 (prompt_text (n + 1)), SysRead 0 BUFFSIZE,
      SysWrite 0 (if xs = [10] then [] else xs)]) w'"
proof -
  have "length (refilled xs bs) = BUFFSIZE" using assms(3,7) by simp
  moreover obtain w' where "exec shell_program (d + 4) (Run (A_user 0) c s (sv_pipe v) (sv_prompt v)) w =
      exec shell_program d (Run (A_user 0) c s (sv_pipe v) (sv_prompt v)) w'"
    "at_step w' c ps (shell_circuit (sv_prompt v) (sv_io v)) 0"
    "shell_state v os (of_nat (length (echoed xs))) (refilled xs bs) (n + 1) k3 (tr @ shell_calls (n + 1) xs) w'"
    using walks_exec [OF walks_shell_round [OF assms(4-7) assms(8) [folded echoed_def] assms(9,3), of c s ps v sz tr]
        assms(1,2) shell_first(1,1), of d] by blast
  ultimately show ?thesis unfolding shell_calls_def echoed_def by blast
qed

lemma shell_round_witness:
  "\<exists>w'. exec shell_program (0 + 4) (Run (A_user 0) 1 NULL 14 22) demo_shell_loop =
      exec shell_program 0 (Run (A_user 0) 1 NULL 14 22) w' \<and>
    trace w' = [SysPrint 1 ''001 me@loop:~$ '', SysRead 0 1024, SysWrite 0 [104, 105, 10]]"
proof -
  have os: "os_dprintf demo_os 1 (prompt_text (0 + 1)) (demo_inputs [Inr [104, 105, 10]]) = (Inr (), demo_inputs [Inr [104, 105, 10]])"
    "os_read demo_os 0 BUFFSIZE (demo_inputs [Inr [104, 105, 10]]) = (Inr [104, 105, 10], demo_inputs [])"
    "os_write demo_os 0 (if [104, 105, 10] = [10 :: byte] then [] else [104, 105, 10]) (demo_inputs []) = (Inr 3, demo_inputs [])"
    by (simp_all add: demo_os_def demo_read_def demo_inputs_def BUFFSIZE_def demo_ok_def)
  have shown: "prompt_text (0 + 1) = ''001 me@loop:~$ ''" by code_simp
  have v: "sv_io demo_sv = 11" "sv_pipe demo_sv = 14" "sv_prompt demo_sv = 22" by (simp_all add: demo_sv_def)
  have start: "at_step demo_shell_loop 1 (demo_ptrs (shell_circuit 22 11)) (shell_circuit (sv_prompt demo_sv) (sv_io demo_sv)) 0"
    unfolding v by (rule demo_shell_loop_at)
  show ?thesis
    using shell_round [OF start demo_shell_loop_state _ os(1,2) _ _ os(3), of 0 NULL] shown v
    by (auto simp: shell_state_def BUFFSIZE_def)
qed

text \<open>C31: A round of \<open>echoclient.c\<close> once its timer runs: random bytes become a line of letters, which is
  sent; what the server answers is printed behind the number of the round; and the next round starts when
  the timer has expired, with the variables in the same shape.\<close>

theorem client_round:
  assumes "at_step w c ps (client_circuit (cf_vars e)) 9" and "client_state e os sz bs n k tr w" and "length bs = EC_CHUNK"
    and "os_read os (f_fd (cf_rnd e)) EC_CHUNK k = (Inr xs, k1)" and "xs \<noteq> []" and "length xs \<le> EC_CHUNK" and "n < INT_MAX"
    and "os_write os (f_fd (cf_conn e)) (butlast (map randenc_byte xs) @ [10]) k1 = (Inr m, k2)" and "m < 2 ^ 63"
    and "os_read os (f_fd (cf_conn e)) EC_CHUNK k2 = (Inr ys, k3)" and "ys \<noteq> []" and "length ys \<le> EC_CHUNK" and "0 \<notin> set ys"
    and "os_read os (t_fd (cf_tmr e)) 8 k3 = (Inr ts, k4)" and "length ts = 8"
  shows "\<exists>w' bs'. exec client_program (d + 13) (Run A_randread c s (cv_rnd (cf_vars e)) (cv_rand (cf_vars e))) w =
      exec client_program d (Run A_randread c s (cv_rnd (cf_vars e)) (cv_rand (cf_vars e))) w' \<and>
    at_step w' c ps (client_circuit (cf_vars e)) 9 \<and> length bs' = EC_CHUNK \<and>
    client_state e os (of_nat (length ys)) bs' (n + 1) k4 (tr @ [SysRead (f_fd (cf_rnd e)) EC_CHUNK,
      SysWrite (f_fd (cf_conn e)) (butlast (map randenc_byte xs) @ [10]), SysRead (f_fd (cf_conn e)) EC_CHUNK,
      SysStdout (reply_text (n + 1) ys), SysRead (t_fd (cf_tmr e)) 8]) w'"
proof -
  have line: "butlast (map randenc_byte xs) @ [10] = line_of xs" by (simp add: line_of_def as_line_def)
  have first: "steps (client_circuit (cf_vars e)) ! 9 = (A_randread, cv_rand (cf_vars e))"
    by (simp add: client_circuit_def Let_def)
  have "length (refilled ys (refilled (line_of xs) bs)) = EC_CHUNK"
    using assms(3,5,6,12) by (simp add: line_of_def)
  moreover obtain w' where "exec client_program (d + 13) (Run A_randread c s (cv_rnd (cf_vars e)) (cv_rand (cf_vars e))) w =
      exec client_program d (Run A_randread c s (cv_rnd (cf_vars e)) (cv_rand (cf_vars e))) w'"
    "at_step w' c ps (client_circuit (cf_vars e)) 9"
    "client_state e os (of_nat (length ys)) (refilled ys (refilled (line_of xs) bs)) (n + 1) k4
      (tr @ client_calls e (n + 1) xs ys) w'"
    using walks_exec [OF walks_client_round [OF assms(4-7) assms(8) [unfolded line] assms(9-15,3), of c s ps sz tr]
        assms(1,2) first first, of d] by blast
  ultimately show ?thesis unfolding client_calls_def line by blast
qed

lemma client_round_witness:
  "\<exists>w'. exec client_program (0 + 13) (Run A_randread 1 NULL 15 17) demo_client_loop =
      exec client_program 0 (Run A_randread 1 NULL 15 17) w' \<and>
    trace w' = [SysRead 5 32, SysWrite 6 [104, 115, 10], SysRead 6 32, SysStdout ''001 hw\<newline>'', SysRead 7 8]"
proof -
  have line: "butlast (map randenc_byte [7, 200, 26]) @ [10] = [104, 115, 10]" by code_simp
  have os: "os_read demo_os (f_fd (cf_rnd demo_cf)) EC_CHUNK demo_client_inputs =
      (Inr [7, 200, 26], demo_inputs [Inr [104, 119, 10], Inr (replicate 8 0)])"
    "os_write demo_os (f_fd (cf_conn demo_cf)) (butlast (map randenc_byte [7, 200, 26]) @ [10])
      (demo_inputs [Inr [104, 119, 10], Inr (replicate 8 0)]) = (Inr 3, demo_inputs [Inr [104, 119, 10], Inr (replicate 8 0)])"
    "os_read demo_os (f_fd (cf_conn demo_cf)) EC_CHUNK (demo_inputs [Inr [104, 119, 10], Inr (replicate 8 0)]) =
      (Inr [104, 119, 10], demo_inputs [Inr (replicate 8 0)])"
    "os_read demo_os (t_fd (cf_tmr demo_cf)) 8 (demo_inputs [Inr (replicate 8 0)]) = (Inr (replicate 8 0), demo_inputs [])"
    by (simp_all add: demo_os_def demo_read_def demo_inputs_def demo_client_inputs_def EC_CHUNK_def)
  have shown: "reply_text (0 + 1) [104, 119, 10] = ''001 hw\<newline>''" by code_simp
  have v: "f_fd (cf_rnd demo_cf) = 5" "f_fd (cf_conn demo_cf) = 6" "t_fd (cf_tmr demo_cf) = 7"
    "cv_rnd (cf_vars demo_cf) = 15" "cv_rand (cf_vars demo_cf) = 17" by (simp_all add: demo_cf_def)
  show ?thesis
    using client_round [OF demo_client_loop_at demo_client_loop_state _ os(1) _ _ _ os(2) _ os(3) _ _ _ os(4), of 0 NULL]
      shown v line
    by (auto simp: client_state_def EC_CHUNK_def INT_MAX_def Let_def)
qed

section \<open>Lines and requests\<close>

text \<open>\<open>newlineA\<close> of \<open>echoclient.c\<close> ends the string with a newline; for an empty string \<open>size - 1\<close>
  wraps round and it writes far outside the buffer.\<close>

theorem newline_ends_line:
  assumes "sees as_file f_data f fl st bs w" and "unat (s_size st) \<le> length bs" and "length bs < 2 ^ 63"
    and "ec_state (usr w) < INT_MAX"
  shows "if s_size st = 0 then newlineA call c s f w = Inl BufferOverflow
    else \<exists>w'. newlineA call c s f w = returnA call c s f w' \<and>
      cells (blobs w') (s_blob st) = Some (bs[unat (s_size st) - 1 := 10]) \<and> ec_state (usr w') = ec_state (usr w) + 1"
proof (cases "s_size st = 0")
  case True
  have "unat (s_size st - 1) = 2 ^ 64 - 1" using True by (simp add: unsigned_minus_1_eq_mask mask_eq_exp_minus_1)
  then show ?thesis
    using assms True
    by (simp add: newlineA_def sees_def runs set_byte_def mthen_mbind obj_as_def)
next
  case False
  then have u: "unat (s_size st - 1) = unat (s_size st) - 1" by (simp add: unat_minus_one)
  have "unat (s_size st) - 1 < length bs" using False assms(2) by (metis One_nat_def Suc_pred unat_gt_0 Suc_le_lessD)
  then show ?thesis
    using assms False u
    by (simp add: newlineA_def sees_def runs set_byte_def mthen_mbind obj_as_def)
      (rule exI, rule conjI, rule refl, simp)
qed

text \<open>A string of the given size in a buffer of three bytes.\<close>

definition demo_line :: "u64 \<Rightarrow> (demo, client) world" where
  "demo_line sz = with_data [11 \<mapsto> O_file \<lparr>f_ptr = NULL, f_data = 12, f_fd = 5\<rparr>, 12 \<mapsto> O_string \<lparr>s_blob = 21, s_size = sz\<rparr>]
     [21 \<mapsto> [104, 105, 0]] (demo_world demo_start \<lparr>ec_status = WORKING, ec_state = 0\<rparr>)"

lemma newline_ends_line_witness:
  "(\<exists>w'. newlineA (\<lambda>i. mret ()) 1 NULL 11 (demo_line 2) = returnA (\<lambda>i. mret ()) 1 NULL 11 w' \<and>
      cells (blobs w') 21 = Some [104, 10, 0]) \<and>
   newlineA (\<lambda>i. mret ()) 1 NULL 11 (demo_line 0) = Inl BufferOverflow"
proof -
  have l: "sees as_file f_data 11 \<lparr>f_ptr = NULL, f_data = 12, f_fd = 5\<rparr> \<lparr>s_blob = 21, s_size = sz\<rparr> [104, 105, 0] (demo_line sz)"
    "ec_state (usr (demo_line sz)) < INT_MAX" for sz
    by (simp_all add: demo_line_def sees_def obj_as_def INT_MAX_def)
  show ?thesis
    using newline_ends_line [OF l(1) _ _ l(2), of 2 "\<lambda>i. mret ()" 1 NULL]
      newline_ends_line [OF l(1) _ _ l(2), of 0 "\<lambda>i. mret ()" 1 NULL] by fastforce
qed

text \<open>C32: The request of \<open>tlsclient.c\<close> is written when the buffer has room for its 106 bytes, the host name
  and a zero, and the size of the string is then its length; a longer host name overruns the buffer, since
  nothing checks the room.\<close>

theorem http_request_fits:
  assumes "sees as_file f_data f fl st bs w" and "obj_as w as_tlsclientP priv = Some p"
  shows "if length (tc_hostname p) + 106 < length bs
    then \<exists>w' rest. httpreqA call c s f priv w = returnA call c s f w' \<and>
      cells (blobs w') (s_blob st) = Some (bytes (concat (http_request (tc_hostname p))) @ 0 # rest) \<and>
      obj_as w' as_string (f_data fl) = Some (st\<lparr>s_size := of_nat (length (tc_hostname p) + 106)\<rparr>)
    else httpreqA call c s f priv w = Inl BufferOverflow"
proof (cases "length (tc_hostname p) + 106 < length bs")
  case True
  let ?r = "request (tc_hostname p)"
  let ?w = "w\<lparr>blobs := put_cell (s_blob st) (refilled (bytes ?r @ [0]) bs) (blobs w),
      objs := put_cell (f_data fl) (O_string (st\<lparr>s_size := of_nat (length ?r)\<rparr>)) (objs w)\<rparr>"
  have "httpreqA call c s f priv w = returnA call c s f ?w"
    using httpreqA_result [OF assms, of call c s] True length_request [of "tc_hostname p"] by simp
  moreover have "cells (blobs ?w) (s_blob st) = Some (bytes (concat (http_request (tc_hostname p))) @ 0 # drop (length ?r + 1) bs)"
    by (simp add: refilled_def request_def bytes_def)
  moreover have "obj_as ?w as_string (f_data fl) = Some (st\<lparr>s_size := of_nat (length (tc_hostname p) + 106)\<rparr>)"
    using length_request [of "tc_hostname p"] by (simp add: obj_as_def)
  ultimately show ?thesis using True by auto
next
  case False
  then show ?thesis using httpreqA_result [OF assms, of call c s] length_request [of "tc_hostname p"] by simp
qed

definition demo_https :: "nat \<Rightarrow> (demo, unit) world" where
  "demo_https n = with_data [11 \<mapsto> O_file demo_file, 12 \<mapsto> O_string \<lparr>s_blob = 21, s_size = 0\<rparr>, 13 \<mapsto> O_tlsclientP https_tls]
     [21 \<mapsto> replicate n 0] (demo_world demo_start ())"

lemma http_request_fits_witness:
  "(\<exists>w'. httpreqA (\<lambda>i. mret ()) 1 NULL 11 13 (demo_https TL_CHUNK) = returnA (\<lambda>i. mret ()) 1 NULL 11 w' \<and>
      obj_as w' as_string 12 = Some \<lparr>s_blob = 21, s_size = 113\<rparr>) \<and>
   httpreqA (\<lambda>i. mret ()) 1 NULL 11 13 (demo_https 100) = Inl BufferOverflow"
proof -
  have l: "sees as_file f_data 11 demo_file \<lparr>s_blob = 21, s_size = 0\<rparr> (replicate n 0) (demo_https n)"
    "obj_as (demo_https n) as_tlsclientP 13 = Some https_tls" for n
    by (simp_all add: demo_https_def sees_def obj_as_def demo_file_def)
  have h: "length (tc_hostname https_tls) = 7" by (simp add: https_tls_def)
  show ?thesis
    using http_request_fits [OF l, of TL_CHUNK "\<lambda>i. mret ()" 1 NULL] http_request_fits [OF l, of 100 "\<lambda>i. mret ()" 1 NULL]
    by (auto simp: h TL_CHUNK_def demo_file_def)
qed

section \<open>The tests\<close>


end
