(* ===== verification/Signals.thy ===== *)
theory Signals
  imports Alike
begin

text \<open>
  The event loop as a machine that takes one step at a time, and signals between the steps. A
  configuration is the place the loop is at and the process: before the test of the \<open>while\<close>, between the
  test and \<open>epoll_wait\<close>, in the \<open>for\<close> over the events that are still to be treated, or behind the loop.
  \<open>own\<close> is the loop's next step (a function: the loop has no choice), a \<open>turn\<close> is such a step or a call
  of the signal handler. \<open>turns\<close> is a schedule of them. Without signals the machine is
  \<open>meloop_io_loop\<close> (\<open>turns_loop\<close>); the locale \<open>stoppable\<close> is about a program whose status, once it
  asks the loop to end, is never set back.
\<close>

section \<open>The machine\<close>

datatype phase =
    Testing
  | Polling
  | Treating "(u32 \<times> ptr) list"
  | Returned int
  | Crashed fault

fun running :: "phase \<Rightarrow> bool" where
  "running (Returned r) = False"
| "running (Crashed f) = False"
| "running _ = True"

datatype action = Test | Poll | Treat | Signal

fun own :: "('k, 'u) calls \<Rightarrow> (('k, 'u) world \<Rightarrow> int) option \<Rightarrow> phase \<times> ('k, 'u) world \<Rightarrow>
    (action \<times> phase \<times> ('k, 'u) world) option" where
  "own call st (Testing, w) = Some (Test, if keeps_going st w then Polling else Returned OK, w)"
| "own call st (Polling, w) = Some (Poll, case meloop_ev_wait w of
     Inl f \<Rightarrow> (Crashed f, w)
   | Inr r \<Rightarrow> (case fst r of
       Inl e \<Rightarrow> Returned ERR
     | Inr evs \<Rightarrow> if evs = [] then Returned OK else Treating evs, snd r))"
| "own call st (Treating [], w) = Some (Treat, Testing, w)"
| "own call st (Treating (e # es), w) = Some (Treat, case handle_event call e w of
     Inl f \<Rightarrow> (Crashed f, w)
   | Inr r \<Rightarrow> (Treating es, snd r))"
| "own call st (Returned r, w) = None"
| "own call st (Crashed f, w) = None"

inductive turn :: "('k, 'u) calls \<Rightarrow> (('k, 'u) world \<Rightarrow> int) option \<Rightarrow> ('k, 'u, unit) wm \<Rightarrow>
    action \<Rightarrow> phase \<times> ('k, 'u) world \<Rightarrow> phase \<times> ('k, 'u) world \<Rightarrow> bool" for call st h where
  works: "own call st x = Some (a, y) \<Longrightarrow> turn call st h a x y"
| signal: "running ph \<Longrightarrow> h w = Inr ((), w') \<Longrightarrow> turn call st h Signal (ph, w) (ph, w')"

inductive turns :: "('k, 'u) calls \<Rightarrow> (('k, 'u) world \<Rightarrow> int) option \<Rightarrow> ('k, 'u, unit) wm \<Rightarrow>
    action list \<Rightarrow> phase \<times> ('k, 'u) world \<Rightarrow> phase \<times> ('k, 'u) world \<Rightarrow> bool" for call st h where
  none: "turns call st h [] x x"
| more: "turn call st h a x y \<Longrightarrow> turns call st h as y z \<Longrightarrow> turns call st h (a # as) x z"

inductive_cases turnE: "turn call st h a x y"
inductive_cases signalE: "turn call st h Signal x y"
inductive_simps turns_Nil [simp]: "turns call st h [] x y"
inductive_simps turns_Cons: "turns call st h (a # as) x z"

lemma turns_append: "turns call st h as x y \<Longrightarrow> turns call st h bs y z \<Longrightarrow> turns call st h (as @ bs) x z"
  by (induction rule: turns.induct) (auto intro: turns.more)

text \<open>While it is running the loop has exactly one next step of its own.\<close>

lemma own_running: "own call st (ph, w) \<noteq> None \<longleftrightarrow> running ph"
  by (cases "(call, st, ph, w)" rule: own.cases) auto

lemma own_not_Signal: "own call st x = Some (a, y) \<Longrightarrow> a \<noteq> Signal"
  by (cases "(call, st, x)" rule: own.cases) auto

lemma own_progress: "running ph \<Longrightarrow> \<exists>a y. a \<noteq> Signal \<and> turn call st h a (ph, w) y"
proof -
  assume "running ph"
  then obtain a y where "own call st (ph, w) = Some (a, y)" using own_running [of call st ph w] by auto
  with own_not_Signal turn.works show ?thesis by blast
qed

section \<open>Without signals it is \<open>meloop_io_loop\<close>\<close>

text \<open>What is still to be done from a place in the loop, with \<open>m\<close> further rounds.\<close>

fun rest_of :: "nat \<Rightarrow> ('k, 'u) calls \<Rightarrow> (('k, 'u) world \<Rightarrow> int) option \<Rightarrow> phase \<Rightarrow> ('k, 'u, int) wm" where
  "rest_of m call st Testing = meloop_io_loop m call st"
| "rest_of m call st Polling = mbind meloop_ev_wait (\<lambda>r. case r of
     Inl _ \<Rightarrow> mret ERR
   | Inr evs \<Rightarrow> if evs = [] then mret OK else mthen (handle_events call evs) (meloop_io_loop m call st))"
| "rest_of m call st (Treating evs) = mthen (handle_events call evs) (meloop_io_loop m call st)"
| "rest_of m call st (Returned r) = mret r"
| "rest_of m call st (Crashed f) = mfail f"

definition ended :: "fault + int \<times> ('k, 'u) world \<Rightarrow> phase \<times> ('k, 'u) world \<Rightarrow> bool" where
  "ended X x \<longleftrightarrow> (case X of Inl f \<Rightarrow> fst x = Crashed f | Inr r \<Rightarrow> x = (Returned (fst r), snd r))"

lemma calls_le_refl: "calls_le f f"
  by (simp add: calls_le_def less_fuel_refl)

lemma loop_more_rounds: "meloop_io_loop m call st w = X \<Longrightarrow> X \<noteq> Inl OutOfFuel \<Longrightarrow> meloop_io_loop (m + n) call st w = X"
  using less_fuel_loop [OF calls_le_refl, of m call st n] unfolding less_fuel_def by (metis)

lemma handle_events_Cons: "mthen (handle_events call (e # es)) d w =
    (case handle_event call e w of Inl f \<Rightarrow> Inl f | Inr r \<Rightarrow> mthen (handle_events call es) d (snd r))"
proof -
  have "mthen (handle_events call (e # es)) d = mthen (handle_event call e) (mthen (handle_events call es) d)"
    by (simp add: handle_events_def mthen_assoc)
  then show ?thesis by (simp add: mthen_apply [of "handle_event call e"])
qed

lemma handle_events_Nil: "mthen (handle_events call []) d w = d w"
  by (simp add: handle_events_def mdefs)

text \<open>One step of the machine is one step of the program; only the test uses up a round.\<close>

lemma own_rest:
  assumes "own call st (ph, w) = Some (a, ph', w')"
  shows "rest_of (if a = Test then Suc m else m) call st ph w = rest_of m call st ph' w'"
proof (cases ph)
  case Testing
  with assms show ?thesis by (auto simp: mdefs split: sum.splits if_splits)
next
  case Polling
  with assms show ?thesis by (auto simp: mdefs split: sum.splits if_splits)
next
  case (Treating evs)
  with assms show ?thesis
    by (cases evs) (auto simp: handle_events_Cons handle_events_Nil mfail_apply split: sum.splits)
qed (use assms in auto)

lemma turns_rest: "turns call st h as x y \<Longrightarrow> Signal \<notin> set as \<Longrightarrow> ended X y \<Longrightarrow>
    \<exists>m. rest_of m call st (fst x) (snd x) = X"
proof (induction rule: turns.induct)
  case (none x)
  then show ?case by (cases x) (auto simp: ended_def mret_apply mfail_apply split: sum.splits)
next
  case (more a x y as z)
  then obtain m where m: "rest_of m call st (fst y) (snd y) = X" by auto
  have "own call st (fst x, snd x) = Some (a, fst y, snd y)" using more.hyps(1) more.prems(1) by (auto elim: turnE)
  from own_rest [OF this, of m] m show ?case by auto
qed

text \<open>The other way round: a schedule for every result.\<close>

definition leads_to :: "('k, 'u) calls \<Rightarrow> (('k, 'u) world \<Rightarrow> int) option \<Rightarrow> ('k, 'u, unit) wm \<Rightarrow>
    phase \<times> ('k, 'u) world \<Rightarrow> fault + int \<times> ('k, 'u) world \<Rightarrow> bool" where
  "leads_to call st h x X \<longleftrightarrow> (\<exists>as y. Signal \<notin> set as \<and> turns call st h as x y \<and> ended X y)"

lemma leads_own:
  assumes "own call st x = Some (a, y)" and "leads_to call st h y X"
  shows "leads_to call st h x X"
proof -
  obtain as z where "Signal \<notin> set as" "turns call st h as y z" "ended X z"
    using assms(2) by (auto simp: leads_to_def)
  then show ?thesis
    using own_not_Signal [OF assms(1)] turns.more [OF turn.works [OF assms(1)]] unfolding leads_to_def
    by (intro exI [of _ "a # as"] exI [of _ z]) auto
qed

lemma leads_end: "ended X x \<Longrightarrow> leads_to call st h x X"
  unfolding leads_to_def by (intro exI [of _ "[]"] exI [of _ x]) simp

lemma leads_done: "case own call st x of None \<Rightarrow> False | Some r \<Rightarrow> ended X (snd r) \<Longrightarrow> leads_to call st h x X"
  by (cases "own call st x") (simp_all add: leads_own [of call st x "fst r" "snd r" for r] leads_end)

lemma leads_treating:
  assumes "\<And>w. meloop_io_loop m call st w = X \<Longrightarrow> leads_to call st h (Testing, w) X"
  shows "mthen (handle_events call evs) (meloop_io_loop m call st) w = X \<Longrightarrow> leads_to call st h (Treating evs, w) X"
proof (induction evs arbitrary: w)
  case Nil
  then have "leads_to call st h (Testing, w) X" by (intro assms) (simp add: handle_events_Nil)
  then show ?case by (rule leads_own [rotated]) simp
next
  case (Cons e evs)
  show ?case
  proof (cases "handle_event call e w")
    case (Inl f)
    with Cons.prems show ?thesis by (auto simp: handle_events_Cons ended_def intro!: leads_done)
  next
    case (Inr r)
    have "leads_to call st h (Treating evs, snd r) X"
      using Cons.prems Inr by (intro Cons.IH) (simp add: handle_events_Cons)
    then show ?thesis by (rule leads_own [rotated]) (simp add: Inr)
  qed
qed

lemma loop_leads:
  "meloop_io_loop m call st w = X \<Longrightarrow> X \<noteq> Inl OutOfFuel \<Longrightarrow> leads_to call st h (Testing, w) X"
proof (induction m arbitrary: w)
  case 0
  then show ?case by (auto simp: mfail_apply)
next
  case (Suc m)
  show ?case
  proof (cases "keeps_going st w")
    case False
    with Suc.prems show ?thesis by (auto simp: mdefs ended_def intro!: leads_done)
  next
    case True
    have "leads_to call st h (Polling, w) X"
    proof (cases "meloop_ev_wait w")
      case (Inl f)
      with Suc.prems True show ?thesis by (auto simp: mdefs ended_def intro!: leads_done)
    next
      case (Inr r)
      obtain q w' where r: "r = (q, w')" by (cases r)
      consider (bad) "\<exists>e. q = Inl e" | (empty) "q = Inr []" | (evs) evs where "q = Inr evs" "evs \<noteq> []"
        by (cases q) auto
      then show ?thesis
      proof cases
        case evs
        have "mthen (handle_events call evs) (meloop_io_loop m call st) w' = X"
          using Suc.prems(1) True Inr r evs by (simp add: mbind_apply mgets_apply)
        then have "leads_to call st h (Treating evs, w') X"
          by (rule leads_treating [rotated]) (rule Suc.IH [OF _ Suc.prems(2)])
        then show ?thesis by (rule leads_own [rotated]) (simp add: Inr r evs)
      qed (use Suc.prems(1) True Inr r in \<open>auto simp: mdefs ended_def intro!: leads_done\<close>)
    qed
    then show ?thesis by (rule leads_own [rotated]) (simp add: True)
  qed
qed

theorem turns_loop:
  assumes "X \<noteq> Inl OutOfFuel"
  shows "(\<exists>m. meloop_io_loop m call st w = X) \<longleftrightarrow>
    (\<exists>as y. Signal \<notin> set as \<and> turns call st h as (Testing, w) y \<and> ended X y)"
  using loop_leads [OF _ assms, of _ call st w h] turns_rest [of call st h _ "(Testing, w)" _ X]
  by (auto simp: leads_to_def)

section \<open>Invariants under every schedule\<close>

fun phase_inv :: "(ptr list \<Rightarrow> ('k, 'u) world \<Rightarrow> bool) \<Rightarrow> (fault \<Rightarrow> bool) \<Rightarrow> phase \<times> ('k, 'u) world \<Rightarrow> bool" where
  "phase_inv P F (Treating evs, w) = P (map snd evs) w"
| "phase_inv P F (Crashed f, w) = F f"
| "phase_inv P F (Testing, w) = P [] w"
| "phase_inv P F (Polling, w) = P [] w"
| "phase_inv P F (Returned r, w) = P [] w"

context loop_invariant
begin

lemma own_inv:
  assumes call: "\<And>ps i. keep (P ps) F (call i)" and "phase_inv P F (ph, w)"
    and own: "own call st (ph, w) = Some (a, y)"
  shows "phase_inv P F y"
proof (cases ph)
  case Polling
  then show ?thesis using waited [of w] assms(2) own by (auto split: sum.splits)
next
  case (Treating evs)
  then show ?thesis
  proof (cases evs)
    case (Cons e es)
    then have P: "P (snd e # map snd es) w" using Treating assms(2) by simp
    have "case handle_event call e w of Inl f \<Rightarrow> F f | Inr r \<Rightarrow> P (map snd es) (snd r)"
      using event [OF call P, where m = "fst e"] by simp
    then show ?thesis using Treating Cons own by (auto split: sum.splits)
  qed (use Treating assms(2) own in auto)
qed (use assms(2) own in auto)

lemma turns_inv:
  assumes call: "\<And>ps i. keep (P ps) F (call i)" and handler: "\<And>ps. keep (P ps) F h"
  shows "turns call st h as x y \<Longrightarrow> phase_inv P F x \<Longrightarrow> phase_inv P F y"
proof (induction rule: turns.induct)
  case (more a x y as z)
  from more.hyps(1) have "phase_inv P F y"
  proof (cases rule: turn.cases)
    case works
    then show ?thesis using own_inv [OF call, of "fst x" "snd x"] more.prems by simp
  next
    case (signal ph w w')
    then show ?thesis using more.prems keepD_Inr [OF handler] by (cases ph) auto
  qed
  then show ?case by (rule more.IH)
qed simp

end

section \<open>Programs that a signal stops\<close>

text \<open>How many steps the loop makes at most once its status asks it to end.\<close>

fun steps_left :: "phase \<Rightarrow> nat" where
  "steps_left Testing = 1"
| "steps_left (Treating evs) = length evs + 2"
| "steps_left Polling = EV_MAXEVENTS + 3"
| "steps_left (Returned r) = 0"
| "steps_left (Crashed f) = 0"

lemma wait_at_most: "meloop_ev_wait w = Inr (Inr evs, w') \<Longrightarrow> length evs \<le> EV_MAXEVENTS"
  by (auto simp: meloop_ev_wait_def mdefs split: sum.splits if_splits)

lemma wait_usr: "meloop_ev_wait w = Inr (r, w') \<Longrightarrow> usr w' = usr w"
  by (auto simp: meloop_ev_wait_def mdefs syscall_def Let_def split: sum.splits if_splits prod.splits)

locale stoppable =
  fixes call :: "('k, 'u) calls" and status :: "'u \<Rightarrow> int" and h :: "('k, 'u, unit) wm"
  assumes event_stopped: "status (usr w) \<le> EXIT_FAILURE \<Longrightarrow> handle_event call e w = Inr ((), w') \<Longrightarrow>
      status (usr w') \<le> EXIT_FAILURE"
    and handler_stops: "h w = Inr ((), w') \<Longrightarrow> status (usr w') \<le> EXIT_FAILURE"
begin

lemma own_stopped:
  assumes "own call (Some (\<lambda>w. status (usr w))) (ph, w) = Some (a, ph', w')" and "status (usr w) \<le> EXIT_FAILURE"
  shows "status (usr w') \<le> EXIT_FAILURE" and "Suc (steps_left ph') \<le> steps_left ph"
    and "ph' \<noteq> Polling" and "a = Poll \<longleftrightarrow> ph = Polling"
proof -
  consider (test) "ph = Testing" | (poll) "ph = Polling" | (round_done) "ph = Treating []"
    | (treat) e es where "ph = Treating (e # es)" | (over) "\<not> running ph"
  proof (cases ph)
    case (Treating evs)
    with that show thesis by (cases evs) auto
  qed (use that in auto)
  then have "status (usr w') \<le> EXIT_FAILURE \<and> Suc (steps_left ph') \<le> steps_left ph \<and> ph' \<noteq> Polling \<and> (a = Poll \<longleftrightarrow> ph = Polling)"
  proof cases
    case poll
    then show ?thesis using assms wait_usr [of w] wait_at_most [of w]
      by (cases "meloop_ev_wait w") (auto split: sum.splits if_splits)
  next
    case treat
    then show ?thesis using assms event_stopped [where w = w and e = e] by (cases "handle_event call e w") auto
  next
    case over
    then show ?thesis using assms(1) own_running by (metis option.distinct(1))
  qed (use assms in \<open>auto simp: keeps_going_def\<close>)
  then show "status (usr w') \<le> EXIT_FAILURE" and "Suc (steps_left ph') \<le> steps_left ph"
    and "ph' \<noteq> Polling" and "a = Poll \<longleftrightarrow> ph = Polling" by simp_all
qed

lemma turns_stopped:
  "turns call (Some (\<lambda>w. status (usr w))) h as (ph, w) (ph', w') \<Longrightarrow> status (usr w) \<le> EXIT_FAILURE \<Longrightarrow>
    status (usr w') \<le> EXIT_FAILURE \<and> length (filter (\<lambda>a. a \<noteq> Signal) as) + steps_left ph' \<le> steps_left ph \<and>
    length (filter (\<lambda>a. a = Poll) as) \<le> of_bool (ph = Polling)"
proof (induction as arbitrary: ph w)
  case (Cons a as)
  then obtain ph1 w1 where t: "turn call (Some (\<lambda>w. status (usr w))) h a (ph, w) (ph1, w1)"
    and r: "turns call (Some (\<lambda>w. status (usr w))) h as (ph1, w1) (ph', w')" by (auto simp: turns_Cons)
  from t show ?case
  proof (cases rule: turn.cases)
    case works
    note own_stopped [OF works Cons.prems(2)]
    moreover have "a \<noteq> Signal" by (rule own_not_Signal [OF works])
    ultimately show ?thesis using Cons.IH [OF r] by (auto split: if_splits)
  next
    case signal
    then show ?thesis using Cons.IH [OF r] handler_stops by auto
  qed
qed auto

end

end
