(* ===== verification/Signal_Properties.thy ===== *)
theory Signal_Properties
  imports Signals Echo_Server Echo_Client Tls_Client Demo_States
begin

text \<open>
  The properties about signals: the event loop under every schedule of its own steps and the calls of the
  signal handler.
\<close>

section \<open>The handlers\<close>

interpretation echo_signalled: stoppable "exec echo_program d" es_status echo_sighandler
proof
  fix w w' :: "('k, echo) world" and e
  assume "es_status (usr w) \<le> EXIT_FAILURE" "handle_event (exec echo_program d) e w = Inr ((), w')"
  then show "es_status (usr w') \<le> EXIT_FAILURE"
    by (rule agrees_both [OF echo_stopped.event_agrees])
qed (auto simp: echo_sighandler_def on_usr_def mdefs EXIT_FAILURE_def)

interpretation client_signalled: stoppable "exec client_program d" ec_status client_sighandler
proof
  fix w w' :: "('k, client) world" and e
  assume "ec_status (usr w) \<le> EXIT_FAILURE" "handle_event (exec client_program d) e w = Inr ((), w')"
  then show "ec_status (usr w') \<le> EXIT_FAILURE"
    by (rule agrees_both [OF client_stopped.event_agrees])
qed (auto simp: client_sighandler_def on_usr_def mthen_Inr_iff mdefs EXIT_FAILURE_def split: sum.splits)

interpretation https_signalled: stoppable "exec https_program d" tl_status tls_sighandler
proof
  fix w w' :: "('k, https) world" and e
  assume "tl_status (usr w) \<le> EXIT_FAILURE" "handle_event (exec https_program d) e w = Inr ((), w')"
  then show "tl_status (usr w') \<le> EXIT_FAILURE"
    by (rule agrees_both [OF https_stopped.event_agrees])
qed (auto simp: tls_sighandler_def on_usr_def mthen_Inr_iff mdefs EXIT_FAILURE_def split: sum.splits)

section \<open>Schedules\<close>




text \<open>C19: Whenever signals arrive, between whatever steps of the loop, and whatever the handler does if it
  keeps to the event module, no bag is used after it was freed; when the loop has returned what epoll knows
  leads to live bags.\<close>

theorem signals_respect_bags:
  assumes "\<forall>ps. kept_program (epoll_inv interest ps) (\<lambda>f. \<not> bag_fault f) u"
    and "\<forall>ps. keep (epoll_inv interest ps) (\<lambda>f. \<not> bag_fault f) h" and "epoll_inv interest [] w"
    and "turns (exec u depth) status h as (Testing, w) (ph, w')"
  shows "case ph of Crashed f \<Rightarrow> \<not> bag_fault f
    | Treating evs \<Rightarrow> epoll_inv interest (map snd evs) w'
    | _ \<Rightarrow> epoll_inv interest [] w'"
proof -
  have "phase_inv (epoll_inv interest) (\<lambda>f. \<not> bag_fault f) (ph, w')"
    by (rule epl_loop.turns_inv [OF kept_program.exec_keeps _ assms(4)]) (use assms(1-3) in auto)
  then show ?thesis by (cases ph) auto
qed

lemma keep_echo_sighandler: "keep (epoll_inv interest ps) (\<lambda>f. \<not> bag_fault f) echo_sighandler"
  unfolding echo_sighandler_def by (rule epl.keep_on_usr)

definition demo_idle_echo :: "int \<Rightarrow> (demo, echo) world" where
  "demo_idle_echo st = demo_world demo_start \<lparr>es_status = st, es_worker = NULL, es_clients = 0\<rparr>"

lemma signals_respect_bags_witness: "epoll_inv demo_interest [] (demo_idle_echo 0)"
proof -
  have "turns (exec echo_program 9) (Some (\<lambda>w. es_status (usr w))) echo_sighandler [Signal, Test]
      (Testing, demo_idle_echo WORKING) (Returned OK, demo_idle_echo 0)"
    by (intro turns.more [OF turn.signal] turns.more [OF turn.works] turns.none)
      (auto simp: echo_sighandler_def on_usr_def mdefs demo_idle_echo_def keeps_going_def EXIT_FAILURE_def demo_world_def)
  moreover have "epoll_inv demo_interest [] (demo_idle_echo WORKING)"
    unfolding demo_idle_echo_def by (rule demo_epoll_inv) (simp add: demo_start_def)
  ultimately show ?thesis
    using signals_respect_bags [where u = echo_program and h = echo_sighandler] echo_kept keep_echo_sighandler by fastforce
qed

text \<open>C20: Once a signal has made the status of the echo server zero, or an error has made it a failure, the
  loop takes at most the steps that are left of its round: it never goes back to \<open>epoll_wait\<close>, and is over
  after at most 19 further steps, however many signals arrive; until then it can always take a step.\<close>

theorem signal_stops_server:
  assumes "turns (exec echo_program depth) (Some (\<lambda>w. es_status (usr w))) echo_sighandler as (ph, w) (ph', w')"
    and "es_status (usr w) \<le> EXIT_FAILURE"
  shows "length (filter (\<lambda>a. a \<noteq> Signal) as) \<le>
      (case ph of Testing \<Rightarrow> 1 | Treating evs \<Rightarrow> length evs + 2 | Polling \<Rightarrow> 19 | _ \<Rightarrow> 0) \<and>
    length (filter (\<lambda>a. a = Poll) as) \<le> (if ph = Polling then 1 else 0) \<and>
    (running ph' \<longrightarrow> (\<exists>a y. a \<noteq> Signal \<and>
      turn (exec echo_program depth) (Some (\<lambda>w. es_status (usr w))) echo_sighandler a (ph', w') y))"
proof (intro conjI impI)
  note s = echo_signalled.turns_stopped [OF assms]
  have "steps_left ph = (case ph of Testing \<Rightarrow> 1 | Treating evs \<Rightarrow> length evs + 2 | Polling \<Rightarrow> 19 | _ \<Rightarrow> 0)"
    by (cases ph) (simp_all add: EV_MAXEVENTS_def)
  then show "length (filter (\<lambda>a. a \<noteq> Signal) as) \<le>
      (case ph of Testing \<Rightarrow> 1 | Treating evs \<Rightarrow> length evs + 2 | Polling \<Rightarrow> 19 | _ \<Rightarrow> 0)"
    using s by linarith
  show "length (filter (\<lambda>a. a = Poll) as) \<le> (if ph = Polling then 1 else 0)"
    using s by (cases "ph = Polling") simp_all
qed (rule own_progress)

text \<open>A bag waits on descriptor 9, and the status is still \<open>WORKING\<close>.\<close>

definition demo_served :: "(demo, echo) world" where
  "demo_served = (demo_world demo_start \<lparr>es_status = WORKING, es_worker = NULL, es_clients = 0\<rparr>)
     \<lparr>bagh := \<lparr>cells = [1 \<mapsto> demo_bag], brk = 2\<rparr>,
      ev := \<lparr>epfd = 3, epflags = EPOLLONESHOT, waitingbags = 1, bags = 1 # replicate 15 NULL\<rparr>\<rparr>"

definition demo_stopped :: "(demo, echo) world" where
  "demo_stopped = demo_served\<lparr>usr := (usr demo_served)\<lparr>es_status := 0\<rparr>\<rparr>"

lemma demo_signal: "turn call st echo_sighandler Signal (Polling, demo_served) (Polling, demo_stopped)"
  by (rule turn.signal) (simp_all add: echo_sighandler_def on_usr_def mdefs demo_stopped_def)

lemma demo_second_signal: "turns call st echo_sighandler [Signal] (Polling, demo_stopped) (Polling, demo_stopped)"
  by (rule turns.more [OF turn.signal turns.none])
    (simp_all add: echo_sighandler_def on_usr_def mdefs demo_stopped_def)

lemma signal_stops_server_witness:
  "\<exists>a y. a \<noteq> Signal \<and> turn (exec echo_program 9) (Some (\<lambda>w. es_status (usr w))) echo_sighandler a (Polling, demo_stopped) y"
proof -
  have "es_status (usr demo_stopped) \<le> EXIT_FAILURE" by (simp add: demo_stopped_def EXIT_FAILURE_def)
  from signal_stops_server [OF demo_second_signal this] show ?thesis by simp
qed



text \<open>C22: The moment of a signal does not matter to what an event does: the handling of an event is the same,
  system call for system call, whatever the status is before it, and leaves the status alone or makes it
  a failure.\<close>

theorem signal_moment_irrelevant:
  "case handle_event (exec echo_program depth) e w of
     Inl f \<Rightarrow> handle_event (exec echo_program depth) e (w\<lparr>usr := (usr w)\<lparr>es_status := n\<rparr>\<rparr>) = Inl f
   | Inr (_, w') \<Rightarrow>
       es_status (usr w') = es_status (usr w) \<and>
         handle_event (exec echo_program depth) e (w\<lparr>usr := (usr w)\<lparr>es_status := n\<rparr>\<rparr>)
           = Inr ((), w'\<lparr>usr := (usr w')\<lparr>es_status := n\<rparr>\<rparr>) \<or>
       es_status (usr w') = EXIT_FAILURE \<and>
         handle_event (exec echo_program depth) e (w\<lparr>usr := (usr w)\<lparr>es_status := n\<rparr>\<rparr>) = Inr ((), w')"
proof -
  have "apart es_status (\<lambda>st v. v\<lparr>es_status := st\<rparr>) (es_status (usr w)) n (usr w) ((usr w)\<lparr>es_status := n\<rparr>)"
    by (simp add: apart_def)
  from agreesD [OF echo_apart.event_agrees this, of depth e] show ?thesis
    by (cases "handle_event (exec echo_program depth) e w") (auto simp: apart_def)
qed

end
