(* ===== verification/Waiting.thy ===== *)
theory Waiting
  imports Flow
begin

text \<open>
  Parking and waking up, as functions on processes. \<open>parked\<close> is the process after a circuit was parked,
  \<open>woken\<close> the one after its bag was taken out of the table; \<open>waits_for\<close> says that a bag is in the
  table. The lemmas give \<open>waitA\<close> on the two ways through \<open>meloop_ev_arm\<close> that succeed, and an ordinary
  event.
\<close>

section \<open>Parking\<close>

definition waiting_bag :: "int \<Rightarrow> ptr \<Rightarrow> ptr \<Rightarrow> ptr \<Rightarrow> bagS" where
  "waiting_bag fd c s d = \<lparr>b_fd = fd, b_circuit = c, b_state = s, b_data = d\<rparr>"

lemma waiting_bag_simps [simp]:
  "b_fd (waiting_bag fd c s d) = fd" "b_circuit (waiting_bag fd c s d) = c"
  "b_state (waiting_bag fd c s d) = s" "b_data (waiting_bag fd c s d) = d"
  by (simp_all add: waiting_bag_def)

definition parked :: "bagS \<Rightarrow> sysev list \<Rightarrow> int \<Rightarrow> 'k \<Rightarrow> ('k, 'u) world \<Rightarrow> ('k, 'u) world" where
  "parked b calls en k w = w\<lparr>kern := k, bagh := snd (new_cell b (bagh w)),
     ev := snd (bags_remember (brk (bagh w)) (ev w)), trace := trace w @ calls, errno := en\<rparr>"

lemma remember_statics [simp]:
  "epfd (snd (bags_remember p e)) = epfd e" "epflags (snd (bags_remember p e)) = epflags e"
  by (simp_all add: bags_remember_def split: option.split)

lemma forget_statics [simp]:
  "epfd (bags_forget p e) = epfd e" "epflags (bags_forget p e) = epflags e"
  by (simp_all add: bags_forget_def bags_clear_def split: option.split)

lemma parked_simps [simp]:
  "kern (parked b cs en k w) = k" "w_os (parked b cs en k w) = w_os w"
  "trace (parked b cs en k w) = trace w @ cs" "errno (parked b cs en k w) = en"
  "elems (parked b cs en k w) = elems w" "circs (parked b cs en k w) = circs w"
  "objs (parked b cs en k w) = objs w" "blobs (parked b cs en k w) = blobs w"
  "usr (parked b cs en k w) = usr w" "obj_as (parked b cs en k w) cast p = obj_as w cast p"
  "epfd (ev (parked b cs en k w)) = epfd (ev w)" "epflags (ev (parked b cs en k w)) = epflags (ev w)"
  "bagh (parked b cs en k w) = snd (new_cell b (bagh w))"
  "ev (parked b cs en k w) = snd (bags_remember (brk (bagh w)) (ev w))"
  "logging_fd (parked b cs en k w) = logging_fd w" "verbosity (parked b cs en k w) = verbosity w"
  by (simp_all add: parked_def obj_as_def)

text \<open>epoll knows the descriptor already: one call.\<close>

lemma waitA_known:
  assumes "os_malloc (w_os w) (kern w) = (True, k)"
    and "os_epoll_ctl (w_os w) (epfd (ev w)) EPOLL_CTL_MOD fd (epflags (ev w) OR (op OR fl)) (brk (bagh w)) k = (Inr (), k')"
  shows "waitA call c s d fd op fl w =
    Inr ((), parked (waiting_bag fd c s d) [SysEpollCtl EPOLL_CTL_MOD fd] (errno w) k' w)"
  using meloop_bag_new_eq [OF assms(1), of fd c s d] assms(2)
  by (simp add: waitA_def mdefs meloop_ev_arm_def load_bag_def get_cell_Some epoll_ctl_def syscall_def res0_def
      OK_def parked_def waiting_bag_def)

text \<open>It does not: \<open>EPOLL_CTL_MOD\<close> fails with \<open>ENOENT\<close>, and a second call adds it.\<close>

lemma waitA_added:
  assumes "os_malloc (w_os w) (kern w) = (True, k)"
    and "os_epoll_ctl (w_os w) (epfd (ev w)) EPOLL_CTL_MOD fd (epflags (ev w) OR (op OR fl)) (brk (bagh w)) k = (Inl ENOENT, k')"
    and "os_epoll_ctl (w_os w) (epfd (ev w)) EPOLL_CTL_ADD fd (epflags (ev w) OR (op OR fl)) (brk (bagh w)) k' = (Inr (), k'')"
  shows "waitA call c s d fd op fl w =
    Inr ((), parked (waiting_bag fd c s d) [SysEpollCtl EPOLL_CTL_MOD fd, SysEpollCtl EPOLL_CTL_ADD fd] 0 k'' w)"
  using meloop_bag_new_eq [OF assms(1), of fd c s d] assms(2,3)
  by (simp add: waitA_def mdefs meloop_ev_arm_def load_bag_def get_cell_Some epoll_ctl_def syscall_def res0_def
      set_errno_def OK_def parked_def waiting_bag_def)

section \<open>Waking up\<close>

definition woken :: "ptr \<Rightarrow> ('k, 'u) world \<Rightarrow> ('k, 'u) world" where
  "woken p w = w\<lparr>bagh := del_cell p (bagh w), ev := bags_forget p (ev w)\<rparr>"

lemma woken_simps [simp]:
  "kern (woken p w) = kern w" "w_os (woken p w) = w_os w" "trace (woken p w) = trace w"
  "errno (woken p w) = errno w" "elems (woken p w) = elems w" "circs (woken p w) = circs w"
  "objs (woken p w) = objs w" "blobs (woken p w) = blobs w" "usr (woken p w) = usr w"
  "obj_as (woken p w) cast q = obj_as w cast q"
  "epfd (ev (woken p w)) = epfd (ev w)" "epflags (ev (woken p w)) = epflags (ev w)"
  "bagh (woken p w) = del_cell p (bagh w)" "ev (woken p w) = bags_forget p (ev w)"
  "logging_fd (woken p w) = logging_fd w" "verbosity (woken p w) = verbosity w"
  by (simp_all add: woken_def obj_as_def)

definition waits_for :: "bagS \<Rightarrow> ptr \<Rightarrow> ('k, 'u) world \<Rightarrow> bool" where
  "waits_for b p w \<longleftrightarrow> p \<in> registered (ev w) \<and> cells (bagh w) p = Some b"

text \<open>An event that is neither a hang-up nor an error.\<close>

definition plain_event :: "u32 \<Rightarrow> bool" where
  "plain_event m \<longleftrightarrow> m AND EPOLLRDHUP = 0 \<and> m AND EPOLLERR = 0"

lemma EPOLLIN_plain [simp]: "plain_event EPOLLIN"
  by (simp add: plain_event_def EPOLLIN_def EPOLLRDHUP_def EPOLLERR_def)

lemma handle_plain:
  assumes "ev_ok w" and "waits_for b p w" and "plain_event m"
  shows "handle_event call (m, p) w = runA call (b_circuit b) (b_state b) (b_data b) (woken p w)"
  using assms registered_live [of w p]
  by (simp add: handle_event_def mdefs load_bag_def get_cell_Some meloop_bag_free_eq waits_for_def plain_event_def
      woken_def)

section \<open>The table\<close>

lemma table_frame:
  assumes "ev w' = ev w" and "bagh w' = bagh w"
  shows "ev_ok w' = ev_ok w" and "waits_for b p w' = waits_for b p w"
  using assms by (simp_all add: ev_ok_def waits_for_def)

lemma woken_table:
  assumes "ev_ok w" and "waits_for b p w"
  shows "ev_ok (woken p w)" and "registered (ev (woken p w)) = registered (ev w) - {p}"
    and "card (registered (ev (woken p w))) < EV_MAXEVENTS" and "waitingbags (ev (woken p w)) = waitingbags (ev w) - 1"
proof -
  have t: "table_ok (ev w)" and p: "p \<in> registered (ev w)" "p \<noteq> NULL"
    using assms registered_live [OF assms(1), of p] by (auto simp: ev_ok_def waits_for_def)
  show "ev_ok (woken p w)" unfolding woken_def by (rule ev_ok_bag_free [OF assms(1) p(2)])
  show r: "registered (ev (woken p w)) = registered (ev w) - {p}" using reg.forget_members [OF t p(2)] by simp
  show "waitingbags (ev (woken p w)) = waitingbags (ev w) - 1" using reg.forget_count [OF t p(2)] p(1) by simp
  have "card (registered (ev w) - {p}) < card (registered (ev w))"
    by (rule card_Diff1_less [OF reg.fin [OF t] p(1)])
  then show "card (registered (ev (woken p w))) < EV_MAXEVENTS" using r reg.bounded [OF t] by simp
qed

lemma parked_table:
  assumes "ev_ok w" and "card (registered (ev w)) < EV_MAXEVENTS"
  shows "ev_ok (parked b cs en k w)" and "registered (ev (parked b cs en k w)) = insert (brk (bagh w)) (registered (ev w))"
    and "waits_for b (brk (bagh w)) (parked b cs en k w)" and "waitingbags (ev (parked b cs en k w)) = waitingbags (ev w) + 1"
    and "brk (bagh w) \<notin> registered (ev w)"
proof -
  have t: "table_ok (ev w)" using assms(1) by (simp add: ev_ok_def)
  note f = fresh_bag [OF assms(1)]
  then show "brk (bagh w) \<notin> registered (ev w)" by simp
  have "ev_ok (w\<lparr>kern := k, bagh := snd (new_cell b (bagh w)), ev := snd (bags_remember (brk (bagh w)) (ev w))\<rparr>)"
    by (rule ev_ok_bag_new [OF assms(1)])
  then show "ev_ok (parked b cs en k w)" by (simp add: ev_ok_def)
  show r: "registered (ev (parked b cs en k w)) = insert (brk (bagh w)) (registered (ev w))"
    using reg.remember_room [OF t assms(2), of "brk (bagh w)"] f by simp
  then show "waits_for b (brk (bagh w)) (parked b cs en k w)" by (simp add: waits_for_def)
  have "waitingbags (ev w) < int EV_MAXEVENTS" using assms(2) reg.count_card [OF t] by simp
  then show "waitingbags (ev (parked b cs en k w)) = waitingbags (ev w) + 1"
    using reg.remember_count [OF t, of "brk (bagh w)"] f by simp
qed

text \<open>Other bags stay.\<close>

lemma waits_woken: "ev_ok w \<Longrightarrow> p \<noteq> NULL \<Longrightarrow> waits_for b q w \<Longrightarrow> q \<noteq> p \<Longrightarrow> waits_for b q (woken p w)"
  using reg.forget_members [of "ev w" p] by (simp add: waits_for_def ev_ok_def)

lemma waits_parked:
  assumes "ev_ok w" and "card (registered (ev w)) < EV_MAXEVENTS" and "waits_for b q w"
  shows "waits_for b q (parked b' cs en k w)"
  using parked_table [OF assms(1,2)] assms(3) by (auto simp: waits_for_def)

lemma waits_not_NULL: "ev_ok w \<Longrightarrow> waits_for b p w \<Longrightarrow> p \<noteq> NULL"
  using registered_live [of w p] by (simp add: waits_for_def)

section \<open>Hang-ups\<close>

text \<open>An event that is not plain, on a bag that waits.\<close>

lemma handle_broken:
  assumes "ev_ok w" and "waits_for b p w" and "\<not> plain_event m"
    and "os_epoll_ctl (w_os w) (epfd (ev w)) EPOLL_CTL_DEL (b_fd b) 0 NULL (kern w) = (r1, k1)"
    and "os_close (w_os w) (b_fd b) k1 = (r2, k2)"
  shows "\<exists>en. handle_event call (m, p) w = errorA call (b_circuit b) (b_state b) (b_data b)
      (Some (if m AND EPOLLRDHUP \<noteq> 0 then ''Remote hanged up'' else ''Connection Error''))
      ((woken p w)\<lparr>kern := k2, trace := trace w @ [SysEpollCtl EPOLL_CTL_DEL (b_fd b), SysClose (b_fd b)], errno := en\<rparr>)"
proof -
  have p: "cells (bagh w) p = Some b" "p \<in> registered (ev w)" "p \<noteq> NULL"
    using assms(2) waits_not_NULL [OF assms(1,2)] by (simp_all add: waits_for_def)
  have free: "mthen (meloop_bag_free p) d w = d (woken p w)" for d :: "('a, 'b, unit) wm"
    using meloop_bag_free_eq [of w p] assms(1) p by (simp add: mthen_apply woken_def)
  have gone: "mbind (meloop_ev_dearm (b_fd b)) (\<lambda>_. mbind (sys_close (b_fd b)) (\<lambda>_. d)) (woken p w) =
      d ((woken p w)\<lparr>kern := k2, trace := trace w @ [SysEpollCtl EPOLL_CTL_DEL (b_fd b), SysClose (b_fd b)],
        errno := (case r2 of Inl e \<Rightarrow> e | Inr _ \<Rightarrow> case r1 of Inl e \<Rightarrow> e | Inr _ \<Rightarrow> errno w)\<rparr>)" for d :: "('a, 'b, unit) wm"
    using assms(4,5) by (simp add: meloop_ev_dearm_def mdefs epoll_ctl_def sys_close_def syscall_def OK_def split: sum.split)
  have "mbind (load_bag p) g w = g b w" for g :: "bagS \<Rightarrow> ('a, 'b, unit) wm"
    using p(1) by (simp add: mbind_apply load_bag_def mlift_apply get_cell_Some)
  then have "handle_event call (m, p) w = mthen (meloop_bag_free p) (mbind (meloop_ev_dearm (b_fd b)) (\<lambda>_. mbind (sys_close (b_fd b))
      (\<lambda>_. errorA call (b_circuit b) (b_state b) (b_data b)
        (Some (if m AND EPOLLRDHUP \<noteq> 0 then ''Remote hanged up'' else ''Connection Error''))))) w"
    using assms(3) by (simp add: handle_event_def plain_event_def)
  then show ?thesis unfolding free gone by blast
qed

section \<open>The log\<close>

text \<open>What printing does to the kernel, and to the process.\<close>

definition shown :: "'k os \<Rightarrow> int \<Rightarrow> string list \<Rightarrow> 'k \<Rightarrow> 'k" where
  "shown os fd ts k = fold (\<lambda>t k. snd (os_dprintf os fd t k)) ts k"

definition logged :: "string list \<Rightarrow> ('k, 'u) world \<Rightarrow> ('k, 'u) world" where
  "logged ts w = w\<lparr>kern := shown (w_os w) (logging_fd w) ts (kern w), trace := trace w @ map (SysPrint (logging_fd w)) ts\<rparr>"

lemma log_print_then:
  assumes "log_works (w_os w) (logging_fd w)"
  shows "mthen (log_print t) d w = d (logged [t] w)"
proof -
  have "os_dprintf (w_os w) (logging_fd w) t (kern w) = (Inr (), snd (os_dprintf (w_os w) (logging_fd w) t (kern w)))"
    using assms by (metis log_works_def prod.collapse)
  from syscall_Inr [of "\<lambda>os. os_dprintf os (logging_fd w) t" w, OF this, of "SysPrint (logging_fd w) t"] show ?thesis
    by (simp add: log_print_def dprintf_def mdefs logged_def shown_def after_call_def)
qed

lemma logged_simps [simp]:
  "w_os (logged ts w) = w_os w" "logging_fd (logged ts w) = logging_fd w" "verbosity (logged ts w) = verbosity w"
  "kern (logged ts w) = shown (w_os w) (logging_fd w) ts (kern w)" "trace (logged ts w) = trace w @ map (SysPrint (logging_fd w)) ts"
  "objs (logged ts w) = objs w" "blobs (logged ts w) = blobs w" "usr (logged ts w) = usr w" "ev (logged ts w) = ev w"
  "bagh (logged ts w) = bagh w" "elems (logged ts w) = elems w" "circs (logged ts w) = circs w" "errno (logged ts w) = errno w"
  by (simp_all add: logged_def)

lemma logged_nil: "logged [] w = w"
  by (simp add: logged_def shown_def)

lemma logged_logged [simp]: "logged ts (logged us w) = logged (us @ ts) w"
  by (simp add: logged_def shown_def)

text \<open>A line of the log.\<close>

definition log_line :: "logging_verbosity \<Rightarrow> string \<Rightarrow> int \<Rightarrow> string \<Rightarrow> string \<Rightarrow> string list \<Rightarrow> string list" where
  "log_line level file line func msg reason = [log_header level file line func, '' '', msg] @ reason @ [''\<newline>'']"

lemma logging_log_then:
  assumes "log_works (w_os w) (logging_fd w)" and "level \<le> verbosity w"
  shows "mthen (logging_log level file line func (Some msg)) d w =
    d (logged (log_line level file line func msg (log_errno level w)) w)"
proof -
  have why: "mthen (log_reason level) d v = d (logged (log_errno level v) v)"
    if w: "log_works (w_os v) (logging_fd v)" for d :: "('a, 'b, 'c) wm" and v
  proof (cases "errno v \<noteq> 0 \<and> (level = LOGGING_ERROR \<or> level = LOGGING_WARNING)")
    case True
    then have "mthen (log_reason level) d v = mthen (log_print ('' -- '' @ os_strerror (w_os v) (errno v) @ ''. errno: '' @ dec_int (errno v))) d v"
      by (auto simp: log_reason_def mthen_mbind mgets_bind)
    then show ?thesis using True by (simp only: log_print_then [OF w] log_errno_def if_True simp_thms)
  next
    case False
    then show ?thesis by (auto simp: log_reason_def log_errno_def mthen_mbind mgets_bind mthen_ret logged_nil)
  qed
  have same: "log_errno level (logged ts w) = log_errno level w" for ts by (simp add: log_errno_def)
  have "mthen (logging_log level file line func (Some msg)) d w = mthen (log_print (log_header level file line func))
      (mthen (log_print '' '') (mthen (log_print msg) (mthen (log_reason level) (mthen (log_print ''\<newline>'') d)))) w"
    using leD [OF assms(2)] by (simp add: logging_log_def mthen_mbind mthen_assoc mgets_bind mthen_ret)
  then show ?thesis using assms(1) by (simp add: log_print_then why same log_line_def)
qed

lemma log_errno_info [simp]: "log_errno LOGGING_INFO w = []"
  by (simp add: log_errno_def)

end
