(* ===== verification/Echo_Service.thy ===== *)
theory Echo_Service
  imports Echo_Server Waiting Setup
begin

text \<open>
  What the echo server does for the people outside, as a machine of its own: who waits for an event, how
  many clients are counted, the next addresses the process hands out, and the state of the kernel. The
  relations say what the kernel answers and what becomes of the service: \<open>burst\<close> are the messages of one
  client, \<open>talk\<close> what a client does until the server waits for it again or it is gone, \<open>arrivals\<close> the
  connections that are waiting to be accepted, \<open>attend\<close> an event and \<open>session\<close> a number of rounds of the
  event loop. Each collects the messages, with the descriptor they came from. The number in front is the
  call depth that is at hand.
\<close>

section \<open>The service\<close>

record peer =
  pr_conn :: ptr \<comment> \<open>its \<open>struct tcpconnS\<close>, string and buffer\<close>
  pr_data :: ptr
  pr_blob :: ptr
  pr_fd :: int
  pr_addr :: sockaddr

datatype waiter = Acceptor | Client peer

record 'k service =
  se_tab :: "ptr \<Rightarrow> waiter option" \<comment> \<open>who waits, by the address of the bag\<close>
  se_bag :: ptr \<comment> \<open>the next addresses\<close>
  se_obj :: ptr
  se_blob :: ptr
  se_count :: u32
  se_kern :: 'k

text \<open>Descriptors, the flags of epoll and the log.\<close>

record door =
  dr_lfd :: int
  dr_epfd :: int
  dr_flags :: u32
  dr_log :: int

definition asleep :: "waiter \<Rightarrow> 'k \<Rightarrow> 'k service \<Rightarrow> 'k service" where
  "asleep x k \<sigma> = \<sigma>\<lparr>se_tab := (se_tab \<sigma>)(se_bag \<sigma> \<mapsto> x), se_bag := Suc (se_bag \<sigma>), se_kern := k\<rparr>"

definition awake :: "ptr \<Rightarrow> 'k service \<Rightarrow> 'k service" where
  "awake p \<sigma> = \<sigma>\<lparr>se_tab := (se_tab \<sigma>)(p := None)\<rparr>"

definition full :: "'k service \<Rightarrow> bool" where
  "full \<sigma> \<longleftrightarrow> EV_MAXEVENTS \<le> card (dom (se_tab \<sigma>))"

section \<open>The kernel\<close>

definition info_lines :: "int \<Rightarrow> string \<Rightarrow> string \<Rightarrow> string list" where
  "info_lines line func msg = [log_header LOGGING_INFO ''echoserver.c'' line func, '' '', msg, ''\<newline>'']"

text \<open>epoll accepts a descriptor, whether it knows it already or not.\<close>

inductive armed :: "'k os \<Rightarrow> door \<Rightarrow> int \<Rightarrow> ptr \<Rightarrow> 'k \<Rightarrow> 'k \<Rightarrow> bool" for os dr fd p where
  known: "os_epoll_ctl os (dr_epfd dr) EPOLL_CTL_MOD fd (dr_flags dr OR (EPOLLIN OR EPOLLET)) p k = (Inr (), k') \<Longrightarrow>
    armed os dr fd p k k'"
| added: "os_epoll_ctl os (dr_epfd dr) EPOLL_CTL_MOD fd (dr_flags dr OR (EPOLLIN OR EPOLLET)) p k = (Inl ENOENT, k1) \<Longrightarrow>
    os_epoll_ctl os (dr_epfd dr) EPOLL_CTL_ADD fd (dr_flags dr OR (EPOLLIN OR EPOLLET)) p k1 = (Inr (), k') \<Longrightarrow>
    armed os dr fd p k k'"

text \<open>Messages that are there to be read, each written back at once.\<close>

inductive burst :: "'k os \<Rightarrow> int \<Rightarrow> 'k \<Rightarrow> byte list list \<Rightarrow> 'k \<Rightarrow> bool" for os fd where
  dry: "burst os fd k [] k"
| more: "os_read os fd ECHO_CHUNK k = (Inr m, k1) \<Longrightarrow> m \<noteq> [] \<Longrightarrow> length m \<le> ECHO_CHUNK \<Longrightarrow>
    os_write os fd m k1 = (Inr (length m), k2) \<Longrightarrow> burst os fd k2 ms k' \<Longrightarrow> burst os fd k (m # ms) k'"

section \<open>Clients\<close>

definition farewell :: "string \<Rightarrow> peer \<Rightarrow> u32 \<Rightarrow> string list" where
  "farewell msg q n = info_lines 47 ''client_error'' (total_clients n @ sockaddr_text (pr_addr q) @ '', '' @ msg)"

definition gone :: "'k os \<Rightarrow> door \<Rightarrow> string \<Rightarrow> peer \<Rightarrow> 'k \<Rightarrow> 'k service \<Rightarrow> 'k service" where
  "gone os dr msg q k \<sigma> = \<sigma>\<lparr>se_count := se_count \<sigma> - 1,
     se_kern := shown os (dr_log dr) (farewell msg q (se_count \<sigma> - 1)) k\<rparr>"

inductive talk :: "'k os \<Rightarrow> door \<Rightarrow> nat \<Rightarrow> peer \<Rightarrow> 'k service \<Rightarrow> (int \<times> byte list) list \<Rightarrow> 'k service \<Rightarrow> bool"
  for os dr d q \<sigma> where
  stays: "burst os (pr_fd q) (se_kern \<sigma>) ms k1 \<Longrightarrow> os_read os (pr_fd q) ECHO_CHUNK k1 = (Inl EAGAIN, k2) \<Longrightarrow>
    armed os dr (pr_fd q) (se_bag \<sigma>) (fed os k2) k3 \<Longrightarrow> \<not> full \<sigma> \<Longrightarrow> 2 * length ms + 1 \<le> d \<Longrightarrow>
    talk os dr d q \<sigma> (map (Pair (pr_fd q)) ms) (asleep (Client q) k3 \<sigma>)"
| closes: "burst os (pr_fd q) (se_kern \<sigma>) ms k1 \<Longrightarrow> os_read os (pr_fd q) ECHO_CHUNK k1 = (Inr [], k2) \<Longrightarrow>
    2 * length ms + 2 \<le> d \<Longrightarrow>
    talk os dr d q \<sigma> (map (Pair (pr_fd q)) ms) (gone os dr ''EOF'' q k2 \<sigma>)"

text \<open>A new client: logged, and given a connection, a string and a buffer.\<close>

definition newcomer :: "int \<Rightarrow> sockaddr \<Rightarrow> 'k service \<Rightarrow> peer" where
  "newcomer fd addr \<sigma> = \<lparr>pr_conn = se_obj \<sigma>, pr_data = Suc (se_obj \<sigma>), pr_blob = se_blob \<sigma>, pr_fd = fd, pr_addr = addr\<rparr>"

definition greeting :: "sockaddr \<Rightarrow> u32 \<Rightarrow> string list" where
  "greeting addr n = info_lines 64 ''client_connected'' (total_clients n @ sockaddr_text addr)"

definition admitted :: "'k os \<Rightarrow> door \<Rightarrow> sockaddr \<Rightarrow> 'k \<Rightarrow> 'k service \<Rightarrow> 'k service" where
  "admitted os dr addr k \<sigma> = \<sigma>\<lparr>se_obj := Suc (Suc (se_obj \<sigma>)), se_blob := Suc (se_blob \<sigma>), se_count := se_count \<sigma> + 1,
     se_kern := fed os (fed os (fed os (shown os (dr_log dr) (greeting addr (se_count \<sigma> + 1)) k)))\<rparr>"

inductive arrivals :: "'k os \<Rightarrow> door \<Rightarrow> nat \<Rightarrow> 'k service \<Rightarrow> (int \<times> byte list) list \<Rightarrow> 'k service \<Rightarrow> bool" for os dr where
  nobody: "os_accept4 os (dr_lfd dr) SOCK_NONBLOCK (se_kern \<sigma>) = (Inl EAGAIN, k1) \<Longrightarrow>
    armed os dr (dr_lfd dr) (se_bag \<sigma>) (fed os k1) k2 \<Longrightarrow> \<not> full \<sigma> \<Longrightarrow>
    arrivals os dr (Suc d) \<sigma> [] (asleep Acceptor k2 \<sigma>)"
| somebody: "os_accept4 os (dr_lfd dr) SOCK_NONBLOCK (se_kern \<sigma>) = (Inr (fd, addr), k1) \<Longrightarrow>
    talk os dr d (newcomer fd addr \<sigma>) (admitted os dr addr k1 \<sigma>) ms \<sigma>1 \<Longrightarrow>
    arrivals os dr (Suc d) \<sigma>1 io \<sigma>2 \<Longrightarrow> arrivals os dr (Suc (Suc d)) \<sigma> (ms @ io) \<sigma>2"

section \<open>Events\<close>

inductive attend :: "'k os \<Rightarrow> door \<Rightarrow> nat \<Rightarrow> 'k service \<Rightarrow> u32 \<times> ptr \<Rightarrow> (int \<times> byte list) list \<Rightarrow> 'k service \<Rightarrow> bool"
  for os dr d \<sigma> where
  client: "se_tab \<sigma> p = Some (Client q) \<Longrightarrow> plain_event m \<Longrightarrow> talk os dr d q (awake p \<sigma>) io \<sigma>' \<Longrightarrow>
    attend os dr d \<sigma> (m, p) io \<sigma>'"
| acceptor: "se_tab \<sigma> p = Some Acceptor \<Longrightarrow> plain_event m \<Longrightarrow> arrivals os dr d (awake p \<sigma>) io \<sigma>' \<Longrightarrow>
    attend os dr d \<sigma> (m, p) io \<sigma>'"
| hangup: "se_tab \<sigma> p = Some (Client q) \<Longrightarrow> \<not> plain_event m \<Longrightarrow> 0 < d \<Longrightarrow>
    os_epoll_ctl os (dr_epfd dr) EPOLL_CTL_DEL (pr_fd q) 0 NULL (se_kern \<sigma>) = (r1, k1) \<Longrightarrow>
    os_close os (pr_fd q) k1 = (r2, k2) \<Longrightarrow>
    attend os dr d \<sigma> (m, p) [] (gone os dr (if m AND EPOLLRDHUP \<noteq> 0 then ''Remote hanged up'' else ''Connection Error'')
      q k2 (awake p \<sigma>))"

inductive attends :: "'k os \<Rightarrow> door \<Rightarrow> nat \<Rightarrow> 'k service \<Rightarrow> (u32 \<times> ptr) list \<Rightarrow> (int \<times> byte list) list \<Rightarrow> 'k service \<Rightarrow> bool"
  for os dr d where
  none: "attends os dr d \<sigma> [] [] \<sigma>"
| event: "attend os dr d \<sigma> e io1 \<sigma>1 \<Longrightarrow> attends os dr d \<sigma>1 es io2 \<sigma>2 \<Longrightarrow> attends os dr d \<sigma> (e # es) (io1 @ io2) \<sigma>2"

inductive session :: "'k os \<Rightarrow> door \<Rightarrow> nat \<Rightarrow> 'k service \<Rightarrow> nat \<Rightarrow> (int \<times> byte list) list \<Rightarrow> 'k service \<Rightarrow> bool"
  for os dr d where
  start: "session os dr d \<sigma> 0 [] \<sigma>"
| round: "os_epoll_wait os (dr_epfd dr) EV_MAXEVENTS (se_kern \<sigma>) = (Inr evs, k) \<Longrightarrow> evs \<noteq> [] \<Longrightarrow> length evs \<le> EV_MAXEVENTS \<Longrightarrow>
    se_tab \<sigma> \<noteq> (\<lambda>_. None) \<Longrightarrow> attends os dr d (\<sigma>\<lparr>se_kern := k\<rparr>) evs io1 \<sigma>1 \<Longrightarrow> session os dr d \<sigma>1 n io2 \<sigma>2 \<Longrightarrow>
    session os dr d \<sigma> (Suc n) (io1 @ io2) \<sigma>2"

end
