(* ===== verification/Server_Round.thy ===== *)
theory Server_Round
  imports Echo_Service
begin

text \<open>
  The process of the echo server against the service of \<open>Echo_Service\<close>: \<open>echo_at os su \<sigma> w\<close> says that the
  process \<open>w\<close> is the service \<open>\<sigma>\<close>. The lemmas follow the worker circuit through the messages of a client,
  to the next wait or to the end of the connection, the acceptor through the connections, and the event
  loop through a session.
\<close>

section \<open>The process of a service\<close>

text \<open>What stays: the pointers of \<open>main\<close>.\<close>

record fixtures =
  su_worker :: ptr
  su_wps :: "ptr list"
  su_io :: ptr
  su_accept :: ptr
  su_aps :: "ptr list"
  su_server :: ptr
  su_file :: ptr
  su_door :: door

definition echo_io :: ioP where
  "echo_io = \<lparr>epollflags = EPOLLET, readsize = of_nat ECHO_CHUNK\<rparr>"

definition worker_circuit :: "ptr \<Rightarrow> acirc" where
  "worker_circuit io = \<lparr>steps = [(A_read, io), (A_write, io)], leads = Some 0\<rparr>"

definition server_circuit :: "ptr \<Rightarrow> acirc" where
  "server_circuit server = \<lparr>steps = [(A_listen, server), (A_accept, server)], leads = Some 1\<rparr>"

text \<open>A circuit that \<open>runA\<close> starts at its first step.\<close>

definition ready :: "('k, 'u) world \<Rightarrow> ptr \<Rightarrow> ptr list \<Rightarrow> acirc \<Rightarrow> bool" where
  "ready w c ps a \<longleftrightarrow> circuit (elems w) ps a \<and> (\<exists>C. cells (circs w) c = Some C \<and> c_err C = Some 1 \<and>
     c_nets C = hd ps \<and> c_current C \<in> {NULL, hd ps})"

definition circuits_ok :: "fixtures \<Rightarrow> ('k, 'u) world \<Rightarrow> bool" where
  "circuits_ok su w \<longleftrightarrow> ready w (su_worker su) (su_wps su) (worker_circuit (su_io su)) \<and>
     at_step w (su_accept su) (su_aps su) (server_circuit (su_server su)) 1 \<and> su_worker su \<noteq> su_accept su \<and>
     (\<exists>C. cells (circs w) (su_accept su) = Some C \<and> c_nets C = hd (su_aps su)) \<and> set (su_wps su) \<inter> set (su_aps su) = {}"

definition settings_ok :: "fixtures \<Rightarrow> ('k, 'u) world \<Rightarrow> bool" where
  "settings_ok su w \<longleftrightarrow> cells (objs w) (su_io su) = Some (O_ioP echo_io) \<and>
     (\<exists>P. cells (objs w) (su_server su) = Some (O_tcpserverP P) \<and> epollflags P = EPOLLET \<and> client_connected P = Some 0) \<and>
     cells (objs w) (su_file su) = Some (O_file \<lparr>f_ptr = NULL, f_data = NULL, f_fd = dr_lfd (su_door su)\<rparr>)"

definition connected :: "peer \<Rightarrow> ('k, 'u) world \<Rightarrow> bool" where
  "connected q w \<longleftrightarrow> (\<exists>cn sz bs. cells (objs w) (pr_conn q) = Some (O_tcpconn cn) \<and>
     f_fd cn = pr_fd q \<and> f_data cn = pr_data q \<and> remoteaddr cn = pr_addr q \<and>
     cells (objs w) (pr_data q) = Some (O_string \<lparr>s_blob = pr_blob q, s_size = sz\<rparr>) \<and>
     cells (blobs w) (pr_blob q) = Some bs \<and> length bs = ECHO_CHUNK)"

fun bag_of :: "fixtures \<Rightarrow> waiter \<Rightarrow> bagS" where
  "bag_of su Acceptor = waiting_bag (dr_lfd (su_door su)) (su_accept su) NULL (su_file su)"
| "bag_of su (Client q) = waiting_bag (pr_fd q) (su_worker su) NULL (pr_conn q)"

fun there :: "waiter \<Rightarrow> ('k, 'u) world \<Rightarrow> bool" where
  "there Acceptor w = True"
| "there (Client q) w = connected q w"

definition separate :: "peer \<Rightarrow> peer \<Rightarrow> bool" where
  "separate q r \<longleftrightarrow> pr_data q \<noteq> pr_data r \<and> pr_blob q \<noteq> pr_blob r"

definition apart_from :: "peer \<Rightarrow> (ptr \<Rightarrow> waiter option) \<Rightarrow> bool" where
  "apart_from q tab \<longleftrightarrow> (\<forall>p r. tab p = Some (Client r) \<longrightarrow> separate q r)"

definition table_ok_for :: "fixtures \<Rightarrow> (ptr \<Rightarrow> waiter option) \<Rightarrow> ('k, 'u) world \<Rightarrow> bool" where
  "table_ok_for su tab w \<longleftrightarrow> registered (ev w) = dom tab \<and>
     (\<forall>p x. tab p = Some x \<longrightarrow> waits_for (bag_of su x) p w \<and> there x w) \<and>
     (\<forall>p q. tab p = Some (Client q) \<longrightarrow> apart_from q (tab(p := None)))"

definition process_ok :: "'k os \<Rightarrow> fixtures \<Rightarrow> 'k service \<Rightarrow> ('k, echo) world \<Rightarrow> bool" where
  "process_ok os su \<sigma> w \<longleftrightarrow> malloc_total os \<and> log_works os (dr_log (su_door su)) \<and> w_os w = os \<and> kern w = se_kern \<sigma> \<and>
     es_status (usr w) = WORKING \<and> es_worker (usr w) = su_worker su \<and>
     es_clients (usr w) = se_count \<sigma> \<and> epfd (ev w) = dr_epfd (su_door su) \<and> epflags (ev w) = dr_flags (su_door su) \<and>
     LOGGING_INFO \<le> verbosity w \<and> logging_fd w = dr_log (su_door su) \<and>
     ev_ok w \<and> brk (bagh w) = se_bag \<sigma> \<and>
     store_ok (objs w) \<and> brk (objs w) = se_obj \<sigma> \<and> store_ok (blobs w) \<and> brk (blobs w) = se_blob \<sigma>"

definition echo_at :: "'k os \<Rightarrow> fixtures \<Rightarrow> 'k service \<Rightarrow> ('k, echo) world \<Rightarrow> bool" where
  "echo_at os su \<sigma> w \<longleftrightarrow> process_ok os su \<sigma> w \<and> circuits_ok su w \<and> settings_ok su w \<and> table_ok_for su (se_tab \<sigma>) w"

text \<open>The same while the worker runs for the client \<open>q\<close>, at its first step.\<close>

definition serving :: "'k os \<Rightarrow> fixtures \<Rightarrow> peer \<Rightarrow> 'k service \<Rightarrow> ('k, echo) world \<Rightarrow> bool" where
  "serving os su q \<sigma> w \<longleftrightarrow> echo_at os su \<sigma> w \<and> connected q w \<and> apart_from q (se_tab \<sigma>) \<and>
     at_step w (su_worker su) (su_wps su) (worker_circuit (su_io su)) 0"

text \<open>The messages a process has written, and where to.\<close>

fun written :: "sysev \<Rightarrow> (int \<times> byte list) list" where
  "written (SysWrite fd bs) = [(fd, bs)]"
| "written _ = []"

definition writes :: "sysev list \<Rightarrow> (int \<times> byte list) list" where
  "writes tr = concat (map written tr)"

lemma writes_append [simp]: "writes (xs @ ys) = writes xs @ writes ys"
  by (simp add: writes_def)

lemma writes_simps [simp]: "writes [] = []" "writes (x # xs) = written x @ writes xs"
  by (simp_all add: writes_def)

lemma apart_from_removed: "apart_from q (tab(p := None)) \<longleftrightarrow> (\<forall>p' r. p' \<noteq> p \<longrightarrow> tab p' = Some (Client r) \<longrightarrow> separate q r)"
  by (simp add: apart_from_def)

section \<open>What an update leaves alone\<close>

text \<open>\<open>calm w w'\<close>: nothing changed but the kernel, the trace, \<open>errno\<close>, the place of the worker circuit
  and the contents of strings and buffers.\<close>

definition calm :: "fixtures \<Rightarrow> ('k, 'u) world \<Rightarrow> ('k, 'u) world \<Rightarrow> bool" where
  "calm su w w' \<longleftrightarrow> w_os w' = w_os w \<and> usr w' = usr w \<and> ev w' = ev w \<and> bagh w' = bagh w \<and>
     verbosity w' = verbosity w \<and> logging_fd w' = logging_fd w \<and> elems w' = elems w \<and>
     brk (objs w') = brk (objs w) \<and> brk (blobs w') = brk (blobs w) \<and>
     (\<forall>p ob. cells (objs w) p = Some ob \<longrightarrow> (\<forall>st. ob \<noteq> O_string st) \<longrightarrow> cells (objs w') p = Some ob) \<and>
     (\<forall>p b sz. cells (objs w) p = Some (O_string \<lparr>s_blob = b, s_size = sz\<rparr>) \<longrightarrow>
        (\<exists>sz'. cells (objs w') p = Some (O_string \<lparr>s_blob = b, s_size = sz'\<rparr>))) \<and>
     (\<forall>p bs. cells (blobs w) p = Some bs \<longrightarrow> (\<exists>bs'. cells (blobs w') p = Some bs' \<and> length bs' = length bs)) \<and>
     (\<forall>c C. c \<noteq> su_worker su \<longrightarrow> cells (circs w) c = Some C \<longrightarrow> cells (circs w') c = Some C) \<and>
     dom (cells (objs w')) = dom (cells (objs w)) \<and> dom (cells (blobs w')) = dom (cells (blobs w))"

lemma calm_trans: "calm su w w' \<Longrightarrow> calm su w' w'' \<Longrightarrow> calm su w w''"
  unfolding calm_def by (intro conjI; (elim conjE)?; (metis)?)

lemma calm_connected:
  assumes "calm su w w'" and "connected q w"
  shows "connected q w'"
proof -
  from assms(2) obtain cn sz bs where "cells (objs w) (pr_conn q) = Some (O_tcpconn cn)"
    "cells (objs w) (pr_data q) = Some (O_string \<lparr>s_blob = pr_blob q, s_size = sz\<rparr>)"
    "cells (blobs w) (pr_blob q) = Some bs"
    and cn: "f_fd cn = pr_fd q" "f_data cn = pr_data q" "remoteaddr cn = pr_addr q" "length bs = ECHO_CHUNK"
    unfolding connected_def by blast
  then have "cells (objs w') (pr_conn q) = Some (O_tcpconn cn)"
    "\<exists>sz'. cells (objs w') (pr_data q) = Some (O_string \<lparr>s_blob = pr_blob q, s_size = sz'\<rparr>)"
    "\<exists>bs'. cells (blobs w') (pr_blob q) = Some bs' \<and> length bs' = ECHO_CHUNK"
    using assms(1) unfolding calm_def by (blast, blast, metis)
  with cn show ?thesis unfolding connected_def by blast
qed

lemma calm_there: "calm su w w' \<Longrightarrow> there x w \<Longrightarrow> there x w'"
  by (cases x) (auto intro: calm_connected)

lemma calm_settings: "calm su w w' \<Longrightarrow> settings_ok su w \<Longrightarrow> settings_ok su w'"
  unfolding calm_def settings_ok_def by blast

lemma calm_store_ok:
  assumes "calm su w w'"
  shows "store_ok (objs w') = store_ok (objs w)" and "store_ok (blobs w') = store_ok (blobs w)"
proof -
  have d: "cells (objs w') p \<noteq> None \<longleftrightarrow> cells (objs w) p \<noteq> None" "cells (blobs w') p \<noteq> None \<longleftrightarrow> cells (blobs w) p \<noteq> None" for p
    using assms unfolding calm_def by blast+
  show "store_ok (objs w') = store_ok (objs w)" "store_ok (blobs w') = store_ok (blobs w)"
    using assms unfolding store_ok_def d by (simp_all add: calm_def)
qed

lemma table_waits:
  assumes "table_ok_for su tab w" and "tab p = Some x"
  shows "waits_for (bag_of su x) p w" and "there x w" and "x = Client q \<Longrightarrow> apart_from q (tab(p := None))"
  using assms by (simp_all add: table_ok_for_def)

lemma calm_events: "calm su w w' \<Longrightarrow> ev w' = ev w" "calm su w w' \<Longrightarrow> bagh w' = bagh w"
  by (simp_all add: calm_def)

lemma calm_table: "calm su w w' \<Longrightarrow> table_ok_for su tab w \<Longrightarrow> table_ok_for su tab w'"
  using calm_there [of su w w'] calm_events [of su w w'] by (auto simp: table_ok_for_def waits_for_def)

lemma calm_process: "calm su w w' \<Longrightarrow> process_ok os su \<sigma> w \<Longrightarrow> process_ok os su (\<sigma>\<lparr>se_kern := kern w'\<rparr>) w'"
  using calm_store_ok [of su w w'] unfolding process_ok_def calm_def ev_ok_def by simp

lemma calm_circuits:
  assumes "calm su w w'" and "circuits_ok su w" and "ready w' (su_worker su) (su_wps su) (worker_circuit (su_io su))"
  shows "circuits_ok su w'"
  using assms unfolding circuits_ok_def at_step_def calm_def by metis

lemma calm_echo_at:
  assumes "calm su w w'" and "echo_at os su \<sigma> w" and "ready w' (su_worker su) (su_wps su) (worker_circuit (su_io su))"
  shows "echo_at os su (\<sigma>\<lparr>se_kern := kern w'\<rparr>) w'"
  using assms calm_process calm_circuits calm_settings calm_table unfolding echo_at_def by fastforce

text \<open>The updates of the worker.\<close>

lemma calm_after_call [simp]: "calm su w (after_call sc k w)"
  unfolding calm_def after_call_def by simp

lemma calm_errno [simp]: "calm su w (w\<lparr>errno := e\<rparr>)"
  unfolding calm_def by simp

lemma calm_goto [simp]: "calm su w (goto (su_worker su) p w)"
  unfolding calm_def goto_def by simp

lemma calm_filled:
  assumes "cells (objs w) d = Some (O_string \<lparr>s_blob = b, s_size = sz\<rparr>)" and "cells (blobs w) b = Some old" and "length bs \<le> length old"
  shows "calm su w (rd.filled d \<lparr>s_blob = b, s_size = sz\<rparr> bs old w)"
  using assms unfolding calm_def rd.filled_def by auto

lemma ready_at: "at_step w c ps a 0 \<Longrightarrow> ready w c ps a \<longleftrightarrow> (\<exists>C. cells (circs w) c = Some C \<and> c_err C = Some 1 \<and> c_nets C = hd ps)"
  by (auto simp: at_step_def ready_def hd_conv_nth)

lemma ready_goto:
  assumes "ready w c ps a" and "ps \<noteq> []"
  shows "ready (goto c (ps ! 0) w) c ps a" and "at_step (goto c (ps ! 0) w) c ps a 0"
  using assms by (auto simp: ready_def at_step_def goto_def hd_conv_nth)

lemma runA_ready:
  assumes "ready w c ps a" and "ps \<noteq> []"
  shows "runA call c s d w = call (Run (fst (steps a ! 0)) c s d (snd (steps a ! 0))) (goto c (ps ! 0) w)"
proof -
  obtain C where C: "cells (circs w) c = Some C" "c_nets C = hd ps" "c_current C = NULL \<or> c_current C = ps ! 0"
    and ci: "circuit (elems w) ps a" using assms by (auto simp: ready_def hd_conv_nth)
  from C(3) show ?thesis
  proof
    assume "c_current C = NULL"
    then have "idle w c" "circuit_at w c ps a" using C ci assms(2) by (auto simp: idle_def circuit_at_def)
    then show ?thesis by (rule runA_start [OF _ _ assms(2)])
  next
    assume cur: "c_current C = ps ! 0"
    then have "at_step w c ps a 0" using C ci assms(2) by (auto simp: at_step_def)
    moreover have "goto c (ps ! 0) w = w" using C cur by (simp add: goto_def put_cell_def fun_upd_idem)
    ultimately show ?thesis by (simp add: runA_resume)
  qed
qed

section \<open>Messages\<close>

lemma goto_log [simp]: "verbosity (goto c p w) = verbosity w" "logging_fd (goto c p w) = logging_fd w"
  by (simp_all add: goto_def)

lemma worker_next [simp]: "abs_next (worker_circuit io) 0 = Some 1" "abs_next (worker_circuit io) 1 = Some 0"
    "steps (worker_circuit io) ! 0 = (A_read, io)" "steps (worker_circuit io) ! 1 = (A_write, io)"
    "steps (worker_circuit io) ! Suc 0 = (A_write, io)" "abs_next (worker_circuit io) (Suc 0) = Some 0"
  by (simp_all add: worker_circuit_def abs_next_def)

lemma io_chunk [simp]: "epollflags echo_io = EPOLLET" "unat (readsize echo_io) = ECHO_CHUNK" "ECHO_CHUNK < 2 ^ 63"
  by (simp_all add: echo_io_def ECHO_CHUNK_def)

text \<open>What the arrows see of a client.\<close>

lemma serving_sees:
  assumes "serving os su q \<sigma> w"
  obtains cn sz bs where "obj_as w as_file (pr_conn q) = Some (fileS.truncate cn)"
    and "f_fd (fileS.truncate cn) = pr_fd q" and "f_data (fileS.truncate cn) = pr_data q" and "remoteaddr cn = pr_addr q"
    and "cells (objs w) (pr_conn q) = Some (O_tcpconn cn)" and "f_data cn = pr_data q"
    and "cells (objs w) (pr_data q) = Some (O_string \<lparr>s_blob = pr_blob q, s_size = sz\<rparr>)"
    and "cells (blobs w) (pr_blob q) = Some bs" and "length bs = ECHO_CHUNK"
    and "obj_as w as_ioP (su_io su) = Some echo_io" and "w_os w = os" and "kern w = se_kern \<sigma>"
    and "at_step w (su_worker su) (su_wps su) (worker_circuit (su_io su)) 0"
  using assms unfolding serving_def connected_def echo_at_def settings_ok_def process_ok_def
  by (auto simp: obj_as_def fileS.truncate_def)

lemma serving_calm:
  assumes "serving os su q \<sigma> w" and "calm su w w'" and "at_step w' (su_worker su) (su_wps su) (worker_circuit (su_io su)) 0"
    and "ready w' (su_worker su) (su_wps su) (worker_circuit (su_io su))"
  shows "serving os su q (\<sigma>\<lparr>se_kern := kern w'\<rparr>) w'"
  using assms calm_echo_at [OF assms(2)] calm_connected [OF assms(2)] unfolding serving_def by simp

lemma obj_as_eq: "obj_as w cast p = (case cells (objs w) p of None \<Rightarrow> None | Some ob \<Rightarrow> cast ob)"
  by (simp add: obj_as_def)

text \<open>A message is read and written back, and the worker is at its first step again.\<close>

lemma exchange:
  assumes sv: "serving os su q \<sigma> w" and r: "os_read os (pr_fd q) ECHO_CHUNK (se_kern \<sigma>) = (Inr m, k1)"
    and m: "m \<noteq> []" "length m \<le> ECHO_CHUNK" and wr: "os_write os (pr_fd q) m k1 = (Inr (length m), k2)"
  shows "\<exists>w'. exec u (Suc (Suc d)) (Run A_read (su_worker su) s (pr_conn q) (su_io su)) w =
      exec u d (Run A_read (su_worker su) s (pr_conn q) (su_io su)) w' \<and>
    serving os su q (\<sigma>\<lparr>se_kern := k2\<rparr>) w' \<and> trace w' = trace w @ [SysRead (pr_fd q) ECHO_CHUNK, SysWrite (pr_fd q) m]"
proof -
  let ?c = "su_worker su" and ?ps = "su_wps su" and ?a = "worker_circuit (su_io su)"
  obtain cn sz bs where o: "obj_as w as_file (pr_conn q) = Some (fileS.truncate cn)"
      "f_fd (fileS.truncate cn) = pr_fd q" "f_data (fileS.truncate cn) = pr_data q"
    and conn: "cells (objs w) (pr_conn q) = Some (O_tcpconn cn)"
    and st: "cells (objs w) (pr_data q) = Some (O_string \<lparr>s_blob = pr_blob q, s_size = sz\<rparr>)"
    and b: "cells (blobs w) (pr_blob q) = Some bs" "length bs = ECHO_CHUNK"
    and io: "obj_as w as_ioP (su_io su) = Some echo_io" and k: "w_os w = os" "kern w = se_kern \<sigma>"
    and at0: "at_step w ?c ?ps ?a 0"
    using serving_sees [OF sv] by metis
  have neq: "pr_conn q \<noteq> pr_data q" using conn st by auto
  have l: "length m < 2 ^ 63" "length m \<le> length bs" using m(2) b(2) by (simp_all add: ECHO_CHUNK_def)
  let ?w1 = "rd.filled (pr_data q) \<lparr>s_blob = pr_blob q, s_size = sz\<rparr> m bs (after_call (SysRead (pr_fd q) ECHO_CHUNK) k1 w)"
  let ?w2 = "after_call (SysWrite (pr_fd q) m) k2 (goto ?c (?ps ! 1) ?w1)" let ?w3 = "goto ?c (?ps ! 0) ?w2"
  have "readA (exec u (Suc d)) ?c s (pr_conn q) (su_io su) w = returnA (exec u (Suc d)) ?c s (pr_conn q) ?w1"
    using rd.on_data [OF o(1) _ io, of "\<lparr>s_blob = pr_blob q, s_size = sz\<rparr>" m k1 bs] st o(2,3) r k b m(1) l
    by (simp add: obj_as_def)
  moreover have at1: "at_step ?w1 ?c ?ps ?a 0" using at0 by (simp add: at_step_def rd.filled_def)
  have two: "1 < length ?ps" "0 < length ?ps"
    using at0 circuit_lengths [of "elems w" ?ps ?a] by (auto simp: at_step_def worker_circuit_def)
  have "returnA (exec u (Suc d)) ?c s (pr_conn q) ?w1 = writeA (exec u d) ?c s (pr_conn q) (su_io su) (goto ?c (?ps ! 1) ?w1)"
    using returnA_step [OF at1, of "exec u (Suc d)" s "pr_conn q"] by simp
  moreover have "writeA (exec u d) ?c s (pr_conn q) (su_io su) (goto ?c (?ps ! 1) ?w1) = returnA (exec u d) ?c s (pr_conn q) ?w2"
  proof -
    let ?w = "goto ?c (?ps ! 1) ?w1" and ?st = "\<lparr>s_blob = pr_blob q, s_size = of_nat (length m)\<rparr> :: stringS"
    have un: "unat (of_nat (length m) :: u64) = length m" using l(1) by (simp add: unat_of_nat)
    have "obj_as ?w as_file (pr_conn q) = Some (fileS.truncate cn)" "obj_as ?w as_string (f_data (fileS.truncate cn)) = Some ?st"
      "cells (blobs ?w) (s_blob ?st) = Some (refilled m bs)"
      using conn neq o(3) by (simp_all add: obj_as_def rd.filled_def refilled_def)
    from wr.on_written [OF this, of "length m" k2 "exec u d" ?c s "su_io su"] show ?thesis
      using un wr o(2) k l(1) by (simp add: refilled_take rd.filled_def)
  qed
  moreover have at2: "at_step ?w2 ?c ?ps ?a 1" using at_step_goto [OF at1 two(1)] by (simp add: at_step_def)
  moreover have "returnA (exec u d) ?c s (pr_conn q) ?w2 = exec u d (Run A_read ?c s (pr_conn q) (su_io su)) ?w3"
    using returnA_step [OF at2, of "exec u d" s "pr_conn q"] by simp
  ultimately have "exec u (Suc (Suc d)) (Run A_read ?c s (pr_conn q) (su_io su)) w = exec u d (Run A_read ?c s (pr_conn q) (su_io su)) ?w3"
    by simp
  moreover have "calm su w ?w1"
    using calm_trans [OF calm_after_call calm_filled [where d = "pr_data q" and b = "pr_blob q" and sz = sz and old = bs and bs = m]]
      st b l(2) by simp
  then have "calm su w ?w3"
    by (rule calm_trans [OF calm_trans [OF calm_trans [OF _ calm_goto] calm_after_call] calm_goto])
  moreover have at3: "at_step ?w3 ?c ?ps ?a 0" using at_step_goto [OF at2 two(2)] .
  moreover have "ready ?w3 ?c ?ps ?a"
  proof -
    have "ready w ?c ?ps ?a" using sv by (simp add: serving_def echo_at_def circuits_ok_def)
    then show ?thesis using ready_at [OF at3] by (auto simp: ready_def goto_def rd.filled_def)
  qed
  ultimately have "serving os su q (\<sigma>\<lparr>se_kern := kern ?w3\<rparr>) ?w3" using serving_calm [OF sv] by blast
  moreover have "trace ?w3 = trace w @ [SysRead (pr_fd q) ECHO_CHUNK, SysWrite (pr_fd q) m]" "kern ?w3 = k2"
    by (simp_all add: rd.filled_def)
  ultimately show ?thesis
    using \<open>exec u (Suc (Suc d)) _ w = _\<close> by (intro exI [of _ ?w3]) simp
qed

lemma exchanges:
  "burst os (pr_fd q) k ms k1 \<Longrightarrow> serving os su q \<sigma> w \<Longrightarrow> k = se_kern \<sigma> \<Longrightarrow>
    \<exists>w'. exec u (d + 2 * length ms) (Run A_read (su_worker su) s (pr_conn q) (su_io su)) w =
      exec u d (Run A_read (su_worker su) s (pr_conn q) (su_io su)) w' \<and>
    serving os su q (\<sigma>\<lparr>se_kern := k1\<rparr>) w' \<and> writes (trace w') = writes (trace w) @ map (Pair (pr_fd q)) ms"
proof (induction arbitrary: w \<sigma> rule: burst.induct)
  case (dry k)
  then show ?case by (intro exI [of _ w]) simp
next
  case (more k m k1 k2 ms k')
  from exchange [OF more.prems(1) more.hyps(1) [unfolded more.prems(2)] more.hyps(2-4), of u "d + 2 * length ms" s]
  obtain w1 where w1: "exec u (Suc (Suc (d + 2 * length ms))) (Run A_read (su_worker su) s (pr_conn q) (su_io su)) w =
      exec u (d + 2 * length ms) (Run A_read (su_worker su) s (pr_conn q) (su_io su)) w1"
    "serving os su q (\<sigma>\<lparr>se_kern := k2\<rparr>) w1" "trace w1 = trace w @ [SysRead (pr_fd q) ECHO_CHUNK, SysWrite (pr_fd q) m]"
    by blast
  from more.IH [OF w1(2)] obtain w2 where "exec u (d + 2 * length ms) (Run A_read (su_worker su) s (pr_conn q) (su_io su)) w1 =
      exec u d (Run A_read (su_worker su) s (pr_conn q) (su_io su)) w2"
    "serving os su q (\<sigma>\<lparr>se_kern := k'\<rparr>) w2" "writes (trace w2) = writes (trace w1) @ map (Pair (pr_fd q)) ms" by auto
  with w1 show ?case by (intro exI [of _ w2]) simp
qed

section \<open>Going to sleep\<close>

lemma waitA_armed:
  assumes "armed os (su_door su) fd (brk (bagh w)) k k'" and "os_malloc (w_os w) (kern w) = (True, k)" and "w_os w = os"
    and "epfd (ev w) = dr_epfd (su_door su)" and "epflags (ev w) = dr_flags (su_door su)"
  shows "\<exists>cs en. waitA call c s d fd EPOLLIN EPOLLET w = Inr ((), parked (waiting_bag fd c s d) cs en k' w) \<and> writes cs = []"
  using assms(1)
proof cases
  case known
  with waitA_known [OF assms(2), of fd EPOLLIN EPOLLET k' call c s d] assms(3-5) show ?thesis by fastforce
next
  case (added k1)
  with waitA_added [OF assms(2), of fd EPOLLIN EPOLLET k1 k' call c s d] assms(3-5) show ?thesis by fastforce
qed

lemma echo_parked:
  assumes "echo_at os su \<sigma> w" and "\<not> full \<sigma>" and "there x w" and "\<And>q. x = Client q \<Longrightarrow> apart_from q (se_tab \<sigma>)"
  shows "echo_at os su (asleep x k \<sigma>) (parked (bag_of su x) cs en k w)"
proof -
  let ?w = "parked (bag_of su x) cs en k w" and ?p = "brk (bagh w)" and ?tab = "se_tab \<sigma>"
  have pr: "process_ok os su \<sigma> w" and ci: "circuits_ok su w" and se: "settings_ok su w" and ta: "table_ok_for su ?tab w"
    using assms(1) by (simp_all add: echo_at_def)
  have ok: "ev_ok w" and reg: "registered (ev w) = dom ?tab" and p: "?p = se_bag \<sigma>"
    using pr ta by (simp_all add: process_ok_def table_ok_for_def)
  have room: "card (registered (ev w)) < EV_MAXEVENTS" using assms(2) reg by (simp add: full_def)
  note t = parked_table(1-4) [OF ok room, where b = "bag_of su x" and cs = cs and en = en and k = k]
  have fresh: "?tab ?p = None" using parked_table(5) [OF ok room] reg by auto
  have "process_ok os su (asleep x k \<sigma>) ?w" using pr t(1) by (simp add: process_ok_def asleep_def)
  moreover have "circuits_ok su ?w" using ci by (simp add: circuits_ok_def ready_def at_step_def)
  moreover have "settings_ok su ?w" using se by (simp add: settings_ok_def)
  moreover have th: "there y ?w = there y w" for y by (cases y) (simp_all add: connected_def)
  have "waits_for (bag_of su y) q ?w \<and> there y ?w" if "(?tab(?p \<mapsto> x)) q = Some y" for q y
    using that t(3) th assms(3) ta waits_parked [OF ok room] by (auto simp: table_ok_for_def split: if_splits)
  moreover have "apart_from q ((?tab(?p \<mapsto> x))(r := None))" if "(?tab(?p \<mapsto> x)) r = Some (Client q)" for r q
  proof (cases "r = ?p")
    case True
    then show ?thesis using that assms(4) [of q] fresh by (auto simp: apart_from_def)
  next
    case False
    then have r: "?tab r = Some (Client q)" using that by simp
    then have "apart_from q (?tab(r := None))" using ta by (simp add: table_ok_for_def)
    moreover have "separate q y" if "x = Client y" for y
      using assms(4) [OF that] r unfolding apart_from_def separate_def by metis
    ultimately show ?thesis using False fresh by (simp add: apart_from_removed)
  qed
  ultimately show ?thesis
    using t(2) reg p by (auto simp: echo_at_def table_ok_for_def asleep_def)
qed

text \<open>Nothing more to read: the worker goes to sleep for this client.\<close>

lemma falls_asleep:
  assumes sv: "serving os su q \<sigma> w" and r: "os_read os (pr_fd q) ECHO_CHUNK (se_kern \<sigma>) = (Inl EAGAIN, k2)"
    and ar: "armed os (su_door su) (pr_fd q) (se_bag \<sigma>) (fed os k2) k3" and room: "\<not> full \<sigma>"
  shows "\<exists>w'. exec u (Suc d) (Run A_read (su_worker su) NULL (pr_conn q) (su_io su)) w = Inr ((), w') \<and>
    echo_at os su (asleep (Client q) k3 \<sigma>) w' \<and> writes (trace w') = writes (trace w)"
proof -
  obtain cn :: tcpconnS and sz where o: "obj_as w as_file (pr_conn q) = Some (fileS.truncate cn)"
      "f_fd (fileS.truncate cn) = pr_fd q" "f_data (fileS.truncate cn) = pr_data q"
    and st: "cells (objs w) (pr_data q) = Some (O_string \<lparr>s_blob = pr_blob q, s_size = sz\<rparr>)"
    and io: "obj_as w as_ioP (su_io su) = Some echo_io" and k: "w_os w = os" "kern w = se_kern \<sigma>"
    by (rule serving_sees [OF sv])
  let ?w = "(after_call (SysRead (pr_fd q) ECHO_CHUNK) k2 w)\<lparr>errno := EAGAIN\<rparr>"
  have e: "echo_at os su \<sigma> w" "connected q w" "apart_from q (se_tab \<sigma>)" using sv by (simp_all add: serving_def)
  have p: "process_ok os su \<sigma> w" using e(1) by (simp add: echo_at_def)
  have calm: "calm su w ?w" by (rule calm_trans [OF calm_after_call calm_errno])
  moreover have "ready ?w (su_worker su) (su_wps su) (worker_circuit (su_io su))"
    using e(1) by (simp add: echo_at_def circuits_ok_def ready_def)
  ultimately have at: "echo_at os su (\<sigma>\<lparr>se_kern := k2\<rparr>) ?w" using calm_echo_at [OF _ e(1)] by fastforce
  have "readA (exec u d) (su_worker su) NULL (pr_conn q) (su_io su) w =
      waitA (exec u d) (su_worker su) NULL (pr_conn q) (pr_fd q) EPOLLIN EPOLLET ?w"
    using rd.on_again [OF o(1) _ io, of "\<lparr>s_blob = pr_blob q, s_size = sz\<rparr>" k2] st o(2,3) r k by (simp add: obj_as_def)
  moreover have "\<exists>cs en. waitA (exec u d) (su_worker su) NULL (pr_conn q) (pr_fd q) EPOLLIN EPOLLET ?w =
      Inr ((), parked (waiting_bag (pr_fd q) (su_worker su) NULL (pr_conn q)) cs en k3 ?w) \<and> writes cs = []"
    by (rule waitA_armed [where k = "fed os k2"]) (use p ar fed_eq [of os k2] in \<open>simp_all add: process_ok_def\<close>)
  ultimately obtain cs en where run: "readA (exec u d) (su_worker su) NULL (pr_conn q) (su_io su) w =
      Inr ((), parked (bag_of su (Client q)) cs en k3 ?w)" "writes cs = []" by auto
  have "echo_at os su (asleep (Client q) k3 (\<sigma>\<lparr>se_kern := k2\<rparr>)) (parked (bag_of su (Client q)) cs en k3 ?w)"
    by (rule echo_parked [OF at]) (use room e calm_connected [OF calm] in \<open>simp_all add: full_def\<close>)
  then show ?thesis using run by (intro exI [of _ "parked (bag_of su (Client q)) cs en k3 ?w"]) (simp add: asleep_def)
qed

section \<open>The end of a connection\<close>

lemma writes_prints [simp]: "writes (map (SysPrint fd) ts) = []"
  by (simp add: writes_def comp_def)

lemma echo_info:
  assumes "log_works (w_os w) (logging_fd w)" and "LOGGING_INFO \<le> verbosity w"
  shows "mthen (echo_log LOGGING_INFO line func msg) d w = d (logged (info_lines line func msg) w)"
  using logging_log_then [OF assms] by (simp add: echo_log_def info_lines_def log_line_def)

text \<open>\<open>client_error\<close> on a client: the farewell, and its string and buffer are released.\<close>

definition released :: "peer \<Rightarrow> ('k, echo) world \<Rightarrow> ('k, echo) world" where
  "released q w = w\<lparr>blobs := del_cell (pr_blob q) (blobs w), objs := del_cell (pr_data q) (objs w)\<rparr>"

definition farewelled :: "string \<Rightarrow> peer \<Rightarrow> ('k, echo) world \<Rightarrow> ('k, echo) world" where
  "farewelled msg q w = released q (logged (farewell msg q (es_clients (usr w) - 1))
     (w\<lparr>usr := (usr w)\<lparr>es_clients := es_clients (usr w) - 1\<rparr>, addrtemp := sockaddr_text (pr_addr q)\<rparr>))"

lemma client_error_runs:
  assumes "connected q w" and "process_ok os su \<sigma> w"
  shows "client_error (pr_conn q) (Some msg) w = Inr ((), farewelled msg q w)"
proof -
  obtain cn sz bs where o: "cells (objs w) (pr_conn q) = Some (O_tcpconn cn)" "f_data cn = pr_data q" "remoteaddr cn = pr_addr q"
    "cells (objs w) (pr_data q) = Some (O_string \<lparr>s_blob = pr_blob q, s_size = sz\<rparr>)" "cells (blobs w) (pr_blob q) = Some bs"
    using assms(1) unfolding connected_def by blast
  have nn: "pr_data q \<noteq> NULL" "pr_blob q \<noteq> NULL"
    using o(4,5) assms(2) mem.live_not_null by (auto simp: process_ok_def)
  let ?w = "w\<lparr>usr := (usr w)\<lparr>es_clients := es_clients (usr w) - 1\<rparr>, addrtemp := sockaddr_text (pr_addr q)\<rparr>"
  have lg: "log_works (w_os ?w) (logging_fd ?w)" "LOGGING_INFO \<le> verbosity ?w" using assms(2) by (simp_all add: process_ok_def)
  have "client_error (pr_conn q) (Some msg) w = mbind (load_as as_string (pr_data q)) (\<lambda>st. mseq [
      if s_blob st \<noteq> NULL then free_buffer (s_blob st) else mret (), free_object (pr_data q)])
      (logged (farewell msg q (es_clients (usr w) - 1)) ?w)"
    using o nn by (simp add: client_error_def on_usr_then mgets_bind load_as_bind obj_as_def dump_bind text_of_def
        echo_info [OF lg] farewell_def)
  also have "\<dots> = Inr ((), farewelled msg q w)"
    using o nn by (simp add: load_as_eq obj_as_def free_buffer_def free_object_def mdefs load_blob_def load_obj_def get_cell_Some
        farewelled_def released_def)
  finally show ?thesis .
qed

lemma there_released:
  assumes "there y w" and "\<And>r. y = Client r \<Longrightarrow> separate q r"
    and "cells (objs w) (pr_data q) = Some (O_string st)"
  shows "there y (farewelled msg q w)"
proof (cases y)
  case (Client r)
  obtain cn sz bs where "cells (objs w) (pr_conn r) = Some (O_tcpconn cn)"
    "f_fd cn = pr_fd r" "f_data cn = pr_data r" "remoteaddr cn = pr_addr r"
    "cells (objs w) (pr_data r) = Some (O_string \<lparr>s_blob = pr_blob r, s_size = sz\<rparr>)"
    "cells (blobs w) (pr_blob r) = Some bs" "length bs = ECHO_CHUNK"
    using assms(1) unfolding Client there.simps connected_def by blast
  moreover have "pr_conn r \<noteq> pr_data q" using calculation(1) assms(3) by auto
  moreover have "pr_data r \<noteq> pr_data q" "pr_blob r \<noteq> pr_blob q" using assms(2) [OF Client] by (simp_all add: separate_def)
  ultimately show ?thesis using Client by (simp add: connected_def farewelled_def released_def)
qed simp

text \<open>\<open>errorA\<close> with the error function of the worker.\<close>

lemma dismissed:
  assumes e: "echo_at os su \<sigma> w" and c: "connected q w" and a: "apart_from q (se_tab \<sigma>)" and msg: "length msg < 1024"
  shows "\<exists>w'. errorA (exec echo_program (Suc d)) (su_worker su) NULL (pr_conn q) (Some msg) w = Inr ((), w') \<and>
    echo_at os su (gone os (su_door su) msg q (se_kern \<sigma>) \<sigma>) w' \<and> writes (trace w') = writes (trace w)"
proof -
  let ?c = "su_worker su" and ?a = "worker_circuit (su_io su)"
  have pr: "process_ok os su \<sigma> w" and ci: "circuits_ok su w" and se: "settings_ok su w" and ta: "table_ok_for su (se_tab \<sigma>) w"
    using e by (simp_all add: echo_at_def)
  obtain C where C: "cells (circs w) ?c = Some C" "c_err C = Some 1" "c_nets C = hd (su_wps su)"
    and circ: "circuit (elems w) (su_wps su) ?a" using ci by (auto simp: circuits_ok_def ready_def)
  let ?w = "farewelled msg q w" let ?w' = "goto ?c NULL ?w"
  obtain st where st: "cells (objs w) (pr_data q) = Some (O_string st)" using c by (auto simp: connected_def)
  have [simp]: "circs ?w = circs w" "elems ?w = elems w" "ev ?w = ev w" "bagh ?w = bagh w"
    by (simp_all add: farewelled_def released_def)
  have "exec echo_program (Suc d) (OnError 1 ?c NULL (pr_conn q) (Some msg)) w = Inr ((), ?w)"
    using client_error_runs [OF c pr] by (simp add: echo_program_def)
  moreover have "take 1023 msg = msg" using msg by simp
  ultimately have run: "errorA (exec echo_program (Suc d)) ?c NULL (pr_conn q) (Some msg) w = Inr ((), ?w')"
    using errorA_eq [OF C(1), of "exec echo_program (Suc d)" NULL "pr_conn q" "Some msg"] C by (simp add: set_current_eq)
  have "process_ok os su (gone os (su_door su) msg q (se_kern \<sigma>) \<sigma>) ?w'"
    using pr by (simp add: process_ok_def gone_def farewelled_def released_def mem.ok_del ev_ok_def)
  moreover have "circuits_ok su ?w'"
    using ci C circ by (auto simp: circuits_ok_def ready_def at_step_def goto_def)
  moreover have "settings_ok su ?w'"
    using se st by (auto simp: settings_ok_def farewelled_def released_def)
  moreover have "table_ok_for su (se_tab \<sigma>) ?w'"
  proof -
    have "there y ?w' = there y ?w" for y by (cases y) (simp_all add: connected_def)
    moreover have "there y ?w" if "se_tab \<sigma> p = Some y" for p y
    proof (rule there_released [OF _ _ st])
      show "there y w" using that ta by (auto simp: table_ok_for_def)
      show "separate q r" if "y = Client r" for r using that a \<open>se_tab \<sigma> p = Some y\<close> by (auto simp: apart_from_def)
    qed
    ultimately show ?thesis using ta by (auto simp: table_ok_for_def waits_for_def)
  qed
  ultimately have "echo_at os su (gone os (su_door su) msg q (se_kern \<sigma>) \<sigma>) ?w'"
    by (simp add: echo_at_def gone_def)
  moreover have "writes (trace ?w') = writes (trace w)" by (simp add: farewelled_def released_def writes_def logged_def comp_def)
  ultimately show ?thesis using run by blast
qed

section \<open>A client and the worker\<close>

text \<open>An event wakes the worker at its first step.\<close>

lemma worker_starts:
  assumes "echo_at os su \<sigma> w" and "connected q w" and "apart_from q (se_tab \<sigma>)"
  shows "\<exists>w'. runA call (su_worker su) NULL (pr_conn q) w = call (Run A_read (su_worker su) NULL (pr_conn q) (su_io su)) w' \<and>
    serving os su q \<sigma> w' \<and> trace w' = trace w"
proof -
  let ?c = "su_worker su" let ?w = "goto ?c (su_wps su ! 0) w"
  have r: "ready w ?c (su_wps su) (worker_circuit (su_io su))" using assms(1) by (simp add: echo_at_def circuits_ok_def)
  then have ne: "su_wps su \<noteq> []" by (auto simp: ready_def circuit_def)
  note g = ready_goto [OF r ne]
  have "echo_at os su (\<sigma>\<lparr>se_kern := kern ?w\<rparr>) ?w" by (rule calm_echo_at [OF calm_goto assms(1) g(1)])
  moreover have "kern ?w = se_kern \<sigma>" using assms(1) by (simp add: echo_at_def process_ok_def)
  ultimately have "serving os su q \<sigma> ?w" using g(2) assms(2,3) by (simp add: serving_def connected_def)
  then show ?thesis using runA_ready [OF r ne, of call NULL "pr_conn q"] by (intro exI [of _ ?w]) simp
qed

lemma talk_runs:
  assumes "talk os (su_door su) d q \<sigma> io \<sigma>'" and sv: "serving os su q \<sigma> w"
  shows "\<exists>w'. exec echo_program d (Run A_read (su_worker su) NULL (pr_conn q) (su_io su)) w = Inr ((), w') \<and>
    echo_at os su \<sigma>' w' \<and> writes (trace w') = writes (trace w) @ io"
  using assms(1)
proof cases
  case (stays ms k1 k2 k3)
  define n where "n = d - 2 * length ms - 1"
  have d: "d = Suc n + 2 * length ms" using stays(7) by (simp add: n_def)
  from exchanges [OF stays(3) sv refl, of echo_program "Suc n" NULL] obtain w1 where
    w1: "exec echo_program d (Run A_read (su_worker su) NULL (pr_conn q) (su_io su)) w =
      exec echo_program (Suc n) (Run A_read (su_worker su) NULL (pr_conn q) (su_io su)) w1"
    "serving os su q (\<sigma>\<lparr>se_kern := k1\<rparr>) w1" "writes (trace w1) = writes (trace w) @ io"
    unfolding d stays(1) by blast
  have "\<exists>w'. exec echo_program (Suc n) (Run A_read (su_worker su) NULL (pr_conn q) (su_io su)) w1 = Inr ((), w') \<and>
      echo_at os su (asleep (Client q) k3 (\<sigma>\<lparr>se_kern := k1\<rparr>)) w' \<and> writes (trace w') = writes (trace w1)"
    by (rule falls_asleep [OF w1(2), of k2]) (use stays(4-6) in \<open>simp_all add: full_def\<close>)
  then show ?thesis using w1 stays(2) by (auto simp: asleep_def)
next
  case (closes ms k1 k2)
  define n where "n = d - 2 * length ms - 2"
  have d: "d = Suc (Suc n) + 2 * length ms" using closes(5) by (simp add: n_def)
  from exchanges [OF closes(3) sv refl, of echo_program "Suc (Suc n)" NULL] obtain w1 where
    w1: "exec echo_program d (Run A_read (su_worker su) NULL (pr_conn q) (su_io su)) w =
      exec echo_program (Suc (Suc n)) (Run A_read (su_worker su) NULL (pr_conn q) (su_io su)) w1"
    "serving os su q (\<sigma>\<lparr>se_kern := k1\<rparr>) w1" "writes (trace w1) = writes (trace w) @ io"
    unfolding d closes(1) by blast
  let ?w = "after_call (SysRead (pr_fd q) ECHO_CHUNK) k2 w1"
  obtain cn :: tcpconnS and sz bs where o: "obj_as w1 as_file (pr_conn q) = Some (fileS.truncate cn)"
      "f_fd (fileS.truncate cn) = pr_fd q" "f_data (fileS.truncate cn) = pr_data q"
    and st: "cells (objs w1) (pr_data q) = Some (O_string \<lparr>s_blob = pr_blob q, s_size = sz\<rparr>)" "cells (blobs w1) (pr_blob q) = Some bs"
    and io: "obj_as w1 as_ioP (su_io su) = Some echo_io" and k: "w_os w1 = os" "kern w1 = se_kern (\<sigma>\<lparr>se_kern := k1\<rparr>)"
    by (rule serving_sees [OF w1(2)])
  have "readA (exec echo_program (Suc n)) (su_worker su) NULL (pr_conn q) (su_io su) w1 =
      errorA (exec echo_program (Suc n)) (su_worker su) NULL (pr_conn q) (Some ''EOF'') ?w"
    using rd.on_eof [OF o(1) _ io, of "\<lparr>s_blob = pr_blob q, s_size = sz\<rparr>" k2 bs] st o(2,3) closes(4) k by (simp add: obj_as_def)
  moreover have "echo_at os su (\<sigma>\<lparr>se_kern := k2\<rparr>) ?w"
  proof -
    have e: "echo_at os su (\<sigma>\<lparr>se_kern := k1\<rparr>) w1" using w1(2) by (simp add: serving_def)
    then have "ready ?w (su_worker su) (su_wps su) (worker_circuit (su_io su))" by (simp add: echo_at_def circuits_ok_def ready_def)
    from calm_echo_at [OF calm_after_call e this] show ?thesis by simp
  qed
  moreover have "connected q ?w" "apart_from q (se_tab (\<sigma>\<lparr>se_kern := k2\<rparr>))"
    using w1(2) calm_connected [OF calm_after_call] by (auto simp: serving_def)
  ultimately have "\<exists>w'. readA (exec echo_program (Suc n)) (su_worker su) NULL (pr_conn q) (su_io su) w1 = Inr ((), w') \<and>
      echo_at os su (gone os (su_door su) ''EOF'' q (se_kern (\<sigma>\<lparr>se_kern := k2\<rparr>)) (\<sigma>\<lparr>se_kern := k2\<rparr>)) w' \<and> writes (trace w') = writes (trace ?w)"
    using dismissed [of os su "\<sigma>\<lparr>se_kern := k2\<rparr>" ?w q "''EOF''" n] by simp
  then show ?thesis using w1 closes(2) by (auto simp: gone_def)
qed

section \<open>A new client\<close>

lemma malloc_object_bind:
  "malloc_total (w_os w) \<Longrightarrow> mbind (malloc_object ob) k w =
    k (brk (objs w)) (w\<lparr>kern := fed (w_os w) (kern w), objs := snd (new_cell ob (objs w))\<rparr>)"
  by (simp add: malloc_object_def mbind_apply fed_eq new_cell_def)

lemma malloc_buffer_bind:
  "malloc_total (w_os w) \<Longrightarrow> mbind (malloc_buffer n) k w =
    k (brk (blobs w)) (w\<lparr>kern := fed (w_os w) (kern w), blobs := snd (new_cell (replicate n 0) (blobs w))\<rparr>)"
  by (simp add: malloc_buffer_def mbind_apply fed_eq new_cell_def)

definition new_conn :: "int \<Rightarrow> sockaddr \<Rightarrow> tcpconnS" where
  "new_conn fd addr = \<lparr>f_ptr = NULL, f_data = NULL, f_fd = fd,
     localaddr = \<lparr>sin_family = 0, sin_port = 0, sin_addr = 0\<rparr>, remoteaddr = addr\<rparr>"

text \<open>The process after \<open>client_connected\<close> has set up a connection.\<close>

definition welcomed :: "int \<Rightarrow> sockaddr \<Rightarrow> ('k, echo) world \<Rightarrow> ('k, echo) world" where
  "welcomed fd addr w = (let n = es_clients (usr w) + 1; o1 = brk (objs w); o2 = Suc o1; b = brk (blobs w);
     v = logged (greeting addr n) (w\<lparr>usr := (usr w)\<lparr>es_clients := n\<rparr>, addrtemp := sockaddr_text addr\<rparr>) in
     v\<lparr>kern := fed (w_os w) (fed (w_os w) (fed (w_os w) (kern v))),
       blobs := snd (new_cell (replicate ECHO_CHUNK 0) (blobs w)),
       objs := put_cell o2 (O_string \<lparr>s_blob = b, s_size = 0\<rparr>) (put_cell o1 (O_tcpconn ((new_conn fd addr)\<lparr>f_data := o2\<rparr>))
         (snd (new_cell (O_string \<lparr>s_blob = NULL, s_size = 0\<rparr>) (snd (new_cell (O_tcpconn (new_conn fd addr)) (objs w))))))\<rparr>)"

lemma client_connected_runs:
  assumes "process_ok os su \<sigma> w"
  shows "echo_client_connected call c NULL fd addr w = runA call (su_worker su) NULL (brk (objs w)) (welcomed fd addr w)"
proof -
  let ?n = "es_clients (usr w) + 1"
  let ?w = "w\<lparr>usr := (usr w)\<lparr>es_clients := ?n\<rparr>, addrtemp := sockaddr_text addr\<rparr>"
  have lg: "log_works (w_os ?w) (logging_fd ?w)" "LOGGING_INFO \<le> verbosity ?w" using assms by (simp_all add: process_ok_def)
  have m: "malloc_total (w_os w)" and nn: "brk (objs w) \<noteq> NULL" "brk (blobs w) \<noteq> NULL" and wk: "es_worker (usr w) = su_worker su"
    using assms by (auto simp: process_ok_def store_ok_def)
  let ?k = "fed (w_os w) (fed (w_os w) (shown (w_os w) (logging_fd w) (greeting addr ?n) (kern w)))"
  have "echo_client_connected call c NULL fd addr w = (mbind (malloc_object (O_tcpconn (new_conn fd addr))) (\<lambda>conn.
      if conn = NULL then mbind (sys_close fd) (\<lambda>_. errorA call c NULL NULL (Some ''Out of memory''))
      else mbind (malloc_object (O_string \<lparr>s_blob = NULL, s_size = 0\<rparr>)) (\<lambda>d.
        mthen (set_conn (\<lambda>cn. cn\<lparr>f_data := d\<rparr>) conn)
        (mbind (malloc_buffer ECHO_CHUNK) (\<lambda>b.
         mthen (mbind (load_as as_string d) (\<lambda>st. store_obj d (O_string (st\<lparr>s_blob := b, s_size := 0\<rparr>))))
         (if b = NULL then errorA call c NULL NULL (Some ''Out of memory'')
          else mbind (mgets (\<lambda>w. es_worker (usr w))) (\<lambda>worker. runA call worker NULL conn))))))) (logged (greeting addr ?n) ?w)"
    by (simp add: echo_client_connected_def on_usr_then mgets_bind dump_bind echo_info [OF lg] greeting_def new_conn_def)
  also have "\<dots> = runA call (su_worker su) NULL (brk (objs w)) (welcomed fd addr w)"
    using m nn wk
    by (simp add: malloc_object_bind malloc_buffer_bind set_conn_def mthen_mbind load_as_bind obj_as_def mthen_apply change_obj_eq
        store_obj_eq mgets_bind welcomed_def Let_def new_conn_def)
  finally show ?thesis .
qed

lemma welcomed_objs:
  assumes "store_ok (objs w)" and "cells (objs w) p = Some ob"
  shows "cells (objs (welcomed fd addr w)) p = Some ob"
proof -
  have "p < brk (objs w)" using assms by (auto simp: store_ok_def)
  then show ?thesis using assms(2) by (simp add: welcomed_def Let_def)
qed

lemma welcomed_blobs:
  assumes "store_ok (blobs w)" and "cells (blobs w) p = Some bs"
  shows "cells (blobs (welcomed fd addr w)) p = Some bs"
proof -
  have "p < brk (blobs w)" using assms by (auto simp: store_ok_def)
  then show ?thesis using assms(2) by (simp add: welcomed_def Let_def)
qed

lemma welcomed_there:
  assumes "store_ok (objs w)" and "store_ok (blobs w)" and "there x w"
  shows "there x (welcomed fd addr w)"
proof (cases x)
  case (Client r)
  then show ?thesis
    using assms(3) welcomed_objs [OF assms(1)] welcomed_blobs [OF assms(2)] unfolding Client there.simps connected_def by metis
qed simp

lemma welcomed_frame [simp]:
  "ev (welcomed fd addr w) = ev w" "bagh (welcomed fd addr w) = bagh w" "elems (welcomed fd addr w) = elems w"
  "circs (welcomed fd addr w) = circs w" "writes (trace (welcomed fd addr w)) = writes (trace w)"
  by (simp_all add: welcomed_def Let_def) 

lemma welcomed_store:
  assumes "store_ok (objs w)" and "store_ok (blobs w)"
  shows "store_ok (objs (welcomed fd addr w))" and "store_ok (blobs (welcomed fd addr w))"
  using mem.ok_alloc [OF assms(2)] assms by (auto simp: welcomed_def Let_def store_ok_def)

text \<open>The process is the service with one more client, which is connected and shares nothing.\<close>

lemma welcomed_at:
  assumes "echo_at os su \<sigma> w"
  shows "echo_at os su (admitted os (su_door su) addr (se_kern \<sigma>) \<sigma>) (welcomed fd addr w)"
    and "connected (newcomer fd addr \<sigma>) (welcomed fd addr w)"
    and "apart_from (newcomer fd addr \<sigma>) (se_tab (admitted os (su_door su) addr (se_kern \<sigma>) \<sigma>))"
proof -
  have pr: "process_ok os su \<sigma> w" and ci: "circuits_ok su w" and se: "settings_ok su w" and ta: "table_ok_for su (se_tab \<sigma>) w"
    using assms by (simp_all add: echo_at_def)
  have st: "store_ok (objs w)" "store_ok (blobs w)" using pr by (simp_all add: process_ok_def)
  note so = welcomed_store [OF st, of fd addr]
  have "process_ok os su (admitted os (su_door su) addr (se_kern \<sigma>) \<sigma>) (welcomed fd addr w)"
    using pr so by (simp add: process_ok_def admitted_def ev_ok_def) (simp add: welcomed_def Let_def)
  moreover have "circuits_ok su (welcomed fd addr w)" using ci by (simp add: circuits_ok_def ready_def at_step_def)
  moreover have "settings_ok su (welcomed fd addr w)"
    using se welcomed_objs [OF st(1)] unfolding settings_ok_def by blast
  moreover have "table_ok_for su (se_tab \<sigma>) (welcomed fd addr w)"
    using ta welcomed_there [OF st] by (auto simp: table_ok_for_def waits_for_def)
  ultimately show "echo_at os su (admitted os (su_door su) addr (se_kern \<sigma>) \<sigma>) (welcomed fd addr w)"
    by (simp add: echo_at_def admitted_def)
  show "connected (newcomer fd addr \<sigma>) (welcomed fd addr w)"
    using pr by (simp add: connected_def newcomer_def welcomed_def Let_def process_ok_def new_conn_def)
  have "separate (newcomer fd addr \<sigma>) r" if "se_tab \<sigma> p = Some (Client r)" for p r
  proof -
    have "connected r w" using table_waits(2) [OF ta that] by simp
    then have "pr_data r < brk (objs w)" "pr_blob r < brk (blobs w)" using st by (auto simp: connected_def store_ok_def)
    then show ?thesis using pr by (auto simp: separate_def newcomer_def process_ok_def)
  qed
  then show "apart_from (newcomer fd addr \<sigma>) (se_tab (admitted os (su_door su) addr (se_kern \<sigma>) \<sigma>))"
    by (auto simp: apart_from_def admitted_def)
qed

section \<open>Accepting\<close>

lemma at_step_same: "at_step w c ps a i \<Longrightarrow> goto c (ps ! i) w = w"
  by (auto simp: at_step_def goto_def put_cell_def fun_upd_idem)

lemma server_next [simp]: "abs_next (server_circuit server) (Suc 0) = Some (Suc 0)"
    "steps (server_circuit server) ! Suc 0 = (A_accept, server)" "steps (server_circuit server) ! 0 = (A_listen, server)"
    "abs_next (server_circuit server) 0 = Some (Suc 0)"
  by (simp_all add: server_circuit_def abs_next_def)

lemma echo_sees:
  assumes "echo_at os su \<sigma> w"
  obtains P where "obj_as w as_file (su_file su) = Some \<lparr>f_ptr = NULL, f_data = NULL, f_fd = dr_lfd (su_door su)\<rparr>"
    and "obj_as w as_tcpserverP (su_server su) = Some P" and "epollflags P = EPOLLET" and "client_connected P = Some 0"
  using assms by (auto simp: echo_at_def settings_ok_def obj_as_def)

lemma echo_calm:
  assumes "echo_at os su \<sigma> w" and "calm su w w'" and "circs w' = circs w"
  shows "echo_at os su (\<sigma>\<lparr>se_kern := kern w'\<rparr>) w'"
proof (rule calm_echo_at [OF assms(2,1)])
  have "elems w' = elems w" using assms(2) by (simp add: calm_def)
  then show "ready w' (su_worker su) (su_wps su) (worker_circuit (su_io su))"
    using assms by (simp add: echo_at_def circuits_ok_def ready_def)
qed

lemma arrivals_run:
  "arrivals os (su_door su) d \<sigma> io \<sigma>' \<Longrightarrow> echo_at os su \<sigma> w \<Longrightarrow>
    \<exists>w'. exec echo_program d (Run A_accept (su_accept su) NULL (su_file su) (su_server su)) w = Inr ((), w') \<and>
      echo_at os su \<sigma>' w' \<and> writes (trace w') = writes (trace w) @ io"
proof (induction arbitrary: w rule: arrivals.induct)
  case (nobody \<sigma> k1 k2 d)
  obtain P where o: "obj_as w as_file (su_file su) = Some \<lparr>f_ptr = NULL, f_data = NULL, f_fd = dr_lfd (su_door su)\<rparr>"
    "obj_as w as_tcpserverP (su_server su) = Some P" "epollflags P = EPOLLET" "client_connected P = Some 0"
    by (rule echo_sees [OF nobody.prems])
  have pr: "process_ok os su \<sigma> w" using nobody.prems by (simp add: echo_at_def)
  let ?w = "(after_call (SysAccept (dr_lfd (su_door su))) k1 w)\<lparr>errno := EAGAIN\<rparr>"
  let ?call = "exec echo_program d" and ?x = "bag_of su Acceptor"
  have "acceptA ?call (su_accept su) NULL (su_file su) (su_server su) w =
      waitA ?call (su_accept su) NULL (su_file su) (dr_lfd (su_door su)) EPOLLIN EPOLLET ?w"
    using acceptA_again [OF o(1,2), of k1] nobody.hyps(1) pr o(3) by (simp add: process_ok_def)
  moreover have "\<exists>cs en. waitA ?call (su_accept su) NULL (su_file su) (dr_lfd (su_door su)) EPOLLIN EPOLLET ?w =
      Inr ((), parked (waiting_bag (dr_lfd (su_door su)) (su_accept su) NULL (su_file su)) cs en k2 ?w) \<and> writes cs = []"
    by (rule waitA_armed [where k = "fed os k1"]) (use pr nobody.hyps(2) fed_eq [of os k1] in \<open>simp_all add: process_ok_def\<close>)
  ultimately obtain cs en where run: "acceptA ?call (su_accept su) NULL (su_file su) (su_server su) w =
      Inr ((), parked ?x cs en k2 ?w)" "writes cs = []" by auto
  have "echo_at os su (\<sigma>\<lparr>se_kern := kern ?w\<rparr>) ?w"
    by (rule echo_calm [OF nobody.prems calm_trans [OF calm_after_call calm_errno]]) simp
  then have "echo_at os su (asleep Acceptor k2 (\<sigma>\<lparr>se_kern := kern ?w\<rparr>)) (parked ?x cs en k2 ?w)"
    by (rule echo_parked) (use nobody.hyps(3) in \<open>simp_all add: full_def\<close>)
  then show ?case using run by (intro exI [of _ "parked ?x cs en k2 ?w"]) (simp add: asleep_def)
next
  case (somebody \<sigma> fd addr k1 d ms \<sigma>1 io \<sigma>2)
  obtain P where o: "obj_as w as_file (su_file su) = Some \<lparr>f_ptr = NULL, f_data = NULL, f_fd = dr_lfd (su_door su)\<rparr>"
    "obj_as w as_tcpserverP (su_server su) = Some P" "epollflags P = EPOLLET" "client_connected P = Some 0"
    by (rule echo_sees [OF somebody.prems])
  let ?call = "exec echo_program (Suc d)"
  let ?w = "after_call (SysAccept (dr_lfd (su_door su))) k1 w" and ?\<sigma> = "\<sigma>\<lparr>se_kern := k1\<rparr>" and ?q = "newcomer fd addr \<sigma>"
  have "echo_at os su (\<sigma>\<lparr>se_kern := kern ?w\<rparr>) ?w" by (rule echo_calm [OF somebody.prems calm_after_call]) simp
  then have e: "echo_at os su ?\<sigma> ?w" by simp
  then have pr: "process_ok os su ?\<sigma> ?w" by (simp add: echo_at_def)
  have q: "newcomer fd addr ?\<sigma> = ?q" "admitted os (su_door su) addr (se_kern ?\<sigma>) ?\<sigma> = admitted os (su_door su) addr k1 \<sigma>"
    by (simp_all add: newcomer_def admitted_def)
  obtain w1 where w1: "runA (exec echo_program d) (su_worker su) NULL (pr_conn ?q) (welcomed fd addr ?w) =
      exec echo_program d (Run A_read (su_worker su) NULL (pr_conn ?q) (su_io su)) w1"
    "serving os su ?q (admitted os (su_door su) addr k1 \<sigma>) w1" "trace w1 = trace (welcomed fd addr ?w)"
    using worker_starts [OF welcomed_at [OF e, where fd = fd and addr = addr, unfolded q], of "exec echo_program d"] by (auto simp: q)
  obtain w2 where w2: "exec echo_program d (Run A_read (su_worker su) NULL (pr_conn ?q) (su_io su)) w1 = Inr ((), w2)"
    "echo_at os su \<sigma>1 w2" "writes (trace w2) = writes (trace w1) @ ms"
    using talk_runs [OF somebody.hyps(2) w1(2)] by blast
  have b: "brk (objs ?w) = pr_conn ?q" using pr by (simp add: newcomer_def process_ok_def)
  have conn: "?call (OnConn 0 (su_accept su) NULL fd addr) ?w = Inr ((), w2)"
    using client_connected_runs [OF pr, of "exec echo_program d" "su_accept su" fd addr] w1(1) w2(1) b
    by (simp add: echo_program_def)
  have at1: "at_step w2 (su_accept su) (su_aps su) (server_circuit (su_server su)) (Suc 0)"
    using w2(2) by (simp add: echo_at_def circuits_ok_def)
  have "acceptA ?call (su_accept su) NULL (su_file su) (su_server su) w =
      mthen (?call (OnConn 0 (su_accept su) NULL fd addr)) (returnA ?call (su_accept su) NULL (su_file su)) ?w"
    using acceptA_client [OF o(1,2,4), of fd addr k1] somebody.hyps(1) somebody.prems
    by (simp add: echo_at_def process_ok_def)
  also have "\<dots> = returnA ?call (su_accept su) NULL (su_file su) w2" using conn by (simp add: mthen_apply)
  also have "\<dots> = ?call (Run A_accept (su_accept su) NULL (su_file su) (su_server su)) w2"
    using returnA_step [OF at1, of ?call NULL "su_file su"] at_step_same [OF at1] by simp
  finally have run: "acceptA ?call (su_accept su) NULL (su_file su) (su_server su) w =
      ?call (Run A_accept (su_accept su) NULL (su_file su) (su_server su)) w2" .
  from somebody.IH [OF w2(2)] obtain w3 where
    "?call (Run A_accept (su_accept su) NULL (su_file su) (su_server su)) w2 = Inr ((), w3)"
    "echo_at os su \<sigma>2 w3" "writes (trace w3) = writes (trace w2) @ io" by blast
  with run w1(3) w2(3) show ?case by (intro exI [of _ w3]) simp
qed

section \<open>Events\<close>

lemma echo_woken:
  assumes "echo_at os su \<sigma> w" and "se_tab \<sigma> p = Some x"
  shows "echo_at os su (awake p \<sigma>) (woken p w)" and "there x (woken p w)"
    and "x = Client q \<Longrightarrow> apart_from q (se_tab (awake p \<sigma>))" and "waits_for (bag_of su x) p w" and "ev_ok w"
proof -
  have pr: "process_ok os su \<sigma> w" and ci: "circuits_ok su w" and se: "settings_ok su w" and ta: "table_ok_for su (se_tab \<sigma>) w"
    using assms(1) by (simp_all add: echo_at_def)
  show ok: "ev_ok w" using pr by (simp add: process_ok_def)
  note x = table_waits [OF ta assms(2)]
  show wt: "waits_for (bag_of su x) p w" by (rule x(1))
  note t = woken_table [OF ok wt]
  have nn: "p \<noteq> NULL" by (rule waits_not_NULL [OF ok wt])
  have th: "there y (woken p w) = there y w" for y by (cases y) (simp_all add: connected_def)
  show "there x (woken p w)" using x(2) th by simp
  show "apart_from q (se_tab (awake p \<sigma>))" if "x = Client q" using x(3) [OF that] by (simp add: awake_def)
  have "process_ok os su (awake p \<sigma>) (woken p w)" using pr t(1) by (simp add: process_ok_def awake_def)
  moreover have "circuits_ok su (woken p w)" using ci by (simp add: circuits_ok_def ready_def at_step_def)
  moreover have "settings_ok su (woken p w)" using se by (simp add: settings_ok_def)
  moreover have "table_ok_for su ((se_tab \<sigma>)(p := None)) (woken p w)"
  proof -
    have "waits_for (bag_of su y) r (woken p w) \<and> there y (woken p w)" if "r \<noteq> p" "se_tab \<sigma> r = Some y" for r y
      using that table_waits [OF ta that(2)] waits_woken [OF ok nn _ that(1)] th by simp
    moreover have "apart_from r ((se_tab \<sigma>)(p := None, s := None))" if "se_tab \<sigma> s = Some (Client r)" for r s
      using table_waits(3) [OF ta that refl] by (auto simp: apart_from_def split: if_splits)
    moreover have "registered (ev (woken p w)) = dom ((se_tab \<sigma>)(p := None))" using t(2) ta by (simp add: table_ok_for_def)
    ultimately show ?thesis by (simp add: table_ok_for_def)
  qed
  ultimately show "echo_at os su (awake p \<sigma>) (woken p w)" by (simp add: echo_at_def awake_def)
qed

lemma attend_runs:
  assumes "attend os (su_door su) d \<sigma> e io \<sigma>'" and at: "echo_at os su \<sigma> w"
  shows "\<exists>w'. handle_event (exec echo_program d) e w = Inr ((), w') \<and> echo_at os su \<sigma>' w' \<and>
    writes (trace w') = writes (trace w) @ io"
  using assms(1)
proof cases
  case (client p q m)
  note x = echo_woken [OF at client(2)]
  have "connected q (woken p w)" "apart_from q (se_tab (awake p \<sigma>))" using x(2) x(3) [OF refl] by simp_all
  from worker_starts [OF x(1) this, of "exec echo_program d"] obtain w1 where
    w1: "runA (exec echo_program d) (su_worker su) NULL (pr_conn q) (woken p w) =
      exec echo_program d (Run A_read (su_worker su) NULL (pr_conn q) (su_io su)) w1"
    "serving os su q (awake p \<sigma>) w1" "trace w1 = trace (woken p w)" by blast
  from handle_plain [OF x(5,4) client(3), of "exec echo_program d"] talk_runs [OF client(4) w1(2)] w1
  show ?thesis by (auto simp: client(1))
next
  case (acceptor p m)
  note x = echo_woken [OF at acceptor(2)]
  have at1: "at_step (woken p w) (su_accept su) (su_aps su) (server_circuit (su_server su)) (Suc 0)"
    using x(1) by (simp add: echo_at_def circuits_ok_def)
  from handle_plain [OF x(5,4) acceptor(3), of "exec echo_program d"] runA_resume [OF at1, of "exec echo_program d"]
    arrivals_run [OF acceptor(4) x(1)]
  show ?thesis by (simp add: acceptor(1))
next
  case (hangup p q m r1 k1 r2 k2)
  note x = echo_woken [OF at hangup(4)]
  have pr: "process_ok os su \<sigma> w" using at by (simp add: echo_at_def)
  define msg where "msg = (if m AND EPOLLRDHUP \<noteq> 0 then ''Remote hanged up'' else ''Connection Error'')"
  obtain n where n: "d = Suc n" using hangup(6) by (cases d) auto
  let ?w = "\<lambda>en. (woken p w)\<lparr>kern := k2, trace := trace w @ [SysEpollCtl EPOLL_CTL_DEL (pr_fd q), SysClose (pr_fd q)], errno := en\<rparr>"
  obtain en where run: "handle_event (exec echo_program d) (m, p) w =
      errorA (exec echo_program d) (su_worker su) NULL (pr_conn q) (Some msg) (?w en)"
    using handle_broken [OF x(5,4) hangup(5), of r1 k1 r2 k2 "exec echo_program d"] hangup(7,8) pr
    by (auto simp: process_ok_def msg_def)
  have c: "calm su (woken p w) (?w en)" unfolding calm_def by simp
  have "echo_at os su ((awake p \<sigma>)\<lparr>se_kern := kern (?w en)\<rparr>) (?w en)" by (rule echo_calm [OF x(1) c]) simp
  moreover have "connected q (?w en)" "apart_from q (se_tab ((awake p \<sigma>)\<lparr>se_kern := kern (?w en)\<rparr>))"
    using calm_connected [OF c] x(2) x(3) [OF refl] by simp_all
  moreover have "length msg < 1024" by (simp add: msg_def)
  ultimately have "\<exists>w'. errorA (exec echo_program (Suc n)) (su_worker su) NULL (pr_conn q) (Some msg) (?w en) = Inr ((), w') \<and>
      echo_at os su (gone os (su_door su) msg q (se_kern ((awake p \<sigma>)\<lparr>se_kern := kern (?w en)\<rparr>)) ((awake p \<sigma>)\<lparr>se_kern := kern (?w en)\<rparr>)) w' \<and>
      writes (trace w') = writes (trace (?w en))"
    by (rule dismissed)
  then show ?thesis using run n hangup(1-3) by (simp add: gone_def msg_def)
qed

end
