(* ===== verification/Server_Life.thy ===== *)
theory Server_Life
  imports Server_Round
begin

text \<open>
  The life of the echo server: from the start of \<open>main\<close> to the first wait, through a session of the event
  loop, and from the failing \<open>epoll_wait\<close> to the exit status.
\<close>

section \<open>Sessions\<close>

lemma attends_run:
  "attends os (su_door su) d \<sigma> evs io \<sigma>' \<Longrightarrow> echo_at os su \<sigma> w \<Longrightarrow>
    \<exists>w'. handle_events (exec echo_program d) evs w = Inr ((), w') \<and> echo_at os su \<sigma>' w' \<and>
      writes (trace w') = writes (trace w) @ io"
proof (induction arbitrary: w rule: attends.induct)
  case (none \<sigma>)
  then show ?case by (simp add: handle_events_def mret_apply)
next
  case (event \<sigma> e io1 \<sigma>1 es io2 \<sigma>2)
  obtain w1 where w1: "handle_event (exec echo_program d) e w = Inr ((), w1)" "echo_at os su \<sigma>1 w1"
    "writes (trace w1) = writes (trace w) @ io1" using attend_runs [OF event.hyps(1) event.prems] by blast
  obtain w2 where "handle_events (exec echo_program d) es w1 = Inr ((), w2)" "echo_at os su \<sigma>2 w2"
    "writes (trace w2) = writes (trace w1) @ io2" using event.IH [OF w1(2)] by blast
  with w1 show ?case by (simp add: handle_events_def mthen_apply)
qed

abbreviation status_of :: "('k, echo) world \<Rightarrow> int" where
  "status_of \<equiv> \<lambda>w. es_status (usr w)"

text \<open>While somebody waits the loop asks epoll.\<close>

lemma keeps_waiting:
  assumes "echo_at os su \<sigma> w" and "se_tab \<sigma> \<noteq> (\<lambda>_. None)"
  shows "keeps_going (Some status_of) w"
proof -
  have pr: "process_ok os su \<sigma> w" and ta: "table_ok_for su (se_tab \<sigma>) w" using assms(1) by (simp_all add: echo_at_def)
  then have t: "table_ok (ev w)" by (simp add: process_ok_def ev_ok_def)
  have "registered (ev w) \<noteq> {}" using ta assms(2) by (auto simp: table_ok_for_def)
  then have "waitingbags (ev w) \<noteq> 0" using reg.count_card [OF t] reg.fin [OF t] by simp
  then show ?thesis using pr by (simp add: keeps_going_def process_ok_def WORKING_def EXIT_FAILURE_def)
qed

lemma session_runs:
  "session os (su_door su) d \<sigma> n io \<sigma>' \<Longrightarrow> echo_at os su \<sigma> w \<Longrightarrow>
    \<exists>w'. meloop_io_loop (n + m) (exec echo_program d) (Some status_of) w =
        meloop_io_loop m (exec echo_program d) (Some status_of) w' \<and>
      echo_at os su \<sigma>' w' \<and> writes (trace w') = writes (trace w) @ io"
proof (induction arbitrary: w rule: session.induct)
  case (start \<sigma>)
  then show ?case by (intro exI [of _ w]) simp
next
  case (round \<sigma> evs k io1 \<sigma>1 n io2 \<sigma>2)
  have pr: "process_ok os su \<sigma> w" using round.prems by (simp add: echo_at_def)
  let ?w = "after_call SysEpollWait k w"
  have "meloop_ev_wait w = Inr (Inr evs, ?w)"
    using round.hyps(1,3) pr by (simp add: meloop_ev_wait_def mdefs syscall_def process_ok_def after_call_def)
  then have loop: "meloop_io_loop (Suc (n + m)) (exec echo_program d) (Some status_of) w =
      mthen (handle_events (exec echo_program d) evs) (meloop_io_loop (n + m) (exec echo_program d) (Some status_of)) ?w"
    using keeps_waiting [OF round.prems round.hyps(4)] round.hyps(2) by (simp add: mbind_apply mgets_apply)
  have "echo_at os su (\<sigma>\<lparr>se_kern := kern ?w\<rparr>) ?w" by (rule echo_calm [OF round.prems calm_after_call]) simp
  then have e: "echo_at os su (\<sigma>\<lparr>se_kern := k\<rparr>) ?w" by simp
  obtain w1 where w1: "handle_events (exec echo_program d) evs ?w = Inr ((), w1)" "echo_at os su \<sigma>1 w1"
    "writes (trace w1) = writes (trace ?w) @ io1" using attends_run [OF round.hyps(5) e] by blast
  obtain w2 where "meloop_io_loop (n + m) (exec echo_program d) (Some status_of) w1 =
      meloop_io_loop m (exec echo_program d) (Some status_of) w2"
    "echo_at os su \<sigma>2 w2" "writes (trace w2) = writes (trace w1) @ io2" using round.IH [OF w1(2)] by blast
  with loop w1 show ?case by (intro exI [of _ w2]) (simp add: mthen_apply)
qed

section \<open>The end\<close>

lemma circuit_same:
  assumes "circuit E ps a" and "\<And>p. p \<in> set ps \<Longrightarrow> cells E' p = cells E p"
  shows "circuit E' ps a"
  using assms circuit_cong [of ps E' E] by blast

lemma circuits_freed:
  assumes "circuits_ok su w"
  shows "\<exists>w'. mthen (freeC (su_worker su)) (freeC (su_accept su)) w = Inr ((), w') \<and> usr w' = usr w \<and> trace w' = trace w"
proof -
  obtain C C' where C: "cells (circs w) (su_worker su) = Some C" "c_nets C = hd (su_wps su)"
    and ci: "circuit (elems w) (su_wps su) (worker_circuit (su_io su))" "circuit (elems w) (su_aps su) (server_circuit (su_server su))"
    and C': "cells (circs w) (su_accept su) = Some C'" "c_nets C' = hd (su_aps su)"
    and ne: "su_worker su \<noteq> su_accept su" "set (su_wps su) \<inter> set (su_aps su) = {}"
    using assms by (auto simp: circuits_ok_def ready_def at_step_def)
  obtain w1 where w1: "freeC (su_worker su) w = Inr ((), w1)" "usr w1 = usr w" "trace w1 = trace w"
    "cells (circs w1) (su_accept su) = Some C'" "\<And>p. p \<notin> set (su_wps su) \<Longrightarrow> cells (elems w1) p = cells (elems w) p"
    using freeC_element [OF C ci(1)] C'(1) ne(1) by metis
  have "circuit (elems w1) (su_aps su) (server_circuit (su_server su))"
    by (rule circuit_same [OF ci(2)]) (use w1(5) ne(2) in blast)
  then obtain w2 where "freeC (su_accept su) w1 = Inr ((), w2)" "usr w2 = usr w1" "trace w2 = trace w1"
    using freeC_element [OF w1(4) C'(2)] by blast
  then show ?thesis using w1 by (simp add: mthen_apply)
qed

text \<open>From a failing \<open>epoll_wait\<close> to the exit status.\<close>

lemma echo_ends:
  assumes at: "echo_at os su \<sigma> w" and tab: "se_tab \<sigma> \<noteq> (\<lambda>_. None)"
    and wait: "os_epoll_wait os (dr_epfd (su_door su)) EV_MAXEVENTS (se_kern \<sigma>) = (Inl e, k)"
  shows "\<exists>w'. mthen (serve ''echoserver.c'' 133 (\<lambda>st v. v\<lparr>es_status := st\<rparr>) es_status (Suc m) call)
      (mthen meloop_io_deinit (mthen (freeC (su_worker su)) (mthen (freeC (su_accept su)) (mgets (\<lambda>w. es_status (usr w)))))) w =
    Inr (EXIT_FAILURE, w') \<and> writes (trace w') = writes (trace w)"
proof -
  have pr: "process_ok os su \<sigma> w" and ci: "circuits_ok su w" using at by (simp_all add: echo_at_def)
  let ?w1 = "w\<lparr>kern := k, trace := trace w @ [SysEpollWait], errno := e\<rparr>"
  have loop: "meloop_io_loop (Suc m) call (Some status_of) w = Inr (ERR, ?w1)"
    using keeps_waiting [OF at tab] wait pr by (simp add: meloop_ev_wait_def mdefs syscall_def process_ok_def)
  have "LOGGING_ERROR \<le> LOGGING_INFO" by (simp add: less_eq_logging_verbosity_def)
  then have lv: "LOGGING_ERROR \<le> verbosity ?w1" using pr by (auto simp: process_ok_def)
  obtain w2 ts where log: "logging_log LOGGING_ERROR ''echoserver.c'' 133 ''main'' (Some ''meloop_io_loop'') ?w1 = Inr ((), w2)"
    and p: "prints ?w1 ts w2"
    using logging_log_prints [OF lv, of "''echoserver.c''" 133 "''main''" "Some ''meloop_io_loop''"] pr
    by (auto simp: process_ok_def)
  let ?w3 = "w2\<lparr>usr := (usr w2)\<lparr>es_status := EXIT_FAILURE\<rparr>\<rparr>"
  have serve: "serve ''echoserver.c'' 133 (\<lambda>st v. v\<lparr>es_status := st\<rparr>) es_status (Suc m) call w = Inr ((), ?w3)"
    unfolding serve_def using loop log by (simp add: mdefs on_usr_def ERR_def del: meloop_io_loop.simps)
  have "ev_ok ?w3" "circuits_ok su ?w3" "writes (trace ?w3) = writes (trace w)"
    using pr ci p by (auto simp: prints_def process_ok_def ev_ok_def circuits_ok_def ready_def at_step_def writes_def comp_def)
  then obtain w4 where w4: "meloop_io_deinit ?w3 = Inr ((), w4)" "usr w4 = usr ?w3" "circs w4 = circs ?w3" "elems w4 = elems ?w3"
    "writes (trace w4) = writes (trace w)" using deinit_runs [of ?w3] by auto
  have "circuits_ok su w4" using \<open>circuits_ok su ?w3\<close> w4(3,4) by (simp add: circuits_ok_def ready_def at_step_def)
  then obtain w5 where "mthen (freeC (su_worker su)) (freeC (su_accept su)) w4 = Inr ((), w5)" "usr w5 = usr w4" "trace w5 = trace w4"
    using circuits_freed by blast
  moreover have "mthen (freeC (su_worker su)) (mthen (freeC (su_accept su)) d) =
      mthen (mthen (freeC (su_worker su)) (freeC (su_accept su))) d" for d :: "('a, echo, int) wm" by (simp add: mthen_assoc)
  ultimately show ?thesis using serve w4 by (simp add: mthen_apply mgets_apply)
qed

section \<open>The start\<close>

text \<open>The kernel opens the listening socket, and the service before the first connection is accepted.\<close>

inductive opened :: "'k os \<Rightarrow> int \<Rightarrow> 'k \<Rightarrow> 'k \<Rightarrow> bool" for os fd k where
  opens: "os_socket os AF_INET (SOCK_STREAM OR SOCK_NONBLOCK) 0 k = (Inr fd, k1) \<Longrightarrow> os_reuseaddr os fd k1 = (Inr (), k2) \<Longrightarrow>
    os_bind os fd (listen_addr echo_server) k2 = (Inr (), k3) \<Longrightarrow> os_listen os fd (backlog echo_server) k3 = (Inr (), k4) \<Longrightarrow>
    opened os fd k k4"

definition first_service :: "'k \<Rightarrow> ('k, echo) world \<Rightarrow> 'k service" where
  "first_service k w = \<lparr>se_tab = (\<lambda>_. None), se_bag = brk (bagh w), se_obj = brk (objs w) + 3, se_blob = brk (blobs w),
     se_count = es_clients (usr w), se_kern = k\<rparr>"

definition door_of :: "int \<Rightarrow> ('k, echo) world \<Rightarrow> door" where
  "door_of fd w = \<lparr>dr_lfd = fd, dr_epfd = epfd (ev w), dr_flags = epflags (ev w), dr_log = logging_fd w\<rparr>"

text \<open>A process that is ready to serve: nothing waits, and nothing was freed twice.\<close>

definition able :: "('k, echo) world \<Rightarrow> bool" where
  "able w \<longleftrightarrow> malloc_total (w_os w) \<and> log_works (w_os w) (logging_fd w) \<and> LOGGING_INFO \<le> verbosity w \<and>
     es_status (usr w) = WORKING \<and> ev_ok w \<and> registered (ev w) = {} \<and>
     store_ok (elems w) \<and> store_ok (circs w) \<and> store_ok (objs w) \<and> store_ok (blobs w)"

lemma worker_built: "abs_build \<lparr>steps = [], leads = None\<rparr> (worker_cmds io) = Some (worker_circuit io)"
  by (simp add: worker_cmds_def worker_circuit_def abs_append_eq single_def abs_loop_def)

lemma server_built: "abs_build \<lparr>steps = [], leads = None\<rparr> (server_cmds server) = Some (server_circuit server)"
  by (simp add: server_cmds_def server_circuit_def abs_append_eq single_def abs_loop_def)

lemma cmds_ok: "build_ok 0 (worker_cmds io)" "build_ok 0 (server_cmds server)" "appends (worker_cmds io) = 2"
    "appends (server_cmds server) = 2"
  by (simp_all add: worker_cmds_def server_cmds_def)

lemma newC_usr: "newC err w = Inr (c, w1) \<Longrightarrow> newC err (w\<lparr>usr := u\<rparr>) = Inr (c, w1\<lparr>usr := u\<rparr>)"
  by (auto simp: newC_def mdefs malloc_or_die_def Let_def split: prod.splits if_splits)

text \<open>The variables and the two circuits.\<close>

definition laid_out :: "'k os \<Rightarrow> fixtures \<Rightarrow> ('k, echo) world \<Rightarrow> ('k, echo) world \<Rightarrow> bool" where
  "laid_out os su w0 w \<longleftrightarrow> ready w (su_worker su) (su_wps su) (worker_circuit (su_io su)) \<and>
     at_step w (su_accept su) (su_aps su) (server_circuit (su_server su)) 0 \<and> su_worker su \<noteq> su_accept su \<and>
     (\<exists>C. cells (circs w) (su_accept su) = Some C \<and> c_nets C = hd (su_aps su)) \<and> set (su_wps su) \<inter> set (su_aps su) = {} \<and>
     su_io su = brk (objs w0) \<and> su_server su = Suc (su_io su) \<and> su_file su = Suc (su_server su) \<and>
     objs w = snd (new_cell (O_file \<lparr>f_ptr = NULL, f_data = NULL, f_fd = -1\<rparr>) (snd (new_cell (O_tcpserverP echo_server)
       (snd (new_cell (O_ioP echo_io) (objs w0)))))) \<and>
     blobs w = blobs w0 \<and> bagh w = bagh w0 \<and> ev w = ev w0 \<and> w_os w = w_os w0 \<and> trace w = trace w0 \<and>
     verbosity w = verbosity w0 \<and> logging_fd w = logging_fd w0 \<and>
     usr w = (usr w0)\<lparr>es_worker := su_worker su\<rparr> \<and> kern w = (fed os ^^ 6) (kern w0)"

lemma echo_lays_out:
  assumes "able w" and "w_os w = os"
  shows "\<exists>su w1. su_door su = dr \<and> echo_rest call rounds w =
      mthen (call (Run A_listen (su_accept su) NULL (su_file su) (su_server su)))
      (mthen (serve ''echoserver.c'' 133 (\<lambda>st v. v\<lparr>es_status := st\<rparr>) es_status rounds call)
      (mthen meloop_io_deinit (mthen (freeC (su_worker su)) (mthen (freeC (su_accept su)) (mgets (\<lambda>w. es_status (usr w))))))) w1 \<and>
    laid_out os su w w1"
proof -
  let ?io = "brk (objs w)"
  let ?w1 = "w\<lparr>objs := snd (new_cell (O_ioP echo_io) (objs w))\<rparr>"
  let ?u = "(usr w)\<lparr>es_worker := brk (circs w)\<rparr>"
  let ?v1 = "?w1\<lparr>usr := ?u\<rparr>"
  have ok: "malloc_total (w_os ?v1)" "store_ok (elems ?v1)" using assms(1) by (simp_all add: able_def)
  obtain wk wps v2 w3 where n1: "newC (Some 1) ?v1 = Inr (wk, v2)" "build wk [] (worker_cmds ?io) v2 = Inr (wps, w3)"
    and b1: "built (Some 1) 3 ?v1 wk wps (worker_circuit ?io) w3"
    using circuit_built [OF ok worker_built [of ?io] cmds_ok(1), of "Some 1"] cmds_ok(3) by auto
  have wk: "wk = brk (circs w)" using b1 by (simp add: built_def)
  obtain w2 where "newC (Some 1) ?w1 = Inr (wk, w2)" "w2\<lparr>usr := ?u\<rparr> = v2" "usr w2 = usr w"
  proof -
    have m: "os_malloc (w_os w) (kern w) = (True, fed (w_os w) (kern w))" using assms(1) by (auto simp: able_def intro: fed_eq)
    then show thesis using n1(1) that wk by (auto simp: newC_def mdefs malloc_or_die_def new_cell_def)
  qed
  then have first: "echo_rest call rounds w = mbind (variable (O_tcpserverP echo_server)) (\<lambda>server.
     mbind (variable (O_file \<lparr>f_ptr = NULL, f_data = NULL, f_fd = -1\<rparr>)) (\<lambda>file.
     mbind (newC (Some 0)) (\<lambda>circ.
     mbind (build circ [] (server_cmds server)) (\<lambda>_.
     mthen (runA call circ NULL file)
     (mthen (serve ''echoserver.c'' 133 (\<lambda>st v. v\<lparr>es_status := st\<rparr>) es_status rounds call)
     (mthen meloop_io_deinit
     (mthen (freeC wk)
     (mthen (freeC circ)
     (mgets (\<lambda>w. es_status (usr w))))))))))) w3"
    using n1(2) wk by (simp add: echo_rest_def variable_bind echo_io_def [symmetric] mbind_apply [of "newC x" for x] on_usr_then
        mbind_apply [of "build x y z" for x y z])
  let ?w4 = "w3\<lparr>objs := snd (new_cell (O_file \<lparr>f_ptr = NULL, f_data = NULL, f_fd = -1\<rparr>)
    (snd (new_cell (O_tcpserverP echo_server) (objs w3))))\<rparr>"
  have ok2: "malloc_total (w_os ?w4)" "store_ok (elems ?w4)" using ok b1 by (simp_all add: built_def same_data_def)
  obtain ac aps w5 w6 where n2: "newC (Some 0) ?w4 = Inr (ac, w5)" "build ac [] (server_cmds (Suc ?io)) w5 = Inr (aps, w6)"
    and b2: "built (Some 0) 3 ?w4 ac aps (server_circuit (Suc ?io)) w6"
    using circuit_built [OF ok2 server_built [of "Suc ?io"] cmds_ok(2), of "Some 0"] cmds_ok(4) by auto
  have o3: "objs w3 = snd (new_cell (O_ioP echo_io) (objs w))" using b1 by (simp add: built_def same_data_def)
  have two: "steps (server_circuit (Suc ?io)) \<noteq> []" "steps (server_circuit (Suc ?io)) ! 0 = (A_listen, Suc ?io)"
    by (simp_all add: server_circuit_def)
  let ?w7 = "goto ac (aps ! 0) w6"
  note st = built_starts [OF b2 two]
  let ?su = "\<lparr>su_worker = wk, su_wps = wps, su_io = ?io, su_accept = ac, su_aps = aps, su_server = Suc ?io,
    su_file = Suc (Suc ?io), su_door = dr\<rparr>"
  have run: "echo_rest call rounds w = mthen (call (Run A_listen ac NULL (Suc (Suc ?io)) (Suc ?io)))
      (mthen (serve ''echoserver.c'' 133 (\<lambda>st v. v\<lparr>es_status := st\<rparr>) es_status rounds call)
      (mthen meloop_io_deinit (mthen (freeC wk) (mthen (freeC ac) (mgets (\<lambda>w. es_status (usr w))))))) ?w7"
    unfolding first using n2 st(1) [of call NULL "Suc (Suc ?io)"] o3
    by (simp add: variable_bind mbind_apply [of "newC x" for x] mbind_apply [of "build x y z" for x y z]
        mthen_apply [of "runA x y z t" for x y z t] mthen_apply [of "call x" for x])
  have ne: "wk \<noteq> ac"
  proof -
    have "brk (circs w3) = Suc wk" "ac = brk (circs w3)" using b1 b2 by (simp_all add: built_def)
    then show ?thesis by simp
  qed
  obtain C1 where C1: "cells (circs w3) wk = Some C1" "c_err C1 = Some 1" "c_current C1 = NULL" "c_nets C1 = hd wps"
    and ci1: "circuit (elems w3) wps (worker_circuit ?io)" "wps \<noteq> []"
    using b1 by (auto simp: built_def circuit_at_def worker_circuit_def split: if_splits)
  obtain C2 where C2: "cells (circs w6) ac = Some C2" "c_nets C2 = hd aps"
    using b2 by (auto simp: built_def circuit_at_def server_circuit_def split: if_splits)
  have low: "p < brk (elems w3)" if "p \<in> set wps" for p
  proof -
    have "cells (elems w3) p \<noteq> None" using that chain_live [of "elems w3" "hd wps" wps _ p] ci1(1) unfolding circuit_def by blast
    then show ?thesis using ok2(2) unfolding store_ok_def by simp
  qed
  have dis: "set wps \<inter> set aps = {}" using b2 low by (fastforce simp: built_def)
  have same: "cells (elems w6) p = cells (elems w3) p" if "p \<notin> set aps" for p
    using b2 that by (simp add: built_def)
  have "circuit (elems w6) wps (worker_circuit ?io)"
    by (rule circuit_same [OF ci1(1)]) (use same dis in blast)
  moreover have "cells (circs w6) wk = Some C1" using b2 ne C1(1) by (simp add: built_def)
  ultimately have "ready ?w7 wk wps (worker_circuit ?io)"
    using C1 ne by (simp add: ready_def goto_def)
  moreover have "\<exists>C. cells (circs ?w7) ac = Some C \<and> c_nets C = hd aps" using C2 by (simp add: goto_def)
  moreover have "kern ?w7 = (fed os ^^ 6) (kern w)"
  proof -
    have "kern w6 = (fed os ^^ 3) (kern w3)" "kern w3 = (fed os ^^ 3) (kern w)"
      using b1 b2 assms(2) by (simp_all add: built_def same_data_def)
    then show ?thesis by (simp add: numeral_eq_Suc)
  qed
  ultimately have "laid_out os ?su w ?w7"
    using st(2) ne dis b1 b2 o3 wk by (simp add: laid_out_def built_def same_data_def)
  then show ?thesis using run by (intro exI [of _ ?su] exI [of _ ?w7]) simp
qed

text \<open>\<open>listenA\<close> opens the door.\<close>

lemma echo_listens:
  assumes ab: "able w" and os: "w_os w = os" and lay: "laid_out os su w w1" and door: "su_door su = door_of fd w"
    and op: "opened os fd ((fed os ^^ 6) (kern w)) k"
  shows "\<exists>w2. exec echo_program (Suc d) (Run A_listen (su_accept su) NULL (su_file su) (su_server su)) w1 =
      exec echo_program d (Run A_accept (su_accept su) NULL (su_file su) (su_server su)) w2 \<and>
    echo_at os su (first_service k w) w2 \<and> writes (trace w2) = writes (trace w)"
  using op
proof cases
  case (opens k1 k2 k3)
  let ?ac = "su_accept su" and ?f = "\<lparr>f_ptr = NULL, f_data = NULL, f_fd = -1\<rparr> :: fileS"
  have o1: "cells (objs w1) (su_server su) = Some (O_tcpserverP echo_server)" "cells (objs w1) (su_file su) = Some (O_file ?f)"
    "cells (objs w1) (su_io su) = Some (O_ioP echo_io)" "su_file su \<noteq> su_server su" "su_io su \<noteq> su_server su" "su_io su \<noteq> su_file su"
    and w1: "w_os w1 = os" "kern w1 = (fed os ^^ 6) (kern w)"
    using lay os by (simp_all add: laid_out_def)
  define w2 where "w2 = obj_set (su_file su) (with_fd fd (O_file ?f)) (after_call (SysListen fd) k (after_call (SysBind fd) k3
    (after_call (SysReuse fd) k2 (after_call (SysSocket AF_INET (SOCK_STREAM OR SOCK_NONBLOCK)) k1
    (obj_set (su_server su) (O_tcpserverP (echo_server\<lparr>bind_addr := listen_addr echo_server\<rparr>)) w1)))))"
  have "listenA (exec echo_program d) ?ac NULL (su_file su) (su_server su) w1 = returnA (exec echo_program d) ?ac NULL (su_file su) w2"
    unfolding w2_def by (rule listenA_opened [OF o1(1,2) _ o1(4)]) (use opens w1 in simp_all)
  moreover have frame: "circs w2 = circs w1" "elems w2 = elems w1" "usr w2 = usr w1" "w_os w2 = os" "kern w2 = k"
    "ev w2 = ev w1" "bagh w2 = bagh w1" "blobs w2 = blobs w1" "verbosity w2 = verbosity w1" "logging_fd w2 = logging_fd w1"
    "writes (trace w2) = writes (trace w1)"
    and obj: "objs w2 = put_cell (su_file su) (with_fd fd (O_file ?f))
      (put_cell (su_server su) (O_tcpserverP (echo_server\<lparr>bind_addr := listen_addr echo_server\<rparr>)) (objs w1))"
    using w1 by (simp_all add: obj_set_def after_call_def w2_def)
  have lay_c: "ready w1 (su_worker su) (su_wps su) (worker_circuit (su_io su))"
    "at_step w1 ?ac (su_aps su) (server_circuit (su_server su)) 0" "su_worker su \<noteq> ?ac"
    "\<exists>C. cells (circs w1) ?ac = Some C \<and> c_nets C = hd (su_aps su)" "set (su_wps su) \<inter> set (su_aps su) = {}"
    using lay unfolding laid_out_def by blast+
  have at0: "at_step w2 ?ac (su_aps su) (server_circuit (su_server su)) 0"
    using lay_c(2) by (simp add: at_step_def frame)
  let ?w3 = "goto ?ac (su_aps su ! Suc 0) w2"
  have two: "Suc 0 < length (su_aps su)"
    using at0 circuit_lengths [of "elems w2" "su_aps su" "server_circuit (su_server su)"] by (auto simp: at_step_def server_circuit_def)
  have "returnA (exec echo_program d) ?ac NULL (su_file su) w2 =
      exec echo_program d (Run A_accept ?ac NULL (su_file su) (su_server su)) ?w3"
    using returnA_step [OF at0, of "exec echo_program d" NULL "su_file su"] by simp
  moreover have "echo_at os su (first_service k w) ?w3"
  proof -
    have "store_ok (objs w)" using ab by (simp add: able_def)
    then have "store_ok (objs w1)" using lay unfolding laid_out_def by (metis mem.ok_alloc)
    then have "store_ok (objs w2)" unfolding obj using o1(1,2) by (auto intro!: mem.ok_upd)
    then have "process_ok os su (first_service k w) ?w3"
      using ab os lay frame door
      by (simp add: process_ok_def able_def laid_out_def first_service_def door_of_def ev_ok_def) (simp add: obj)
    moreover have "circuits_ok su ?w3"
    proof -
      have "at_step ?w3 ?ac (su_aps su) (server_circuit (su_server su)) 1" using at_step_goto [OF at0 two] by simp
      then show ?thesis
        using lay_c by (auto simp: circuits_ok_def ready_def goto_def frame)
    qed
    moreover have "settings_ok su ?w3"
      using o1 door by (simp add: settings_ok_def obj echo_server_def door_of_def)
    moreover have "table_ok_for su (\<lambda>_. None) ?w3"
      using ab lay frame by (simp add: table_ok_for_def able_def laid_out_def)
    ultimately show ?thesis by (simp add: echo_at_def first_service_def)
  qed
  moreover have "writes (trace ?w3) = writes (trace w)" using lay frame by (simp add: laid_out_def)
  ultimately show ?thesis by (intro exI [of _ ?w3]) simp
qed

section \<open>From the start to the end\<close>

theorem echo_rest_serves:
  assumes ab: "able w" and os: "w_os w = os" and op: "opened os fd ((fed os ^^ 6) (kern w)) k"
    and ar: "arrivals os (door_of fd w) d (first_service k w) io0 \<sigma>1"
    and se: "session os (door_of fd w) (Suc d) \<sigma>1 n io1 \<sigma>2" and tab: "se_tab \<sigma>2 \<noteq> (\<lambda>_. None)"
    and wait: "os_epoll_wait os (epfd (ev w)) EV_MAXEVENTS (se_kern \<sigma>2) = (Inl e, k')"
  shows "\<exists>w'. echo_rest (exec echo_program (Suc d)) (n + Suc m) w = Inr (EXIT_FAILURE, w') \<and>
    writes (trace w') = writes (trace w) @ io0 @ io1"
proof -
  let ?call = "exec echo_program (Suc d)"
  let ?serve = "\<lambda>r. serve ''echoserver.c'' 133 (\<lambda>st v. v\<lparr>es_status := st\<rparr>) es_status r ?call"
  obtain su w1 where su: "su_door su = door_of fd w" and rest: "echo_rest ?call (n + Suc m) w =
      mthen (?call (Run A_listen (su_accept su) NULL (su_file su) (su_server su))) (mthen (?serve (n + Suc m))
      (mthen meloop_io_deinit (mthen (freeC (su_worker su)) (mthen (freeC (su_accept su)) (mgets (\<lambda>w. es_status (usr w))))))) w1"
    and lay: "laid_out os su w w1" using echo_lays_out [OF ab os] by blast
  obtain w2 where w2: "?call (Run A_listen (su_accept su) NULL (su_file su) (su_server su)) w1 =
      exec echo_program d (Run A_accept (su_accept su) NULL (su_file su) (su_server su)) w2"
    "echo_at os su (first_service k w) w2" "writes (trace w2) = writes (trace w)"
    using echo_listens [OF ab os lay su op] by blast
  obtain w3 where w3: "exec echo_program d (Run A_accept (su_accept su) NULL (su_file su) (su_server su)) w2 = Inr ((), w3)"
    "echo_at os su \<sigma>1 w3" "writes (trace w3) = writes (trace w2) @ io0"
    using arrivals_run [OF ar [folded su] w2(2)] by blast
  obtain w4 where w4: "meloop_io_loop (n + Suc m) ?call (Some status_of) w3 = meloop_io_loop (Suc m) ?call (Some status_of) w4"
    "echo_at os su \<sigma>2 w4" "writes (trace w4) = writes (trace w3) @ io1"
    using session_runs [OF se [folded su] w3(2), of "Suc m"] by blast
  have "?serve (n + Suc m) w3 = ?serve (Suc m) w4"
    unfolding serve_def using w4(1) by (simp only: mbind_apply)
  moreover have "os_epoll_wait os (dr_epfd (su_door su)) EV_MAXEVENTS (se_kern \<sigma>2) = (Inl e, k')"
    using wait su by (simp add: door_of_def)
  from echo_ends [OF w4(2) tab this, of m ?call] obtain w5 where
    "mthen (?serve (Suc m)) (mthen meloop_io_deinit (mthen (freeC (su_worker su)) (mthen (freeC (su_accept su))
      (mgets (\<lambda>w. es_status (usr w)))))) w4 = Inr (EXIT_FAILURE, w5)" "writes (trace w5) = writes (trace w4)" by blast
  ultimately show ?thesis
    using rest w2 w3 w4(3) by (intro exI [of _ w5]) (simp add: mthen_apply)
qed

end
