(* ===== verification/Server_Properties.thy ===== *)
theory Server_Properties
  imports Server_Life Demo_States
begin

text \<open>
  The echo server from its start to its end, with several clients, and what happens when a client does not
  take its answer.
\<close>

section \<open>The whole program\<close>

text \<open>A process before \<open>main\<close>, and what the kernel does from then to the \<open>epoll_wait\<close> that fails: the
  process opens a socket, accepts, and serves \<open>n\<close> rounds in which it reads the messages \<open>io\<close>.\<close>

definition pristine :: "('k, echo) world \<Rightarrow> bool" where
  "pristine w \<longleftrightarrow> malloc_total (w_os w) \<and> log_works (w_os w) (logging_fd w) \<and> ev w = static_ev \<and> bagh w = empty_store \<and>
     es_status (usr w) = WORKING \<and> store_ok (elems w) \<and> store_ok (circs w) \<and> store_ok (objs w) \<and> store_ok (blobs w)"

definition main_door :: "int \<Rightarrow> int \<Rightarrow> int \<Rightarrow> door" where
  "main_door fd ep lg = \<lparr>dr_lfd = fd, dr_epfd = ep, dr_flags = EPOLLONESHOT OR EPOLLRDHUP OR EPOLLERR, dr_log = lg\<rparr>"

inductive life :: "('k, echo) world \<Rightarrow> nat \<Rightarrow> nat \<Rightarrow> (int \<times> byte list) list \<Rightarrow> bool" for w d n where
  lived: "os_sigaction (w_os w) (kern w) = (Inr (), k1) \<Longrightarrow>
    os_epoll_create1 (w_os w) 0 k1 = (Inr ep, k2) \<Longrightarrow> 0 \<le> ep \<Longrightarrow>
    opened (w_os w) fd ((fed (w_os w) ^^ 6) k2) k3 \<Longrightarrow>
    arrivals (w_os w) (main_door fd ep (logging_fd w)) d (first_service k3 w) io0 \<sigma>1 \<Longrightarrow>
    session (w_os w) (main_door fd ep (logging_fd w)) (Suc d) \<sigma>1 n io1 \<sigma>2 \<Longrightarrow> se_tab \<sigma>2 \<noteq> (\<lambda>_. None) \<Longrightarrow>
    os_epoll_wait (w_os w) ep EV_MAXEVENTS (se_kern \<sigma>2) = (Inl e, k4) \<Longrightarrow> life w d n (io0 @ io1)"

lemma main_serves:
  assumes p: "pristine w" and k: "os_sigaction (w_os w) (kern w) = (Inr (), k1)"
    "os_epoll_create1 (w_os w) 0 k1 = (Inr ep, k2)" "0 \<le> ep"
    and op: "opened (w_os w) fd ((fed (w_os w) ^^ 6) k2) k3"
    and ar: "arrivals (w_os w) (main_door fd ep (logging_fd w)) d (first_service k3 w) io0 \<sigma>1"
    and se: "session (w_os w) (main_door fd ep (logging_fd w)) (Suc d) \<sigma>1 n io1 \<sigma>2" and tab: "se_tab \<sigma>2 \<noteq> (\<lambda>_. None)"
    and wait: "os_epoll_wait (w_os w) ep EV_MAXEVENTS (se_kern \<sigma>2) = (Inl e, k4)"
  shows "\<exists>w'. echo_main (Suc d) (n + Suc m) w = Inr (EXIT_FAILURE, w') \<and>
    writes (trace w') = writes (trace w) @ io0 @ io1"
proof -
  let ?fl = "EPOLLONESHOT OR EPOLLRDHUP OR EPOLLERR"
  let ?w = "w\<lparr>verbosity := LOGGING_DEBUG, kern := k2, trace := trace w @ [SysSigaction, SysEpollCreate],
    ev := \<lparr>epfd = ep, epflags = ?fl, waitingbags = 0, bags = replicate EV_MAXEVENTS NULL\<rparr>\<rparr>"
  have "echo_main (Suc d) (n + Suc m) w = echo_rest (exec echo_program (Suc d)) (n + Suc m) ?w"
    using p k by (simp add: pristine_def echo_main_def catch_signal_def meloop_io_init_def meloop_ev_init_def set_ev_def mdefs
        syscall_def res0_def resfd_def static_ev_def)
  moreover have ok: "ev_ok ?w" by (rule static_ok) (use p in \<open>simp_all add: pristine_def\<close>)
  have "registered (ev ?w) = {}" by (auto simp: registered_def used_def)
  then have "able ?w" using p ok by (simp add: pristine_def able_def less_eq_logging_verbosity_def)
  moreover have d: "door_of fd ?w = main_door fd ep (logging_fd w)" "first_service k3 ?w = first_service k3 w"
    by (simp_all add: door_of_def first_service_def main_door_def)
  have "\<exists>w'. echo_rest (exec echo_program (Suc d)) (n + Suc m) ?w = Inr (EXIT_FAILURE, w') \<and>
      writes (trace w') = writes (trace ?w) @ io0 @ io1"
    by (rule echo_rest_serves [where os = "w_os w" and fd = fd and k = k3 and k' = k4 and e = e, OF \<open>able ?w\<close> _ _ _ _ tab])
      (use op ar se wait d in simp_all)
  ultimately show ?thesis by simp
qed

text \<open>C9: The echo server serves: from the start of the process \<open>main\<close> opens its socket, accepts whoever
  connects, and in every session of the event loop writes each message that it reads back to the client it
  came from, in the order of the messages, and nothing else; clients come, close and hang up in between.
  When \<open>epoll_wait\<close> fails, as it does on a signal, everything is released and the exit status is a failure.\<close>

theorem echo_server_serves:
  assumes "pristine w" and "life w d n io"
  shows "\<exists>w'. echo_main (Suc d) (n + Suc m) w = Inr (EXIT_FAILURE, w') \<and> writes (trace w') = writes (trace w) @ io"
  using assms(2) by (cases rule: life.cases) (use main_serves [OF assms(1)] in blast)

text \<open>A day of the demo kernel: two clients connect, say something each in the same round, and a signal comes.\<close>

definition demo_sleeping :: "door \<Rightarrow> waiter \<Rightarrow> int \<Rightarrow> (int + byte list) list \<Rightarrow> demo service \<Rightarrow> demo service" where
  "demo_sleeping dr x fd rest \<sigma> = asleep x ((se_kern \<sigma>)\<lparr>d_input := rest,
     d_entries := (d_entries (se_kern \<sigma>))(fd := Some (dr_flags dr OR (EPOLLIN OR EPOLLET), se_bag \<sigma>, True))\<rparr>) \<sigma>"

lemma demo_quiet [simp]: "fed demo_os k = k" "shown demo_os fd ts k = k" "(fed demo_os ^^ n) k = k"
proof -
  show f: "fed demo_os k = k" for k by (simp add: fed_def demo_os_def)
  show "shown demo_os fd ts k = k" by (induction ts) (simp_all add: shown_def demo_os_def demo_ok_def)
  show "(fed demo_os ^^ n) k = k" by (induction n) (simp_all add: f)
qed

lemma demo_arms:
  assumes "os_epoll_ctl os = demo_ctl"
  shows "armed os dr fd p k (k\<lparr>d_entries := (d_entries k)(fd := Some (dr_flags dr OR (EPOLLIN OR EPOLLET), p, True))\<rparr>)"
proof (cases "d_entries k fd")
  case None
  then have "os_epoll_ctl os (dr_epfd dr) EPOLL_CTL_MOD fd (dr_flags dr OR (EPOLLIN OR EPOLLET)) p k = (Inl ENOENT, k)"
    by (simp add: assms demo_ctl_def)
  then show ?thesis by (rule armed.added) (simp add: assms demo_ctl_def None)
next
  case (Some x)
  then show ?thesis by (intro armed.known) (simp add: assms demo_ctl_def)
qed

lemma demo_armed: "armed demo_os dr fd p k (k\<lparr>d_entries := (d_entries k)(fd := Some (dr_flags dr OR (EPOLLIN OR EPOLLET), p, True))\<rparr>)"
  by (rule demo_arms) (simp add: demo_os_def)

lemma demo_burst: "d_input k = map Inr ms @ rest \<Longrightarrow> \<forall>m \<in> set ms. m \<noteq> [] \<and> length m \<le> ECHO_CHUNK \<Longrightarrow>
    burst demo_os fd k ms (k\<lparr>d_input := rest\<rparr>)"
proof (induction ms arbitrary: k)
  case Nil
  then have "k\<lparr>d_input := rest\<rparr> = k" by simp
  then show ?case using burst.dry by metis
next
  case (Cons m ms)
  have "burst demo_os fd (k\<lparr>d_input := map Inr ms @ rest\<rparr>) ms (k\<lparr>d_input := rest\<rparr>)"
    using Cons.IH [of "k\<lparr>d_input := map Inr ms @ rest\<rparr>"] Cons.prems(2) by simp
  then show ?case
    by (rule burst.more [rotated 4]) (use Cons.prems in \<open>auto simp: demo_os_def demo_read_def ECHO_CHUNK_def\<close>)
qed

lemma demo_stays:
  assumes "d_input (se_kern \<sigma>) = map Inr ms @ Inl EAGAIN # rest" and "\<forall>m \<in> set ms. m \<noteq> [] \<and> length m \<le> ECHO_CHUNK"
    and "\<not> full \<sigma>" and "2 * length ms + 1 \<le> d"
  shows "talk demo_os dr d q \<sigma> (map (Pair (pr_fd q)) ms) (demo_sleeping dr (Client q) (pr_fd q) rest \<sigma>)"
  unfolding demo_sleeping_def
proof (rule talk.stays [OF demo_burst [OF assms(1,2)]])
  show "os_read demo_os (pr_fd q) ECHO_CHUNK ((se_kern \<sigma>)\<lparr>d_input := Inl EAGAIN # rest\<rparr>) = (Inl EAGAIN, (se_kern \<sigma>)\<lparr>d_input := rest\<rparr>)"
    by (simp add: demo_os_def demo_read_def)
qed (use assms(3,4) demo_armed [of dr "pr_fd q" "se_bag \<sigma>" "(se_kern \<sigma>)\<lparr>d_input := rest\<rparr>"] in simp_all)

lemma demo_nobody:
  assumes "d_clients (se_kern \<sigma>) = []" and "\<not> full \<sigma>"
  shows "arrivals demo_os dr (Suc d) \<sigma> [] (demo_sleeping dr Acceptor (dr_lfd dr) (d_input (se_kern \<sigma>)) \<sigma>)"
proof -
  have "arrivals demo_os dr (Suc d) \<sigma> [] (asleep Acceptor ((se_kern \<sigma>)\<lparr>d_entries := (d_entries (se_kern \<sigma>))
      (dr_lfd dr := Some (dr_flags dr OR (EPOLLIN OR EPOLLET), se_bag \<sigma>, True))\<rparr>) \<sigma>)"
    by (rule arrivals.nobody [where ?k1.0 = "se_kern \<sigma>"])
      (use assms demo_armed in \<open>simp_all add: demo_os_def demo_accept_def demo_quiet [unfolded demo_os_def]\<close>)
  then show ?thesis by (simp add: demo_sleeping_def)
qed

lemma demo_somebody:
  assumes "d_clients (se_kern \<sigma>) = Inr (fd, a) # cs" and "d_input (se_kern \<sigma>) = Inl EAGAIN # rest" and "\<not> full \<sigma>"
    and "arrivals demo_os dr (Suc (Suc d)) (demo_sleeping dr (Client (newcomer fd a \<sigma>)) fd rest
      (admitted demo_os dr a ((se_kern \<sigma>)\<lparr>d_clients := cs\<rparr>) \<sigma>)) io \<sigma>'"
  shows "arrivals demo_os dr (Suc (Suc (Suc d))) \<sigma> io \<sigma>'"
proof -
  let ?k = "(se_kern \<sigma>)\<lparr>d_clients := cs\<rparr>" let ?\<sigma> = "admitted demo_os dr a ?k \<sigma>" and ?q = "newcomer fd a \<sigma>"
  have acc: "os_accept4 demo_os (dr_lfd dr) SOCK_NONBLOCK (se_kern \<sigma>) = (Inr (fd, a), ?k)"
    using assms(1) by (simp add: demo_os_def demo_accept_def)
  have "talk demo_os dr (Suc d) ?q ?\<sigma> (map (Pair (pr_fd ?q)) []) (demo_sleeping dr (Client ?q) (pr_fd ?q) rest ?\<sigma>)"
    by (rule demo_stays) (use assms(2,3) in \<open>simp_all add: admitted_def full_def\<close>)
  then have "talk demo_os dr (Suc d) ?q ?\<sigma> [] (demo_sleeping dr (Client ?q) fd rest ?\<sigma>)" by (simp add: newcomer_def)
  from arrivals.somebody [OF acc this assms(4)] show ?thesis by simp
qed

definition demo_day :: "(demo, echo) world" where
  "demo_day = (demo_world (demo_start\<lparr>d_ready := [[(5, EPOLLIN), (6, EPOLLIN)]],
       d_input := [Inl EAGAIN, Inl EAGAIN, Inr [104, 105], Inl EAGAIN, Inr [121, 111], Inl EAGAIN],
       d_clients := [Inr (5, \<lparr>sin_family = 2, sin_port = 1, sin_addr = 0x0100007F\<rparr>),
         Inr (6, \<lparr>sin_family = 2, sin_port = 2, sin_addr = 0x0100007F\<rparr>)]\<rparr>)
     \<lparr>es_status = WORKING, es_worker = NULL, es_clients = 0\<rparr>)\<lparr>ev := static_ev\<rparr>"

lemma demo_day_pristine: "pristine demo_day"
  using demo_malloc by (simp add: pristine_def demo_day_def demo_world_def log_works_def) (simp add: demo_os_def demo_ok_def)

lemmas demo_services = demo_sleeping_def asleep_def awake_def admitted_def newcomer_def first_service_def full_def EV_MAXEVENTS_def

lemma demo_day_lived: "life demo_day 4 1 [(5, [104, 105]), (6, [121, 111])]"
proof -
  let ?k = "kern demo_day" let ?k3 = "?k\<lparr>d_fds := 5\<rparr>" and ?dr = "main_door 4 3 (logging_fd demo_day)"
  let ?a = "\<lparr>sin_family = 2, sin_port = 1, sin_addr = 0x0100007F\<rparr>" and ?b = "\<lparr>sin_family = 2, sin_port = 2, sin_addr = 0x0100007F\<rparr>"
  have os: "w_os demo_day = demo_os" by (simp add: demo_day_def demo_world_def)
  have st: "d_clients ?k = [Inr (5, ?a), Inr (6, ?b)]" "d_fds ?k = 4" "d_entries ?k = (\<lambda>_. None)"
    "d_input ?k = [Inl EAGAIN, Inl EAGAIN, Inr [104, 105], Inl EAGAIN, Inr [121, 111], Inl EAGAIN]"
    "d_ready ?k = [[(5, EPOLLIN), (6, EPOLLIN)]]" "bagh demo_day = empty_store" "objs demo_day = empty_store" "blobs demo_day = empty_store"
    by (simp_all add: demo_day_def demo_world_def demo_start_def)
  have ep: "os_epoll_create1 demo_os 0 ?k = (Inr 3, ?k)"
    using st(3) by (simp add: demo_os_def)
  have op: "opened demo_os 4 ?k ?k3"
    by (rule opened.opens [of _ _ _ _ ?k3 ?k3 ?k3]) (simp_all add: demo_os_def demo_fd_def demo_ok_def st)
  define \<sigma>0 where "\<sigma>0 = first_service ?k3 demo_day"
  define \<sigma>1 where "\<sigma>1 = demo_sleeping ?dr (Client (newcomer 5 ?a \<sigma>0)) 5 (tl (d_input ?k))
    (admitted demo_os ?dr ?a ((se_kern \<sigma>0)\<lparr>d_clients := [Inr (6, ?b)]\<rparr>) \<sigma>0)"
  define \<sigma>2 where "\<sigma>2 = demo_sleeping ?dr (Client (newcomer 6 ?b \<sigma>1)) 6 (tl (tl (d_input ?k)))
    (admitted demo_os ?dr ?b ((se_kern \<sigma>1)\<lparr>d_clients := []\<rparr>) \<sigma>1)"
  define \<sigma>3 where "\<sigma>3 = demo_sleeping ?dr Acceptor 4 (tl (tl (d_input ?k))) \<sigma>2"
  note defs = \<sigma>0_def \<sigma>1_def \<sigma>2_def \<sigma>3_def demo_services st
  have "arrivals demo_os ?dr 4 \<sigma>0 [] \<sigma>3"
  proof -
    have "arrivals demo_os ?dr (Suc (Suc 0)) \<sigma>2 [] (demo_sleeping ?dr Acceptor (dr_lfd ?dr) (d_input (se_kern \<sigma>2)) \<sigma>2)"
      by (rule demo_nobody) (simp_all add: defs)
    then have "arrivals demo_os ?dr (Suc (Suc 0)) \<sigma>2 [] \<sigma>3" by (simp add: \<sigma>3_def main_door_def) (simp add: defs)
    then have "arrivals demo_os ?dr (Suc (Suc (Suc 0))) \<sigma>1 [] \<sigma>3"
      unfolding \<sigma>2_def by (rule demo_somebody [rotated 3]) (simp_all add: defs)
    then have "arrivals demo_os ?dr (Suc (Suc (Suc (Suc 0)))) \<sigma>0 [] \<sigma>3"
      unfolding \<sigma>1_def by (rule demo_somebody [rotated 3]) (simp_all add: defs)
    then show ?thesis by (simp add: numeral_eq_Suc)
  qed
  moreover define k5 where "k5 = snd (demo_wait 3 16 (se_kern \<sigma>3))"
  define \<sigma>4 where "\<sigma>4 = demo_sleeping ?dr (Client (newcomer 5 ?a \<sigma>0)) 5 [Inr [121, 111], Inl EAGAIN] (awake 1 (\<sigma>3\<lparr>se_kern := k5\<rparr>))"
  define \<sigma>5 where "\<sigma>5 = demo_sleeping ?dr (Client (newcomer 6 ?b \<sigma>1)) 6 [] (awake 2 \<sigma>4)"
  have wait: "demo_wait 3 16 (se_kern \<sigma>3) = (Inr [(EPOLLIN, 1), (EPOLLIN, 2)], k5)"
    by (simp add: k5_def demo_wait_def defs enabled_def empty_store_def main_door_def)
  have k5: "d_input k5 = [Inr [104, 105], Inl EAGAIN, Inr [121, 111], Inl EAGAIN]" "d_ready k5 = []"
    by (simp_all add: k5_def demo_wait_def defs enabled_def empty_store_def main_door_def)
  have "session demo_os ?dr 5 \<sigma>3 1 [(5, [104, 105]), (6, [121, 111])] \<sigma>5"
  proof -
    have first: "attend demo_os ?dr 5 (\<sigma>3\<lparr>se_kern := k5\<rparr>) (EPOLLIN, 1) (map (Pair 5) [[104, 105]]) \<sigma>4"
    proof (rule attend.client)
      show "se_tab (\<sigma>3\<lparr>se_kern := k5\<rparr>) 1 = Some (Client (newcomer 5 ?a \<sigma>0))" by (simp add: defs empty_store_def)
      show "talk demo_os ?dr 5 (newcomer 5 ?a \<sigma>0) (awake 1 (\<sigma>3\<lparr>se_kern := k5\<rparr>)) (map (Pair 5) [[104, 105]]) \<sigma>4"
        using demo_stays [of "awake 1 (\<sigma>3\<lparr>se_kern := k5\<rparr>)" "[[104, 105]]" "[Inr [121, 111], Inl EAGAIN]" 5 ?dr "newcomer 5 ?a \<sigma>0"] k5
        by (simp add: defs \<sigma>4_def empty_store_def ECHO_CHUNK_def)
    qed simp
    have second: "attend demo_os ?dr 5 \<sigma>4 (EPOLLIN, 2) (map (Pair 6) [[121, 111]]) \<sigma>5"
    proof (rule attend.client)
      show "se_tab \<sigma>4 2 = Some (Client (newcomer 6 ?b \<sigma>1))" by (simp add: defs \<sigma>4_def empty_store_def)
      show "talk demo_os ?dr 5 (newcomer 6 ?b \<sigma>1) (awake 2 \<sigma>4) (map (Pair 6) [[121, 111]]) \<sigma>5"
        using demo_stays [of "awake 2 \<sigma>4" "[[121, 111]]" "[]" 5 ?dr "newcomer 6 ?b \<sigma>1"] k5
        by (simp add: defs \<sigma>4_def \<sigma>5_def empty_store_def ECHO_CHUNK_def)
    qed simp
    have both: "attends demo_os ?dr 5 (\<sigma>3\<lparr>se_kern := k5\<rparr>) [(EPOLLIN, 1), (EPOLLIN, 2)]
        (map (Pair 5) [[104, 105]] @ map (Pair 6) [[121, 111]] @ []) \<sigma>5"
      by (rule attends.event [OF first attends.event [OF second attends.none]])
    have ask: "os_epoll_wait demo_os (dr_epfd ?dr) EV_MAXEVENTS (se_kern \<sigma>3) = (Inr [(EPOLLIN, 1), (EPOLLIN, 2)], k5)"
      using wait by (simp add: demo_os_def main_door_def EV_MAXEVENTS_def)
    have some: "se_tab \<sigma>3 \<noteq> (\<lambda>_. None)" by (simp add: \<sigma>3_def demo_sleeping_def asleep_def)
    have "session demo_os ?dr 5 \<sigma>3 (Suc 0) ((map (Pair 5) [[104, 105]] @ map (Pair 6) [[121, 111]] @ []) @ []) \<sigma>5"
      by (rule session.round [OF ask _ _ some both session.start]) (simp_all add: EV_MAXEVENTS_def)
    then show ?thesis by simp
  qed
  moreover have "se_tab \<sigma>5 \<noteq> (\<lambda>_. None)" by (simp add: \<sigma>5_def demo_sleeping_def asleep_def)
  moreover have "os_epoll_wait demo_os 3 EV_MAXEVENTS (se_kern \<sigma>5) = (Inl 4, se_kern \<sigma>5)"
    using k5(2) by (simp add: demo_os_def demo_wait_def \<sigma>5_def \<sigma>4_def demo_sleeping_def asleep_def awake_def)
  ultimately have "life demo_day 4 1 ([] @ [(5, [104, 105]), (6, [121, 111])])"
    using ep op by (intro life.lived [of demo_day ?k 3 ?k 4 ?k3 4 "[]" \<sigma>3 1 _ \<sigma>5 4]) (simp_all add: os \<sigma>0_def, simp_all add: demo_os_def demo_ok_def)
  then show ?thesis by simp
qed

lemma echo_server_serves_witness:
  "\<exists>w'. echo_main 5 3 demo_day = Inr (EXIT_FAILURE, w') \<and> writes (trace w') = [(5, [104, 105]), (6, [121, 111])]"
  using echo_server_serves [OF demo_day_pristine demo_day_lived, of 1] by (simp add: numeral_eq_Suc demo_day_def demo_world_def)

end
