(* ===== verification/Shared_Worker.thy ===== *)
theory Shared_Worker
  imports Server_Properties
begin

text \<open>
  The clients of the echo server share one circuit, and so the element it is at. While a client has not
  taken its answer the circuit stands at \<open>writeA\<close>, for everybody. Three events show what comes of it.
\<close>

section \<open>The worker at either of its steps\<close>

definition working :: "'k os \<Rightarrow> fixtures \<Rightarrow> nat \<Rightarrow> ('k, 'u) world \<Rightarrow> bool" where
  "working os su i w \<longleftrightarrow> w_os w = os \<and> malloc_total os \<and> ev_ok w \<and> epfd (ev w) = dr_epfd (su_door su) \<and>
     epflags (ev w) = dr_flags (su_door su) \<and> cells (objs w) (su_io su) = Some (O_ioP echo_io) \<and>
     at_step w (su_worker su) (su_wps su) (worker_circuit (su_io su)) i"

text \<open>The string of a client holds the message \<open>m\<close>.\<close>

definition holds :: "peer \<Rightarrow> byte list \<Rightarrow> ('k, 'u) world \<Rightarrow> bool" where
  "holds q m w \<longleftrightarrow> (\<exists>cn old. cells (objs w) (pr_conn q) = Some (O_tcpconn cn) \<and> f_fd cn = pr_fd q \<and> f_data cn = pr_data q \<and>
     cells (objs w) (pr_data q) = Some (O_string \<lparr>s_blob = pr_blob q, s_size = of_nat (length m)\<rparr>) \<and>
     cells (blobs w) (pr_blob q) = Some (refilled m old) \<and> length old = ECHO_CHUNK \<and> length m \<le> ECHO_CHUNK)"

abbreviation bag_for :: "fixtures \<Rightarrow> peer \<Rightarrow> bagS" where
  "bag_for su q \<equiv> waiting_bag (pr_fd q) (su_worker su) NULL (pr_conn q)"

lemma working_io: "working os su i w \<Longrightarrow> obj_as w as_ioP (su_io su) = Some echo_io"
  by (simp add: working_def obj_as_def)

lemma holds_frame: "holds q m w \<Longrightarrow> objs w' = objs w \<Longrightarrow> blobs w' = blobs w \<Longrightarrow> holds q m w'"
  by (simp add: holds_def)

text \<open>A bag is taken out of the table and another one is put in.\<close>

lemma rebagged:
  assumes "ev_ok w" and "waits_for b p w" and "ev v = ev (woken p w)" and "bagh v = bagh (woken p w)"
  shows "ev_ok (parked b' cs en k v)" and "waits_for b' (brk (bagh w)) (parked b' cs en k v)"
    and "waits_for c q w \<Longrightarrow> q \<noteq> p \<Longrightarrow> waits_for c q (parked b' cs en k v)"
proof -
  note t = woken_table [OF assms(1,2)]
  have v: "ev_ok v" "card (registered (ev v)) < EV_MAXEVENTS"
    using t(1,3) assms(3,4) table_frame(1) [of v "woken p w"] by simp_all
  show "ev_ok (parked b' cs en k v)" "waits_for b' (brk (bagh w)) (parked b' cs en k v)"
    using parked_table(1,3) [OF v, where b = b' and cs = cs and en = en and k = k] assms(4) by simp_all
  show "waits_for c q (parked b' cs en k v)" if "waits_for c q w" "q \<noteq> p"
    using waits_woken [OF assms(1) waits_not_NULL [OF assms(1,2)] that(1,2)] waits_parked [OF v] table_frame(2) [OF assms(3,4)]
    by simp
qed

lemma waits_registered: "waits_for c q w \<Longrightarrow> ev_ok w \<Longrightarrow> q < brk (bagh w)"
  using registered_live [of w q] by (simp add: waits_for_def)

text \<open>The read that finds nothing.\<close>

lemma read_waits:
  assumes wk: "working os su 0 w" and h: "holds q m w" and r: "os_read os (pr_fd q) ECHO_CHUNK (kern w) = (Inl EAGAIN, k1)"
    and ar: "armed os (su_door su) (pr_fd q) (brk (bagh w)) (fed os k1) k2"
  shows "\<exists>cs en. exec u (Suc d) (Run A_read (su_worker su) NULL (pr_conn q) (su_io su)) w =
      Inr ((), parked (bag_for su q) cs en k2 ((after_call (SysRead (pr_fd q) ECHO_CHUNK) k1 w)\<lparr>errno := EAGAIN\<rparr>)) \<and> writes cs = []"
proof -
  obtain cn old where o: "cells (objs w) (pr_conn q) = Some (O_tcpconn cn)" "f_fd cn = pr_fd q" "f_data cn = pr_data q"
    "cells (objs w) (pr_data q) = Some (O_string \<lparr>s_blob = pr_blob q, s_size = of_nat (length m)\<rparr>)"
    using h unfolding holds_def by blast
  let ?w = "(after_call (SysRead (pr_fd q) ECHO_CHUNK) k1 w)\<lparr>errno := EAGAIN\<rparr>"
  have f: "obj_as w as_file (pr_conn q) = Some (fileS.truncate cn)"
    "obj_as w as_string (f_data (fileS.truncate cn)) = Some \<lparr>s_blob = pr_blob q, s_size = of_nat (length m)\<rparr>"
    "f_fd (fileS.truncate cn) = pr_fd q" using o by (simp_all add: obj_as_def fileS.truncate_def)
  have "readA (exec u d) (su_worker su) NULL (pr_conn q) (su_io su) w =
      waitA (exec u d) (su_worker su) NULL (pr_conn q) (pr_fd q) EPOLLIN EPOLLET ?w"
    using rd.on_again [OF f(1,2) working_io [OF wk], of k1] r f(3) wk by (simp add: working_def)
  moreover have "\<exists>cs en. waitA (exec u d) (su_worker su) NULL (pr_conn q) (pr_fd q) EPOLLIN EPOLLET ?w =
      Inr ((), parked (bag_for su q) cs en k2 ?w) \<and> writes cs = []"
    by (rule waitA_armed [where k = "fed os k1"]) (use wk ar fed_eq [of os k1] in \<open>simp_all add: working_def\<close>)
  ultimately show ?thesis by simp
qed

text \<open>The write of what is in the buffer, whether the kernel takes it or not.\<close>

lemma held:
  assumes "holds q m w"
  obtains cn old where "obj_as w as_file (pr_conn q) = Some (fileS.truncate cn)" and "f_fd (fileS.truncate cn) = pr_fd q"
    and "obj_as w as_string (f_data (fileS.truncate cn)) = Some \<lparr>s_blob = pr_blob q, s_size = of_nat (length m)\<rparr>"
    and "cells (blobs w) (pr_blob q) = Some (refilled m old)" and "unat (of_nat (length m) :: u64) = length m"
    and "length m \<le> length (refilled m old)" and "cells (objs w) (pr_conn q) = Some (O_tcpconn (cn :: tcpconnS))"
    and "f_data (fileS.truncate cn) = pr_data q" and "f_fd cn = pr_fd q" and "f_data cn = pr_data q" and "length old = ECHO_CHUNK"
  using assms unfolding holds_def
  by (auto simp: obj_as_def fileS.truncate_def ECHO_CHUNK_def unat_of_nat refilled_take)

lemma write_taken:
  assumes wk: "working os su 1 w" and h: "holds q m w" and wr: "os_write os (pr_fd q) m (kern w) = (Inr n, k1)" "n < 2 ^ 63"
  shows "exec u (Suc d) (Run A_write (su_worker su) s (pr_conn q) (su_io su)) w =
    exec u d (Run A_read (su_worker su) s (pr_conn q) (su_io su))
      (goto (su_worker su) (su_wps su ! 0) (after_call (SysWrite (pr_fd q) m) k1 w))"
proof -
  obtain cn :: tcpconnS and old where o: "obj_as w as_file (pr_conn q) = Some (fileS.truncate cn)" "f_fd (fileS.truncate cn) = pr_fd q"
    "obj_as w as_string (f_data (fileS.truncate cn)) = Some \<lparr>s_blob = pr_blob q, s_size = of_nat (length m)\<rparr>"
    "cells (blobs w) (pr_blob q) = Some (refilled m old)" "unat (of_nat (length m) :: u64) = length m"
    "length m \<le> length (refilled m old)" by (rule held [OF h])
  have "writeA (exec u d) (su_worker su) s (pr_conn q) (su_io su) w =
      returnA (exec u d) (su_worker su) s (pr_conn q) (after_call (SysWrite (pr_fd q) m) k1 w)"
    using wr.on_written [OF o(1,3), of "refilled m old" n k1 "exec u d" "su_worker su" s "su_io su"] o wr wk
    by (simp add: working_def)
  moreover have "at_step (after_call (SysWrite (pr_fd q) m) k1 w) (su_worker su) (su_wps su) (worker_circuit (su_io su)) 1"
    using wk by (simp add: working_def at_step_def)
  ultimately show ?thesis using returnA_step [of _ "su_worker su" "su_wps su" "worker_circuit (su_io su)" 1 "exec u d" s "pr_conn q"] by simp
qed

lemma write_refused:
  assumes wk: "working os su 1 w" and h: "holds q m w" and wr: "os_write os (pr_fd q) m (kern w) = (Inl EAGAIN, k1)"
    and ctl: "os_epoll_ctl os (dr_epfd (su_door su)) EPOLL_CTL_MOD (pr_fd q) (dr_flags (su_door su) OR (EPOLLOUT OR EPOLLET))
      (brk (bagh w)) (fed os k1) = (Inr (), k2)"
  shows "exec u (Suc d) (Run A_write (su_worker su) NULL (pr_conn q) (su_io su)) w =
    Inr ((), parked (bag_for su q) [SysEpollCtl EPOLL_CTL_MOD (pr_fd q)] EAGAIN k2
      ((after_call (SysWrite (pr_fd q) m) k1 w)\<lparr>errno := EAGAIN\<rparr>))"
proof -
  obtain cn :: tcpconnS and old where o: "obj_as w as_file (pr_conn q) = Some (fileS.truncate cn)" "f_fd (fileS.truncate cn) = pr_fd q"
    "obj_as w as_string (f_data (fileS.truncate cn)) = Some \<lparr>s_blob = pr_blob q, s_size = of_nat (length m)\<rparr>"
    "cells (blobs w) (pr_blob q) = Some (refilled m old)" "unat (of_nat (length m) :: u64) = length m"
    "length m \<le> length (refilled m old)" by (rule held [OF h])
  let ?w = "(after_call (SysWrite (pr_fd q) m) k1 w)\<lparr>errno := EAGAIN\<rparr>"
  have "writeA (exec u d) (su_worker su) NULL (pr_conn q) (su_io su) w =
      waitA (exec u d) (su_worker su) NULL (pr_conn q) (pr_fd q) EPOLLOUT EPOLLET ?w"
    using wr.on_again [OF o(1,3) working_io [OF wk], of "refilled m old" k1 "exec u d" "su_worker su" NULL] o wr wk
    by (simp add: working_def)
  also have "\<dots> = Inr ((), parked (bag_for su q) [SysEpollCtl EPOLL_CTL_MOD (pr_fd q)] (errno ?w) k2 ?w)"
    by (rule waitA_known [where k = "fed os k1"]) (use wk ctl fed_eq [of os k1] in \<open>simp_all add: working_def\<close>)
  finally show ?thesis by simp
qed

section \<open>Three events\<close>

text \<open>A message is read, and the kernel does not take the answer: the worker stays at \<open>writeA\<close>.\<close>

lemma event_refused:
  assumes wk: "working os su 0 w" and h: "holds q m0 w" and bag: "waits_for (bag_for su q) p w"
    and r: "os_read os (pr_fd q) ECHO_CHUNK (kern w) = (Inr m, k1)" "m \<noteq> []" "length m \<le> ECHO_CHUNK"
    and wr: "os_write os (pr_fd q) m k1 = (Inl EAGAIN, k2)"
    and ctl: "os_epoll_ctl os (dr_epfd (su_door su)) EPOLL_CTL_MOD (pr_fd q) (dr_flags (su_door su) OR (EPOLLOUT OR EPOLLET))
      (brk (bagh w)) (fed os k2) = (Inr (), k3)"
  shows "\<exists>w'. handle_event (exec u (Suc (Suc d))) (EPOLLIN, p) w = Inr ((), w') \<and> working os su 1 w' \<and> holds q m w' \<and>
    (\<forall>r n. separate q r \<longrightarrow> holds r n w \<longrightarrow> holds r n w') \<and> waits_for (bag_for su q) (brk (bagh w)) w' \<and>
    (\<forall>b p'. waits_for b p' w \<longrightarrow> p' \<noteq> p \<longrightarrow> waits_for b p' w') \<and> kern w' = k3 \<and> brk (bagh w') = Suc (brk (bagh w)) \<and>
    trace w' = trace w @ [SysRead (pr_fd q) ECHO_CHUNK, SysWrite (pr_fd q) m, SysEpollCtl EPOLL_CTL_MOD (pr_fd q)]"
proof -
  let ?c = "su_worker su" and ?ps = "su_wps su" and ?a = "worker_circuit (su_io su)" let ?v = "woken p w"
  have ok: "ev_ok w" and at0: "at_step ?v ?c ?ps ?a 0" and os: "w_os w = os" using wk by (simp_all add: working_def at_step_def)
  obtain cn :: tcpconnS and old where o: "obj_as w as_file (pr_conn q) = Some (fileS.truncate cn)" "f_fd (fileS.truncate cn) = pr_fd q"
    "obj_as w as_string (f_data (fileS.truncate cn)) = Some \<lparr>s_blob = pr_blob q, s_size = of_nat (length m0)\<rparr>"
    "cells (blobs w) (pr_blob q) = Some (refilled m0 old)" "cells (objs w) (pr_conn q) = Some (O_tcpconn cn)"
    "f_data (fileS.truncate cn) = pr_data q" "f_fd cn = pr_fd q" "f_data cn = pr_data q" "length m0 \<le> length (refilled m0 old)"
    "length old = ECHO_CHUNK" by (rule held [OF h])
  have "length m0 \<le> ECHO_CHUNK" using h unfolding holds_def by blast
  then have l: "length m < 2 ^ 63" "length m \<le> length (refilled m0 old)" "length (refilled m0 old) = ECHO_CHUNK"
    using r(3) o(10) by (simp_all add: ECHO_CHUNK_def)
  let ?st = "\<lparr>s_blob = pr_blob q, s_size = of_nat (length m0)\<rparr> :: stringS"
  define w1 where "w1 = rd.filled (pr_data q) ?st m (refilled m0 old) (after_call (SysRead (pr_fd q) ECHO_CHUNK) k1 ?v)"
  let ?w2 = "goto ?c (?ps ! 1) w1"
  have "readA (exec u (Suc d)) ?c NULL (pr_conn q) (su_io su) ?v = returnA (exec u (Suc d)) ?c NULL (pr_conn q) w1"
    unfolding w1_def using rd.on_data [OF _ _ _ _ _ l(2) r(2) l(1), of ?v "pr_conn q" "fileS.truncate cn" ?st "su_io su" echo_io k1]
      o r(1) os working_io [OF wk] by simp
  moreover have at1: "at_step w1 ?c ?ps ?a 0" using at0 by (simp add: at_step_def w1_def rd.filled_def)
  moreover have "1 < length ?ps"
    using at0 circuit_lengths [of "elems w" ?ps ?a] by (auto simp: at_step_def worker_circuit_def)
  ultimately have step: "readA (exec u (Suc d)) ?c NULL (pr_conn q) (su_io su) ?v =
      exec u (Suc d) (Run A_write ?c NULL (pr_conn q) (su_io su)) ?w2" and at2: "at_step ?w2 ?c ?ps ?a 1"
    using returnA_step [OF at1, of "exec u (Suc d)" NULL "pr_conn q"] at_step_goto [OF at1, of 1] by simp_all
  have f: "ev w1 = ev ?v" "bagh w1 = bagh ?v" "w_os w1 = os" "kern w1 = k1" "trace w1 = trace w @ [SysRead (pr_fd q) ECHO_CHUNK]"
    "objs w1 = put_cell (pr_data q) (O_string (?st\<lparr>s_size := of_nat (length m)\<rparr>)) (objs w)"
    "blobs w1 = put_cell (pr_blob q) (refilled m (refilled m0 old)) (blobs w)"
    using os by (simp_all add: w1_def rd.filled_def refilled_def)
  have neq: "pr_conn q \<noteq> pr_data q" using o(3,5,6) by (auto simp: obj_as_def)
  have dat: "\<exists>st. cells (objs w) (pr_data q) = Some (O_string st)" using h unfolding holds_def by blast
  have wk2: "working os su 1 ?w2"
    using wk at2 f(3) woken_table(1) [OF ok bag] table_frame(1) [of ?w2 ?v] f(1,2) dat by (auto simp: working_def f)
  have h2: "holds q m ?w2"
    using o(5,7,8) neq r(3) l(3) unfolding holds_def by (simp add: f) blast
  have "exec u (Suc d) (Run A_write ?c NULL (pr_conn q) (su_io su)) ?w2 =
      Inr ((), parked (bag_for su q) [SysEpollCtl EPOLL_CTL_MOD (pr_fd q)] EAGAIN k3
        ((after_call (SysWrite (pr_fd q) m) k2 ?w2)\<lparr>errno := EAGAIN\<rparr>))"
    by (rule write_refused [OF wk2 h2]) (use wr ctl f in simp_all)
  moreover define w3 where "w3 = parked (bag_for su q) [SysEpollCtl EPOLL_CTL_MOD (pr_fd q)] EAGAIN k3
        ((after_call (SysWrite (pr_fd q) m) k2 ?w2)\<lparr>errno := EAGAIN\<rparr>)"
  ultimately have run: "handle_event (exec u (Suc (Suc d))) (EPOLLIN, p) w = Inr ((), w3)"
    using handle_plain [OF ok bag EPOLLIN_plain, of "exec u (Suc (Suc d))"] runA_resume [OF at0, of "exec u (Suc (Suc d))"] step by simp
  have same: "objs w3 = objs ?w2" "blobs w3 = blobs ?w2" by (simp_all add: w3_def)
  have "separate q r \<Longrightarrow> holds r n w \<Longrightarrow> holds r n w3" for r n
    using dat unfolding holds_def by (simp add: same f separate_def) fastforce
  moreover note rb = rebagged [OF ok bag, of "(after_call (SysWrite (pr_fd q) m) k2 ?w2)\<lparr>errno := EAGAIN\<rparr>",
      where b' = "bag_for su q" and cs = "[SysEpollCtl EPOLL_CTL_MOD (pr_fd q)]" and en = EAGAIN and k = k3, folded w3_def]
  moreover have "working os su 1 w3" using wk2 rb(1) f by (simp add: working_def w3_def at_step_def)
  ultimately show ?thesis
    using run holds_frame [OF h2 same] f by (intro exI [of _ w3]) (simp add: w3_def)
qed

text \<open>An event while the worker stands at \<open>writeA\<close>: what the buffer of this client holds is written.\<close>

lemma event_repeats:
  assumes wk: "working os su 1 w" and h: "holds q m w" and bag: "waits_for (bag_for su q) p w"
    and wr: "os_write os (pr_fd q) m (kern w) = (Inr n, k1)" "n < 2 ^ 63"
    and r: "os_read os (pr_fd q) ECHO_CHUNK k1 = (Inl EAGAIN, k2)"
    and ar: "armed os (su_door su) (pr_fd q) (brk (bagh w)) (fed os k2) k3"
  shows "\<exists>w'. handle_event (exec u (Suc (Suc d))) (EPOLLIN, p) w = Inr ((), w') \<and> working os su 0 w' \<and>
    (\<forall>r n. holds r n w \<longrightarrow> holds r n w') \<and> (\<forall>b p'. waits_for b p' w \<longrightarrow> p' \<noteq> p \<longrightarrow> waits_for b p' w') \<and>
    kern w' = k3 \<and> brk (bagh w') = Suc (brk (bagh w)) \<and> writes (trace w') = writes (trace w) @ [(pr_fd q, m)]"
proof -
  let ?c = "su_worker su" and ?ps = "su_wps su" and ?a = "worker_circuit (su_io su)" let ?v = "woken p w"
  have ok: "ev_ok w" and at1: "at_step ?v ?c ?ps ?a 1" using wk by (simp_all add: working_def at_step_def)
  have wk1: "working os su 1 ?v" using wk woken_table(1) [OF ok bag] by (simp add: working_def at_step_def)
  have h1: "holds q m ?v" by (rule holds_frame [OF h]) simp_all
  define w1 where "w1 = goto ?c (?ps ! 0) (after_call (SysWrite (pr_fd q) m) k1 ?v)"
  have step: "exec u (Suc (Suc d)) (Run A_write ?c NULL (pr_conn q) (su_io su)) ?v =
      exec u (Suc d) (Run A_read ?c NULL (pr_conn q) (su_io su)) w1"
    unfolding w1_def by (rule write_taken [OF wk1 h1]) (use wr in simp_all)
  have "0 < length ?ps" using at1 by (auto simp: at_step_def)
  then have at0: "at_step w1 ?c ?ps ?a 0"
    using at_step_goto [of "after_call (SysWrite (pr_fd q) m) k1 ?v" ?c ?ps ?a 1 0] at1 by (simp add: w1_def at_step_def)
  have f: "ev w1 = ev ?v" "bagh w1 = bagh ?v" "w_os w1 = w_os w" "kern w1 = k1" "objs w1 = objs w" "blobs w1 = blobs w"
    "writes (trace w1) = writes (trace w) @ [(pr_fd q, m)]" by (simp_all add: w1_def)
  have wk2: "working os su 0 w1" using wk1 at0 f(1-5) table_frame(1) [of w1 ?v] by (simp add: working_def)
  have h2: "holds q m w1" by (rule holds_frame [OF h f(5,6)])
  obtain cs en where run: "exec u (Suc d) (Run A_read ?c NULL (pr_conn q) (su_io su)) w1 =
      Inr ((), parked (bag_for su q) cs en k3 ((after_call (SysRead (pr_fd q) ECHO_CHUNK) k2 w1)\<lparr>errno := EAGAIN\<rparr>))" "writes cs = []"
    using read_waits [OF wk2 h2, of k2 k3 u d] r ar f by auto
  define w2 where "w2 = parked (bag_for su q) cs en k3 ((after_call (SysRead (pr_fd q) ECHO_CHUNK) k2 w1)\<lparr>errno := EAGAIN\<rparr>)"
  have "handle_event (exec u (Suc (Suc d))) (EPOLLIN, p) w = Inr ((), w2)"
    using handle_plain [OF ok bag EPOLLIN_plain, of "exec u (Suc (Suc d))"] runA_resume [OF at1, of "exec u (Suc (Suc d))"] step run(1)
    by (simp add: w2_def)
  moreover have "holds r n w2" if "holds r n w" for r n by (rule holds_frame [OF that]) (simp_all add: w2_def f)
  moreover note rb = rebagged [OF ok bag, of "(after_call (SysRead (pr_fd q) ECHO_CHUNK) k2 w1)\<lparr>errno := EAGAIN\<rparr>",
      where b' = "bag_for su q" and cs = cs and en = en and k = k3, folded w2_def]
  moreover have "working os su 0 w2" using wk2 rb(1) f by (simp add: working_def w2_def at_step_def)
  ultimately show ?thesis using run(2) f by (intro exI [of _ w2]) (simp add: w2_def)
qed

text \<open>An event at \<open>readA\<close> that finds nothing to read.\<close>

lemma event_nothing:
  assumes wk: "working os su 0 w" and h: "holds q m w" and bag: "waits_for (bag_for su q) p w" and m: "plain_event x"
    and r: "os_read os (pr_fd q) ECHO_CHUNK (kern w) = (Inl EAGAIN, k2)"
    and ar: "armed os (su_door su) (pr_fd q) (brk (bagh w)) (fed os k2) k3"
  shows "\<exists>w'. handle_event (exec u (Suc d)) (x, p) w = Inr ((), w') \<and> waits_for (bag_for su q) (brk (bagh w)) w' \<and>
    writes (trace w') = writes (trace w)"
proof -
  let ?v = "woken p w"
  have ok: "ev_ok w" and at0: "at_step ?v (su_worker su) (su_wps su) (worker_circuit (su_io su)) 0"
    using wk by (simp_all add: working_def at_step_def)
  have wk1: "working os su 0 ?v" using wk woken_table(1) [OF ok bag] by (simp add: working_def at_step_def)
  have h1: "holds q m ?v" by (rule holds_frame [OF h]) simp_all
  obtain cs en where run: "exec u (Suc d) (Run A_read (su_worker su) NULL (pr_conn q) (su_io su)) ?v =
      Inr ((), parked (bag_for su q) cs en k3 ((after_call (SysRead (pr_fd q) ECHO_CHUNK) k2 ?v)\<lparr>errno := EAGAIN\<rparr>))" "writes cs = []"
    using read_waits [OF wk1 h1, of k2 k3 u d] r ar by auto
  define w2 where "w2 = parked (bag_for su q) cs en k3 ((after_call (SysRead (pr_fd q) ECHO_CHUNK) k2 ?v)\<lparr>errno := EAGAIN\<rparr>)"
  have "handle_event (exec u (Suc d)) (x, p) w = Inr ((), w2)"
    using handle_plain [OF ok bag m, of "exec u (Suc d)"] runA_resume [OF at0, of "exec u (Suc d)"] run(1) by (simp add: w2_def)
  moreover have "waits_for (bag_for su q) (brk (bagh w)) w2"
    unfolding w2_def by (rule rebagged(2) [OF ok bag]) simp_all
  ultimately show ?thesis using run(2) by (intro exI [of _ w2]) (simp add: w2_def)
qed

lemma EPOLLOUT_plain [simp]: "plain_event EPOLLOUT"
  by (simp add: plain_event_def EPOLLOUT_def EPOLLRDHUP_def EPOLLERR_def)

text \<open>C11: The clients of the echo server share one circuit and so its current element. While a client \<open>a\<close> does
  not take its answer (\<open>writeA\<close> meets \<open>EAGAIN\<close>) the circuit stands at \<open>writeA\<close> for everybody: the next
  event of another client \<open>b\<close> writes what its buffer still holds, its previous message, a second time; after
  that the circuit stands at \<open>readA\<close>, and when \<open>a\<close> can be written to it is read from instead: the
  refused write of its message was the only one.\<close>

theorem shared_worker_mixes_clients:
  assumes "working os su 0 w" and "holds a m0 w" and "holds b mb w" and "separate a b"
    and "waits_for (bag_for su a) pa w" and "waits_for (bag_for su b) pb w" and "pa \<noteq> pb"
    and "os_read os (pr_fd a) ECHO_CHUNK (kern w) = (Inr ma, k1)" and "ma \<noteq> []" and "length ma \<le> ECHO_CHUNK"
    and "os_write os (pr_fd a) ma k1 = (Inl EAGAIN, k2)"
    and "os_epoll_ctl os (dr_epfd (su_door su)) EPOLL_CTL_MOD (pr_fd a) (dr_flags (su_door su) OR (EPOLLOUT OR EPOLLET))
      (brk (bagh w)) (fed os k2) = (Inr (), k3)"
    and "os_write os (pr_fd b) mb k3 = (Inr n, k4)" and "n < 2 ^ 63"
    and "os_read os (pr_fd b) ECHO_CHUNK k4 = (Inl EAGAIN, k5)"
    and "armed os (su_door su) (pr_fd b) (Suc (brk (bagh w))) (fed os k5) k6"
    and "os_read os (pr_fd a) ECHO_CHUNK k6 = (Inl EAGAIN, k7)"
    and "armed os (su_door su) (pr_fd a) (Suc (Suc (brk (bagh w)))) (fed os k7) k8"
  shows "\<exists>w'. handle_events (exec u (Suc (Suc d))) [(EPOLLIN, pa), (EPOLLIN, pb), (EPOLLOUT, brk (bagh w))] w = Inr ((), w') \<and>
    writes (trace w') = writes (trace w) @ [(pr_fd a, ma), (pr_fd b, mb)] \<and>
    waits_for (bag_for su a) (Suc (Suc (brk (bagh w)))) w'"
proof -
  let ?call = "exec u (Suc (Suc d))"
  have ok: "ev_ok w" using assms(1) by (simp add: working_def)
  from event_refused [OF assms(1,2,5,8-12), of u d] obtain w1 where w1: "handle_event ?call (EPOLLIN, pa) w = Inr ((), w1)"
    "working os su 1 w1" "holds a ma w1" "holds b mb w1" "waits_for (bag_for su a) (brk (bagh w)) w1"
    "waits_for (bag_for su b) pb w1" "kern w1 = k3" "brk (bagh w1) = Suc (brk (bagh w))"
    "writes (trace w1) = writes (trace w) @ [(pr_fd a, ma)]"
    using assms(3,4,6,7) by force
  have "brk (bagh w) \<noteq> pb" using waits_registered [OF assms(6) ok] by simp
  with event_repeats [OF w1(2,4,6), of n k4 k5 k6 u d] assms(13-16) w1 obtain w2 where
    w2: "handle_event ?call (EPOLLIN, pb) w1 = Inr ((), w2)" "working os su 0 w2" "holds a ma w2"
    "waits_for (bag_for su a) (brk (bagh w)) w2" "kern w2 = k6" "brk (bagh w2) = Suc (Suc (brk (bagh w)))"
    "writes (trace w2) = writes (trace w) @ [(pr_fd a, ma), (pr_fd b, mb)]" by force
  from event_nothing [OF w2(2-4) EPOLLOUT_plain, of k7 k8 u "Suc d"] assms(17,18) w2 obtain w3 where
    "handle_event ?call (EPOLLOUT, brk (bagh w)) w2 = Inr ((), w3)" "waits_for (bag_for su a) (Suc (Suc (brk (bagh w)))) w3"
    "writes (trace w3) = writes (trace w2)" by auto
  with w1(1) w2(1,7) show ?thesis by (simp add: handle_events_def mthen_apply mret_apply)
qed

text \<open>Two clients on descriptors 5 and 6; nobody takes what is written to 5.\<close>

definition slow_os :: "demo os" where
  "slow_os = demo_os\<lparr>os_write := (\<lambda>fd bs k. if fd = 5 then (Inl EAGAIN, k) else (Inr (length bs), k))\<rparr>"

definition demo_su :: fixtures where
  "demo_su = \<lparr>su_worker = 1, su_wps = [1, 2], su_io = 1, su_accept = 2, su_aps = [], su_server = 6, su_file = 7,
     su_door = \<lparr>dr_lfd = 4, dr_epfd = 3, dr_flags = EPOLLONESHOT, dr_log = 2\<rparr>\<rparr>"

definition demo_peer :: "nat \<Rightarrow> peer" where
  "demo_peer i = \<lparr>pr_conn = 2 * i, pr_data = 2 * i + 1, pr_blob = i, pr_fd = 4 + int i,
     pr_addr = \<lparr>sin_family = 2, sin_port = 1, sin_addr = 1\<rparr>\<rparr>"

definition demo_said :: "byte list \<Rightarrow> nat \<Rightarrow> obj" where
  "demo_said m i = O_string \<lparr>s_blob = i, s_size = of_nat (length m)\<rparr>"

definition demo_two :: "(demo, echo) world" where
  "demo_two = (demo_world (demo_start\<lparr>d_entries := [5 \<mapsto> (EPOLLONESHOT, 1, False), 6 \<mapsto> (EPOLLONESHOT, 2, False)],
       d_input := [Inr [104, 105], Inl EAGAIN, Inl EAGAIN]\<rparr>) \<lparr>es_status = WORKING, es_worker = 1, es_clients = 2\<rparr>)
     \<lparr>w_os := slow_os,
      elems := \<lparr>cells = [1 \<mapsto> \<lparr>e_type = MLETSIMPLE, e_run = A_read, e_priv = 1, e_last = False, e_next = 2\<rparr>,
        2 \<mapsto> \<lparr>e_type = MLETSIMPLE, e_run = A_write, e_priv = 1, e_last = True, e_next = 1\<rparr>], brk = 3\<rparr>,
      circs := \<lparr>cells = [1 \<mapsto> \<lparr>c_err = Some 1, c_current = 1, c_nets = 1, c_ptr = None\<rparr>], brk = 2\<rparr>,
      objs := \<lparr>cells = [1 \<mapsto> O_ioP echo_io,
        2 \<mapsto> O_tcpconn ((new_conn 5 (pr_addr (demo_peer 1)))\<lparr>f_data := 3\<rparr>), 3 \<mapsto> demo_said [] 1,
        4 \<mapsto> O_tcpconn ((new_conn 6 (pr_addr (demo_peer 2)))\<lparr>f_data := 5\<rparr>), 5 \<mapsto> demo_said [121, 111] 2], brk = 6\<rparr>,
      blobs := \<lparr>cells = [1 \<mapsto> refilled [] (replicate ECHO_CHUNK 0), 2 \<mapsto> refilled [121, 111] (replicate ECHO_CHUNK 0)], brk = 3\<rparr>,
      bagh := \<lparr>cells = [1 \<mapsto> bag_for demo_su (demo_peer 1), 2 \<mapsto> bag_for demo_su (demo_peer 2)], brk = 3\<rparr>,
      ev := \<lparr>epfd = 3, epflags = EPOLLONESHOT, waitingbags = 2, bags = 1 # 2 # replicate 14 NULL\<rparr>\<rparr>"

lemma demo_two_ok: "ev_ok demo_two" "registered (ev demo_two) = {1, 2}"
  by (auto simp: ev_ok_def table_ok_def used_def registered_def store_ok_def demo_two_def EV_MAXEVENTS_def)

lemma demo_two_working: "working slow_os demo_su 0 demo_two"
proof -
  have "circuit (elems demo_two) [1, 2] (worker_circuit 1)"
    by (simp add: circuit_def demo_two_def worker_circuit_def)
  moreover have "malloc_total slow_os" using demo_malloc by (simp add: malloc_total_def slow_os_def)
  ultimately show ?thesis using demo_two_ok(1) by (simp add: working_def demo_su_def at_step_def) (simp add: demo_two_def)
qed

lemma demo_two_holds: "holds (demo_peer 1) [] demo_two" "holds (demo_peer 2) [121, 111] demo_two"
  by (fastforce simp: holds_def demo_two_def demo_peer_def demo_said_def new_conn_def ECHO_CHUNK_def)+

lemma demo_two_waits: "waits_for (bag_for demo_su (demo_peer 1)) 1 demo_two" "waits_for (bag_for demo_su (demo_peer 2)) 2 demo_two"
  using demo_two_ok(2) by (simp_all add: waits_for_def) (simp_all add: demo_two_def)

lemma shared_worker_mixes_clients_witness:
  "\<exists>w'. handle_events (exec echo_program (Suc (Suc 0))) [(EPOLLIN, 1), (EPOLLIN, 2), (EPOLLOUT, 3)] demo_two = Inr ((), w') \<and>
    writes (trace w') = [(5, [104, 105]), (6, [121, 111])]"
proof -
  let ?k = "kern demo_two" let ?k1 = "?k\<lparr>d_input := [Inl EAGAIN, Inl EAGAIN]\<rparr>"
  let ?k3 = "?k1\<lparr>d_entries := (d_entries ?k)(5 := Some (EPOLLONESHOT OR (EPOLLOUT OR EPOLLET), 3, True))\<rparr>"
  let ?k5 = "?k3\<lparr>d_input := [Inl EAGAIN]\<rparr>"
  let ?k6 = "?k5\<lparr>d_entries := (d_entries ?k5)(pr_fd (demo_peer 2) := Some (dr_flags (su_door demo_su) OR (EPOLLIN OR EPOLLET), Suc (brk (bagh demo_two)), True))\<rparr>"
  let ?k7 = "?k6\<lparr>d_input := []\<rparr>"
  have st: "d_input ?k = [Inr [104, 105], Inl EAGAIN, Inl EAGAIN]" "d_entries ?k 5 = Some (EPOLLONESHOT, 1, False)"
    "brk (bagh demo_two) = 3" by (simp_all add: demo_two_def demo_world_def)
  have os: "os_epoll_ctl slow_os = demo_ctl" "os_read slow_os = demo_read"
    "os_write slow_os = (\<lambda>fd bs k. if fd = 5 then (Inl EAGAIN, k) else (Inr (length bs), k))" "fed slow_os k = k" for k
    by (simp_all add: slow_os_def demo_os_def fed_def)
  have p: "pr_fd (demo_peer 1) = 5" "pr_fd (demo_peer 2) = 6" by (simp_all add: demo_peer_def)
  have "\<exists>w'. handle_events (exec echo_program (Suc (Suc 0))) [(EPOLLIN, 1), (EPOLLIN, 2), (EPOLLOUT, brk (bagh demo_two))] demo_two = Inr ((), w') \<and>
    writes (trace w') = writes (trace demo_two) @ [(pr_fd (demo_peer 1), [104, 105]), (pr_fd (demo_peer 2), [121, 111])] \<and>
    waits_for (bag_for demo_su (demo_peer 1)) (Suc (Suc (brk (bagh demo_two)))) w'"
  proof (rule shared_worker_mixes_clients [OF demo_two_working demo_two_holds _ demo_two_waits, of "[104, 105]" ?k1 ?k1 ?k3 2 ?k3 ?k5 ?k6 ?k7])
    show "separate (demo_peer 1) (demo_peer 2)" by (simp add: separate_def demo_peer_def)
    show "armed slow_os (su_door demo_su) (pr_fd (demo_peer 2)) (Suc (brk (bagh demo_two))) (fed slow_os ?k5) ?k6"
      unfolding os(4) by (rule demo_arms [OF os(1)])
    show "armed slow_os (su_door demo_su) (pr_fd (demo_peer 1)) (Suc (Suc (brk (bagh demo_two)))) (fed slow_os ?k7)
        (?k7\<lparr>d_entries := (d_entries ?k7)(pr_fd (demo_peer 1) := Some (dr_flags (su_door demo_su) OR (EPOLLIN OR EPOLLET),
          Suc (Suc (brk (bagh demo_two))), True))\<rparr>)"
      unfolding os(4) by (rule demo_arms [OF os(1)])
  qed (simp_all add: os p st demo_read_def ECHO_CHUNK_def demo_ctl_def demo_su_def demo_peer_def)
  moreover have "writes (trace demo_two) = []" by (simp add: demo_two_def demo_world_def)
  ultimately show ?thesis unfolding st(3) p by (metis append_Nil)
qed

end
