(* ===== verification/Typing.thy ===== *)
theory Typing
  imports Example_Runtime
begin

text \<open>
  A type system for what C leaves to the programmer: the \<open>void *\<close> pointers. A \<open>kind\<close> is the struct an
  object is an instance of; a \<open>fact\<close> says of an address what it is a pointer to, and a set of facts is the
  type of a memory. \<open>well_typed S \<Sigma> w\<close>: everything that is live in the process \<open>w\<close> is as the facts \<open>\<Sigma>\<close> say.
  A circuit has the kind of the data that it hands on; its elements are arrows that take this kind.
  \<open>types S \<Gamma> c \<Delta>\<close> is the judgement about a C function: in a well typed process where the facts \<open>\<Gamma>\<close> hold it ends in
  no fault that comes from a wrong type (\<open>ill\<close>), and afterwards the process is well typed, all facts still hold
  and so do the facts \<open>\<Delta>\<close> about the result. Freed memory keeps its type, so that dangling pointers are of no
  concern here.
\<close>

section \<open>Kinds and facts\<close>

datatype kind =
    K_string | K_file | K_tcpconn | K_pipe | K_timer | K_tun
  | K_ioP | K_tcpserverP | K_tcpclientP | K_tlsclientP | K_timerP | K_tunP | K_ctx

fun kind_of :: "obj \<Rightarrow> kind" where
  "kind_of (O_string _) = K_string" | "kind_of (O_file _) = K_file" | "kind_of (O_tcpconn _) = K_tcpconn"
| "kind_of (O_pipe _) = K_pipe" | "kind_of (O_timer _) = K_timer" | "kind_of (O_tun _) = K_tun"
| "kind_of (O_ioP _) = K_ioP" | "kind_of (O_tcpserverP _) = K_tcpserverP" | "kind_of (O_tcpclientP _) = K_tcpclientP"
| "kind_of (O_tlsclientP _) = K_tlsclientP" | "kind_of (O_timerP _) = K_timerP" | "kind_of (O_tunP _) = K_tunP"
| "kind_of (O_ctx _) = K_ctx"

text \<open>The kinds that begin with the members of another struct.\<close>

definition files :: "kind set" where "files = {K_file, K_tcpconn, K_pipe, K_tun}"
definition ios :: "kind set" where "ios = {K_ioP, K_tcpserverP, K_tcpclientP, K_tlsclientP, K_tunP}"
definition clients :: "kind set" where "clients = {K_tcpclientP, K_tlsclientP}"

datatype fact =
    Obj ptr kind
  | Buf ptr
  | Circ ptr kind \<comment> \<open>a circuit for data of this kind\<close>
  | Elem ptr kind \<comment> \<open>an element of such a circuit\<close>

text \<open>What the members of an object point to.\<close>

fun members :: "obj \<Rightarrow> fact set" where
  "members (O_string s) = {Buf (s_blob s)}"
| "members (O_file f) = {Obj (f_data f) K_string}"
| "members (O_tcpconn c) = {Obj (f_data c) K_string}"
| "members (O_tun t) = {Obj (f_data t) K_string}"
| "members (O_pipe p) = {Obj (p_data p) K_string}"
| "members _ = {}"

text \<open>The private data of an arrow: a struct, a text, or not used.\<close>

datatype priv_type = Struct kind | Text | Unused

fun priv_facts :: "priv_type \<Rightarrow> ptr \<Rightarrow> fact set" where
  "priv_facts (Struct K) p = {Obj p K}"
| "priv_facts Text p = {Buf p}"
| "priv_facts Unused p = {}"

text \<open>
  The types of the program's own functions: which data and private data its arrows take, which data its error
  callbacks; and the facts about its static variables.
\<close>

record 'u signature =
  sg_task :: "nat \<Rightarrow> kind \<Rightarrow> priv_type \<Rightarrow> bool"
  sg_err :: "nat \<Rightarrow> kind \<Rightarrow> bool"
  sg_vars :: "'u \<Rightarrow> fact set"

text \<open>The prototypes of the headers, with the structs that may stand for another one.\<close>

fun io_takes :: "task \<Rightarrow> kind \<Rightarrow> priv_type \<Rightarrow> bool" where
  "io_takes A_write K P = (K \<in> files \<and> P \<in> Struct ` ios)"
| "io_takes A_read K P = (K \<in> files \<and> P \<in> Struct ` ios)"
| "io_takes _ K P = False"

fun pipe_takes :: "task \<Rightarrow> kind \<Rightarrow> priv_type \<Rightarrow> bool" where
  "pipe_takes A_piperead K P = (K = K_pipe \<and> P \<in> Struct ` ios)"
| "pipe_takes A_pipewrite K P = (K = K_pipe \<and> P \<in> Struct ` ios)"
| "pipe_takes _ K P = False"

fun timer_takes :: "task \<Rightarrow> kind \<Rightarrow> priv_type \<Rightarrow> bool" where
  "timer_takes A_timeropen K P = (K = K_timer \<and> P = Struct K_timerP)"
| "timer_takes A_timersleep K P = (K = K_timer \<and> P = Struct K_timerP)"
| "timer_takes _ K P = False"

fun random_takes :: "task \<Rightarrow> kind \<Rightarrow> priv_type \<Rightarrow> bool" where
  "random_takes A_randopen K P = (K \<in> files)"
| "random_takes A_randread K P = (K \<in> files \<and> P \<in> Struct ` ios)"
| "random_takes A_randenc K P = (K \<in> files)"
| "random_takes _ K P = False"

fun tcp_takes :: "task \<Rightarrow> kind \<Rightarrow> priv_type \<Rightarrow> bool" where
  "tcp_takes A_listen K P = (K \<in> files \<and> P = Struct K_tcpserverP)"
| "tcp_takes A_accept K P = (K \<in> files \<and> P = Struct K_tcpserverP)"
| "tcp_takes A_connect K P = (K = K_tcpconn \<and> P \<in> Struct ` clients)"
| "tcp_takes _ K P = False"

fun tls_takes :: "task \<Rightarrow> kind \<Rightarrow> priv_type \<Rightarrow> bool" where
  "tls_takes A_tls K P = (K \<in> files \<and> P = Struct K_tlsclientP)"
| "tls_takes A_tlswrite K P = (K \<in> files \<and> P = Struct K_tlsclientP)"
| "tls_takes A_tlsread K P = (K \<in> files \<and> P = Struct K_tlsclientP)"
| "tls_takes _ K P = False"

fun tuntap_takes :: "task \<Rightarrow> kind \<Rightarrow> priv_type \<Rightarrow> bool" where
  "tuntap_takes A_tunopen K P = (K = K_tun \<and> P = Struct K_tunP)"
| "tuntap_takes _ K P = False"

definition takes :: "'u signature \<Rightarrow> task \<Rightarrow> kind \<Rightarrow> priv_type \<Rightarrow> bool" where
  "takes S t K P = (case t of A_user n \<Rightarrow> sg_task S n K P
     | _ \<Rightarrow> io_takes t K P \<or> pipe_takes t K P \<or> timer_takes t K P \<or> random_takes t K P \<or> tcp_takes t K P \<or>
         tls_takes t K P \<or> tuntap_takes t K P)"

lemma takes_simps [simp]:
  "takes S A_read K P \<longleftrightarrow> K \<in> files \<and> P \<in> Struct ` ios" "takes S A_write K P \<longleftrightarrow> K \<in> files \<and> P \<in> Struct ` ios"
  "takes S A_piperead K P \<longleftrightarrow> K = K_pipe \<and> P \<in> Struct ` ios" "takes S A_pipewrite K P \<longleftrightarrow> K = K_pipe \<and> P \<in> Struct ` ios"
  "takes S A_timeropen K P \<longleftrightarrow> K = K_timer \<and> P = Struct K_timerP"
  "takes S A_timersleep K P \<longleftrightarrow> K = K_timer \<and> P = Struct K_timerP"
  "takes S A_randopen K P \<longleftrightarrow> K \<in> files" "takes S A_randread K P \<longleftrightarrow> K \<in> files \<and> P \<in> Struct ` ios"
  "takes S A_randenc K P \<longleftrightarrow> K \<in> files" "takes S A_listen K P \<longleftrightarrow> K \<in> files \<and> P = Struct K_tcpserverP"
  "takes S A_accept K P \<longleftrightarrow> K \<in> files \<and> P = Struct K_tcpserverP"
  "takes S A_connect K P \<longleftrightarrow> K = K_tcpconn \<and> P \<in> Struct ` clients"
  "takes S A_tls K P \<longleftrightarrow> K \<in> files \<and> P = Struct K_tlsclientP" "takes S A_tlsread K P \<longleftrightarrow> K \<in> files \<and> P = Struct K_tlsclientP"
  "takes S A_tlswrite K P \<longleftrightarrow> K \<in> files \<and> P = Struct K_tlsclientP" "takes S A_tunopen K P \<longleftrightarrow> K = K_tun \<and> P = Struct K_tunP"
  "takes S (A_user n) K P \<longleftrightarrow> sg_task S n K P"
  by (simp_all add: takes_def)

section \<open>Well typed processes\<close>

fun allotted :: "('k, 'u) world \<Rightarrow> fact \<Rightarrow> bool" where
  "allotted w (Obj p K) = (p < brk (objs w))"
| "allotted w (Buf p) = (p < brk (blobs w))"
| "allotted w (Circ c K) = (c < brk (circs w))"
| "allotted w (Elem e K) = (e < brk (elems w))"

definition nothing :: "fact set" where
  "nothing = {Buf NULL} \<union> range (Obj NULL) \<union> range (Circ NULL) \<union> range (Elem NULL)"

definition unique :: "fact set \<Rightarrow> bool" where
  "unique \<Sigma> \<longleftrightarrow> (\<forall>p K L. p \<noteq> NULL \<longrightarrow> (Obj p K \<in> \<Sigma> \<longrightarrow> Obj p L \<in> \<Sigma> \<longrightarrow> K = L) \<and>
     (Circ p K \<in> \<Sigma> \<longrightarrow> Circ p L \<in> \<Sigma> \<longrightarrow> K = L) \<and> (Elem p K \<in> \<Sigma> \<longrightarrow> Elem p L \<in> \<Sigma> \<longrightarrow> K = L))"

definition objs_typed :: "fact set \<Rightarrow> obj store \<Rightarrow> bool" where
  "objs_typed \<Sigma> h \<longleftrightarrow> (\<forall>p ob. cells h p = Some ob \<longrightarrow> Obj p (kind_of ob) \<in> \<Sigma> \<and> members ob \<subseteq> \<Sigma>)"

definition elem_typed :: "'u signature \<Rightarrow> fact set \<Rightarrow> kind \<Rightarrow> elementE \<Rightarrow> bool" where
  "elem_typed S \<Sigma> K e \<longleftrightarrow> Elem (e_next e) K \<in> \<Sigma> \<and> (\<exists>P. takes S (e_run e) K P \<and> priv_facts P (e_priv e) \<subseteq> \<Sigma>)"

definition elems_typed :: "'u signature \<Rightarrow> fact set \<Rightarrow> elementE store \<Rightarrow> bool" where
  "elems_typed S \<Sigma> h \<longleftrightarrow> (\<forall>p e. cells h p = Some e \<longrightarrow> (\<exists>K. Elem p K \<in> \<Sigma> \<and> elem_typed S \<Sigma> K e))"

definition circ_typed :: "'u signature \<Rightarrow> fact set \<Rightarrow> kind \<Rightarrow> circuitS \<Rightarrow> bool" where
  "circ_typed S \<Sigma> K C \<longleftrightarrow> Elem (c_nets C) K \<in> \<Sigma> \<and> Elem (c_current C) K \<in> \<Sigma> \<and> (\<forall>n. c_err C = Some n \<longrightarrow> sg_err S n K)"

definition circs_typed :: "'u signature \<Rightarrow> fact set \<Rightarrow> circuitS store \<Rightarrow> bool" where
  "circs_typed S \<Sigma> h \<longleftrightarrow> (\<forall>p C. cells h p = Some C \<longrightarrow> (\<exists>K. Circ p K \<in> \<Sigma> \<and> circ_typed S \<Sigma> K C))"

definition bags_typed :: "fact set \<Rightarrow> bagS store \<Rightarrow> bool" where
  "bags_typed \<Sigma> h \<longleftrightarrow> (\<forall>p b. cells h p = Some b \<longrightarrow> (\<exists>K. Circ (b_circuit b) K \<in> \<Sigma> \<and> Obj (b_data b) K \<in> \<Sigma>))"

definition heaps_ok :: "('k, 'u) world \<Rightarrow> bool" where
  "heaps_ok w \<longleftrightarrow> store_ok (objs w) \<and> store_ok (blobs w) \<and> store_ok (circs w) \<and> store_ok (elems w)"

definition well_typed :: "'u signature \<Rightarrow> fact set \<Rightarrow> ('k, 'u) world \<Rightarrow> bool" where
  "well_typed S \<Sigma> w \<longleftrightarrow> heaps_ok w \<and> (\<forall>\<phi> \<in> \<Sigma>. allotted w \<phi>) \<and> nothing \<subseteq> \<Sigma> \<and> unique \<Sigma> \<and>
     objs_typed \<Sigma> (objs w) \<and> elems_typed S \<Sigma> (elems w) \<and> circs_typed S \<Sigma> (circs w) \<and> bags_typed \<Sigma> (bagh w) \<and>
     sg_vars S (usr w) \<subseteq> \<Sigma>"

text \<open>More facts.\<close>

lemma objs_mono: "objs_typed \<Sigma> h \<Longrightarrow> \<Sigma> \<subseteq> \<Sigma>' \<Longrightarrow> objs_typed \<Sigma>' h"
  by (fastforce simp: objs_typed_def)

lemma elem_mono: "elem_typed S \<Sigma> K e \<Longrightarrow> \<Sigma> \<subseteq> \<Sigma>' \<Longrightarrow> elem_typed S \<Sigma>' K e"
  unfolding elem_typed_def by blast

lemma elems_mono: "elems_typed S \<Sigma> h \<Longrightarrow> \<Sigma> \<subseteq> \<Sigma>' \<Longrightarrow> elems_typed S \<Sigma>' h"
  unfolding elems_typed_def using elem_mono by blast

lemma circ_mono: "circ_typed S \<Sigma> K C \<Longrightarrow> \<Sigma> \<subseteq> \<Sigma>' \<Longrightarrow> circ_typed S \<Sigma>' K C"
  unfolding circ_typed_def by blast

lemma circs_mono: "circs_typed S \<Sigma> h \<Longrightarrow> \<Sigma> \<subseteq> \<Sigma>' \<Longrightarrow> circs_typed S \<Sigma>' h"
  unfolding circs_typed_def using circ_mono by blast

lemma bags_mono: "bags_typed \<Sigma> h \<Longrightarrow> \<Sigma> \<subseteq> \<Sigma>' \<Longrightarrow> bags_typed \<Sigma>' h"
  unfolding bags_typed_def by blast

lemmas typed_mono = objs_mono elems_mono circs_mono bags_mono

section \<open>The judgement\<close>

fun ill :: "fault \<Rightarrow> bool" where
  "ill BadCast = True"
| "ill (WildPointer h) = (h \<noteq> HBag)"
| "ill _ = False"

definition types :: "'u signature \<Rightarrow> fact set \<Rightarrow> ('k, 'u, 'a) wm \<Rightarrow> ('a \<Rightarrow> fact set) \<Rightarrow> bool" where
  "types S \<Gamma> c \<Delta> \<longleftrightarrow> (\<forall>w \<Sigma>. well_typed S \<Sigma> w \<longrightarrow> \<Gamma> \<subseteq> \<Sigma> \<longrightarrow>
     (case c w of Inl f \<Rightarrow> \<not> ill f
      | Inr r \<Rightarrow> \<exists>\<Sigma>'. \<Sigma> \<subseteq> \<Sigma>' \<and> well_typed S \<Sigma>' (snd r) \<and> \<Delta> (fst r) \<subseteq> \<Sigma>'))"

text \<open>Nothing is said about the result.\<close>

abbreviation sound :: "'u signature \<Rightarrow> fact set \<Rightarrow> ('k, 'u, 'a) wm \<Rightarrow> bool" where
  "sound S \<Gamma> c \<equiv> types S \<Gamma> c (\<lambda>_. {})"

named_theorems type_intros "rules of the typing judgement"

lemma typesI:
  fixes c :: "('k, 'u, 'a) wm"
  assumes "\<And>w \<Sigma> f. well_typed S \<Sigma> w \<Longrightarrow> \<Gamma> \<subseteq> \<Sigma> \<Longrightarrow> c w = Inl f \<Longrightarrow> \<not> ill f"
    and "\<And>w \<Sigma> a w'. well_typed S \<Sigma> w \<Longrightarrow> \<Gamma> \<subseteq> \<Sigma> \<Longrightarrow> c w = Inr (a, w') \<Longrightarrow>
      \<exists>\<Sigma>'. \<Sigma> \<subseteq> \<Sigma>' \<and> well_typed S \<Sigma>' w' \<and> \<Delta> a \<subseteq> \<Sigma>'"
  shows "types S \<Gamma> c \<Delta>"
  unfolding types_def
proof (intro allI impI)
  fix w :: "('k, 'u) world" and \<Sigma>
  assume w: "well_typed S \<Sigma> w" "\<Gamma> \<subseteq> \<Sigma>"
  show "case c w of Inl f \<Rightarrow> \<not> ill f | Inr r \<Rightarrow> \<exists>\<Sigma>'. \<Sigma> \<subseteq> \<Sigma>' \<and> well_typed S \<Sigma>' (snd r) \<and> \<Delta> (fst r) \<subseteq> \<Sigma>'"
    using assms [OF w] by (cases "c w") auto
qed

lemma typesD_Inl:
  assumes "types S \<Gamma> c \<Delta>" and "well_typed S \<Sigma> w" and "\<Gamma> \<subseteq> \<Sigma>" and "c w = Inl f"
  shows "\<not> ill f"
  using assms(1) [unfolded types_def, rule_format, OF assms(2,3)] assms(4) by simp

lemma typesD_Inr:
  assumes "types S \<Gamma> c \<Delta>" and "well_typed S \<Sigma> w" and "\<Gamma> \<subseteq> \<Sigma>" and "c w = Inr (a, w')"
  obtains \<Sigma>' where "\<Sigma> \<subseteq> \<Sigma>'" and "well_typed S \<Sigma>' w'" and "\<Delta> a \<subseteq> \<Sigma>'"
  using assms(1) [unfolded types_def, rule_format, OF assms(2,3)] assms(4) by auto

lemma types_weaken:
  assumes "types S \<Gamma> c \<Delta>" and "\<Gamma> \<subseteq> \<Gamma>'" and "\<And>a. \<Delta>' a \<subseteq> \<Delta> a"
  shows "types S \<Gamma>' c \<Delta>'"
proof (rule typesI)
  fix w \<Sigma> f assume "well_typed S \<Sigma> w" "\<Gamma>' \<subseteq> \<Sigma>" "c w = Inl f"
  with typesD_Inl [OF assms(1), of \<Sigma> w f] assms(2) show "\<not> ill f" by simp
next
  fix w \<Sigma> a w' assume w: "well_typed S \<Sigma> w" "\<Gamma>' \<subseteq> \<Sigma>" "c w = Inr (a, w')"
  have "\<Gamma> \<subseteq> \<Sigma>" using assms(2) w(2) by simp
  obtain \<Sigma>' where "\<Sigma> \<subseteq> \<Sigma>'" "well_typed S \<Sigma>' w'" "\<Delta> a \<subseteq> \<Sigma>'"
    by (rule typesD_Inr [OF assms(1) w(1) \<open>\<Gamma> \<subseteq> \<Sigma>\<close> w(3)])
  then show "\<exists>\<Sigma>'. \<Sigma> \<subseteq> \<Sigma>' \<and> well_typed S \<Sigma>' w' \<and> \<Delta>' a \<subseteq> \<Sigma>'"
    using assms(3) [of a] by blast
qed

lemma sound_types: "types S \<Gamma> c \<Delta> \<Longrightarrow> sound S \<Gamma> c"
  by (erule types_weaken) simp_all

lemma types_mbind [type_intros]:
  assumes c: "types S \<Gamma> c \<Delta>" and k: "\<And>a. types S (\<Gamma> \<union> \<Delta> a) (k a) \<Theta>"
  shows "types S \<Gamma> (mbind c k) \<Theta>"
proof (rule typesI)
  fix w \<Sigma> f assume w: "well_typed S \<Sigma> w" "\<Gamma> \<subseteq> \<Sigma>" and f: "mbind c k w = Inl f"
  show "\<not> ill f"
  proof (cases "c w")
    case (Inl g)
    with f typesD_Inl [OF c w] show ?thesis by (simp add: mdefs)
  next
    case (Inr r)
    then have r: "c w = Inr (fst r, snd r)" by simp
    obtain \<Sigma>' where s: "\<Sigma> \<subseteq> \<Sigma>'" "well_typed S \<Sigma>' (snd r)" "\<Delta> (fst r) \<subseteq> \<Sigma>'" by (rule typesD_Inr [OF c w r])
    have "k (fst r) (snd r) = Inl f" using f Inr by (simp add: mdefs)
    then show ?thesis using typesD_Inl [OF k s(2)] s(1,3) w(2) by blast
  qed
next
  fix w \<Sigma> a w' assume w: "well_typed S \<Sigma> w" "\<Gamma> \<subseteq> \<Sigma>" and r: "mbind c k w = Inr (a, w')"
  then obtain b v where b: "c w = Inr (b, v)" "k b v = Inr (a, w')" by (auto simp: mbind_Inr_iff)
  obtain \<Sigma>' where s: "\<Sigma> \<subseteq> \<Sigma>'" "well_typed S \<Sigma>' v" "\<Delta> b \<subseteq> \<Sigma>'" by (rule typesD_Inr [OF c w b(1)])
  have g: "\<Gamma> \<union> \<Delta> b \<subseteq> \<Sigma>'" using s(1,3) w(2) by blast
  obtain \<Sigma>'' where "\<Sigma>' \<subseteq> \<Sigma>''" "well_typed S \<Sigma>'' w'" "\<Theta> a \<subseteq> \<Sigma>''" by (rule typesD_Inr [OF k s(2) g b(2)])
  with s(1) show "\<exists>\<Sigma>'. \<Sigma> \<subseteq> \<Sigma>' \<and> well_typed S \<Sigma>' w' \<and> \<Theta> a \<subseteq> \<Sigma>'" by blast
qed

lemma types_mthen [type_intros]: "sound S \<Gamma> c \<Longrightarrow> types S \<Gamma> d \<Theta> \<Longrightarrow> types S \<Gamma> (mthen c d) \<Theta>"
  unfolding mthen_def by (erule types_mbind) simp

lemma types_mret [type_intros]: "sound S \<Gamma> (mret a)"
  by (rule typesI) (auto simp: mdefs)

lemma types_mret_fact: "\<Delta> a \<subseteq> \<Gamma> \<Longrightarrow> types S \<Gamma> (mret a) \<Delta>"
  by (rule typesI) (auto simp: mdefs)

lemma types_mfail [type_intros]: "\<not> ill f \<Longrightarrow> types S \<Gamma> (mfail f) \<Delta>"
  by (rule typesI) (auto simp: mdefs)

lemma types_mgets [type_intros]: "sound S \<Gamma> (mgets g)"
  by (rule typesI) (auto simp: mdefs)

lemma types_mseq_Nil [type_intros]: "sound S \<Gamma> (mseq [])"
  by (simp add: types_mret)

lemma types_mseq_Cons [type_intros]: "sound S \<Gamma> c \<Longrightarrow> sound S \<Gamma> (mseq cs) \<Longrightarrow> sound S \<Gamma> (mseq (c # cs))"
  by (simp add: types_mthen)

lemma types_if [type_intros]:
  "(b \<Longrightarrow> types S \<Gamma> c \<Delta>) \<Longrightarrow> (\<not> b \<Longrightarrow> types S \<Gamma> d \<Delta>) \<Longrightarrow> types S \<Gamma> (if b then c else d) \<Delta>"
  by simp

lemma types_option [type_intros]:
  "types S \<Gamma> c \<Delta> \<Longrightarrow> (\<And>a. x = Some a \<Longrightarrow> types S \<Gamma> (k a) \<Delta>) \<Longrightarrow> types S \<Gamma> (case x of None \<Rightarrow> c | Some a \<Rightarrow> k a) \<Delta>"
  by (cases x) simp_all

lemma types_sum [type_intros]:
  "(\<And>a. x = Inl a \<Longrightarrow> types S \<Gamma> (c a) \<Delta>) \<Longrightarrow> (\<And>a. x = Inr a \<Longrightarrow> types S \<Gamma> (k a) \<Delta>) \<Longrightarrow>
    types S \<Gamma> (case x of Inl a \<Rightarrow> c a | Inr a \<Rightarrow> k a) \<Delta>"
  by (cases x) simp_all

lemma types_prod [type_intros]: "(\<And>a b. types S \<Gamma> (k a b) \<Delta>) \<Longrightarrow> types S \<Gamma> (case x of (a, b) \<Rightarrow> k a b) \<Delta>"
  by (cases x) simp

lemma types_let [type_intros]: "(\<And>a. types S \<Gamma> (k a) \<Delta>) \<Longrightarrow> types S \<Gamma> (let a = x in k a) \<Delta>"
  by simp

section \<open>What does not touch the typed part\<close>

definition frame_of :: "('k, 'u) world \<Rightarrow> obj store \<times> byte list store \<times> circuitS store \<times> elementE store \<times> bagS store \<times> 'u" where
  "frame_of w = (objs w, blobs w, circs w, elems w, bagh w, usr w)"

lemma allotted_cong:
  "brk (objs w) = brk (objs w') \<Longrightarrow> brk (blobs w) = brk (blobs w') \<Longrightarrow> brk (circs w) = brk (circs w') \<Longrightarrow>
    brk (elems w) = brk (elems w') \<Longrightarrow> allotted w \<phi> = allotted w' \<phi>"
  by (cases \<phi>) simp_all

lemma well_typed_frame:
  assumes "frame_of w = frame_of w'"
  shows "well_typed S \<Sigma> w = well_typed S \<Sigma> w'"
proof -
  have "allotted w \<phi> = allotted w' \<phi>" for \<phi>
    by (rule allotted_cong) (use assms in \<open>simp_all add: frame_of_def\<close>)
  then show ?thesis using assms by (simp add: well_typed_def heaps_ok_def frame_of_def)
qed

lemma types_quiet:
  assumes "\<And>w f. c w = Inl f \<Longrightarrow> \<not> ill f" and "\<And>w a w'. c w = Inr (a, w') \<Longrightarrow> frame_of w' = frame_of w"
  shows "sound S \<Gamma> c"
proof (rule typesI)
  fix w \<Sigma> a w' assume "well_typed S \<Sigma> w" "c w = Inr (a, w')"
  then show "\<exists>\<Sigma>'. \<Sigma> \<subseteq> \<Sigma>' \<and> well_typed S \<Sigma>' w' \<and> {} \<subseteq> \<Sigma>'"
    using well_typed_frame [OF assms(2)] by blast
qed (rule assms(1))

lemma types_mmod: "(\<And>w. frame_of (g w) = frame_of w) \<Longrightarrow> sound S \<Gamma> (mmod g)"
  by (rule types_quiet) (auto simp: mdefs)

lemma types_mmods [type_intros]:
  "sound S \<Gamma> (set_errno e)" "sound S \<Gamma> (printf t)" "sound S \<Gamma> (set_ev h)"
  "sound S \<Gamma> (mmod (\<lambda>w. w\<lparr>verbosity := v\<rparr>))" "sound S \<Gamma> (mmod (\<lambda>w. w\<lparr>ssl_ctx := x\<rparr>))"
  "sound S \<Gamma> (mmod (\<lambda>w. w\<lparr>addrtemp := t\<rparr>))"
  unfolding set_errno_def printf_def set_ev_def by (rule types_mmod, simp add: frame_of_def)+

lemma types_syscall [type_intros]: "sound S \<Gamma> (syscall sc f)"
  by (rule types_quiet) (auto simp: syscall_def frame_of_def Let_def split: prod.splits)

lemma types_sslcall [type_intros]: "sound S \<Gamma> (sslcall sc f)"
  by (rule types_quiet) (auto simp: sslcall_def frame_of_def Let_def split: prod.splits)

lemma types_malloc [type_intros]: "sound S \<Gamma> malloc_or_die"
  by (rule types_quiet) (auto simp: malloc_or_die_def frame_of_def Let_def split: prod.splits if_splits)

lemma types_sys [type_intros]:
  "sound S \<Gamma> (sys_close fd)" "sound S \<Gamma> (sys_open path fl)" "sound S \<Gamma> (epoll_ctl ep cop fd evs p)"
  unfolding sys_close_def sys_open_def epoll_ctl_def by (rule type_intros)+

section \<open>Objects and buffers\<close>

lemma well_typedD:
  assumes "well_typed S \<Sigma> w"
  shows "heaps_ok w" and "\<phi> \<in> \<Sigma> \<Longrightarrow> allotted w \<phi>" and "nothing \<subseteq> \<Sigma>" and "unique \<Sigma>" and "objs_typed \<Sigma> (objs w)"
    and "elems_typed S \<Sigma> (elems w)" and "circs_typed S \<Sigma> (circs w)" and "bags_typed \<Sigma> (bagh w)" and "sg_vars S (usr w) \<subseteq> \<Sigma>"
  using assms by (auto simp: well_typed_def)

lemma typed_nothing:
  assumes "well_typed S \<Sigma> w"
  shows "Buf NULL \<in> \<Sigma>" and "Obj NULL K \<in> \<Sigma>" and "Circ NULL K \<in> \<Sigma>" and "Elem NULL K \<in> \<Sigma>"
  using well_typedD(3) [OF assms] by (auto simp: nothing_def)

lemma get_cell_ill: "get_cell h s p = Inl f \<Longrightarrow> p < brk s \<Longrightarrow> \<not> ill f"
  by (cases "cells s p") (auto simp: get_cell_def bad_access_def split: if_splits)

lemma live_not_NULL: "store_ok s \<Longrightarrow> cells s p = Some x \<Longrightarrow> p \<noteq> NULL"
  by (rule mem.live_not_null)

text \<open>The one kind an object can have.\<close>

lemma live_object:
  assumes "well_typed S \<Sigma> w" and "cells (objs w) p = Some ob" and "Obj p K \<in> \<Sigma>"
  shows "kind_of ob = K" and "members ob \<subseteq> \<Sigma>"
proof -
  have "p \<noteq> NULL" using assms(1,2) live_not_NULL by (auto simp: well_typed_def heaps_ok_def)
  moreover have o: "Obj p (kind_of ob) \<in> \<Sigma>" "members ob \<subseteq> \<Sigma>"
    using well_typedD(5) [OF assms(1)] assms(2) by (auto simp: objs_typed_def)
  ultimately show "kind_of ob = K" using well_typedD(4) [OF assms(1)] assms(3) unfolding unique_def by blast
  show "members ob \<subseteq> \<Sigma>" by (rule o(2))
qed

lemma types_load_as:
  fixes S :: "'u signature" and cast :: "obj \<Rightarrow> 'a option"
  assumes p: "Obj p K \<in> \<Gamma>" and cast: "\<And>ob. kind_of ob = K \<Longrightarrow> cast ob \<noteq> None"
    and mem: "\<And>ob a. kind_of ob = K \<Longrightarrow> cast ob = Some a \<Longrightarrow> \<Delta> a \<subseteq> members ob"
  shows "types S \<Gamma> (load_as cast p :: ('k, 'u, 'a) wm) \<Delta>"
proof (rule typesI)
  fix w :: "('k, 'u) world" and \<Sigma> f assume w: "well_typed S \<Sigma> w" "\<Gamma> \<subseteq> \<Sigma>" and f: "load_as cast p w = Inl f"
  have k: "Obj p K \<in> \<Sigma>" using p w(2) by blast
  then have b: "p < brk (objs w)" using well_typedD(2) [OF w(1)] by fastforce
  show "\<not> ill f"
  proof (cases "cells (objs w) p")
    case None
    with f get_cell_ill [OF _ b, of HObj] show ?thesis by (auto simp: load_as_def load_obj_def mdefs split: sum.splits)
  next
    case (Some ob)
    with cast [OF live_object(1) [OF w(1) Some k]] f show ?thesis
      by (auto simp: load_as_def load_obj_def mdefs get_cell_Some)
  qed
next
  fix w w' :: "('k, 'u) world" and \<Sigma> a assume w: "well_typed S \<Sigma> w" "\<Gamma> \<subseteq> \<Sigma>" and r: "load_as cast p w = Inr (a, w')"
  then obtain ob where ob: "cells (objs w) p = Some ob" "cast ob = Some a" "w' = w"
    by (auto simp: load_as_def load_obj_def mdefs split: sum.splits option.splits)
  have k: "Obj p K \<in> \<Sigma>" using p w(2) by blast
  show "\<exists>\<Sigma>'. \<Sigma> \<subseteq> \<Sigma>' \<and> well_typed S \<Sigma>' w' \<and> \<Delta> a \<subseteq> \<Sigma>'"
    using live_object [OF w(1) ob(1) k] mem [of ob a] ob(2,3) w(1) by blast
qed

lemma kind_cases:
  "kind_of ob = K_string \<longleftrightarrow> (\<exists>x. ob = O_string x)" "kind_of ob = K_file \<longleftrightarrow> (\<exists>x. ob = O_file x)"
  "kind_of ob = K_tcpconn \<longleftrightarrow> (\<exists>x. ob = O_tcpconn x)" "kind_of ob = K_pipe \<longleftrightarrow> (\<exists>x. ob = O_pipe x)"
  "kind_of ob = K_timer \<longleftrightarrow> (\<exists>x. ob = O_timer x)" "kind_of ob = K_tun \<longleftrightarrow> (\<exists>x. ob = O_tun x)"
  "kind_of ob = K_ioP \<longleftrightarrow> (\<exists>x. ob = O_ioP x)" "kind_of ob = K_tcpserverP \<longleftrightarrow> (\<exists>x. ob = O_tcpserverP x)"
  "kind_of ob = K_tcpclientP \<longleftrightarrow> (\<exists>x. ob = O_tcpclientP x)" "kind_of ob = K_tlsclientP \<longleftrightarrow> (\<exists>x. ob = O_tlsclientP x)"
  "kind_of ob = K_timerP \<longleftrightarrow> (\<exists>x. ob = O_timerP x)" "kind_of ob = K_tunP \<longleftrightarrow> (\<exists>x. ob = O_tunP x)"
  by (cases ob; simp)+

lemma types_load_file [type_intros]:
  assumes "\<exists>K \<in> files. Obj p K \<in> \<Gamma>"
  shows "types S \<Gamma> (load_as as_file p) (\<lambda>f. {Obj (f_data f) K_string})"
proof -
  from assms obtain K where K: "K \<in> files" "Obj p K \<in> \<Gamma>" by blast
  from K(1) show ?thesis
    by (intro types_load_as [OF K(2)]) (auto simp: files_def kind_cases fileS.truncate_def)
qed

lemma types_load_ioP [type_intros]:
  assumes "\<exists>K \<in> ios. Obj p K \<in> \<Gamma>"
  shows "sound S \<Gamma> (load_as as_ioP p)"
proof -
  from assms obtain K where K: "K \<in> ios" "Obj p K \<in> \<Gamma>" by blast
  from K(1) show ?thesis by (intro types_load_as [OF K(2)]) (auto simp: ios_def kind_cases)
qed

lemma types_load_tcpclientP [type_intros]:
  assumes "\<exists>K \<in> clients. Obj p K \<in> \<Gamma>"
  shows "sound S \<Gamma> (load_as as_tcpclientP p)"
proof -
  from assms obtain K where K: "K \<in> clients" "Obj p K \<in> \<Gamma>" by blast
  from K(1) show ?thesis by (intro types_load_as [OF K(2)]) (auto simp: clients_def kind_cases)
qed

lemma types_load_string [type_intros]:
  "Obj p K_string \<in> \<Gamma> \<Longrightarrow> types S \<Gamma> (load_as as_string p) (\<lambda>s. {Buf (s_blob s)})"
  by (erule types_load_as) (auto simp: kind_cases)

lemma types_load_pipe [type_intros]:
  "Obj p K_pipe \<in> \<Gamma> \<Longrightarrow> types S \<Gamma> (load_as as_pipe p) (\<lambda>x. {Obj (p_data x) K_string})"
  by (erule types_load_as) (auto simp: kind_cases)

lemma types_load_tcpconn [type_intros]:
  "Obj p K_tcpconn \<in> \<Gamma> \<Longrightarrow> types S \<Gamma> (load_as as_tcpconn p) (\<lambda>x. {Obj (f_data x) K_string})"
  by (erule types_load_as) (auto simp: kind_cases)

lemma types_loads [type_intros]:
  "Obj p K_timer \<in> \<Gamma> \<Longrightarrow> sound S \<Gamma> (load_as as_timer p)" "Obj p K_tun \<in> \<Gamma> \<Longrightarrow> sound S \<Gamma> (load_as as_tun p)"
  "Obj p K_tcpserverP \<in> \<Gamma> \<Longrightarrow> sound S \<Gamma> (load_as as_tcpserverP p)"
  "Obj p K_tlsclientP \<in> \<Gamma> \<Longrightarrow> sound S \<Gamma> (load_as as_tlsclientP p)"
  "Obj p K_timerP \<in> \<Gamma> \<Longrightarrow> sound S \<Gamma> (load_as as_timerP p)" "Obj p K_tunP \<in> \<Gamma> \<Longrightarrow> sound S \<Gamma> (load_as as_tunP p)"
  by (erule types_load_as; auto simp: kind_cases)+

text \<open>Writing an object of the same kind.\<close>

lemma well_typed_objs:
  assumes "well_typed S \<Sigma> w" and "objs_typed \<Sigma> h" and "store_ok h" and "brk h = brk (objs w)"
  shows "well_typed S \<Sigma> (w\<lparr>objs := h\<rparr>)"
proof -
  have "allotted (w\<lparr>objs := h\<rparr>) \<phi> = allotted w \<phi>" for \<phi> by (rule allotted_cong) (simp_all add: assms(4))
  with assms show ?thesis by (simp add: well_typed_def heaps_ok_def)
qed

lemma objs_put: "objs_typed \<Sigma> h \<Longrightarrow> Obj p (kind_of ob) \<in> \<Sigma> \<Longrightarrow> members ob \<subseteq> \<Sigma> \<Longrightarrow> objs_typed \<Sigma> (put_cell p ob h)"
  by (auto simp: objs_typed_def)

lemma store_ok_put: "store_ok s \<Longrightarrow> cells s p = Some y \<Longrightarrow> store_ok (put_cell p x s)"
  using mem.ok_upd [of s p x] by simp

lemma store_ok_del: "store_ok s \<Longrightarrow> store_ok (del_cell p s)"
  by (rule mem.ok_del)

lemma store_obj_cases:
  "store_obj p ob w = Inr (a, w') \<Longrightarrow> (\<exists>x. cells (objs w) p = Some x) \<and> w' = w\<lparr>objs := put_cell p ob (objs w)\<rparr>"
  "store_obj p ob w = Inl f \<Longrightarrow> get_cell HObj (objs w) p = Inl f"
  by (auto simp: store_obj_def load_obj_def mdefs split: sum.splits)

lemma types_store_obj:
  assumes "Obj p (kind_of ob) \<in> \<Gamma>" and "members ob \<subseteq> \<Gamma>"
  shows "sound S \<Gamma> (store_obj p ob)"
proof (rule typesI)
  fix w \<Sigma> f assume w: "well_typed S \<Sigma> w" "\<Gamma> \<subseteq> \<Sigma>" and "store_obj p ob w = Inl f"
  then have "get_cell HObj (objs w) p = Inl f" by (auto dest: store_obj_cases)
  moreover have "Obj p (kind_of ob) \<in> \<Sigma>" using assms(1) w(2) by blast
  then have "p < brk (objs w)" using well_typedD(2) [OF w(1)] by fastforce
  ultimately show "\<not> ill f" by (rule get_cell_ill)
next
  fix w \<Sigma> a w' assume w: "well_typed S \<Sigma> w" "\<Gamma> \<subseteq> \<Sigma>" and "store_obj p ob w = Inr (a, w')"
  then obtain x where x: "cells (objs w) p = Some x" "w' = w\<lparr>objs := put_cell p ob (objs w)\<rparr>" by (auto dest: store_obj_cases)
  have "objs_typed \<Sigma> (put_cell p ob (objs w))"
    by (rule objs_put [OF well_typedD(5) [OF w(1)]]) (use assms w(2) in blast)+
  moreover have "store_ok (put_cell p ob (objs w))"
    using well_typedD(1) [OF w(1)] x(1) by (simp add: heaps_ok_def store_ok_put)
  ultimately have "well_typed S \<Sigma> w'" using well_typed_objs [OF w(1)] x(2) by simp
  then show "\<exists>\<Sigma>'. \<Sigma> \<subseteq> \<Sigma>' \<and> well_typed S \<Sigma>' w' \<and> {} \<subseteq> \<Sigma>'" by blast
qed

lemma types_change_obj:
  assumes "\<exists>K. Obj p K \<in> \<Gamma>" and "\<And>ob. kind_of (g ob) = kind_of ob" and "\<And>ob. members (g ob) \<subseteq> members ob \<union> \<Gamma>"
  shows "sound S \<Gamma> (change_obj g p)"
proof (rule typesI)
  fix w \<Sigma> f assume w: "well_typed S \<Sigma> w" "\<Gamma> \<subseteq> \<Sigma>" and f: "change_obj g p w = Inl f"
  then have "get_cell HObj (objs w) p = Inl f"
    by (auto simp: change_obj_def load_obj_def mdefs split: sum.splits dest: store_obj_cases(2))
  moreover obtain K where "Obj p K \<in> \<Sigma>" using assms(1) w(2) by blast
  then have "p < brk (objs w)" using well_typedD(2) [OF w(1)] by fastforce
  ultimately show "\<not> ill f" by (rule get_cell_ill)
next
  fix w \<Sigma> a w' assume w: "well_typed S \<Sigma> w" "\<Gamma> \<subseteq> \<Sigma>" and "change_obj g p w = Inr (a, w')"
  then obtain x where x: "cells (objs w) p = Some x" "w' = w\<lparr>objs := put_cell p (g x) (objs w)\<rparr>"
    by (auto simp: change_obj_def load_obj_def mdefs split: sum.splits dest: store_obj_cases(1))
  have "Obj p (kind_of (g x)) \<in> \<Sigma>" "members (g x) \<subseteq> \<Sigma>"
    using well_typedD(5) [OF w(1)] x(1) assms(2) [of x] assms(3) [of x] w(2) unfolding objs_typed_def by (auto, blast)
  then have "objs_typed \<Sigma> (put_cell p (g x) (objs w))" by (rule objs_put [OF well_typedD(5) [OF w(1)]])
  moreover have "store_ok (put_cell p (g x) (objs w))"
    using well_typedD(1) [OF w(1)] x(1) by (simp add: heaps_ok_def store_ok_put)
  ultimately have "well_typed S \<Sigma> w'" using well_typed_objs [OF w(1)] x(2) by simp
  then show "\<exists>\<Sigma>'. \<Sigma> \<subseteq> \<Sigma>' \<and> well_typed S \<Sigma>' w' \<and> {} \<subseteq> \<Sigma>'" by blast
qed

lemma types_set_size [type_intros]: "Obj d K_string \<in> \<Gamma> \<Longrightarrow> sound S \<Gamma> (set_size d n)"
  unfolding set_size_def by (rule types_mbind, rule types_load_string, assumption, rule types_store_obj) simp_all

text \<open>Buffers.\<close>

lemma well_typed_blobs:
  assumes "well_typed S \<Sigma> w" and "store_ok h" and "brk h = brk (blobs w)"
  shows "well_typed S \<Sigma> (w\<lparr>blobs := h\<rparr>)"
proof -
  have "allotted (w\<lparr>blobs := h\<rparr>) \<phi> = allotted w \<phi>" for \<phi> by (rule allotted_cong) (simp_all add: assms(3))
  with assms show ?thesis by (simp add: well_typed_def heaps_ok_def)
qed

lemma types_load_blob [type_intros]: "Buf b \<in> \<Gamma> \<Longrightarrow> sound S \<Gamma> (load_blob b)"
proof (rule typesI)
  fix w \<Sigma> f assume "Buf b \<in> \<Gamma>" and w: "well_typed S \<Sigma> w" "\<Gamma> \<subseteq> \<Sigma>" "load_blob b w = Inl f"
  then have "Buf b \<in> \<Sigma>" "get_cell HBlob (blobs w) b = Inl f" by (auto simp: load_blob_def mdefs split: sum.splits)
  with well_typedD(2) [OF w(1)] show "\<not> ill f" using get_cell_ill by fastforce
qed (auto simp: load_blob_def mdefs split: sum.splits)

lemma types_store_blob [type_intros]: "Buf b \<in> \<Gamma> \<Longrightarrow> sound S \<Gamma> (store_blob b bs)"
proof (rule typesI)
  fix w \<Sigma> f assume "Buf b \<in> \<Gamma>" and w: "well_typed S \<Sigma> w" "\<Gamma> \<subseteq> \<Sigma>" "store_blob b bs w = Inl f"
  then have "Buf b \<in> \<Sigma>" "get_cell HBlob (blobs w) b = Inl f"
    by (auto simp: store_blob_def load_blob_def mdefs split: sum.splits)
  with well_typedD(2) [OF w(1)] show "\<not> ill f" using get_cell_ill by fastforce
next
  fix w \<Sigma> a w' assume w: "well_typed S \<Sigma> w" "store_blob b bs w = Inr (a, w')"
  then obtain old where "cells (blobs w) b = Some old" "w' = w\<lparr>blobs := put_cell b bs (blobs w)\<rparr>"
    by (auto simp: store_blob_def load_blob_def mdefs split: sum.splits)
  then have "well_typed S \<Sigma> w'"
    using well_typed_blobs [OF w(1)] well_typedD(1) [OF w(1)] by (simp add: heaps_ok_def store_ok_put)
  then show "\<exists>\<Sigma>'. \<Sigma> \<subseteq> \<Sigma>' \<and> well_typed S \<Sigma>' w' \<and> {} \<subseteq> \<Sigma>'" by blast
qed

lemma types_sys_read [type_intros]: "Buf b \<in> \<Gamma> \<Longrightarrow> sound S \<Gamma> (sys_read fd b n)"
  unfolding sys_read_def by (rule type_intros | simp; fail)+

lemma types_sys_write [type_intros]: "Buf b \<in> \<Gamma> \<Longrightarrow> sound S \<Gamma> (sys_write fd b n)"
  unfolding sys_write_def by (rule type_intros | simp; fail)+

section \<open>New memory\<close>

lemma unique_insert:
  "unique \<Sigma> \<Longrightarrow> (\<And>L. Obj p L \<notin> \<Sigma>) \<Longrightarrow> unique (insert (Obj p K) \<Sigma>)"
  "unique \<Sigma> \<Longrightarrow> (\<And>L. Circ p L \<notin> \<Sigma>) \<Longrightarrow> unique (insert (Circ p K) \<Sigma>)"
  "unique \<Sigma> \<Longrightarrow> (\<And>L. Elem p L \<notin> \<Sigma>) \<Longrightarrow> unique (insert (Elem p K) \<Sigma>)"
  "unique \<Sigma> \<Longrightarrow> unique (insert (Buf p) \<Sigma>)"
  unfolding unique_def by blast+

lemma allotted_new:
  assumes "\<forall>\<phi> \<in> \<Sigma>. allotted w \<phi>"
  shows "\<forall>\<phi> \<in> insert (Obj (brk (objs w)) K) \<Sigma>. allotted (w\<lparr>objs := snd (new_cell ob (objs w))\<rparr>) \<phi>"
    and "\<forall>\<phi> \<in> insert (Buf (brk (blobs w))) \<Sigma>. allotted (w\<lparr>blobs := snd (new_cell bs (blobs w))\<rparr>) \<phi>"
    and "\<forall>\<phi> \<in> insert (Circ (brk (circs w)) K) \<Sigma>. allotted (w\<lparr>circs := snd (new_cell C (circs w))\<rparr>) \<phi>"
    and "\<forall>\<phi> \<in> insert (Elem (brk (elems w)) K) \<Sigma>. allotted (w\<lparr>elems := snd (new_cell e (elems w))\<rparr>) \<phi>"
proof -
  have "allotted w \<phi> \<Longrightarrow> allotted (w\<lparr>objs := snd (new_cell ob (objs w))\<rparr>) \<phi>"
    "allotted w \<phi> \<Longrightarrow> allotted (w\<lparr>blobs := snd (new_cell bs (blobs w))\<rparr>) \<phi>"
    "allotted w \<phi> \<Longrightarrow> allotted (w\<lparr>circs := snd (new_cell C (circs w))\<rparr>) \<phi>"
    "allotted w \<phi> \<Longrightarrow> allotted (w\<lparr>elems := snd (new_cell e (elems w))\<rparr>) \<phi>" for \<phi>
    by (cases \<phi>; simp)+
  with assms
  show "\<forall>\<phi> \<in> insert (Obj (brk (objs w)) K) \<Sigma>. allotted (w\<lparr>objs := snd (new_cell ob (objs w))\<rparr>) \<phi>"
    and "\<forall>\<phi> \<in> insert (Buf (brk (blobs w))) \<Sigma>. allotted (w\<lparr>blobs := snd (new_cell bs (blobs w))\<rparr>) \<phi>"
    and "\<forall>\<phi> \<in> insert (Circ (brk (circs w)) K) \<Sigma>. allotted (w\<lparr>circs := snd (new_cell C (circs w))\<rparr>) \<phi>"
    and "\<forall>\<phi> \<in> insert (Elem (brk (elems w)) K) \<Sigma>. allotted (w\<lparr>elems := snd (new_cell e (elems w))\<rparr>) \<phi>"
    by simp_all
qed

lemma not_yet:
  assumes "well_typed S \<Sigma> w"
  shows "Obj (brk (objs w)) K \<notin> \<Sigma>" and "Circ (brk (circs w)) K \<notin> \<Sigma>" and "Elem (brk (elems w)) K \<notin> \<Sigma>"
  using well_typedD(2) [OF assms] by fastforce+

lemma objs_new: "objs_typed \<Sigma> h \<Longrightarrow> members ob \<subseteq> \<Sigma> \<Longrightarrow> objs_typed (insert (Obj (brk h) (kind_of ob)) \<Sigma>) (snd (new_cell ob h))"
  unfolding objs_typed_def by auto

lemma elems_new: "elems_typed S \<Sigma> h \<Longrightarrow> elem_typed S \<Sigma> K e \<Longrightarrow> elems_typed S (insert (Elem (brk h) K) \<Sigma>) (snd (new_cell e h))"
  unfolding elems_typed_def by (simp, blast intro: elem_mono)

lemma circs_new: "circs_typed S \<Sigma> h \<Longrightarrow> circ_typed S \<Sigma> K C \<Longrightarrow> circs_typed S (insert (Circ (brk h) K) \<Sigma>) (snd (new_cell C h))"
  unfolding circs_typed_def by (simp, blast intro: circ_mono)

lemma typed_new_obj:
  assumes "well_typed S \<Sigma> w" and "members ob \<subseteq> \<Sigma>"
  shows "well_typed S (insert (Obj (brk (objs w)) (kind_of ob)) \<Sigma>) (w\<lparr>objs := snd (new_cell ob (objs w))\<rparr>)"
proof -
  have s: "\<Sigma> \<subseteq> insert (Obj (brk (objs w)) (kind_of ob)) \<Sigma>" by blast
  note d = assms(1) [unfolded well_typed_def]
  show ?thesis
    unfolding well_typed_def
    using d allotted_new(1) [of \<Sigma> w] unique_insert(1) [OF _ not_yet(1) [OF assms(1)]] objs_new [OF _ assms(2)]
      typed_mono(2,3,4) [OF _ s] mem.ok_alloc
    by (auto simp: heaps_ok_def)
qed

lemma typed_new_buf:
  assumes "well_typed S \<Sigma> w"
  shows "well_typed S (insert (Buf (brk (blobs w))) \<Sigma>) (w\<lparr>blobs := snd (new_cell bs (blobs w))\<rparr>)"
proof -
  have s: "\<Sigma> \<subseteq> insert (Buf (brk (blobs w))) \<Sigma>" by blast
  note d = assms(1) [unfolded well_typed_def]
  show ?thesis
    unfolding well_typed_def
    using d allotted_new(2) [of \<Sigma> w] unique_insert(4) typed_mono [OF _ s] mem.ok_alloc
    by (auto simp: heaps_ok_def)
qed

lemma typed_new_circ:
  assumes "well_typed S \<Sigma> w" and "circ_typed S \<Sigma> K C"
  shows "well_typed S (insert (Circ (brk (circs w)) K) \<Sigma>) (w\<lparr>circs := snd (new_cell C (circs w))\<rparr>)"
proof -
  have s: "\<Sigma> \<subseteq> insert (Circ (brk (circs w)) K) \<Sigma>" by blast
  note d = assms(1) [unfolded well_typed_def]
  show ?thesis
    unfolding well_typed_def
    using d allotted_new(3) [of \<Sigma> w] unique_insert(2) [OF _ not_yet(2) [OF assms(1)]] circs_new [OF _ assms(2)]
      typed_mono(1,2,4) [OF _ s] mem.ok_alloc
    by (auto simp: heaps_ok_def)
qed

lemma typed_new_elem:
  assumes "well_typed S \<Sigma> w" and "elem_typed S \<Sigma> K e"
  shows "well_typed S (insert (Elem (brk (elems w)) K) \<Sigma>) (w\<lparr>elems := snd (new_cell e (elems w))\<rparr>)"
proof -
  have s: "\<Sigma> \<subseteq> insert (Elem (brk (elems w)) K) \<Sigma>" by blast
  note d = assms(1) [unfolded well_typed_def]
  show ?thesis
    unfolding well_typed_def
    using d allotted_new(4) [of \<Sigma> w] unique_insert(3) [OF _ not_yet(3) [OF assms(1)]] elems_new [OF _ assms(2)]
      typed_mono(1,3,4) [OF _ s] mem.ok_alloc
    by (auto simp: heaps_ok_def)
qed

text \<open>The variables and the memory of a program.\<close>

lemma well_typed_kern: "well_typed S \<Sigma> (w\<lparr>kern := k\<rparr>) = well_typed S \<Sigma> w"
  by (rule well_typed_frame) (simp add: frame_of_def)

lemma types_variable [type_intros]:
  assumes "members ob \<subseteq> \<Gamma> \<union> nothing"
  shows "types S \<Gamma> (variable ob) (\<lambda>p. {Obj p (kind_of ob)})"
proof (rule typesI)
  fix w \<Sigma> a w' assume w: "well_typed S \<Sigma> w" "\<Gamma> \<subseteq> \<Sigma>" and "variable ob w = Inr (a, w')"
  then have a: "a = brk (objs w)" "w' = w\<lparr>objs := snd (new_cell ob (objs w))\<rparr>"
    by (auto simp: variable_def new_cell_def)
  have "members ob \<subseteq> \<Sigma>" using assms w(2) well_typedD(3) [OF w(1)] by blast
  from typed_new_obj [OF w(1) this] a
  show "\<exists>\<Sigma>'. \<Sigma> \<subseteq> \<Sigma>' \<and> well_typed S \<Sigma>' w' \<and> {Obj a (kind_of ob)} \<subseteq> \<Sigma>'" by blast
qed (auto simp: variable_def split: prod.splits)

lemma types_array_variable [type_intros]: "types S \<Gamma> (array_variable bs) (\<lambda>p. {Buf p})"
proof (rule typesI)
  fix w \<Sigma> a w' assume w: "well_typed S \<Sigma> w" and "array_variable bs w = Inr (a, w')"
  then have a: "a = brk (blobs w)" "w' = w\<lparr>blobs := snd (new_cell bs (blobs w))\<rparr>"
    by (auto simp: array_variable_def new_cell_def)
  from typed_new_buf [OF w] a show "\<exists>\<Sigma>'. \<Sigma> \<subseteq> \<Sigma>' \<and> well_typed S \<Sigma>' w' \<and> {Buf a} \<subseteq> \<Sigma>'" by blast
qed (auto simp: array_variable_def split: prod.splits)

lemma types_malloc_object [type_intros]:
  assumes "members ob \<subseteq> \<Gamma> \<union> nothing"
  shows "types S \<Gamma> (malloc_object ob) (\<lambda>p. {Obj p (kind_of ob)})"
proof (rule typesI)
  fix w \<Sigma> a w' assume w: "well_typed S \<Sigma> w" "\<Gamma> \<subseteq> \<Sigma>" and r: "malloc_object ob w = Inr (a, w')"
  obtain ok k where m: "os_malloc (w_os w) (kern w) = (ok, k)" by fastforce
  let ?w = "w\<lparr>kern := k\<rparr>"
  have t: "well_typed S \<Sigma> ?w" using w(1) by (simp add: well_typed_kern)
  have mem: "members ob \<subseteq> \<Sigma>" using assms w(2) well_typedD(3) [OF w(1)] by blast
  show "\<exists>\<Sigma>'. \<Sigma> \<subseteq> \<Sigma>' \<and> well_typed S \<Sigma>' w' \<and> {Obj a (kind_of ob)} \<subseteq> \<Sigma>'"
  proof (cases ok)
    case True
    with r m have "a = brk (objs ?w)" "w' = ?w\<lparr>objs := snd (new_cell ob (objs ?w))\<rparr>"
      by (auto simp: malloc_object_def new_cell_def)
    with typed_new_obj [OF t mem] show ?thesis by blast
  next
    case False
    with r m have "a = NULL" "w' = ?w" by (auto simp: malloc_object_def new_cell_def)
    with t typed_nothing(2) [OF t] show ?thesis by blast
  qed
qed (auto simp: malloc_object_def Let_def split: prod.splits if_splits)

lemma types_malloc_buffer [type_intros]: "types S \<Gamma> (malloc_buffer n) (\<lambda>p. {Buf p})"
proof (rule typesI)
  fix w \<Sigma> a w' assume w: "well_typed S \<Sigma> w" and r: "malloc_buffer n w = Inr (a, w')"
  obtain ok k where m: "os_malloc (w_os w) (kern w) = (ok, k)" by fastforce
  let ?w = "w\<lparr>kern := k\<rparr>"
  have t: "well_typed S \<Sigma> ?w" using w by (simp add: well_typed_kern)
  show "\<exists>\<Sigma>'. \<Sigma> \<subseteq> \<Sigma>' \<and> well_typed S \<Sigma>' w' \<and> {Buf a} \<subseteq> \<Sigma>'"
  proof (cases ok)
    case True
    with r m have "a = brk (blobs ?w)" "w' = ?w\<lparr>blobs := snd (new_cell (replicate n 0) (blobs ?w))\<rparr>"
      by (auto simp: malloc_buffer_def new_cell_def)
    with typed_new_buf [OF t] show ?thesis by blast
  next
    case False
    with r m have "a = NULL" "w' = ?w" by (auto simp: malloc_buffer_def new_cell_def)
    with t typed_nothing(1) [OF t] show ?thesis by blast
  qed
qed (auto simp: malloc_buffer_def Let_def split: prod.splits if_splits)

text \<open>Releasing.\<close>

lemma types_free_object [type_intros]:
  assumes "\<exists>K. Obj p K \<in> \<Gamma>"
  shows "sound S \<Gamma> (free_object p)"
proof (rule typesI)
  fix w \<Sigma> f assume w: "well_typed S \<Sigma> w" "\<Gamma> \<subseteq> \<Sigma>" "free_object p w = Inl f"
  then have "get_cell HObj (objs w) p = Inl f"
    by (auto simp: free_object_def load_obj_def mdefs split: sum.splits if_splits)
  moreover obtain K where "Obj p K \<in> \<Sigma>" using assms w(2) by blast
  then have "p < brk (objs w)" using well_typedD(2) [OF w(1)] by fastforce
  ultimately show "\<not> ill f" by (rule get_cell_ill)
next
  fix w \<Sigma> a w' assume w: "well_typed S \<Sigma> w" "free_object p w = Inr (a, w')"
  then have "w' = w \<or> w' = w\<lparr>objs := del_cell p (objs w)\<rparr>"
    by (auto simp: free_object_def load_obj_def mdefs split: sum.splits if_splits)
  moreover have "objs_typed \<Sigma> (del_cell p (objs w))" using well_typedD(5) [OF w(1)] by (auto simp: objs_typed_def)
  moreover have "store_ok (del_cell p (objs w))" using well_typedD(1) [OF w(1)] by (simp add: heaps_ok_def store_ok_del)
  ultimately have "well_typed S \<Sigma> w'" using well_typed_objs [OF w(1)] w(1) by auto
  then show "\<exists>\<Sigma>'. \<Sigma> \<subseteq> \<Sigma>' \<and> well_typed S \<Sigma>' w' \<and> {} \<subseteq> \<Sigma>'" by blast
qed

lemma types_free_buffer [type_intros]:
  assumes "Buf p \<in> \<Gamma>"
  shows "sound S \<Gamma> (free_buffer p)"
proof (rule typesI)
  fix w \<Sigma> f assume w: "well_typed S \<Sigma> w" "\<Gamma> \<subseteq> \<Sigma>" "free_buffer p w = Inl f"
  then have "get_cell HBlob (blobs w) p = Inl f"
    by (auto simp: free_buffer_def load_blob_def mdefs split: sum.splits if_splits)
  moreover have "Buf p \<in> \<Sigma>" using assms w(2) by blast
  then have "p < brk (blobs w)" using well_typedD(2) [OF w(1)] by fastforce
  ultimately show "\<not> ill f" by (rule get_cell_ill)
next
  fix w \<Sigma> a w' assume w: "well_typed S \<Sigma> w" "free_buffer p w = Inr (a, w')"
  then have "w' = w \<or> w' = w\<lparr>blobs := del_cell p (blobs w)\<rparr>"
    by (auto simp: free_buffer_def load_blob_def mdefs split: sum.splits if_splits)
  moreover have "store_ok (del_cell p (blobs w))" using well_typedD(1) [OF w(1)] by (simp add: heaps_ok_def store_ok_del)
  ultimately have "well_typed S \<Sigma> w'" using well_typed_blobs [OF w(1)] w(1) by auto
  then show "\<exists>\<Sigma>'. \<Sigma> \<subseteq> \<Sigma>' \<and> well_typed S \<Sigma>' w' \<and> {} \<subseteq> \<Sigma>'" by blast
qed

text \<open>The variables of the program.\<close>

lemma types_on_usr:
  assumes "\<And>u. sg_vars S (g u) \<subseteq> sg_vars S u \<union> \<Gamma>"
  shows "sound S \<Gamma> (on_usr g)"
proof (rule typesI)
  fix w \<Sigma> a w' assume w: "well_typed S \<Sigma> w" "\<Gamma> \<subseteq> \<Sigma>" "on_usr g w = Inr (a, w')"
  then have w': "w' = w\<lparr>usr := g (usr w)\<rparr>" by (simp add: on_usr_def mdefs)
  have "allotted w' \<phi> = allotted w \<phi>" for \<phi> by (rule allotted_cong) (simp_all add: w')
  moreover have "sg_vars S (g (usr w)) \<subseteq> \<Sigma>" using assms [of "usr w"] well_typedD(9) [OF w(1)] w(2) by blast
  ultimately have "well_typed S \<Sigma> w'" using w(1) by (simp add: well_typed_def heaps_ok_def w')
  then show "\<exists>\<Sigma>'. \<Sigma> \<subseteq> \<Sigma>' \<and> well_typed S \<Sigma>' w' \<and> {} \<subseteq> \<Sigma>'" by blast
qed (simp add: on_usr_def mdefs)

lemma types_usr:
  assumes "\<And>u. \<Delta> (g u) \<subseteq> sg_vars S u"
  shows "types S \<Gamma> (mgets (\<lambda>w. g (usr w))) \<Delta>"
proof (rule typesI)
  fix w \<Sigma> a w' assume w: "well_typed S \<Sigma> w" "mgets (\<lambda>w. g (usr w)) w = Inr (a, w')"
  then have "\<Delta> a \<subseteq> \<Sigma>" "w' = w" using assms [of "usr w"] well_typedD(9) [OF w(1)] by (auto simp: mdefs)
  with w(1) show "\<exists>\<Sigma>'. \<Sigma> \<subseteq> \<Sigma>' \<and> well_typed S \<Sigma>' w' \<and> \<Delta> a \<subseteq> \<Sigma>'" by blast
qed (simp add: mdefs)

end
