(* ===== verification/Typed_Arrows.thy ===== *)
theory Typed_Arrows
  imports Typing
begin

text \<open>
  The library in the type system of \<open>Typing\<close>: building, running and freeing circuits keeps the kinds of their
  elements, a bag holds data of its circuit's kind, and every arrow does what its type says. The locale
  \<open>typed_calls\<close> is the contract of the functions that are called through pointers, \<open>typed_program\<close> what
  a program has to show for its own ones; then its whole runs are well typed (\<open>exec_typed\<close>).
\<close>

section \<open>Circuits\<close>

definition elem_heap :: "'u signature \<Rightarrow> fact set \<Rightarrow> elementE store \<Rightarrow> bool" where
  "elem_heap S \<Sigma> E \<longleftrightarrow> store_ok E \<and> unique \<Sigma> \<and> (\<forall>e K. Elem e K \<in> \<Sigma> \<longrightarrow> e < brk E) \<and> elems_typed S \<Sigma> E"

lemma elem_heap: "well_typed S \<Sigma> w \<Longrightarrow> elem_heap S \<Sigma> (elems w)"
  by (fastforce simp: elem_heap_def heaps_ok_def dest: well_typedD)

lemma live_elem:
  assumes "elem_heap S \<Sigma> E" and "cells E p = Some e" and "Elem p K \<in> \<Sigma>"
  shows "elem_typed S \<Sigma> K e"
proof -
  obtain L where L: "Elem p L \<in> \<Sigma>" "elem_typed S \<Sigma> L e" using assms(1,2) unfolding elem_heap_def elems_typed_def by blast
  moreover have "p \<noteq> NULL" using assms(1,2) live_not_NULL by (auto simp: elem_heap_def)
  ultimately have "L = K" using assms(1,3) unfolding elem_heap_def unique_def by blast
  with L(2) show ?thesis by simp
qed

lemma elem_ill: "elem_heap S \<Sigma> E \<Longrightarrow> Elem p K \<in> \<Sigma> \<Longrightarrow> get_cell HElem E p = Inl f \<Longrightarrow> \<not> ill f"
  using get_cell_ill by (fastforce simp: elem_heap_def)

lemma elem_heap_put:
  assumes "elem_heap S \<Sigma> E" and "cells E p = Some e" and "Elem p K \<in> \<Sigma>" and "Elem q K \<in> \<Sigma>"
  shows "elem_heap S \<Sigma> (put_cell p (e\<lparr>e_next := q, e_last := b\<rparr>) E)"
proof -
  have "elem_typed S \<Sigma> K (e\<lparr>e_next := q, e_last := b\<rparr>)"
    using live_elem [OF assms(1-3)] assms(4) by (simp add: elem_typed_def)
  then show ?thesis using assms store_ok_put [OF _ assms(2)] by (auto simp: elem_heap_def elems_typed_def)
qed

lemma elem_heap_next:
  assumes "elem_heap S \<Sigma> E" and "cells E p = Some e" and "Elem p K \<in> \<Sigma>" and "Elem q K \<in> \<Sigma>"
  shows "elem_heap S \<Sigma> (put_cell p (e\<lparr>e_next := q\<rparr>) E)"
  using elem_heap_put [OF assms, of "e_last e"] by simp

lemma elem_heap_del: "elem_heap S \<Sigma> E \<Longrightarrow> elem_heap S \<Sigma> (del_cell p E)"
  by (auto simp: elem_heap_def elems_typed_def store_ok_del)

text \<open>The walks.\<close>

definition walk_typed :: "'u signature \<Rightarrow> fact set \<Rightarrow> elementE store \<Rightarrow> fault + elementE store \<Rightarrow> bool" where
  "walk_typed S \<Sigma> E r \<longleftrightarrow> (case r of Inl f \<Rightarrow> \<not> ill f | Inr E' \<Rightarrow> elem_heap S \<Sigma> E' \<and> brk E' = brk E)"

lemma walk_typed_simps [simp]:
  "walk_typed S \<Sigma> E (Inl f) \<longleftrightarrow> \<not> ill f"
  "walk_typed S \<Sigma> E (Inr E') \<longleftrightarrow> elem_heap S \<Sigma> E' \<and> brk E' = brk E"
  by (simp_all add: walk_typed_def)

lemma next_typed: "elem_heap S \<Sigma> E \<Longrightarrow> cells E p = Some e \<Longrightarrow> Elem p K \<in> \<Sigma> \<Longrightarrow> Elem (e_next e) K \<in> \<Sigma>"
  using live_elem by (fastforce simp: elem_typed_def)

lemma bindA_tail_typed:
  assumes "bindA_tail E e1 e2 x = Some r" and "elem_heap S \<Sigma> E" and "Elem e1 K \<in> \<Sigma>" and "Elem x K \<in> \<Sigma>"
  shows "walk_typed S \<Sigma> E r"
proof -
  have "elem_heap S \<Sigma> E \<longrightarrow> Elem e1 K \<in> \<Sigma> \<longrightarrow> Elem x K \<in> \<Sigma> \<longrightarrow> walk_typed S \<Sigma> E r"
    by (rule bindA_tail.raw_induct [where P = "\<lambda>E e1 e2 x r. elem_heap S \<Sigma> E \<longrightarrow> Elem e1 K \<in> \<Sigma> \<longrightarrow> Elem x K \<in> \<Sigma> \<longrightarrow>
        walk_typed S \<Sigma> E r", OF _ assms(1)])
      (auto split: sum.splits if_splits dest: elem_ill intro: elem_heap_next, blast dest: next_typed)
  with assms show ?thesis by blast
qed

lemma bindA_walk_typed:
  assumes "bindA_walk E e1 e2 x = Some r" and "elem_heap S \<Sigma> E" and "Elem e1 K \<in> \<Sigma>" and "Elem e2 K \<in> \<Sigma>" and "Elem x K \<in> \<Sigma>"
  shows "walk_typed S \<Sigma> E r"
proof -
  have put: "walk_typed S \<Sigma> E y"
    if "elem_heap S \<Sigma> E" "cells E x = Some l" "Elem x K \<in> \<Sigma>" "Elem e1 K \<in> \<Sigma>" "Elem e2 K \<in> \<Sigma>"
      "bindA_tail (put_cell x (l\<lparr>e_next := e2, e_last := False\<rparr>) E) e1 e2 e2 = Some y" for E e1 e2 x l y
    using bindA_tail_typed [OF that(6) elem_heap_put [OF that(1,2,3,5)] that(4,5)]
    by (cases y) simp_all
  have "elem_heap S \<Sigma> E \<longrightarrow> Elem e1 K \<in> \<Sigma> \<longrightarrow> Elem e2 K \<in> \<Sigma> \<longrightarrow> Elem x K \<in> \<Sigma> \<longrightarrow> walk_typed S \<Sigma> E r"
    by (rule bindA_walk.raw_induct [where P = "\<lambda>E e1 e2 x r. elem_heap S \<Sigma> E \<longrightarrow> Elem e1 K \<in> \<Sigma> \<longrightarrow> Elem e2 K \<in> \<Sigma> \<longrightarrow>
        Elem x K \<in> \<Sigma> \<longrightarrow> walk_typed S \<Sigma> E r", OF _ assms(1)])
      (auto split: sum.splits if_splits dest: elem_ill put intro: elem_heap_put, blast dest: next_typed)
  with assms show ?thesis by blast
qed

lemma bindA_typed:
  "bindA E e1 e2 = Some r \<Longrightarrow> elem_heap S \<Sigma> E \<Longrightarrow> Elem e1 K \<in> \<Sigma> \<Longrightarrow> Elem e2 K \<in> \<Sigma> \<Longrightarrow> walk_typed S \<Sigma> E r"
  unfolding bindA_def by (rule bindA_walk_typed)

lemma loopA_walk_typed:
  assumes "loopA_walk E e x = Some r" and "elem_heap S \<Sigma> E" and "Elem e K \<in> \<Sigma>" and "Elem x K \<in> \<Sigma>"
  shows "walk_typed S \<Sigma> E (map_sum id snd r)"
proof -
  have "elem_heap S \<Sigma> E \<longrightarrow> Elem e K \<in> \<Sigma> \<longrightarrow> Elem x K \<in> \<Sigma> \<longrightarrow> walk_typed S \<Sigma> E (map_sum id snd r)"
    by (rule loopA_walk.raw_induct [where P = "\<lambda>E e x r. elem_heap S \<Sigma> E \<longrightarrow> Elem e K \<in> \<Sigma> \<longrightarrow> Elem x K \<in> \<Sigma> \<longrightarrow>
        walk_typed S \<Sigma> E (map_sum id snd r)", OF _ assms(1)])
      (auto split: sum.splits if_splits dest: elem_ill intro: elem_heap_put, blast dest: next_typed)
  with assms show ?thesis by blast
qed

lemma freeE_typed:
  assumes "freeE E e = Some r" and "elem_heap S \<Sigma> E" and "Elem e K \<in> \<Sigma>"
  shows "walk_typed S \<Sigma> E r"
proof -
  have "elem_heap S \<Sigma> E \<longrightarrow> Elem e K \<in> \<Sigma> \<longrightarrow> walk_typed S \<Sigma> E r"
  proof (rule freeE.raw_induct [where P = "\<lambda>E e r. elem_heap S \<Sigma> E \<longrightarrow> Elem e K \<in> \<Sigma> \<longrightarrow> walk_typed S \<Sigma> E r", OF _ assms(1)], intro impI)
    fix free E e r
    assume ih: "\<And>E e r. free E e = Some r \<Longrightarrow> elem_heap S \<Sigma> E \<longrightarrow> Elem e K \<in> \<Sigma> \<longrightarrow> walk_typed S \<Sigma> E r"
      and r: "(if e = NULL then Some (Inr E) else case get_cell HElem E e of Inl f \<Rightarrow> Some (Inl f)
        | Inr l \<Rightarrow> if e_last l then Some (Inr (del_cell e E)) else free (del_cell e E) (e_next l)) = Some r"
      and E: "elem_heap S \<Sigma> E" "Elem e K \<in> \<Sigma>"
    have "walk_typed S \<Sigma> (del_cell e E) y \<Longrightarrow> walk_typed S \<Sigma> E y" for y by (cases y) simp_all
    with ih [of "del_cell e E"] r E elem_heap_del [OF E(1)] show "walk_typed S \<Sigma> E r"
      by (auto split: sum.splits if_splits dest: elem_ill next_typed)
  qed
  with assms show ?thesis by blast
qed

section \<open>The operations of \<open>arrow.c\<close>\<close>

text \<open>Reading a circuit or an element: what is known of it when the function goes on.\<close>

lemma live_circuit:
  assumes "well_typed S \<Sigma> w" and "cells (circs w) c = Some C" and "Circ c K \<in> \<Sigma>"
  shows "circ_typed S \<Sigma> K C"
proof -
  obtain L where L: "Circ c L \<in> \<Sigma>" "circ_typed S \<Sigma> L C"
    using well_typedD(7) [OF assms(1)] assms(2) unfolding circs_typed_def by blast
  moreover have "c \<noteq> NULL" using well_typedD(1) [OF assms(1)] assms(2) live_not_NULL by (auto simp: heaps_ok_def)
  ultimately have "L = K" using well_typedD(4) [OF assms(1)] assms(3) unfolding unique_def by blast
  with L(2) show ?thesis by simp
qed

lemma circ_ill: "well_typed S \<Sigma> w \<Longrightarrow> Circ c K \<in> \<Sigma> \<Longrightarrow> get_cell HCirc (circs w) c = Inl f \<Longrightarrow> \<not> ill f"
  using get_cell_ill well_typedD(2) by fastforce

lemma types_read:
  assumes fault: "\<And>w \<Sigma> f. well_typed S \<Sigma> w \<Longrightarrow> \<Gamma> \<subseteq> \<Sigma> \<Longrightarrow> g w = Inl f \<Longrightarrow> \<not> ill f"
    and goes: "\<And>w \<Sigma> a. well_typed S \<Sigma> w \<Longrightarrow> \<Gamma> \<subseteq> \<Sigma> \<Longrightarrow> g w = Inr a \<Longrightarrow> \<exists>\<Delta> \<subseteq> \<Sigma>. types S (\<Gamma> \<union> \<Delta>) (k a) \<Theta>"
  shows "types S \<Gamma> (mbind (mlift g) k) \<Theta>"
proof (rule typesI)
  fix w \<Sigma> f assume w: "well_typed S \<Sigma> w" "\<Gamma> \<subseteq> \<Sigma>" and f: "mbind (mlift g) k w = Inl f"
  show "\<not> ill f"
  proof (cases "g w")
    case (Inl x)
    with f fault [OF w] show ?thesis by (simp add: mdefs)
  next
    case (Inr a)
    then obtain \<Delta> where "\<Delta> \<subseteq> \<Sigma>" and k: "types S (\<Gamma> \<union> \<Delta>) (k a) \<Theta>" using goes [OF w] by blast
    then have "\<Gamma> \<union> \<Delta> \<subseteq> \<Sigma>" using w(2) by blast
    moreover have "k a w = Inl f" using f Inr by (simp add: mdefs)
    ultimately show ?thesis by (rule typesD_Inl [OF k w(1)])
  qed
next
  fix w \<Sigma> b w' assume w: "well_typed S \<Sigma> w" "\<Gamma> \<subseteq> \<Sigma>" and r: "mbind (mlift g) k w = Inr (b, w')"
  then obtain a where a: "g w = Inr a" "k a w = Inr (b, w')" by (auto simp: mdefs split: sum.splits)
  obtain \<Delta> where "\<Delta> \<subseteq> \<Sigma>" and k: "types S (\<Gamma> \<union> \<Delta>) (k a) \<Theta>" using goes [OF w a(1)] by blast
  then have g: "\<Gamma> \<union> \<Delta> \<subseteq> \<Sigma>" using w(2) by blast
  obtain \<Sigma>' where "\<Sigma> \<subseteq> \<Sigma>'" "well_typed S \<Sigma>' w'" "\<Theta> b \<subseteq> \<Sigma>'" by (rule typesD_Inr [OF k w(1) g a(2)])
  then show "\<exists>\<Sigma>'. \<Sigma> \<subseteq> \<Sigma>' \<and> well_typed S \<Sigma>' w' \<and> \<Theta> b \<subseteq> \<Sigma>'" by blast
qed

lemma types_load_circ:
  assumes "Circ c K \<in> \<Gamma>"
    and "\<And>C. c \<noteq> NULL \<Longrightarrow> (\<And>n. c_err C = Some n \<Longrightarrow> sg_err S n K) \<Longrightarrow> types S (\<Gamma> \<union> {Elem (c_nets C) K, Elem (c_current C) K}) (k C) \<Theta>"
  shows "types S \<Gamma> (mbind (load_circ c) k) \<Theta>"
  unfolding load_circ_def
proof (rule types_read)
  fix w \<Sigma> f assume "well_typed S \<Sigma> w" "\<Gamma> \<subseteq> \<Sigma>" "get_cell HCirc (circs w) c = Inl f"
  with assms(1) show "\<not> ill f" by (meson circ_ill subsetD)
next
  fix w \<Sigma> C assume w: "well_typed S \<Sigma> w" "\<Gamma> \<subseteq> \<Sigma>" "get_cell HCirc (circs w) c = Inr C"
  then have "circ_typed S \<Sigma> K C" using live_circuit [OF w(1)] assms(1) by auto
  then have "{Elem (c_nets C) K, Elem (c_current C) K} \<subseteq> \<Sigma>" "\<And>n. c_err C = Some n \<Longrightarrow> sg_err S n K"
    by (auto simp: circ_typed_def)
  moreover have "c \<noteq> NULL"
    using w(3) live_not_NULL well_typedD(1) [OF w(1)] by (auto simp: heaps_ok_def)
  ultimately show "\<exists>\<Delta> \<subseteq> \<Sigma>. types S (\<Gamma> \<union> \<Delta>) (k C) \<Theta>" using assms(2) [of C] by blast
qed

lemma types_load_elem:
  assumes "Elem e K \<in> \<Gamma>"
    and "\<And>x P. takes S (e_run x) K P \<Longrightarrow> types S (\<Gamma> \<union> insert (Elem (e_next x) K) (priv_facts P (e_priv x))) (k x) \<Theta>"
  shows "types S \<Gamma> (mbind (load_elem e) k) \<Theta>"
  unfolding load_elem_def
proof (rule types_read)
  fix w \<Sigma> f assume w: "well_typed S \<Sigma> w" "\<Gamma> \<subseteq> \<Sigma>" "get_cell HElem (elems w) e = Inl f"
  with assms(1) elem_ill [OF elem_heap [OF w(1)]] show "\<not> ill f" by blast
next
  fix w \<Sigma> x assume w: "well_typed S \<Sigma> w" "\<Gamma> \<subseteq> \<Sigma>" "get_cell HElem (elems w) e = Inr x"
  then have "elem_typed S \<Sigma> K x" using live_elem [OF elem_heap [OF w(1)]] assms(1) by auto
  then obtain P where "takes S (e_run x) K P" "insert (Elem (e_next x) K) (priv_facts P (e_priv x)) \<subseteq> \<Sigma>"
    by (auto simp: elem_typed_def)
  then show "\<exists>\<Delta> \<subseteq> \<Sigma>. types S (\<Gamma> \<union> \<Delta>) (k x) \<Theta>" using assms(2) [of x P] by blast
qed

lemma well_typed_circs:
  assumes "well_typed S \<Sigma> w" and "circs_typed S \<Sigma> h" and "store_ok h" and "brk h = brk (circs w)"
  shows "well_typed S \<Sigma> (w\<lparr>circs := h\<rparr>)"
proof -
  have "allotted (w\<lparr>circs := h\<rparr>) \<phi> = allotted w \<phi>" for \<phi> by (rule allotted_cong) (simp_all add: assms(4))
  with assms show ?thesis by (simp add: well_typed_def heaps_ok_def)
qed

lemma circs_put: "circs_typed S \<Sigma> h \<Longrightarrow> Circ c K \<in> \<Sigma> \<Longrightarrow> circ_typed S \<Sigma> K C \<Longrightarrow> circs_typed S \<Sigma> (put_cell c C h)"
  by (auto simp: circs_typed_def)

lemma types_set_current:
  assumes "Circ c K \<in> \<Gamma>" and "Elem p K \<in> \<Gamma>"
  shows "sound S \<Gamma> (set_current c p)"
proof (rule typesI)
  fix w \<Sigma> f assume w: "well_typed S \<Sigma> w" "\<Gamma> \<subseteq> \<Sigma>" "set_current c p w = Inl f"
  then have "get_cell HCirc (circs w) c = Inl f" by (auto simp: set_current_def load_circ_def mdefs split: sum.splits)
  with w(1,2) assms(1) show "\<not> ill f" by (meson circ_ill subsetD)
next
  fix w \<Sigma> a w' assume w: "well_typed S \<Sigma> w" "\<Gamma> \<subseteq> \<Sigma>" "set_current c p w = Inr (a, w')"
  then obtain C where C: "cells (circs w) c = Some C" "w' = w\<lparr>circs := put_cell c (C\<lparr>c_current := p\<rparr>) (circs w)\<rparr>"
    by (auto simp: set_current_def load_circ_def mdefs split: sum.splits)
  have k: "Circ c K \<in> \<Sigma>" "Elem p K \<in> \<Sigma>" using assms w(2) by blast+
  have "circ_typed S \<Sigma> K (C\<lparr>c_current := p\<rparr>)" using live_circuit [OF w(1) C(1) k(1)] k(2) by (simp add: circ_typed_def)
  then have "circs_typed S \<Sigma> (put_cell c (C\<lparr>c_current := p\<rparr>) (circs w))" by (rule circs_put [OF well_typedD(7) [OF w(1)] k(1)])
  then have "well_typed S \<Sigma> w'"
    using well_typed_circs [OF w(1)] C well_typedD(1) [OF w(1)] by (simp add: heaps_ok_def store_ok_put)
  then show "\<exists>\<Sigma>'. \<Sigma> \<subseteq> \<Sigma>' \<and> well_typed S \<Sigma>' w' \<and> {} \<subseteq> \<Sigma>'" by blast
qed

text \<open>The null pointer is an element of every kind.\<close>

lemma types_nothing:
  assumes "types S (\<Gamma> \<union> nothing) c \<Theta>"
  shows "types S \<Gamma> c \<Theta>"
proof (rule typesI)
  fix w \<Sigma> f assume w: "well_typed S \<Sigma> w" "\<Gamma> \<subseteq> \<Sigma>" "c w = Inl f"
  then have "\<Gamma> \<union> nothing \<subseteq> \<Sigma>" using well_typedD(3) by blast
  then show "\<not> ill f" by (rule typesD_Inl [OF assms w(1) _ w(3)])
next
  fix w \<Sigma> a w' assume w: "well_typed S \<Sigma> w" "\<Gamma> \<subseteq> \<Sigma>" "c w = Inr (a, w')"
  then have g: "\<Gamma> \<union> nothing \<subseteq> \<Sigma>" using well_typedD(3) by blast
  obtain \<Sigma>' where "\<Sigma> \<subseteq> \<Sigma>'" "well_typed S \<Sigma>' w'" "\<Theta> a \<subseteq> \<Sigma>'" by (rule typesD_Inr [OF assms w(1) g w(3)])
  then show "\<exists>\<Sigma>'. \<Sigma> \<subseteq> \<Sigma>' \<and> well_typed S \<Sigma>' w' \<and> \<Theta> a \<subseteq> \<Sigma>'" by blast
qed

lemma types_set_current_NULL: "Circ c K \<in> \<Gamma> \<Longrightarrow> sound S \<Gamma> (set_current c NULL)"
  by (rule types_nothing, rule types_set_current) (auto simp: nothing_def)

text \<open>Building.\<close>

lemma types_newC:
  assumes "\<And>n. err = Some n \<Longrightarrow> sg_err S n K"
  shows "types S \<Gamma> (newC err) (\<lambda>c. {Circ c K})"
proof -
  let ?C = "\<lparr>c_err = err, c_current = NULL, c_nets = NULL, c_ptr = None\<rparr>"
  have "types S \<Gamma> (\<lambda>w. let (c, cs) = new_cell ?C (circs w) in Inr (c, w\<lparr>circs := cs\<rparr>)) (\<lambda>c. {Circ c K})"
  proof (rule typesI)
    fix w \<Sigma> a w' assume w: "well_typed S \<Sigma> w"
      and "(let (c, cs) = new_cell ?C (circs w) in Inr (c, w\<lparr>circs := cs\<rparr>)) = Inr (a, w')"
    then have a: "a = brk (circs w)" "w' = w\<lparr>circs := snd (new_cell ?C (circs w))\<rparr>" by (auto simp: new_cell_def)
    have "circ_typed S \<Sigma> K ?C" using assms typed_nothing(4) [OF w] by (simp add: circ_typed_def)
    from typed_new_circ [OF w this] a show "\<exists>\<Sigma>'. \<Sigma> \<subseteq> \<Sigma>' \<and> well_typed S \<Sigma>' w' \<and> {Circ a K} \<subseteq> \<Sigma>'" by blast
  qed (simp split: prod.splits)
  then show ?thesis unfolding newC_def by (rule types_mthen [OF types_malloc])
qed

lemma types_on_elems:
  assumes "\<And>E \<Sigma> r. \<Gamma> \<subseteq> \<Sigma> \<Longrightarrow> elem_heap S \<Sigma> E \<Longrightarrow> g E = Some r \<Longrightarrow> walk_typed S \<Sigma> E (map_sum id snd r)"
  shows "sound S \<Gamma> (on_elems g)"
proof (rule typesI)
  fix w \<Sigma> f assume w: "well_typed S \<Sigma> w" "\<Gamma> \<subseteq> \<Sigma>" "on_elems g w = Inl f"
  show "\<not> ill f"
  proof (cases "g (elems w)")
    case None
    with w(3) show ?thesis by (simp add: on_elems_def)
  next
    case (Some r)
    with w(3) have "r = Inl f" by (auto simp: on_elems_def split: sum.splits)
    with assms [OF w(2) elem_heap [OF w(1)] Some] show ?thesis by simp
  qed
next
  fix w \<Sigma> a w' assume w: "well_typed S \<Sigma> w" "\<Gamma> \<subseteq> \<Sigma>" "on_elems g w = Inr (a, w')"
  then obtain E where E: "g (elems w) = Some (Inr (a, E))" "w' = w\<lparr>elems := E\<rparr>"
    by (auto simp: on_elems_def split: option.splits sum.splits)
  from assms [OF w(2) elem_heap [OF w(1)] E(1)] have e: "elem_heap S \<Sigma> E" "brk E = brk (elems w)" by simp_all
  have "allotted w' \<phi> = allotted w \<phi>" for \<phi> by (rule allotted_cong) (simp_all add: E(2) e(2))
  with w(1) e E(2) have "well_typed S \<Sigma> w'" by (simp add: well_typed_def heaps_ok_def elem_heap_def)
  then show "\<exists>\<Sigma>'. \<Sigma> \<subseteq> \<Sigma>' \<and> well_typed S \<Sigma>' w' \<and> {} \<subseteq> \<Sigma>'" by blast
qed

lemma map_unit_res: "unit_res r = Some x \<Longrightarrow> \<exists>y. r = Some y \<and> map_sum id snd x = y"
proof -
  have "map_sum id snd (map_sum id (Pair ()) y) = y" for y :: "fault + elementE store" by (cases y) simp_all
  then show "unit_res r = Some x \<Longrightarrow> \<exists>y. r = Some y \<and> map_sum id snd x = y" by (auto simp: unit_res_def)
qed

lemma types_bindA: "Elem e1 K \<in> \<Gamma> \<Longrightarrow> Elem e2 K \<in> \<Gamma> \<Longrightarrow> sound S \<Gamma> (on_elems (\<lambda>E. unit_res (bindA E e1 e2)))"
  by (rule types_on_elems) (blast dest: map_unit_res intro: bindA_typed)

lemma types_freeE: "Elem e K \<in> \<Gamma> \<Longrightarrow> sound S \<Gamma> (on_elems (\<lambda>E. unit_res (freeE E e)))"
  by (rule types_on_elems) (blast dest: map_unit_res intro: freeE_typed)

lemma types_loopA: "Elem e K \<in> \<Gamma> \<Longrightarrow> sound S \<Gamma> (loopA_m e)"
  unfolding loopA_m_def loopA_def by (rule types_on_elems) (blast intro: loopA_walk_typed)

lemma types_put_circ:
  assumes "Circ c K \<in> \<Gamma>" and "c \<noteq> NULL" and "Elem (c_nets C) K \<in> \<Gamma>" and "Elem (c_current C) K \<in> \<Gamma>"
    and "\<And>n. c_err C = Some n \<Longrightarrow> sg_err S n K"
  shows "sound S \<Gamma> (mmod (\<lambda>w. w\<lparr>circs := put_cell c C (circs w)\<rparr>))"
proof (rule typesI)
  fix w \<Sigma> a w' assume w: "well_typed S \<Sigma> w" "\<Gamma> \<subseteq> \<Sigma>" "mmod (\<lambda>w. w\<lparr>circs := put_cell c C (circs w)\<rparr>) w = Inr (a, w')"
  then have w': "w' = w\<lparr>circs := put_cell c C (circs w)\<rparr>" by (simp add: mdefs)
  have k: "Circ c K \<in> \<Sigma>" "circ_typed S \<Sigma> K C" using assms w(2) by (auto simp: circ_typed_def)
  have "circs_typed S \<Sigma> (put_cell c C (circs w))" by (rule circs_put [OF well_typedD(7) [OF w(1)] k])
  moreover have "store_ok (put_cell c C (circs w))"
    using well_typedD(1) [OF w(1)] well_typedD(2) [OF w(1) k(1)] assms(2) by (simp add: heaps_ok_def store_ok_def)
  ultimately have "well_typed S \<Sigma> w'" using well_typed_circs [OF w(1)] w' by simp
  then show "\<exists>\<Sigma>'. \<Sigma> \<subseteq> \<Sigma>' \<and> well_typed S \<Sigma>' w' \<and> {} \<subseteq> \<Sigma>'" by blast
qed (simp add: mdefs)

lemma types_new_elem:
  assumes "takes S t K P" and "priv_facts P p \<subseteq> \<Gamma>" and e: "e_run e = t" "e_priv e = p" "e_next e = NULL"
  shows "types S \<Gamma> (\<lambda>w. let (e2, E) = new_cell e (elems w) in Inr (e2, w\<lparr>elems := E\<rparr>)) (\<lambda>e. {Elem e K})"
proof (rule typesI)
  fix w \<Sigma> a w' assume w: "well_typed S \<Sigma> w" "\<Gamma> \<subseteq> \<Sigma>"
    and "(let (e2, E) = new_cell e (elems w) in Inr (e2, w\<lparr>elems := E\<rparr>)) = Inr (a, w')"
  then have a: "a = brk (elems w)" "w' = w\<lparr>elems := snd (new_cell e (elems w))\<rparr>" by (auto simp: new_cell_def)
  have "elem_typed S \<Sigma> K e" using assms(1,2) e w(2) typed_nothing(4) [OF w(1)] by (auto simp: elem_typed_def)
  from typed_new_elem [OF w(1) this] a show "\<exists>\<Sigma>'. \<Sigma> \<subseteq> \<Sigma>' \<and> well_typed S \<Sigma>' w' \<and> {Elem a K} \<subseteq> \<Sigma>'" by blast
qed (simp split: prod.splits)

lemma types_appendA:
  assumes "Circ c K \<in> \<Gamma>" and "takes S t K P" and "priv_facts P p \<subseteq> \<Gamma>"
  shows "types S \<Gamma> (appendA c t p) (\<lambda>e. {Elem e K})"
  unfolding appendA_def
proof (intro types_mthen types_malloc types_mbind [OF types_new_elem [OF assms(2,3)]], simp_all, rule types_load_circ)
  fix e and C :: circuitS
  let ?\<Gamma> = "insert (Elem e K) \<Gamma> \<union> {Elem (c_nets C) K, Elem (c_current C) K}"
  assume "c \<noteq> NULL" "\<And>n. c_err C = Some n \<Longrightarrow> sg_err S n K"
  then have "sound S ?\<Gamma> (mmod (\<lambda>w. w\<lparr>circs := put_cell c (C\<lparr>c_nets := e\<rparr>) (circs w)\<rparr>))"
    using assms(1) by (intro types_put_circ [where K = K]) simp_all
  moreover have "sound S ?\<Gamma> (on_elems (\<lambda>E. unit_res (bindA E (c_nets C) e)))"
    by (rule types_bindA [where K = K]) simp_all
  ultimately show "types S ?\<Gamma> (mthen (if c_nets C = NULL then mmod (\<lambda>w. w\<lparr>circs := put_cell c (C\<lparr>c_nets := e\<rparr>) (circs w)\<rparr>)
      else on_elems (\<lambda>E. unit_res (bindA E (c_nets C) e))) (mret e)) (\<lambda>e. {Elem e K})"
    by (intro types_mthen types_if types_mret_fact) simp_all
qed (use assms in simp_all)

text \<open>A list of calls of \<open>appendA\<close> and \<open>loopA\<close>.\<close>

fun cmd_typed :: "'u signature \<Rightarrow> fact set \<Rightarrow> kind \<Rightarrow> build_cmd \<Rightarrow> bool" where
  "cmd_typed S \<Gamma> K (Append t p) \<longleftrightarrow> (\<exists>P. takes S t K P \<and> priv_facts P p \<subseteq> \<Gamma>)"
| "cmd_typed S \<Gamma> K (LoopAt i) \<longleftrightarrow> True"

lemma cmd_typedI:
  "takes S t K (Struct I) \<Longrightarrow> Obj p I \<in> \<Gamma> \<Longrightarrow> cmd_typed S \<Gamma> K (Append t p)"
  "takes S t K Text \<Longrightarrow> Buf p \<in> \<Gamma> \<Longrightarrow> cmd_typed S \<Gamma> K (Append t p)"
  "takes S t K Unused \<Longrightarrow> cmd_typed S \<Gamma> K (Append t p)"
  by (auto intro: exI [of _ "Struct I"] exI [of _ Text] exI [of _ Unused])

lemma cmd_mono: "cmd_typed S \<Gamma> K cmd \<Longrightarrow> \<Gamma> \<subseteq> \<Gamma>' \<Longrightarrow> cmd_typed S \<Gamma>' K cmd"
  by (cases cmd) fastforce+

lemma types_build:
  fixes S :: "'u signature"
  assumes "Circ c K \<in> \<Gamma>" and "\<forall>e \<in> set es. Elem e K \<in> \<Gamma>" and "build_ok (length es) cmds" and "\<forall>cmd \<in> set cmds. cmd_typed S \<Gamma> K cmd"
  shows "sound S \<Gamma> (build c es cmds :: ('k, 'u, ptr list) wm)"
  using assms
proof (induction c es cmds arbitrary: \<Gamma> rule: build.induct)
  case (1 c es)
  show ?case by (simp add: types_mret)
next
  case (2 c es t p cmds)
  then obtain P where P: "takes S t K P" "priv_facts P p \<subseteq> \<Gamma>" by auto
  show ?case
    unfolding build.simps
  proof (rule types_mbind [OF types_appendA [OF 2(2) P]])
    fix e
    have "\<forall>cmd \<in> set cmds. cmd_typed S (\<Gamma> \<union> {Elem e K}) K cmd"
      using 2(5) by (auto intro: cmd_mono)
    then show "sound S (\<Gamma> \<union> {Elem e K}) (build c (es @ [e]) cmds :: ('k, 'u, ptr list) wm)"
      using 2(2,3,4) by (intro 2(1)) simp_all
  qed
next
  case (3 c es i cmds)
  then have "Elem (es ! i) K \<in> \<Gamma>" by simp
  then show ?case
    unfolding build.simps by (rule types_mbind [OF types_loopA]) (use 3 in simp)
qed

section \<open>Bags\<close>

lemma well_typed_bags:
  assumes "well_typed S \<Sigma> w" and "bags_typed \<Sigma> h"
  shows "well_typed S \<Sigma> (w\<lparr>bagh := h\<rparr>)"
proof -
  have "allotted (w\<lparr>bagh := h\<rparr>) \<phi> = allotted w \<phi>" for \<phi> by (rule allotted_cong) simp_all
  with assms show ?thesis by (simp add: well_typed_def heaps_ok_def)
qed

lemma bag_fine: "get_cell HBag h p = Inl f \<Longrightarrow> \<not> ill f"
  by (auto simp: get_cell_def bad_access_def split: option.splits if_splits)

lemma types_load_bag [type_intros]: "sound S \<Gamma> (load_bag p)"
  by (rule types_quiet) (auto simp: load_bag_def mdefs bag_fine split: sum.splits)

lemma types_free_bag [type_intros]: "sound S \<Gamma> (free_bag p)"
proof (rule typesI)
  fix w \<Sigma> f assume "free_bag p w = Inl f"
  then show "\<not> ill f" by (auto simp: free_bag_def load_bag_def mdefs bag_fine split: sum.splits if_splits)
next
  fix w \<Sigma> a w' assume w: "well_typed S \<Sigma> w" "free_bag p w = Inr (a, w')"
  then have "w' = w \<or> w' = w\<lparr>bagh := del_cell p (bagh w)\<rparr>"
    by (auto simp: free_bag_def load_bag_def mdefs split: sum.splits if_splits)
  moreover have "bags_typed \<Sigma> (del_cell p (bagh w))" using well_typedD(8) [OF w(1)] by (auto simp: bags_typed_def)
  ultimately have "well_typed S \<Sigma> w'" using well_typed_bags [OF w(1)] w(1) by auto
  then show "\<exists>\<Sigma>'. \<Sigma> \<subseteq> \<Sigma>' \<and> well_typed S \<Sigma>' w' \<and> {} \<subseteq> \<Sigma>'" by blast
qed

lemma types_bag_free [type_intros]: "sound S \<Gamma> (meloop_bag_free p)"
  unfolding meloop_bag_free_def by (rule type_intros)+

lemma types_freeall [type_intros]: "sound S \<Gamma> meloop_bags_freeall"
proof -
  have "sound S \<Gamma> (freeall_from i n)" for i n
    by (induction n arbitrary: i) (simp_all only: freeall_from.simps, (rule type_intros | assumption)+)
  then show ?thesis by (simp add: meloop_bags_freeall_def)
qed

lemma types_bag_new [type_intros]:
  assumes "\<exists>K. Circ c K \<in> \<Gamma> \<and> Obj d K \<in> \<Gamma>"
  shows "sound S \<Gamma> (meloop_bag_new fd c s d)"
proof -
  let ?b = "\<lparr>b_fd = fd, b_circuit = c, b_state = s, b_data = d\<rparr>"
  have "sound S \<Gamma> (\<lambda>w. let (bag, B) = new_cell ?b (bagh w) in Inr (bag, w\<lparr>bagh := B\<rparr>))"
  proof (rule typesI)
    fix w \<Sigma> a w' assume w: "well_typed S \<Sigma> w" "\<Gamma> \<subseteq> \<Sigma>"
      and "(let (bag, B) = new_cell ?b (bagh w) in Inr (bag, w\<lparr>bagh := B\<rparr>)) = Inr (a, w')"
    then have a: "w' = w\<lparr>bagh := snd (new_cell ?b (bagh w))\<rparr>" by (auto simp: new_cell_def)
    have "bags_typed \<Sigma> (snd (new_cell ?b (bagh w)))"
      using well_typedD(8) [OF w(1)] assms w(2) unfolding bags_typed_def by (auto; blast)
    from well_typed_bags [OF w(1) this] a show "\<exists>\<Sigma>'. \<Sigma> \<subseteq> \<Sigma>' \<and> well_typed S \<Sigma>' w' \<and> {} \<subseteq> \<Sigma>'" by blast
  qed (simp split: prod.splits)
  then show ?thesis unfolding meloop_bag_new_def by (rule types_mthen [OF types_malloc types_mbind]) (rule type_intros)+
qed

lemma types_ev [type_intros]:
  "sound S \<Gamma> (meloop_ev_arm op b)" "sound S \<Gamma> (meloop_ev_dearm fd)" "sound S \<Gamma> meloop_ev_wait"
  "sound S \<Gamma> meloop_ev_deinit" "sound S \<Gamma> (meloop_ev_init fl)"
  unfolding meloop_ev_arm_def meloop_ev_dearm_def meloop_ev_wait_def meloop_ev_deinit_def meloop_ev_init_def
  by (rule type_intros | simp; fail)+

lemma types_io_deinit [type_intros]: "sound S \<Gamma> meloop_io_deinit"
  unfolding meloop_io_deinit_def by (rule type_intros)+

section \<open>Helpers of the arrows\<close>

lemma types_log [type_intros]:
  "sound S \<Gamma> (dprintf fd t)" "sound S \<Gamma> (log_print t)" "sound S \<Gamma> (log_reason level)"
  "sound S \<Gamma> (logging_log level fn ln fu msg)"
  unfolding dprintf_def log_print_def log_reason_def logging_log_def by (rule type_intros)+

lemma types_dump [type_intros]: "sound S \<Gamma> (meloop_sockaddr_dump sa)"
  unfolding meloop_sockaddr_dump_def by (rule type_intros types_mmod | simp add: frame_of_def; fail)+

text \<open>Writing a member that is no pointer keeps kind and members of the object.\<close>

lemma kind_members_kept:
  "kind_of (with_fd fd ob) = kind_of ob" "members (with_fd fd ob) = members ob"
  "kind_of (with_status st ob) = kind_of ob" "members (with_status st ob) = members ob"
  "kind_of (on_timer g ob) = kind_of ob" "members (on_timer g ob) = members ob"
  "kind_of (on_bind sa ob) = kind_of ob" "members (on_bind sa ob) = members ob"
  "kind_of (on_tls h ob) = kind_of ob" "members (on_tls h ob) = members ob"
  by (cases ob; simp)+

lemma types_store_fd [type_intros]: "\<exists>K \<in> files. Obj f K \<in> \<Gamma> \<Longrightarrow> sound S \<Gamma> (store_fd fd f)"
  unfolding store_fd_def by (rule types_mbind [OF types_load_file types_change_obj]) (auto simp: kind_members_kept)

lemma types_set_conn [type_intros]:
  assumes "Obj p K_tcpconn \<in> \<Gamma>" and "\<And>c. f_data (g c) = f_data c \<or> Obj (f_data (g c)) K_string \<in> \<Gamma>"
  shows "sound S \<Gamma> (set_conn g p)"
  unfolding set_conn_def
proof (rule types_mbind [OF types_load_tcpconn [OF assms(1)] types_change_obj])
  fix c ob
  show "kind_of (on_conn g ob) = kind_of ob" by (cases ob; simp)
  show "members (on_conn g ob) \<subseteq> members ob \<union> (\<Gamma> \<union> {Obj (f_data c) K_string})"
  proof (cases ob)
    case (O_tcpconn x)
    then show ?thesis using assms(2) [of x] by auto
  qed simp_all
qed (use assms in auto)

lemma types_set_status [type_intros]: "\<exists>K \<in> clients. Obj p K \<in> \<Gamma> \<Longrightarrow> sound S \<Gamma> (set_status st p)"
  unfolding set_status_def
  by (rule types_mbind [OF types_load_tcpclientP types_change_obj]) (auto simp: kind_members_kept)

lemma types_set_tls [type_intros]: "Obj p K_tlsclientP \<in> \<Gamma> \<Longrightarrow> sound S \<Gamma> (set_tls g p)"
  unfolding set_tls_def by (rule types_mbind [OF types_loads(4) types_change_obj]) (auto simp: kind_members_kept)

lemma types_set_tun [type_intros]:
  assumes "Obj p K_tun \<in> \<Gamma>" and "\<And>t. f_data (g t) = f_data t"
  shows "sound S \<Gamma> (set_tun g p)"
  unfolding set_tun_def
proof (rule types_mbind [OF types_loads(2) [OF assms(1)] types_change_obj])
  fix ob
  show "kind_of (on_tun g ob) = kind_of ob" by (cases ob; simp)
  show "members (on_tun g ob) \<subseteq> members ob \<union> (\<Gamma> \<union> {})" by (cases ob) (simp_all add: assms(2))
qed (use assms in auto)

lemma types_on_timer [type_intros]: "Obj p K_timer \<in> \<Gamma> \<Longrightarrow> sound S \<Gamma> (change_obj (on_timer g) p)"
  by (rule types_change_obj) (auto simp: kind_members_kept)

lemma types_on_bind [type_intros]: "Obj p K_tcpserverP \<in> \<Gamma> \<Longrightarrow> sound S \<Gamma> (change_obj (on_bind sa) p)"
  by (rule types_change_obj) (auto simp: kind_members_kept)

lemma types_with_fd [type_intros]: "\<exists>K \<in> files. Obj p K \<in> \<Gamma> \<Longrightarrow> sound S \<Gamma> (change_obj (with_fd fd) p)"
  by (rule types_change_obj) (auto simp: kind_members_kept)

lemma types_tun_log [type_intros]: "sound S \<Gamma> (tun_log l n fu m)"
  unfolding tun_log_def by (rule type_intros)+

lemma types_configure [type_intros]: "Obj t K_tun \<in> \<Gamma> \<Longrightarrow> sound S \<Gamma> (configure_interface t)"
  unfolding configure_interface_def if_ioctl_def by (rule type_intros | simp; fail)+

lemma types_read_u64 [type_intros]: "sound S \<Gamma> (read_u64 fd)"
  unfolding read_u64_def by (rule type_intros | simp; fail)+

lemma types_freeaddrinfo [type_intros]: "sound S \<Gamma> freeaddrinfo"
  unfolding freeaddrinfo_def by (rule type_intros)+

lemma types_connect_try [type_intros]: "sound S \<Gamma> (connect_try ais fd)"
  by (induction ais arbitrary: \<Gamma> fd) (simp_all only: connect_try.simps, (rule type_intros | assumption)+)

lemma types_openssl [type_intros]:
  "sound S \<Gamma> (ssl_set st ssl)" "sound S \<Gamma> (ctx_set cs ctx)" "sound S \<Gamma> ERR_get_error" "sound S \<Gamma> (OPENSSL_REASON e)"
  unfolding ssl_set_def ctx_set_def ERR_get_error_def OPENSSL_REASON_def by (rule type_intros)+

lemma types_openssl_prepare [type_intros]: "Obj p K_tlsclientP \<in> \<Gamma> \<Longrightarrow> sound S \<Gamma> (openssl_prepare ctx p fd h)"
  unfolding openssl_prepare_def by (rule type_intros | simp; fail)+

section \<open>The arrows\<close>

text \<open>An invocation that respects the types: the data is of the circuit's kind, and the function takes it.\<close>

fun fits :: "'u signature \<Rightarrow> fact set \<Rightarrow> invocation \<Rightarrow> bool" where
  "fits S \<Gamma> (Run t c s d p) = (\<exists>K P. Circ c K \<in> \<Gamma> \<and> Obj d K \<in> \<Gamma> \<and> takes S t K P \<and> priv_facts P p \<subseteq> \<Gamma>)"
| "fits S \<Gamma> (OnError n c s d m) = (\<exists>K. Circ c K \<in> \<Gamma> \<and> Obj d K \<in> \<Gamma> \<and> sg_err S n K)"
| "fits S \<Gamma> (OnConn h c s fd sa) = (\<exists>K. Circ c K \<in> \<Gamma>)"

locale typed_calls =
  fixes S :: "'u signature" and call :: "('k, 'u) calls"
  assumes calls: "fits S \<Gamma> i \<Longrightarrow> sound S \<Gamma> (call i)"
begin

lemma types_returnA:
  assumes "Circ c K \<in> \<Gamma>" and "Obj d K \<in> \<Gamma>"
  shows "sound S \<Gamma> (returnA call c s d)"
  unfolding returnA_def
proof (rule types_load_circ [OF assms(1)], rule types_load_elem [where K = K], simp, rule types_if)
  fix C :: circuitS and x P
  let ?\<Gamma> = "\<Gamma> \<union> {Elem (c_nets C) K, Elem (c_current C) K} \<union> insert (Elem (e_next x) K) (priv_facts P (e_priv x))"
  show "sound S ?\<Gamma> (set_current c NULL)" by (rule types_set_current_NULL [where K = K]) (simp add: assms)
  have "sound S ?\<Gamma> (mbind (load_elem (e_next x)) (\<lambda>n. call (Run (e_run n) c s d (e_priv n))))"
    by (rule types_load_elem [where K = K], simp, rule calls) (use assms in auto)
  then show "sound S ?\<Gamma> (mthen (set_current c (e_next x)) (mbind (load_elem (e_next x)) (\<lambda>n. call (Run (e_run n) c s d (e_priv n)))))"
    by (intro types_mthen types_set_current [where K = K]) (simp_all add: assms)
qed

lemma types_errorA:
  assumes "Circ c K \<in> \<Gamma>" and "Obj d K \<in> \<Gamma>"
  shows "sound S \<Gamma> (errorA call c s d m)"
  unfolding errorA_def
proof (rule types_load_circ [OF assms(1)])
  fix C :: circuitS
  let ?\<Gamma> = "\<Gamma> \<union> {Elem (c_nets C) K, Elem (c_current C) K}"
  assume err: "\<And>n. c_err C = Some n \<Longrightarrow> sg_err S n K"
  have "sound S ?\<Gamma> (set_current c NULL)" by (rule types_set_current_NULL [where K = K]) (simp add: assms)
  moreover have "sound S ?\<Gamma> (call (OnError n c s d t))" if "c_err C = Some n" for n t
    by (rule calls) (use assms err [OF that] in auto)
  ultimately show "sound S ?\<Gamma> (mseq [case c_err C of
         Some f \<Rightarrow> call (OnError f c s d (map_option (take (MELOOP_ERROR_BUFFSIZE - 1)) m)) | None \<Rightarrow> mret (),
       set_current c NULL])"
    by (intro types_mseq_Cons types_mseq_Nil types_option types_mret)
qed

lemma types_runA:
  assumes "Circ c K \<in> \<Gamma>" and "Obj d K \<in> \<Gamma>"
  shows "sound S \<Gamma> (runA call c s d)"
  unfolding runA_def
proof (rule types_load_circ [OF assms(1)], rule types_mthen)
  fix C :: circuitS
  let ?\<Gamma> = "\<Gamma> \<union> {Elem (c_nets C) K, Elem (c_current C) K}"
  show "sound S ?\<Gamma> (if c_current C = NULL then set_current c (c_nets C) else mret ())"
    by (intro types_if types_mret types_set_current [where K = K]) (simp_all add: assms)
  show "sound S ?\<Gamma> (mbind (load_circ c) (\<lambda>C'. mbind (load_elem (c_current C')) (\<lambda>x. call (Run (e_run x) c s d (e_priv x)))))"
    by (rule types_load_circ [where K = K], simp add: assms, rule types_load_elem [where K = K], simp, rule calls)
      (use assms in auto)
qed

lemma types_hand_over [type_intros]:
  assumes "\<exists>K. Circ c K \<in> \<Gamma> \<and> Obj d K \<in> \<Gamma>"
  shows "sound S \<Gamma> (returnA call c s d)" "sound S \<Gamma> (errorA call c s d m)" "sound S \<Gamma> (runA call c s d)"
    "sound S \<Gamma> (waitA call c s d fd op fl)"
  using assms unfolding waitA_def by (blast intro: types_returnA types_errorA types_runA type_intros)+

lemma types_streams:
  assumes "Circ c K \<in> \<Gamma>" and "Obj d K \<in> \<Gamma>" and "P \<in> Struct ` ios" and "priv_facts P p \<subseteq> \<Gamma>"
  shows "K \<in> files \<Longrightarrow> sound S \<Gamma> (readA call c s d p)" "K \<in> files \<Longrightarrow> sound S \<Gamma> (writeA call c s d p)"
    "K = K_pipe \<Longrightarrow> sound S \<Gamma> (pipereadA call c s d p)" "K = K_pipe \<Longrightarrow> sound S \<Gamma> (pipewriteA call c s d p)"
    "K \<in> files \<Longrightarrow> sound S \<Gamma> (randreadA call c s d p)"
  using assms unfolding readA_def writeA_def pipereadA_def pipewriteA_def randreadA_def
  by - (rule type_intros | (auto; fail))+

lemma types_timers:
  assumes "Circ c K_timer \<in> \<Gamma>" and "Obj d K_timer \<in> \<Gamma>" and "Obj p K_timerP \<in> \<Gamma>"
  shows "sound S \<Gamma> (timeropenA call c s d p)" "sound S \<Gamma> (timersleepA call c s d p)"
  using assms unfolding timeropenA_def timersleepA_def by - (rule type_intros | (auto; fail))+

lemma types_random:
  assumes "Circ c K \<in> \<Gamma>" and "Obj d K \<in> \<Gamma>" and "K \<in> files"
  shows "sound S \<Gamma> (randopenA call c s d)" "sound S \<Gamma> (randencA call c s d)"
proof -
  show "sound S \<Gamma> (randopenA call c s d)"
    using assms unfolding randopenA_def by - (rule type_intros | (auto; fail))+
  have "\<not> ill x" if "randenc_loop i n bs = Inl x" for i n bs x
    using randenc_fault [OF that] by auto
  then show "sound S \<Gamma> (randencA call c s d)"
    using assms unfolding randencA_def by - (rule type_intros | (auto; fail))+
qed

lemma types_server:
  assumes "Circ c K \<in> \<Gamma>" and "Obj d K \<in> \<Gamma>" and "K \<in> files" and "Obj p K_tcpserverP \<in> \<Gamma>"
  shows "sound S \<Gamma> (listenA call c s d p)" "sound S \<Gamma> (acceptA call c s d p)"
proof -
  show "sound S \<Gamma> (listenA call c s d p)"
    using assms unfolding listenA_def Let_def by - (rule type_intros | (auto; fail))+
  have conn: "sound S \<Gamma>' (call (OnConn h c s fd sa))" if "\<Gamma> \<subseteq> \<Gamma>'" for \<Gamma>' h fd sa
    by (rule calls) (use assms(1) that in auto)
  show "sound S \<Gamma> (acceptA call c s d p)"
    using assms unfolding acceptA_def by - (rule type_intros conn | (auto; fail))+
qed

lemma types_client:
  assumes "Circ c K_tcpconn \<in> \<Gamma>" and "Obj d K_tcpconn \<in> \<Gamma>" and "P \<in> Struct ` clients" and "priv_facts P p \<subseteq> \<Gamma>"
  shows "sound S \<Gamma> (connect_local call c s d)" "sound S \<Gamma> (connect_continue call c s d p)" "sound S \<Gamma> (connectA call c s d p)"
proof -
  have l: "sound S \<Gamma>' (connect_local call c s d)" if "\<Gamma> \<subseteq> \<Gamma>'" for \<Gamma>'
    using assms that unfolding connect_local_def by - (rule type_intros | (auto; fail))+
  then show "sound S \<Gamma> (connect_local call c s d)" by simp
  have n: "sound S \<Gamma>' (connect_continue call c s d p)" if "\<Gamma> \<subseteq> \<Gamma>'" for \<Gamma>'
    using assms that unfolding connect_continue_def by - (rule type_intros l | (auto; fail))+
  then show "sound S \<Gamma> (connect_continue call c s d p)" by simp
  have "clients \<subseteq> ios" by (auto simp: clients_def ios_def)
  then show "sound S \<Gamma> (connectA call c s d p)"
    using assms unfolding connectA_def by - (rule type_intros n | (auto; fail))+
qed

lemma types_tls:
  assumes "Circ c K \<in> \<Gamma>" and "Obj d K \<in> \<Gamma>" and "K \<in> files" and "Obj p K_tlsclientP \<in> \<Gamma>"
  shows "sound S \<Gamma> (tlsreadA call c s d p)" "sound S \<Gamma> (tlswriteA call c s d p)" "sound S \<Gamma> (tlsA call c s d p)"
proof -
  show "sound S \<Gamma> (tlsreadA call c s d p)" "sound S \<Gamma> (tlswriteA call c s d p)"
    using assms unfolding tlsreadA_def tlswriteA_def Let_def by - (rule type_intros | (auto; fail))+
  have n: "sound S \<Gamma>' (tls_connected call c s d p)" if "\<Gamma> \<subseteq> \<Gamma>'" for \<Gamma>'
    using assms that unfolding tls_connected_def by - (rule type_intros | (auto; fail))+
  have h: "sound S \<Gamma>' (tls_handshake call c s d p)" if "\<Gamma> \<subseteq> \<Gamma>'" for \<Gamma>'
    using assms that unfolding tls_handshake_def by - (rule type_intros n | (auto; fail))+
  show "sound S \<Gamma> (tlsA call c s d p)"
    using assms unfolding tlsA_def by - (rule type_intros h | (auto; fail))+
qed

lemma types_tunopenA:
  assumes "Circ c K_tun \<in> \<Gamma>" and "Obj d K_tun \<in> \<Gamma>" and "Obj p K_tunP \<in> \<Gamma>"
  shows "sound S \<Gamma> (tunopenA call c s d p)"
  using assms unfolding tunopenA_def Let_def by - (rule type_intros | (auto; fail))+

section \<open>The event loop\<close>

lemma types_handle_event: "sound S \<Gamma> (handle_event call e)"
proof -
  define h :: "bagS \<Rightarrow> ('k, 'u, unit) wm" where "h = (\<lambda>b. mthen (meloop_bag_free (snd e)) (if fst e AND EPOLLRDHUP \<noteq> 0 then
          mbind (meloop_ev_dearm (b_fd b)) (\<lambda>_. mbind (sys_close (b_fd b)) (\<lambda>_.
          errorA call (b_circuit b) (b_state b) (b_data b) (Some ''Remote hanged up'')))
        else if fst e AND EPOLLERR \<noteq> 0 then
          mbind (meloop_ev_dearm (b_fd b)) (\<lambda>_. mbind (sys_close (b_fd b)) (\<lambda>_.
          errorA call (b_circuit b) (b_state b) (b_data b) (Some ''Connection Error'')))
        else runA call (b_circuit b) (b_state b) (b_data b)))"
  have h: "sound S (\<Gamma> \<union> {Circ (b_circuit b) K, Obj (b_data b) K}) (h b)" for b K
    unfolding h_def by (rule type_intros | (auto; fail))+
  have "sound S \<Gamma> (mbind (load_bag (snd e)) h)"
    unfolding load_bag_def
  proof (rule types_read)
    fix w \<Sigma> b assume w: "well_typed S \<Sigma> w" "get_cell HBag (bagh w) (snd e) = Inr b"
    then obtain K where "{Circ (b_circuit b) K, Obj (b_data b) K} \<subseteq> \<Sigma>"
      using well_typedD(8) [OF w(1)] unfolding bags_typed_def by auto
    with h show "\<exists>\<Delta> \<subseteq> \<Sigma>. sound S (\<Gamma> \<union> \<Delta>) (h b)" by blast
  qed (rule bag_fine)
  then show ?thesis by (simp add: handle_event_def Let_def h_def)
qed

lemma types_handle_events: "sound S \<Gamma> (handle_events call evs)"
  unfolding handle_events_def by (induction evs) (simp_all add: types_mret types_mthen types_handle_event)

lemma types_loop [type_intros]: "sound S \<Gamma> (meloop_io_loop n call st)"
  by (induction n arbitrary: \<Gamma>)
    (simp_all only: meloop_io_loop.simps, (rule type_intros types_handle_events | assumption | simp; fail)+)

end

section \<open>Programs\<close>

text \<open>What a program owes: its functions are as its signature says.\<close>

locale typed_program =
  fixes S :: "'u signature" and u :: "('k, 'u) program"
  assumes task_typed: "typed_calls S call \<Longrightarrow> Circ c K \<in> \<Gamma> \<Longrightarrow> Obj d K \<in> \<Gamma> \<Longrightarrow> sg_task S n K P \<Longrightarrow>
      priv_facts P p \<subseteq> \<Gamma> \<Longrightarrow> sound S \<Gamma> (user_task u n call c s d p)"
    and err_typed: "typed_calls S call \<Longrightarrow> Circ c K \<in> \<Gamma> \<Longrightarrow> Obj d K \<in> \<Gamma> \<Longrightarrow> sg_err S n K \<Longrightarrow>
      sound S \<Gamma> (user_err u n call c s d m)"
    and conn_typed: "typed_calls S call \<Longrightarrow> Circ c K \<in> \<Gamma> \<Longrightarrow> sound S \<Gamma> (user_conn u n call c s fd sa)"
begin

lemma run_task_typed:
  assumes "typed_calls S call" and "Circ c K \<in> \<Gamma>" and "Obj d K \<in> \<Gamma>" and "takes S t K P" and "priv_facts P p \<subseteq> \<Gamma>"
  shows "sound S \<Gamma> (run_task u call t c s d p)"
proof -
  note arrows = typed_calls.types_streams typed_calls.types_timers typed_calls.types_random typed_calls.types_server
    typed_calls.types_client typed_calls.types_tls typed_calls.types_tunopenA
  show ?thesis
    using assms(2-5) by (cases t) (auto intro: arrows [OF assms(1)] task_typed [OF assms(1)])
qed

lemma exec_typed: "typed_calls S (exec u n)"
proof (induction n)
  case 0
  show ?case by standard (simp add: types_mfail)
next
  case (Suc n)
  show ?case
  proof
    fix \<Gamma> i assume "fits S \<Gamma> i"
    then show "sound S \<Gamma> (exec u (Suc n) i)"
      by (cases i) (auto intro: run_task_typed [OF Suc] err_typed [OF Suc] conn_typed [OF Suc])
  qed
qed

end

end
