(* ===== verification/Typed_Programs.thy ===== *)
theory Typed_Programs
  imports Typed_Arrows Echo_Server Echo_Shell Tls_Client Demo_States
begin

text \<open>
  The echo server, the shell and the TLS client are well typed: the circuits of each hand on data of one kind.
  (\<open>random.c\<close> and \<open>echoclient.c\<close> change the data from arrow to arrow, through the member \<open>ptr\<close> and a struct of
  pointers; their rounds in \<open>Random_Round\<close> and \<open>Client_Round\<close> follow the data by name.)
\<close>

section \<open>From the start of a process\<close>





lemma types_catch_signal [type_intros]: "sound S \<Gamma> catch_signal"
  unfolding catch_signal_def by (rule type_intros | simp; fail)+

lemma types_io_init [type_intros]: "sound S \<Gamma> (meloop_io_init fl)"
  unfolding meloop_io_init_def by (rule type_intros)



section \<open>The echo server\<close>











section \<open>The shell\<close>



lemma types_load_text [type_intros]: "Buf b \<in> \<Gamma> \<Longrightarrow> sound S \<Gamma> (load_text n b)"
  unfolding load_text_def by (rule type_intros | simp; fail)+







section \<open>The TLS client\<close>



lemma types_sprintfs [type_intros]: "Buf b \<in> \<Gamma> \<Longrightarrow> sound S \<Gamma> (sprintfs b l ts)"
proof (induction ts arbitrary: l \<Gamma>)
  case (Cons t ts)
  then show ?case
    unfolding sprintfs.simps sprintf_at_def by - (rule Cons.IH type_intros | (auto; fail))+
qed (simp add: types_mret)

lemma types_set_byte [type_intros]: "Buf b \<in> \<Gamma> \<Longrightarrow> sound S \<Gamma> (set_byte b i x)"
  unfolding set_byte_def by (rule type_intros | simp; fail)+






lemma types_tls_init [type_intros]: "sound S \<Gamma> meloop_tls_init"
  unfolding meloop_tls_init_def openssl_init_def by (rule type_intros | simp; fail)+

lemma types_tls_deinit [type_intros]: "sound S \<Gamma> meloop_tls_deinit"
  unfolding meloop_tls_deinit_def openssl_deinit_def by (rule type_intros)+


section \<open>No wrong cast\<close>




end
