(* ===== verification/Https_Service.thy ===== *)
theory Https_Service
  imports Tls_Client Waiting
begin

text \<open>
  What the TLS client does for the people outside, as a machine of its own: what it waits for
  (\<open>stage\<close>), the bag that waits, \<open>errno\<close> and the state of the kernel. The relations say what OpenSSL and
  the kernel answer and what becomes of the errand: \<open>handshaking\<close>, \<open>sending\<close> and \<open>reading\<close> from one arrow
  to the next wait, \<open>goes_on\<close> an event and \<open>fetching\<close> a number of rounds of the event loop. Each collects
  what leaves the process: the calls of \<open>SSL_write\<close> and the texts on the standard output. The number in
  front of \<open>errno\<close> is the call depth that is at hand; no result means that the circuit ended in an error.
\<close>

section \<open>The errand\<close>

datatype stage = Connecting | Handshaking ptr | Sending ptr | Reading ptr

record 'k errand =
  er_stage :: stage
  er_bag :: ptr
  er_errno :: int
  er_kern :: 'k

text \<open>Descriptors, the flags of epoll, the log and the context of OpenSSL.\<close>

record site =
  si_fd :: int
  si_epfd :: int
  si_flags :: u32
  si_log :: int
  si_ctx :: ptr

definition the_request :: "byte list" where
  "the_request = bytes (request (tc_hostname https_tls))"

text \<open>What leaves the process.\<close>

fun outward :: "sysev \<Rightarrow> bool" where
  "outward (SslWrite ssl bs) = True"
| "outward (SysStdout t) = True"
| "outward _ = False"

definition printed_part :: "byte list \<Rightarrow> string" where
  \<comment> \<open>\<open>%.*s\<close> ends at a zero byte\<close>
  "printed_part bs = chars (takeWhile (\<lambda>b. b \<noteq> 0) bs)"

section \<open>epoll and OpenSSL\<close>

text \<open>A bag is allocated and epoll takes the descriptor, whether it knows it or not; \<open>meloop_ev_arm\<close> resets
  \<open>errno\<close> when it has to add it.\<close>

inductive arms :: "'k os \<Rightarrow> site \<Rightarrow> u32 \<Rightarrow> ptr \<Rightarrow> int \<Rightarrow> 'k \<Rightarrow> int \<Rightarrow> 'k \<Rightarrow> bool" for os si op p e k where
  known: "os_epoll_ctl os (si_epfd si) EPOLL_CTL_MOD (si_fd si) (si_flags si OR (op OR EPOLLET)) p (fed os k) = (Inr (), k') \<Longrightarrow>
    arms os si op p e k e k'"
| added: "os_epoll_ctl os (si_epfd si) EPOLL_CTL_MOD (si_fd si) (si_flags si OR (op OR EPOLLET)) p (fed os k) = (Inl ENOENT, k1) \<Longrightarrow>
    os_epoll_ctl os (si_epfd si) EPOLL_CTL_ADD (si_fd si) (si_flags si OR (op OR EPOLLET)) p k1 = (Inr (), k') \<Longrightarrow>
    arms os si op p e k 0 k'"

text \<open>Pieces of the answer that are there to be read.\<close>

inductive pieces :: "'k os \<Rightarrow> ptr \<Rightarrow> int \<Rightarrow> 'k \<Rightarrow> byte list list \<Rightarrow> int \<Rightarrow> 'k \<Rightarrow> bool" for os ssl where
  none: "pieces os ssl e k [] e k"
| piece: "os_SSL_read (os_ssl os) ssl (int TL_CHUNK) e k = ((int (length m), m), e1, k1) \<Longrightarrow> m \<noteq> [] \<Longrightarrow> length m \<le> TL_CHUNK \<Longrightarrow>
    pieces os ssl e1 k1 ms e' k' \<Longrightarrow> pieces os ssl e k (m # ms) e' k'"

text \<open>Settings, one after the other; the results of some of them are not looked at.\<close>

inductive takes :: "('s \<Rightarrow> int \<Rightarrow> 'k \<Rightarrow> int \<times> int \<times> 'k) \<Rightarrow> ('s \<times> bool) list \<Rightarrow> int \<Rightarrow> 'k \<Rightarrow> int \<Rightarrow> 'k \<Rightarrow> bool" for put where
  none: "takes put [] e k e k"
| setting: "put st e k = (r, e1, k1) \<Longrightarrow> (checked \<longrightarrow> r = 1) \<Longrightarrow> takes put sts e1 k1 e' k' \<Longrightarrow>
    takes put ((st, checked) # sts) e k e' k'"

inductive_simps takes_simps: "takes put (x # xs) e k e' k'" "takes put [] e k e' k'"

definition session_settings :: "int \<Rightarrow> string \<Rightarrow> (ssl_setting \<times> bool) list" where
  "session_settings fd host = [(Set_fd fd, False), (Set_connect_state, False), (Set1_host host, True),
     (Set_cipher_list PREFERRED_CIPHERS, True), (Set_tlsext_host_name host, True), (Set_hostflags, False), (Set1_host host, True)]"

inductive prepared :: "'k os \<Rightarrow> site \<Rightarrow> ptr \<Rightarrow> int \<Rightarrow> 'k \<Rightarrow> int \<Rightarrow> 'k \<Rightarrow> bool" for os si ssl e k where
  session: "os_SSL_new (os_ssl os) (si_ctx si) e k = (ssl, e1, k1) \<Longrightarrow> ssl \<noteq> NULL \<Longrightarrow>
    takes (\<lambda>st. os_SSL_set (os_ssl os) st ssl) (session_settings (si_fd si) (tc_hostname https_tls)) e1 k1 e' k' \<Longrightarrow>
    prepared os si ssl e k e' k'"

text \<open>The library and its context.\<close>

definition context_settings :: "(ctx_setting \<times> bool) list" where
  "context_settings = [(Set_verify, False), (Set_verify_depth TLS_VERIFY_DEPTH, False), (Set_options, False),
     (Load_verify_locations ''/etc/ssl/certs'', True)]"

inductive equipped :: "'k os \<Rightarrow> ptr \<Rightarrow> int \<Rightarrow> 'k \<Rightarrow> int \<Rightarrow> 'k \<Rightarrow> bool" for os ctx e k where
  library: "takes (\<lambda>st. os_SSL_CTX_set (os_ssl os) st NULL) [(Library_init, False), (Load_error_strings, False)] e k e1 k1 \<Longrightarrow>
    os_SSLv23_method (os_ssl os) \<noteq> NULL \<Longrightarrow>
    os_SSL_CTX_new (os_ssl os) (os_SSLv23_method (os_ssl os)) e1 k1 = (ctx, e2, k2) \<Longrightarrow> ctx \<noteq> NULL \<Longrightarrow>
    takes (\<lambda>st. os_SSL_CTX_set (os_ssl os) st ctx) context_settings e2 k2 e' k' \<Longrightarrow> equipped os ctx e k e' k'"

text \<open>The host is found, and a connection to its first address is on the way.\<close>

inductive dialled :: "'k os \<Rightarrow> site \<Rightarrow> ptr \<Rightarrow> 'k \<Rightarrow> int \<Rightarrow> 'k \<Rightarrow> bool" for os si b k where
  on_the_way: "os_getaddrinfo os (tc_hostname https_tls) (tc_port https_tls) k = (Some (a # rest), k1) \<Longrightarrow>
    os_socket os (ai_family a) (ai_socktype a OR SOCK_NONBLOCK) (ai_protocol a) k1 = (Inr (si_fd si), k2) \<Longrightarrow> 0 \<le> si_fd si \<Longrightarrow>
    os_connect os (si_fd si) (ai_addr a) k2 = (Inl EINPROGRESS, k3) \<Longrightarrow> os_freeaddrinfo os EINPROGRESS = EINPROGRESS \<Longrightarrow>
    arms os si EPOLLOUT b EINPROGRESS k3 e' k' \<Longrightarrow> dialled os si b k e' k'"

definition tls_info :: "int \<Rightarrow> string \<Rightarrow> string list" where
  "tls_info line msg = log_line LOGGING_INFO ''meloop/tls.c'' line ''tlsA'' msg []"

text \<open>The handshake is done: OpenSSL says so, or reports no error.\<close>

inductive agreed :: "'k os \<Rightarrow> site \<Rightarrow> ptr \<Rightarrow> int \<Rightarrow> 'k \<Rightarrow> 'k \<Rightarrow> bool" for os si ssl e k where
  established: "os_SSL_connect (os_ssl os) ssl e k = (1, e1, k1) \<Longrightarrow>
    agreed os si ssl e k (shown os (si_log si) (tls_info 111 ''SSL Connected'') k1)"
| no_error: "os_SSL_connect (os_ssl os) ssl e k = (r, e1, k1) \<Longrightarrow> r \<noteq> 1 \<Longrightarrow>
    os_SSL_get_error (os_ssl os) ssl r e1 k1 = (0, e2, k2) \<Longrightarrow>
    agreed os si ssl e k (shown os (si_log si) (tls_info 94 ''SSL OK'' @ tls_info 111 ''SSL Connected'') k2)"

section \<open>From arrow to arrow\<close>

text \<open>The answer is printed piece by piece until OpenSSL has nothing to give, whatever the reason.\<close>

inductive reading :: "'k os \<Rightarrow> site \<Rightarrow> ptr \<Rightarrow> ptr \<Rightarrow> nat \<Rightarrow> int \<Rightarrow> 'k \<Rightarrow> sysev list \<Rightarrow> 'k errand \<Rightarrow> bool" for os si ssl b d e k where
  waits: "pieces os ssl e k ms e1 k1 \<Longrightarrow> os_SSL_read (os_ssl os) ssl (int TL_CHUNK) e1 k1 = ((n, []), e2, k2) \<Longrightarrow> n \<le> 0 \<Longrightarrow>
    os_ERR_get_error (os_ssl os) e2 k2 = (code, e3, k3) \<Longrightarrow> arms os si EPOLLIN b e3 k3 e4 k4 \<Longrightarrow> 2 * length ms + 1 \<le> d \<Longrightarrow>
    reading os si ssl b d e k (map (SysStdout \<circ> printed_part) ms)
      \<lparr>er_stage = Reading ssl, er_bag = b, er_errno = e4, er_kern = k4\<rparr>"

inductive sending :: "'k os \<Rightarrow> site \<Rightarrow> ptr \<Rightarrow> ptr \<Rightarrow> nat \<Rightarrow> int \<Rightarrow> 'k \<Rightarrow> sysev list \<Rightarrow> 'k errand \<Rightarrow> bool" for os si ssl b where
  sent: "os_SSL_write (os_ssl os) ssl (int (length the_request)) the_request e k = (n, e1, k1) \<Longrightarrow> 0 < n \<Longrightarrow>
    reading os si ssl b d e1 k1 io \<sigma> \<Longrightarrow> sending os si ssl b (Suc d) e k (SslWrite ssl the_request # io) \<sigma>"
| blocked: "os_SSL_write (os_ssl os) ssl (int (length the_request)) the_request e k = (n, e1, k1) \<Longrightarrow> n \<le> 0 \<Longrightarrow>
    os_ERR_get_error (os_ssl os) e1 k1 = (code, e2, k2) \<Longrightarrow> arms os si EPOLLOUT b e2 k2 e3 k3 \<Longrightarrow>
    sending os si ssl b (Suc d) e k [SslWrite ssl the_request] \<lparr>er_stage = Sending ssl, er_bag = b, er_errno = e3, er_kern = k3\<rparr>"

inductive handshaking :: "'k os \<Rightarrow> site \<Rightarrow> ptr \<Rightarrow> ptr \<Rightarrow> nat \<Rightarrow> int \<Rightarrow> 'k \<Rightarrow> sysev list \<Rightarrow> 'k errand option \<Rightarrow> bool" for os si ssl b where
  agrees: "agreed os si ssl e k k1 \<Longrightarrow> sending os si ssl b d 0 k1 io \<sigma> \<Longrightarrow> handshaking os si ssl b (Suc (Suc d)) e k io (Some \<sigma>)"
| wants: "os_SSL_connect (os_ssl os) ssl e k = (r, e1, k1) \<Longrightarrow> r \<noteq> 1 \<Longrightarrow> os_SSL_get_error (os_ssl os) ssl r e1 k1 = (err, e2, k2) \<Longrightarrow>
    (err, op) \<in> {(SSL_ERROR_WANT_READ, EPOLLIN), (SSL_ERROR_WANT_WRITE, EPOLLOUT)} \<Longrightarrow> arms os si op b e2 k2 e3 k3 \<Longrightarrow>
    handshaking os si ssl b (Suc d) e k [] (Some \<lparr>er_stage = Handshaking ssl, er_bag = b, er_errno = e3, er_kern = k3\<rparr>)"
| fails: "os_SSL_connect (os_ssl os) ssl e k = (r, e1, k1) \<Longrightarrow> r \<noteq> 1 \<Longrightarrow> os_SSL_get_error (os_ssl os) ssl r e1 k1 = (err, e2, k2) \<Longrightarrow>
    err \<notin> {OK, SSL_ERROR_WANT_READ, SSL_ERROR_WANT_WRITE} \<Longrightarrow> handshaking os si ssl b (Suc (Suc d)) e k [] None"

section \<open>Events\<close>

inductive goes_on :: "'k os \<Rightarrow> site \<Rightarrow> nat \<Rightarrow> 'k errand \<Rightarrow> sysev list \<Rightarrow> 'k errand option \<Rightarrow> bool" for os si d \<sigma> where
  connected: "er_stage \<sigma> = Connecting \<Longrightarrow> d = Suc n \<Longrightarrow> os_so_error os (si_fd si) (er_kern \<sigma>) = (Inr 0, k1) \<Longrightarrow>
    os_getsockname os (si_fd si) k1 = (Inr sa, k2) \<Longrightarrow> prepared os si ssl (er_errno \<sigma>) k2 e3 k3 \<Longrightarrow>
    handshaking os si ssl (Suc (er_bag \<sigma>)) n e3 k3 io res \<Longrightarrow> goes_on os si d \<sigma> io res"
| refused: "er_stage \<sigma> = Connecting \<Longrightarrow> d = Suc (Suc n) \<Longrightarrow> os_so_error os (si_fd si) (er_kern \<sigma>) = (Inr err, k1) \<Longrightarrow> err \<noteq> 0 \<Longrightarrow>
    goes_on os si d \<sigma> [] None"
| handshake: "er_stage \<sigma> = Handshaking ssl \<Longrightarrow> handshaking os si ssl (Suc (er_bag \<sigma>)) d (er_errno \<sigma>) (er_kern \<sigma>) io res \<Longrightarrow>
    goes_on os si d \<sigma> io res"
| send: "er_stage \<sigma> = Sending ssl \<Longrightarrow> sending os si ssl (Suc (er_bag \<sigma>)) d (er_errno \<sigma>) (er_kern \<sigma>) io \<sigma>' \<Longrightarrow>
    goes_on os si d \<sigma> io (Some \<sigma>')"
| read: "er_stage \<sigma> = Reading ssl \<Longrightarrow> reading os si ssl (Suc (er_bag \<sigma>)) d (er_errno \<sigma>) (er_kern \<sigma>) io \<sigma>' \<Longrightarrow>
    goes_on os si d \<sigma> io (Some \<sigma>')"

text \<open>Rounds of the event loop: epoll reports the one bag that waits. A hang-up or an error ends the
  errand at once, and so does a failure on the way.\<close>

inductive fetching :: "'k os \<Rightarrow> site \<Rightarrow> nat \<Rightarrow> 'k errand \<Rightarrow> nat \<Rightarrow> sysev list \<Rightarrow> 'k errand option \<Rightarrow> bool" for os si d where
  start: "fetching os si d \<sigma> 0 [] (Some \<sigma>)"
| round: "os_epoll_wait os (si_epfd si) EV_MAXEVENTS (er_kern \<sigma>) = (Inr [(m, er_bag \<sigma>)], k) \<Longrightarrow> plain_event m \<Longrightarrow>
    goes_on os si d (\<sigma>\<lparr>er_kern := k\<rparr>) io1 (Some \<sigma>1) \<Longrightarrow> fetching os si d \<sigma>1 n io2 res \<Longrightarrow>
    fetching os si d \<sigma> (Suc n) (io1 @ io2) res"
| fails: "os_epoll_wait os (si_epfd si) EV_MAXEVENTS (er_kern \<sigma>) = (Inr [(m, er_bag \<sigma>)], k) \<Longrightarrow> plain_event m \<Longrightarrow>
    goes_on os si d (\<sigma>\<lparr>er_kern := k\<rparr>) io None \<Longrightarrow> fetching os si d \<sigma> 1 io None"
| hangup: "os_epoll_wait os (si_epfd si) EV_MAXEVENTS (er_kern \<sigma>) = (Inr [(m, er_bag \<sigma>)], k) \<Longrightarrow> \<not> plain_event m \<Longrightarrow>
    0 < d \<Longrightarrow> fetching os si d \<sigma> 1 [] None"

section \<open>What the outside sees\<close>

text \<open>The request, perhaps more than once while OpenSSL does not take it, then nothing but the answer.\<close>

definition exchange_of :: "ptr \<Rightarrow> nat \<Rightarrow> byte list list \<Rightarrow> sysev list" where
  "exchange_of ssl j ms = replicate j (SslWrite ssl the_request) @ map (SysStdout \<circ> printed_part) ms"

text \<open>\<open>owes \<sigma> io\<close>: \<open>io\<close> is what may still come at the stage of \<open>\<sigma>\<close>.\<close>

fun owes :: "stage \<Rightarrow> sysev list \<Rightarrow> bool" where
  "owes Connecting io = (\<exists>ssl j ms. io = exchange_of ssl j ms)"
| "owes (Handshaking ssl) io = (\<exists>j ms. io = exchange_of ssl j ms)"
| "owes (Sending ssl) io = (\<exists>j ms. io = exchange_of ssl j ms)"
| "owes (Reading ssl) io = (\<exists>ms. io = exchange_of ssl 0 ms)"

definition owes_after :: "stage \<Rightarrow> sysev list \<Rightarrow> 'k errand option \<Rightarrow> bool" where
  "owes_after s io res \<longleftrightarrow> (case res of None \<Rightarrow> owes s io | Some \<sigma> \<Rightarrow> \<forall>io'. owes (er_stage \<sigma>) io' \<longrightarrow> owes s (io @ io'))"

lemma reading_owes: "reading os si ssl b d e k io \<sigma> \<Longrightarrow> owes_after (Reading ssl) io (Some \<sigma>)"
  by (erule reading.cases) (auto simp: owes_after_def exchange_of_def simp flip: map_append)

lemma owes_request: "owes (Reading ssl) io \<or> owes (Sending ssl) io \<Longrightarrow> owes (Sending ssl) (SslWrite ssl the_request # io)"
  by (auto simp: exchange_of_def) (metis append_Cons append_Nil replicate_0 replicate_Suc)+

lemma sending_owes: "sending os si ssl b d e k io \<sigma> \<Longrightarrow> owes_after (Sending ssl) io (Some \<sigma>)"
proof (erule sending.cases)
  fix e k n e1 k1 d io' \<sigma>'
  assume "io = SslWrite ssl the_request # io'" "\<sigma> = \<sigma>'" "reading os si ssl b d e1 k1 io' \<sigma>'"
  then show ?thesis using reading_owes [of os si ssl b d e1 k1 io' \<sigma>'] owes_request [of ssl]
    by (simp add: owes_after_def del: owes.simps)
next
  fix e k n e1 k1 code e2 k2 e3 k3 d
  assume "io = [SslWrite ssl the_request]" "\<sigma> = \<lparr>er_stage = Sending ssl, er_bag = b, er_errno = e3, er_kern = k3\<rparr>"
  then show ?thesis using owes_request [of ssl] by (simp add: owes_after_def del: owes.simps)
qed

lemma handshaking_owes: "handshaking os si ssl b d e k io res \<Longrightarrow> owes_after (Handshaking ssl) io res"
proof (erule handshaking.cases)
  fix e k k1 d io' \<sigma>
  assume "io = io'" "res = Some \<sigma>" "sending os si ssl b d 0 k1 io' \<sigma>"
  then show ?thesis using sending_owes [of os si ssl b d 0 k1 io' \<sigma>] by (simp add: owes_after_def)
qed (auto simp: owes_after_def exchange_of_def)

lemma owes_earlier: "owes_after (Handshaking ssl) io res \<Longrightarrow> owes_after Connecting io res"
  by (cases res) (simp_all add: owes_after_def, blast+)

lemma goes_on_owes: "goes_on os si d \<sigma> io res \<Longrightarrow> owes_after (er_stage \<sigma>) io res"
proof (erule goes_on.cases)
  assume "er_stage \<sigma> = Connecting" "io = []" "res = None"
  moreover have "exchange_of NULL 0 [] = []" by (simp add: exchange_of_def)
  ultimately show ?thesis by (simp add: owes_after_def) metis
qed (auto dest: handshaking_owes owes_earlier sending_owes reading_owes simp del: owes.simps)

lemma owes_nothing: "owes s []"
proof -
  have "exchange_of ssl 0 [] = []" for ssl by (simp add: exchange_of_def)
  then show ?thesis by (cases s) (simp_all, metis+)
qed

lemma fetching_owes: "fetching os si d \<sigma> n io res \<Longrightarrow> owes (er_stage \<sigma>) io"
proof (induction rule: fetching.induct)
  case (round \<sigma> m k io1 \<sigma>1 n io2 res)
  from goes_on_owes [OF round.hyps(3)] round.IH show ?case by (simp add: owes_after_def)
next
  case (fails \<sigma> m k io)
  from goes_on_owes [OF fails(3)] show ?case by (simp add: owes_after_def)
qed (simp_all add: owes_nothing)

end
