(* ===== verification/Https_Round.thy ===== *)
theory Https_Round
  imports Https_Service Setup
begin

text \<open>
  The process of the TLS client against the machine of \<open>Https_Service\<close>: \<open>running\<close> is the process while
  its circuit runs, \<open>fetch_at\<close> while it waits and \<open>ended\<close> after an error. Each arrow takes \<open>running\<close> to
  \<open>running\<close>; from one arrow to the next the lemmas follow the six arrows of the circuit, the events and
  the rounds of the event loop.
\<close>

section \<open>The process of an errand\<close>

text \<open>What stays: the pointers of \<open>main\<close>, and what the outside gave.\<close>

record fetcher =
  fx_circ :: ptr
  fx_ps :: "ptr list"
  fx_tls :: ptr
  fx_conn :: ptr
  fx_data :: ptr
  fx_blob :: ptr
  fx_site :: site

definition https_circuit :: "ptr \<Rightarrow> acirc" where
  "https_circuit tls = \<lparr>steps = [(A_connect, tls), (A_tls, tls), (A_user 0, tls), (A_tlswrite, tls), (A_tlsread, tls),
     (A_user 1, NULL)], leads = Some 4\<rparr>"

lemma https_built: "abs_build \<lparr>steps = [], leads = None\<rparr> (https_cmds tls) = Some (https_circuit tls)"
  by (simp add: https_cmds_def https_circuit_def abs_append_eq single_def abs_loop_def)

definition https_objects :: "fetcher \<Rightarrow> tlsclientP \<Rightarrow> u64 \<Rightarrow> byte list \<Rightarrow> ('k, https) world \<Rightarrow> bool" where
  "https_objects fx p sz bs w \<longleftrightarrow>
     cells (objs w) (fx_tls fx) = Some (O_tlsclientP p) \<and> epollflags p = EPOLLET \<and> readsize p = of_nat TL_CHUNK \<and>
     tc_hostname p = tc_hostname https_tls \<and>
     (\<exists>cn. cells (objs w) (fx_conn fx) = Some (O_tcpconn cn) \<and> f_fd cn = si_fd (fx_site fx) \<and> f_data cn = fx_data fx) \<and>
     cells (objs w) (fx_data fx) = Some (O_string \<lparr>s_blob = fx_blob fx, s_size = sz\<rparr>) \<and>
     cells (blobs w) (fx_blob fx) = Some bs \<and> length bs = TL_CHUNK"

definition https_process :: "'k os \<Rightarrow> fetcher \<Rightarrow> int \<Rightarrow> 'k \<Rightarrow> sysev list \<Rightarrow> ('k, https) world \<Rightarrow> bool" where
  "https_process os fx e k io w \<longleftrightarrow> w_os w = os \<and> malloc_total os \<and> log_works os (si_log (fx_site fx)) \<and>
     logging_fd w = si_log (fx_site fx) \<and> verbosity w = LOGGING_DEBUG \<and> ssl_ctx w = si_ctx (fx_site fx) \<and>
     epfd (ev w) = si_epfd (fx_site fx) \<and> epflags (ev w) = si_flags (fx_site fx) \<and> tl_status (usr w) = WORKING \<and>
     errno w = e \<and> kern w = k \<and> filter outward (trace w) = io"

definition no_bag :: "ptr \<Rightarrow> ('k, 'u) world \<Rightarrow> bool" where
  "no_bag b w \<longleftrightarrow> ev_ok w \<and> registered (ev w) = {} \<and> brk (bagh w) = b"

definition one_bag :: "fetcher \<Rightarrow> ptr \<Rightarrow> ('k, 'u) world \<Rightarrow> bool" where
  "one_bag fx b w \<longleftrightarrow> ev_ok w \<and> registered (ev w) = {b} \<and> brk (bagh w) = Suc b \<and>
     waits_for (waiting_bag (si_fd (fx_site fx)) (fx_circ fx) NULL (fx_conn fx)) b w"

definition running :: "'k os \<Rightarrow> fetcher \<Rightarrow> tlsclientP \<Rightarrow> u64 \<Rightarrow> byte list \<Rightarrow> int \<Rightarrow> 'k \<Rightarrow> sysev list \<Rightarrow> ptr \<Rightarrow>
    ('k, https) world \<Rightarrow> bool" where
  "running os fx p sz bs e k io b w \<longleftrightarrow> https_objects fx p sz bs w \<and> https_process os fx e k io w \<and> no_bag b w"

definition in_circuit :: "fetcher \<Rightarrow> ('k, 'u) world \<Rightarrow> bool" where
  "in_circuit fx w \<longleftrightarrow> circuit (elems w) (fx_ps fx) (https_circuit (fx_tls fx)) \<and>
     (\<exists>C. cells (circs w) (fx_circ fx) = Some C \<and> c_err C = Some 0 \<and> c_nets C = hd (fx_ps fx))"

definition stands :: "'k os \<Rightarrow> fetcher \<Rightarrow> nat \<Rightarrow> tlsclientP \<Rightarrow> u64 \<Rightarrow> byte list \<Rightarrow> int \<Rightarrow> 'k \<Rightarrow> sysev list \<Rightarrow> ptr \<Rightarrow>
    ('k, https) world \<Rightarrow> bool" where
  "stands os fx i p sz bs e k io b w \<longleftrightarrow> running os fx p sz bs e k io b w \<and> in_circuit fx w \<and>
     at_step w (fx_circ fx) (fx_ps fx) (https_circuit (fx_tls fx)) i"

text \<open>The current step of a stage, and what it finds in the settings and the buffer.\<close>

fun step_of :: "stage \<Rightarrow> nat" where
  "step_of Connecting = 0"
| "step_of (Handshaking ssl) = 1"
| "step_of (Sending ssl) = 3"
| "step_of (Reading ssl) = 4"

fun finds :: "stage \<Rightarrow> tlsclientP \<Rightarrow> u64 \<Rightarrow> byte list \<Rightarrow> bool" where
  "finds Connecting p sz bs = (tc_status p = TC_CONNECTING \<and> tls_status p \<noteq> TLS_CONNECTING)"
| "finds (Handshaking ssl) p sz bs = (tls_ssl p = ssl \<and> tls_status p = TLS_CONNECTING)"
| "finds (Sending ssl) p sz bs = (tls_ssl p = ssl \<and> sz = of_nat (length the_request) \<and> take (length the_request) bs = the_request)"
| "finds (Reading ssl) p sz bs = (tls_ssl p = ssl)"

definition fetch_at :: "'k os \<Rightarrow> fetcher \<Rightarrow> 'k errand \<Rightarrow> sysev list \<Rightarrow> ('k, https) world \<Rightarrow> bool" where
  "fetch_at os fx \<sigma> io w \<longleftrightarrow> (\<exists>p sz bs. https_objects fx p sz bs w \<and> finds (er_stage \<sigma>) p sz bs) \<and>
     https_process os fx (er_errno \<sigma>) (er_kern \<sigma>) io w \<and> one_bag fx (er_bag \<sigma>) w \<and> in_circuit fx w \<and>
     at_step w (fx_circ fx) (fx_ps fx) (https_circuit (fx_tls fx)) (step_of (er_stage \<sigma>))"

definition ended :: "fetcher \<Rightarrow> sysev list \<Rightarrow> ('k, https) world \<Rightarrow> bool" where
  "ended fx io w \<longleftrightarrow> ev_ok w \<and> registered (ev w) = {} \<and> in_circuit fx w \<and> tl_status (usr w) = EXIT_FAILURE \<and>
     filter outward (trace w) = io"

definition comes_to :: "'k os \<Rightarrow> fetcher \<Rightarrow> 'k errand option \<Rightarrow> sysev list \<Rightarrow> ('k, https) world \<Rightarrow> bool" where
  "comes_to os fx res io w = (case res of None \<Rightarrow> ended fx io w | Some \<sigma> \<Rightarrow> fetch_at os fx \<sigma> io w)"

definition step_run :: "fetcher \<Rightarrow> nat \<Rightarrow> nat \<Rightarrow> ('k, https) world \<Rightarrow> fault + unit \<times> ('k, https) world" where
  "step_run fx i n = (let t = steps (https_circuit (fx_tls fx)) ! i in
     exec https_program n (Run (fst t) (fx_circ fx) NULL (fx_conn fx) (snd t)))"

lemmas https_defs = running_def https_objects_def https_process_def no_bag_def

section \<open>From one arrow to the next\<close>

lemma running_goto [simp]: "running os fx p sz bs e k io b (goto c q w) = running os fx p sz bs e k io b w"
proof -
  have "verbosity (goto c q w) = verbosity w" "logging_fd (goto c q w) = logging_fd w" "ssl_ctx (goto c q w) = ssl_ctx w"
    by (simp_all add: goto_def)
  then show ?thesis by (simp add: https_defs ev_ok_def)
qed

lemma in_circuit_goto: "in_circuit fx w \<Longrightarrow> in_circuit fx (goto (fx_circ fx) q w)"
  by (auto simp: in_circuit_def goto_def)

lemma moves:
  assumes st: "stands os fx i p sz bs e k io b w" and run: "\<And>call. run_task https_program call (fst (steps (https_circuit (fx_tls fx)) ! i))
      (fx_circ fx) NULL (fx_conn fx) (snd (steps (https_circuit (fx_tls fx)) ! i)) w = returnA call (fx_circ fx) NULL (fx_conn fx) w1"
    and "elems w1 = elems w" and "circs w1 = circs w" and w1: "running os fx p' sz' bs' e' k' io' b w1"
    and j: "abs_next (https_circuit (fx_tls fx)) i = Some j"
  shows "\<exists>w'. step_run fx i (Suc n) w = step_run fx j n w' \<and> stands os fx j p' sz' bs' e' k' io' b w'"
proof -
  let ?a = "https_circuit (fx_tls fx)" and ?w = "goto (fx_circ fx) (fx_ps fx ! j) w1"
  have at: "at_step w1 (fx_circ fx) (fx_ps fx) ?a i" and ci: "in_circuit fx w1"
    using st assms(3,4) by (simp_all add: stands_def at_step_def in_circuit_def)
  have "j < length (fx_ps fx)" using ci j by (auto simp: in_circuit_def intro: abs_next_less)
  then have "stands os fx j p' sz' bs' e' k' io' b ?w"
    using w1 in_circuit_goto [OF ci] at_step_goto [OF at] by (simp add: stands_def)
  moreover have "step_run fx i (Suc n) w = step_run fx j n ?w"
    using returnA_step [OF at, of "exec https_program n" NULL "fx_conn fx"] run j by (simp add: step_run_def Let_def)
  ultimately show ?thesis by blast
qed

lemma https_next [simp]:
  "abs_next (https_circuit tls) 0 = Some 1" "abs_next (https_circuit tls) (Suc 0) = Some 2" "abs_next (https_circuit tls) 2 = Some 3"
  "abs_next (https_circuit tls) 3 = Some 4" "abs_next (https_circuit tls) 4 = Some 5" "abs_next (https_circuit tls) 5 = Some 4"
  by (simp_all add: https_circuit_def abs_next_def)

lemma https_step [simp]:
  "steps (https_circuit tls) ! 0 = (A_connect, tls)" "steps (https_circuit tls) ! Suc 0 = (A_tls, tls)"
  "steps (https_circuit tls) ! 2 = (A_user 0, tls)" "steps (https_circuit tls) ! 3 = (A_tlswrite, tls)"
  "steps (https_circuit tls) ! 4 = (A_tlsread, tls)" "steps (https_circuit tls) ! 5 = (A_user 1, NULL)"
  by (simp_all add: https_circuit_def)

text \<open>What the arrows see.\<close>

lemma running_sees:
  assumes "running os fx p sz bs e k io b w"
  obtains cn where "cells (objs w) (fx_tls fx) = Some (O_tlsclientP p)" and "cells (objs w) (fx_conn fx) = Some (O_tcpconn cn)"
    and "f_fd cn = si_fd (fx_site fx)" and "f_data cn = fx_data fx"
    and "cells (objs w) (fx_data fx) = Some (O_string \<lparr>s_blob = fx_blob fx, s_size = sz\<rparr>)"
    and "cells (blobs w) (fx_blob fx) = Some bs" and "w_os w = os" and "errno w = e" and "kern w = k"
    and "fx_conn fx \<noteq> fx_tls fx" and "fx_data fx \<noteq> fx_tls fx" and "fx_data fx \<noteq> fx_conn fx"
    and "obj_as w as_tlsclientP (fx_tls fx) = Some p"
    and "sees as_file f_data (fx_conn fx) (fileS.truncate cn) \<lparr>s_blob = fx_blob fx, s_size = sz\<rparr> bs w"
    and "f_fd (fileS.truncate cn) = si_fd (fx_site fx)" and "f_data (fileS.truncate cn) = fx_data fx"
proof -
  obtain cn where o: "cells (objs w) (fx_tls fx) = Some (O_tlsclientP p)" "cells (objs w) (fx_conn fx) = Some (O_tcpconn cn)"
    "f_fd cn = si_fd (fx_site fx)" "f_data cn = fx_data fx"
    "cells (objs w) (fx_data fx) = Some (O_string \<lparr>s_blob = fx_blob fx, s_size = sz\<rparr>)" "cells (blobs w) (fx_blob fx) = Some bs"
    using assms by (auto simp: running_def https_objects_def)
  moreover have "fx_conn fx \<noteq> fx_tls fx" "fx_data fx \<noteq> fx_tls fx" "fx_data fx \<noteq> fx_conn fx" using o by auto
  moreover have "sees as_file f_data (fx_conn fx) (fileS.truncate cn) \<lparr>s_blob = fx_blob fx, s_size = sz\<rparr> bs w"
    using o by (simp add: sees_def obj_as_def fileS.truncate_def)
  moreover have "obj_as w as_tlsclientP (fx_tls fx) = Some p" using o(1) by (simp add: obj_as_def)
  moreover have "f_fd (fileS.truncate cn) = si_fd (fx_site fx)" "f_data (fileS.truncate cn) = fx_data fx"
    using o(3,4) by (simp_all add: fileS.truncate_def)
  ultimately show thesis using that assms by (simp add: running_def https_process_def)
qed

text \<open>Calls that are not seen outside, and \<open>errno\<close>.\<close>

lemma running_call: "running os fx p sz bs e k io b w \<Longrightarrow> \<not> outward sc \<Longrightarrow> running os fx p sz bs e k' io b (after_call sc k' w)"
  by (simp add: https_defs ev_ok_def) (simp add: after_call_def)

lemma running_errno: "running os fx p sz bs e k io b w \<Longrightarrow> running os fx p sz bs e' k io b (w\<lparr>errno := e'\<rparr>)"
  by (simp add: https_defs ev_ok_def)

lemma running_ssl: "running os fx p sz bs e k io b w \<Longrightarrow> \<not> outward sc \<Longrightarrow>
    running os fx p sz bs e' k' io b ((after_call sc k' w)\<lparr>errno := e'\<rparr>)"
  by (intro running_errno running_call)

lemma running_logged: "running os fx p sz bs e k io b w \<Longrightarrow>
    running os fx p sz bs e (shown os (si_log (fx_site fx)) ts k) io b (logged ts w)"
proof -
  have "filter outward (map (SysPrint fd) ts) = []" for fd by (simp add: filter_map comp_def)
  moreover have "ssl_ctx (logged ts w) = ssl_ctx w" by (simp add: logged_def)
  ultimately show "running os fx p sz bs e k io b w \<Longrightarrow>
    running os fx p sz bs e (shown os (si_log (fx_site fx)) ts k) io b (logged ts w)" by (simp add: https_defs ev_ok_def)
qed

section \<open>Going to sleep\<close>

lemma in_circuit_frame: "elems w' = elems w \<Longrightarrow> circs w' = circs w \<Longrightarrow> in_circuit fx w' = in_circuit fx w"
  by (simp add: in_circuit_def)

lemma fetch_asleep:
  assumes r: "running os fx p sz bs e k io b w" and ar: "arms os (fx_site fx) op b e k e' k'" and f: "finds s p sz bs"
    and ci: "in_circuit fx w" "at_step w (fx_circ fx) (fx_ps fx) (https_circuit (fx_tls fx)) (step_of s)"
  shows "\<exists>w'. waitA call (fx_circ fx) NULL (fx_conn fx) (si_fd (fx_site fx)) op EPOLLET w = Inr ((), w') \<and>
    fetch_at os fx \<lparr>er_stage = s, er_bag = b, er_errno = e', er_kern = k'\<rparr> io w'"
proof -
  let ?b = "waiting_bag (si_fd (fx_site fx)) (fx_circ fx) NULL (fx_conn fx)"
  have p: "https_process os fx e k io w" and nb: "no_bag b w" and ob: "https_objects fx p sz bs w" using r by (simp_all add: running_def)
  have m: "os_malloc (w_os w) (kern w) = (True, fed os k)" using p by (auto simp: https_process_def intro: fed_eq)
  have "\<exists>cs. waitA call (fx_circ fx) NULL (fx_conn fx) (si_fd (fx_site fx)) op EPOLLET w = Inr ((), parked ?b cs e' k' w) \<and>
      filter outward cs = []"
    using ar
  proof cases
    case known
    with waitA_known [OF m, of "si_fd (fx_site fx)" op EPOLLET k' call "fx_circ fx" NULL "fx_conn fx"] p nb
    show ?thesis by (intro exI [of _ "[SysEpollCtl EPOLL_CTL_MOD (si_fd (fx_site fx))]"]) (simp add: https_process_def no_bag_def)
  next
    case (added k1)
    with waitA_added [OF m, of "si_fd (fx_site fx)" op EPOLLET k1 k' call "fx_circ fx" NULL "fx_conn fx"] p nb
    show ?thesis by (intro exI [of _ "[SysEpollCtl EPOLL_CTL_MOD (si_fd (fx_site fx)), SysEpollCtl EPOLL_CTL_ADD (si_fd (fx_site fx))]"])
        (simp add: https_process_def no_bag_def)
  qed
  then obtain cs where run: "waitA call (fx_circ fx) NULL (fx_conn fx) (si_fd (fx_site fx)) op EPOLLET w = Inr ((), parked ?b cs e' k' w)"
    and cs: "filter outward cs = []" by blast
  let ?w = "parked ?b cs e' k' w"
  have ok: "ev_ok w" "card (registered (ev w)) < EV_MAXEVENTS" using nb by (simp_all add: no_bag_def EV_MAXEVENTS_def)
  have bb: "brk (bagh w) = b" "registered (ev w) = {}" using nb by (simp_all add: no_bag_def)
  have "one_bag fx b ?w" using parked_table(1-3) [OF ok, where b = ?b and cs = cs and en = e' and k = k'] bb
    by (simp add: one_bag_def new_cell_def)
  moreover have "https_process os fx e' k' io ?w" using p cs by (simp add: https_process_def) (simp add: parked_def)
  moreover have "https_objects fx p sz bs ?w" using ob by (simp add: https_objects_def)
  ultimately show ?thesis
    using run ci f by (intro exI [of _ ?w]) (auto simp: fetch_at_def in_circuit_def at_step_def)
qed

section \<open>The arrows\<close>

text \<open>A call of OpenSSL.\<close>

definition called :: "sysev \<Rightarrow> int \<Rightarrow> 'k \<Rightarrow> ('k, 'u) world \<Rightarrow> ('k, 'u) world" where
  "called sc e k w = (after_call sc k w)\<lparr>errno := e\<rparr>"

lemma called_simps [simp]:
  "w_os (called sc e k w) = w_os w" "errno (called sc e k w) = e" "kern (called sc e k w) = k"
  "objs (called sc e k w) = objs w" "blobs (called sc e k w) = blobs w" "elems (called sc e k w) = elems w"
  "circs (called sc e k w) = circs w" "obj_as (called sc e k w) cast q = obj_as w cast q" "ssl_ctx (called sc e k w) = ssl_ctx w"
  by (simp_all add: called_def after_call_def obj_as_def)

lemma running_called: "running os fx p sz bs e k io b w \<Longrightarrow> \<not> outward sc \<Longrightarrow> running os fx p sz bs e' k' io b (called sc e' k' w)"
  unfolding called_def by (rule running_ssl)

lemma running_sent: "running os fx p sz bs e k io b w \<Longrightarrow>
    running os fx p sz bs e' k' (io @ [SslWrite ssl xs]) b (called (SslWrite ssl xs) e' k' w)"
  unfolding called_def by (simp add: https_defs ev_ok_def) (simp add: after_call_def)

lemma ssl_called: "f (os_ssl (w_os w)) (errno w) (kern w) = (r, e, k) \<Longrightarrow> mbind (sslcall sc f) K w = K r (called sc e k w)"
  unfolding called_def by (rule sslcall_bind)

lemma ssl_set_called: "os_SSL_set (os_ssl (w_os w)) st ssl (errno w) (kern w) = (r, e, k) \<Longrightarrow>
    mbind (ssl_set st ssl) K w = K r (called (SslSet st) e k w)"
  unfolding ssl_set_def by (rule ssl_called)

lemma error_called: "os_ERR_get_error (os_ssl (w_os w)) (errno w) (kern w) = (r, e, k) \<Longrightarrow>
    mbind ERR_get_error K w = K r (called SslError e k w)"
  unfolding ERR_get_error_def by (rule ssl_called)

lemma set_tls_then: "cells (objs w) q = Some (O_tlsclientP p) \<Longrightarrow>
    mthen (set_tls g q) d w = d (obj_set q (O_tlsclientP (g p)) w)"
  by (simp add: set_tls_def runs obj_as_def mthen_mbind obj_set_def)

lemma obj_set_frame [simp]: "elems (obj_set q ob w) = elems w" "circs (obj_set q ob w) = circs w" "ssl_ctx (obj_set q ob w) = ssl_ctx w"
  by (simp_all add: obj_set_def)

lemma running_set:
  assumes r: "running os fx p sz bs e k io b w" and "epollflags (g p) = epollflags p" "readsize (g p) = readsize p" "tc_hostname (g p) = tc_hostname p"
  shows "running os fx (g p) sz bs e k io b (obj_set (fx_tls fx) (O_tlsclientP (g p)) w)"
  by (rule running_sees [OF r]) (use assms in \<open>simp add: https_defs ev_ok_def, simp add: obj_set_def\<close>)

text \<open>\<open>connectA\<close>, called again when the connection is there.\<close>

lemma connect_completes:
  assumes r: "running os fx p sz bs e k io b w" and "tc_status p = TC_CONNECTING"
    and "os_so_error os (si_fd (fx_site fx)) k = (Inr 0, k1)" and "os_getsockname os (si_fd (fx_site fx)) k1 = (Inr sa, k2)"
  shows "\<exists>w1. (\<forall>call. connectA call c s (fx_conn fx) (fx_tls fx) w = returnA call c s (fx_conn fx) w1) \<and>
    elems w1 = elems w \<and> circs w1 = circs w \<and> running os fx (p\<lparr>tc_status := TC_CONNECTED\<rparr>) sz bs e k2 io b w1"
proof (rule running_sees [OF r])
  fix cn assume o: "cells (objs w) (fx_tls fx) = Some (O_tlsclientP p)" "cells (objs w) (fx_conn fx) = Some (O_tcpconn cn)"
    "f_fd cn = si_fd (fx_site fx)" "f_data cn = fx_data fx" "w_os w = os" "kern w = k" "fx_conn fx \<noteq> fx_tls fx"
    "fx_data fx \<noteq> fx_conn fx" "cells (objs w) (fx_data fx) = Some (O_string \<lparr>s_blob = fx_blob fx, s_size = sz\<rparr>)"
  let ?w1 = "after_call (SysSoError (f_fd cn)) k1 w"
  let ?w2 = "obj_set (fx_tls fx) (O_tlsclientP (p\<lparr>tc_status := TC_CONNECTED\<rparr>)) ?w1"
  let ?w4 = "obj_set (fx_conn fx) (O_tcpconn (cn\<lparr>localaddr := sa\<rparr>)) (after_call (SysSockname (f_fd cn)) k2 ?w2)"
  have "as_tcpclientP (O_tlsclientP p) = Some (tcpclientP.truncate p)" "tc_status (tcpclientP.truncate p) = TC_CONNECTING"
    using assms(2) by (simp_all add: tcpclientP.defs)
  then have run: "connectA call c s (fx_conn fx) (fx_tls fx) w = returnA call c s (fx_conn fx) ?w4" for call
    using connectA_completed [OF o(1) _ _ o(2,7), of "tcpclientP.truncate p" k1 sa k2 call c s] assms(3,4) o by simp
  have "running os fx p sz bs e k1 io b ?w1" by (rule running_call [OF r]) simp
  then have "running os fx (p\<lparr>tc_status := TC_CONNECTED\<rparr>) sz bs e k1 io b ?w2"
    by (rule running_set [where g = "\<lambda>p. p\<lparr>tc_status := TC_CONNECTED\<rparr>"]) simp_all
  then have "running os fx (p\<lparr>tc_status := TC_CONNECTED\<rparr>) sz bs e k2 io b (after_call (SysSockname (f_fd cn)) k2 ?w2)"
    by (rule running_call) simp
  then have "running os fx (p\<lparr>tc_status := TC_CONNECTED\<rparr>) sz bs e k2 io b ?w4"
    using o by (simp add: https_defs ev_ok_def) (simp add: obj_set_def)
  with run show ?thesis by (intro exI [of _ ?w4]) simp
qed

section \<open>The handshake\<close>

text \<open>The first call of \<open>tlsA\<close> makes a session.\<close>

lemma tls_prepares:
  assumes r: "running os fx p sz bs e k io b w" and st: "tls_status p \<noteq> TLS_CONNECTING" and pr: "prepared os (fx_site fx) ssl e k e' k'"
  shows "\<exists>w1. (\<forall>call. tlsA call c s (fx_conn fx) (fx_tls fx) w = tls_handshake call c s (fx_conn fx) (fx_tls fx) w1) \<and>
    elems w1 = elems w \<and> circs w1 = circs w \<and> running os fx (p\<lparr>tls_ssl := ssl, tls_status := TLS_CONNECTING\<rparr>) sz bs e' k' io b w1"
  using pr
proof cases
  case (session e1 k1)
  let ?h = "tc_hostname https_tls"
  have h: "tc_hostname p = ?h" "ssl_ctx w = si_ctx (fx_site fx)" using r by (simp_all add: https_defs)
  from session(3) obtain r1 e2 k2 r2 e3 k3 e4 k4 e5 k5 e6 k6 r6 e7 k7 where sets:
    "os_SSL_set (os_ssl os) (Set_fd (si_fd (fx_site fx))) ssl e1 k1 = (r1, e2, k2)"
    "os_SSL_set (os_ssl os) Set_connect_state ssl e2 k2 = (r2, e3, k3)"
    "os_SSL_set (os_ssl os) (Set1_host ?h) ssl e3 k3 = (1, e4, k4)"
    "os_SSL_set (os_ssl os) (Set_cipher_list PREFERRED_CIPHERS) ssl e4 k4 = (1, e5, k5)"
    "os_SSL_set (os_ssl os) (Set_tlsext_host_name ?h) ssl e5 k5 = (1, e6, k6)"
    "os_SSL_set (os_ssl os) Set_hostflags ssl e6 k6 = (r6, e7, k7)"
    "os_SSL_set (os_ssl os) (Set1_host ?h) ssl e7 k7 = (1, e', k')"
    unfolding session_settings_def by (auto simp: takes_simps)
  obtain cn :: tcpconnS where o: "cells (objs w) (fx_tls fx) = Some (O_tlsclientP p)" "obj_as w as_tlsclientP (fx_tls fx) = Some p"
    "sees as_file f_data (fx_conn fx) (fileS.truncate cn) \<lparr>s_blob = fx_blob fx, s_size = sz\<rparr> bs w"
    "f_fd (fileS.truncate cn) = si_fd (fx_site fx)" "w_os w = os" "errno w = e" "kern w = k"
    by (rule running_sees [OF r])
  define p1 where "p1 = p\<lparr>tls_ssl := ssl\<rparr>"
  define w1 where "w1 = obj_set (fx_tls fx) (O_tlsclientP p1) (called SslNew e1 k1 w)"
  have r1: "running os fx p1 sz bs e1 k1 io b w1"
    unfolding w1_def p1_def by (rule running_set [where g = "\<lambda>p. p\<lparr>tls_ssl := ssl\<rparr>"]) (simp_all add: running_called [OF r])
  define w2 where "w2 = called (SslSet (Set1_host ?h)) e' k' (called (SslSet Set_hostflags) e7 k7
     (called (SslSet (Set_tlsext_host_name ?h)) e6 k6 (called (SslSet (Set_cipher_list PREFERRED_CIPHERS)) e5 k5
     (called (SslSet (Set1_host ?h)) e4 k4 (called (SslSet Set_connect_state) e3 k3
     (called (SslSet (Set_fd (si_fd (fx_site fx)))) e2 k2 w1))))))"
  have r2: "running os fx p1 sz bs e' k' io b w2"
    unfolding w2_def by (rule running_called, rule running_called, rule running_called, rule running_called, rule running_called,
        rule running_called, rule running_called, rule r1) simp_all
  have fr: "elems w2 = elems w" "circs w2 = circs w" "cells (objs w2) (fx_tls fx) = Some (O_tlsclientP p1)"
    by (simp_all add: w2_def w1_def)
  have w1: "w_os w1 = os" "errno w1 = e1" "kern w1 = k1" using r1 by (simp_all add: https_defs)
  have prep: "mbind (openssl_prepare (si_ctx (fx_site fx)) (fx_tls fx) (si_fd (fx_site fx)) ?h) K w = K 0 w2"
    for K :: "u64 \<Rightarrow> ('a, https, unit) wm"
  proof -
    have "mbind (openssl_prepare (si_ctx (fx_site fx)) (fx_tls fx) (si_fd (fx_site fx)) ?h) K w =
        mbind (ssl_set (Set_fd (si_fd (fx_site fx))) ssl) (\<lambda>_. mbind (ssl_set Set_connect_state ssl) (\<lambda>_.
        mbind (ssl_set (Set1_host ?h) ssl) (\<lambda>res. mbind (if res \<noteq> 1 then ERR_get_error
        else mbind (ssl_set (Set_cipher_list PREFERRED_CIPHERS) ssl) (\<lambda>res. if res \<noteq> 1 then ERR_get_error
        else mbind (ssl_set (Set_tlsext_host_name ?h) ssl) (\<lambda>res.
            mthen (if res \<noteq> 1 then
                mbind ERR_get_error (\<lambda>sslerr. mbind (OPENSSL_REASON sslerr) (\<lambda>reason.
                logging_log LOGGING_ERROR ''meloop/openssl_helpers.c'' 64 ''openssl_prepare''
                  (Some (''SSL_set_tlsext_host_name: '' @ text_of reason))))
              else mret ())
            (mbind (ssl_set Set_hostflags ssl) (\<lambda>_. mbind (ssl_set (Set1_host ?h) ssl) (\<lambda>res.
            if res = 0 then ERR_get_error else mret 0)))))) K))) w1"
      using session(1,2) o by (simp add: openssl_prepare_def mbind_assoc ssl_called set_tls_then mbind_mthen w1_def p1_def)
    then show ?thesis
      using sets w1 by (simp add: ssl_set_called mbind_assoc w2_def)
  qed
  let ?w3 = "obj_set (fx_tls fx) (O_tlsclientP (p1\<lparr>tls_status := TLS_CONNECTING\<rparr>)) w2"
  have "tlsA call c s (fx_conn fx) (fx_tls fx) w = tls_handshake call c s (fx_conn fx) (fx_tls fx) ?w3" for call
    using o h st fr(3) by (simp add: tlsA_def load_as_bind sees_def mgets_bind prep set_tls_then mthen_mret)
  moreover have "running os fx (p1\<lparr>tls_status := TLS_CONNECTING\<rparr>) sz bs e' k' io b ?w3"
    by (rule running_set [where g = "\<lambda>p. p\<lparr>tls_status := TLS_CONNECTING\<rparr>", OF r2]) simp_all
  ultimately show ?thesis using fr by (intro exI [of _ ?w3]) (simp add: p1_def)
qed

lemma tls_continues:
  assumes r: "running os fx p sz bs e k io b w" and "tls_status p = TLS_CONNECTING"
  shows "tlsA call c s (fx_conn fx) (fx_tls fx) w = tls_handshake call c s (fx_conn fx) (fx_tls fx) w"
  by (rule running_sees [OF r]) (use assms(2) in \<open>simp add: tlsA_def load_as_bind\<close>)

text \<open>A line of the log of \<open>tlsA\<close>.\<close>

lemma tls_log:
  assumes "running os fx p sz bs e k io b w"
  shows "mthen (logging_log LOGGING_INFO ''meloop/tls.c'' line ''tlsA'' (Some msg)) d w = d (logged (tls_info line msg) w)"
proof -
  have "log_works (w_os w) (logging_fd w)" "LOGGING_INFO \<le> verbosity w"
    using assms by (simp_all add: https_defs less_eq_logging_verbosity_def)
  then show ?thesis by (simp add: logging_log_then tls_info_def)
qed

lemma tls_connects:
  assumes r: "running os fx p sz bs e k io b w"
  shows "\<exists>w1. (\<forall>call. tls_connected call c s (fx_conn fx) (fx_tls fx) w = returnA call c s (fx_conn fx) w1) \<and>
    elems w1 = elems w \<and> circs w1 = circs w \<and>
    running os fx (p\<lparr>tls_status := TLS_CONNECTED\<rparr>) sz bs 0 (shown os (si_log (fx_site fx)) (tls_info 111 ''SSL Connected'') k) io b w1"
proof -
  let ?w1 = "logged (tls_info 111 ''SSL Connected'') w" and ?p = "p\<lparr>tls_status := TLS_CONNECTED\<rparr>"
  let ?w2 = "obj_set (fx_tls fx) (O_tlsclientP ?p) ?w1"
  note r1 = running_logged [OF r, of "tls_info 111 ''SSL Connected''"]
  have "cells (objs ?w1) (fx_tls fx) = Some (O_tlsclientP p)" using r by (simp add: https_defs)
  then have "tls_connected call c s (fx_conn fx) (fx_tls fx) w = returnA call c s (fx_conn fx) (errno_set 0 ?w2)" for call
    by (simp add: tls_connected_def tls_log [OF r] set_tls_then set_errno_then mthen_mret)
  moreover have "running os fx ?p sz bs e (shown os (si_log (fx_site fx)) (tls_info 111 ''SSL Connected'') k) io b ?w2"
    by (rule running_set [where g = "\<lambda>p. p\<lparr>tls_status := TLS_CONNECTED\<rparr>", OF r1]) simp_all
  then have "running os fx ?p sz bs 0 (shown os (si_log (fx_site fx)) (tls_info 111 ''SSL Connected'') k) io b (errno_set 0 ?w2)"
    unfolding errno_set_def by (rule running_errno)
  moreover have "elems (errno_set 0 ?w2) = elems w" "circs (errno_set 0 ?w2) = circs w" by (simp_all add: errno_set_def)
  ultimately show ?thesis by blast
qed

lemma shown_append: "shown os fd (xs @ ys) k = shown os fd ys (shown os fd xs k)"
  by (simp add: shown_def)

lemma handshake_agrees:
  assumes r: "running os fx p sz bs e k io b w" and ag: "agreed os (fx_site fx) (tls_ssl p) e k k'"
  shows "\<exists>w1. (\<forall>call. tls_handshake call c s (fx_conn fx) (fx_tls fx) w = returnA call c s (fx_conn fx) w1) \<and>
    elems w1 = elems w \<and> circs w1 = circs w \<and> running os fx (p\<lparr>tls_status := TLS_CONNECTED\<rparr>) sz bs 0 k' io b w1"
proof (rule running_sees [OF r])
  fix cn :: tcpconnS assume o: "obj_as w as_tlsclientP (fx_tls fx) = Some p" "w_os w = os" "errno w = e" "kern w = k"
    "sees as_file f_data (fx_conn fx) (fileS.truncate cn) \<lparr>s_blob = fx_blob fx, s_size = sz\<rparr> bs w"
  show ?thesis
    using ag
  proof cases
    case (established e1 k1)
    let ?w = "called (SslConnect (tls_ssl p)) e1 k1 w"
    have "tls_handshake call c s (fx_conn fx) (fx_tls fx) w = tls_connected call c s (fx_conn fx) (fx_tls fx) ?w" for call
      using o established by (simp add: tls_handshake_def load_as_bind ssl_called)
    moreover have "running os fx p sz bs e1 k1 io b ?w" by (rule running_called [OF r]) simp
    from tls_connects [OF this, of c s] obtain w1 where
      "\<forall>call. tls_connected call c s (fx_conn fx) (fx_tls fx) ?w = returnA call c s (fx_conn fx) w1"
      "elems w1 = elems w" "circs w1 = circs w" "running os fx (p\<lparr>tls_status := TLS_CONNECTED\<rparr>) sz bs 0 k' io b w1"
      using established(1) by auto
    ultimately show ?thesis by auto
  next
    case (no_error r' e1 k1 e2 k2)
    let ?w = "called SslError e2 k2 (called (SslConnect (tls_ssl p)) e1 k1 w)" let ?v = "logged (tls_info 94 ''SSL OK'') ?w"
    have rw: "running os fx p sz bs e2 k2 io b ?w" by (rule running_called [OF running_called [OF r]]) simp_all
    have "tls_handshake call c s (fx_conn fx) (fx_tls fx) w = tls_connected call c s (fx_conn fx) (fx_tls fx) ?v" for call
      using o no_error by (simp add: tls_handshake_def load_as_bind ssl_called sees_def OK_def tls_log [OF rw] mthen_mret)
    moreover from tls_connects [OF running_logged [OF rw, of "tls_info 94 ''SSL OK''"], of c s] obtain w1 where
      "\<forall>call. tls_connected call c s (fx_conn fx) (fx_tls fx) ?v = returnA call c s (fx_conn fx) w1"
      "elems w1 = elems w" "circs w1 = circs w" "running os fx (p\<lparr>tls_status := TLS_CONNECTED\<rparr>) sz bs 0 k' io b w1"
      using no_error(1) by (auto simp: shown_append)
    ultimately show ?thesis by auto
  qed
qed

text \<open>OpenSSL wants something, or gives up.\<close>

definition refusal :: "int \<Rightarrow> string" where
  "refusal err = (if err = SSL_ERROR_WANT_X509_LOOKUP then ''SSL_ERROR_WANT_X509_LOOKUP'' else ''Error SSL_connect: '' @ dec_int err)"

lemma handshake_stops:
  assumes r: "running os fx p sz bs e k io b w" and c: "os_SSL_connect (os_ssl os) (tls_ssl p) e k = (r', e1, k1)" "r' \<noteq> 1"
    and err: "os_SSL_get_error (os_ssl os) (tls_ssl p) r' e1 k1 = (err, e2, k2)" and "err \<noteq> OK"
  shows "\<exists>w1. (\<forall>call. tls_handshake call c s (fx_conn fx) (fx_tls fx) w =
      (if err = SSL_ERROR_WANT_READ then waitA call c s (fx_conn fx) (si_fd (fx_site fx)) EPOLLIN EPOLLET w1
       else if err = SSL_ERROR_WANT_WRITE then waitA call c s (fx_conn fx) (si_fd (fx_site fx)) EPOLLOUT EPOLLET w1
       else errorA call c s (fx_conn fx) (Some (refusal err)) w1)) \<and>
    elems w1 = elems w \<and> circs w1 = circs w \<and> running os fx p sz bs e2 k2 io b w1"
proof (rule running_sees [OF r])
  fix cn :: tcpconnS assume o: "obj_as w as_tlsclientP (fx_tls fx) = Some p" "w_os w = os" "errno w = e" "kern w = k"
    "sees as_file f_data (fx_conn fx) (fileS.truncate cn) \<lparr>s_blob = fx_blob fx, s_size = sz\<rparr> bs w"
    "f_fd (fileS.truncate cn) = si_fd (fx_site fx)"
  let ?w = "called SslError e2 k2 (called (SslConnect (tls_ssl p)) e1 k1 w)"
  have "epollflags p = EPOLLET" using r by (simp add: https_defs)
  then have "tls_handshake call c s (fx_conn fx) (fx_tls fx) w =
      (if err = SSL_ERROR_WANT_READ then waitA call c s (fx_conn fx) (si_fd (fx_site fx)) EPOLLIN EPOLLET ?w
       else if err = SSL_ERROR_WANT_WRITE then waitA call c s (fx_conn fx) (si_fd (fx_site fx)) EPOLLOUT EPOLLET ?w
       else errorA call c s (fx_conn fx) (Some (refusal err)) ?w)" for call
    using o assms(2-5) by (simp add: tls_handshake_def load_as_bind ssl_called sees_def refusal_def)
  moreover have "running os fx p sz bs e2 k2 io b ?w" by (rule running_called [OF running_called [OF r]]) simp_all
  ultimately show ?thesis by (intro exI [of _ ?w]) simp
qed

section \<open>The request and the answer\<close>

lemma length_request_bytes: "length the_request = 113" "length the_request < TL_CHUNK" "length the_request < 2 ^ 31"
  by (simp_all add: the_request_def bytes_def length_request https_tls_def TL_CHUNK_def)

lemma request_written:
  assumes r: "running os fx p sz bs e k io b w"
  shows "\<exists>w1. (\<forall>call. httpreqA call c s (fx_conn fx) (fx_tls fx) w = returnA call c s (fx_conn fx) w1) \<and>
    elems w1 = elems w \<and> circs w1 = circs w \<and>
    running os fx p (of_nat (length the_request)) (refilled (the_request @ [0]) bs) e k io b w1"
proof (rule running_sees [OF r])
  fix cn :: tcpconnS assume o: "obj_as w as_tlsclientP (fx_tls fx) = Some p" "f_data (fileS.truncate cn) = fx_data fx"
    "sees as_file f_data (fx_conn fx) (fileS.truncate cn) \<lparr>s_blob = fx_blob fx, s_size = sz\<rparr> bs w"
    "fx_data fx \<noteq> fx_tls fx" "fx_data fx \<noteq> fx_conn fx"
  have h: "bytes (request (tc_hostname p)) = the_request" "length bs = TL_CHUNK"
    using r by (simp_all add: https_defs the_request_def)
  then have l: "length (request (tc_hostname p)) = length the_request" by (metis bytes_def length_map)
  let ?w = "w\<lparr>blobs := put_cell (fx_blob fx) (refilled (the_request @ [0]) bs) (blobs w),
        objs := put_cell (fx_data fx) (O_string \<lparr>s_blob = fx_blob fx, s_size = of_nat (length the_request)\<rparr>) (objs w)\<rparr>"
  have "httpreqA call c s (fx_conn fx) (fx_tls fx) w = returnA call c s (fx_conn fx) ?w" for call
    using httpreqA_result [OF o(3,1), of call c s] o(2) h l length_request_bytes(2) by simp
  moreover have "running os fx p (of_nat (length the_request)) (refilled (the_request @ [0]) bs) e k io b ?w"
    using r o(4,5) h length_request_bytes(2) by (simp add: https_defs ev_ok_def refilled_def)
  ultimately show ?thesis by (intro exI [of _ ?w]) simp
qed

text \<open>\<open>tlswriteA\<close> with the request in the buffer.\<close>

lemma request_int: "to_int (of_nat (length the_request)) = int (length the_request)" "of_nat (length the_request) \<noteq> (0 :: u64)"
  by (simp_all add: length_request_bytes(1) to_int_def)

lemma write_sends:
  assumes r: "running os fx p (of_nat (length the_request)) bs e k io b w" and t: "take (length the_request) bs = the_request"
    and wr: "os_SSL_write (os_ssl os) (tls_ssl p) (int (length the_request)) the_request e k = (n, e1, k1)" "0 < n"
  shows "\<exists>w1. (\<forall>call. tlswriteA call c s (fx_conn fx) (fx_tls fx) w = returnA call c s (fx_conn fx) w1) \<and>
    elems w1 = elems w \<and> circs w1 = circs w \<and>
    running os fx p (of_nat (length the_request)) bs e1 k1 (io @ [SslWrite (tls_ssl p) the_request]) b w1"
proof (rule running_sees [OF r])
  fix cn :: tcpconnS assume o: "obj_as w as_tlsclientP (fx_tls fx) = Some p" "w_os w = os" "errno w = e" "kern w = k"
    "sees as_file f_data (fx_conn fx) (fileS.truncate cn) \<lparr>s_blob = fx_blob fx, s_size = of_nat (length the_request)\<rparr> bs w"
  let ?w = "called (SslWrite (tls_ssl p) the_request) e1 k1 w"
  have "length bs = TL_CHUNK" using r by (simp add: https_defs)
  then have "tlswriteA call c s (fx_conn fx) (fx_tls fx) w = returnA call c s (fx_conn fx) ?w" for call
    using o t wr request_int length_request_bytes(2)
    by (simp add: tlswriteA_def load_as_bind sees_def load_blob_bind Let_def ssl_called)
  moreover have "running os fx p (of_nat (length the_request)) bs e1 k1 (io @ [SslWrite (tls_ssl p) the_request]) b ?w"
    by (rule running_sent [OF r])
  ultimately show ?thesis by (intro exI [of _ ?w]) simp
qed

lemma write_waits:
  assumes r: "running os fx p (of_nat (length the_request)) bs e k io b w" and t: "take (length the_request) bs = the_request"
    and wr: "os_SSL_write (os_ssl os) (tls_ssl p) (int (length the_request)) the_request e k = (n, e1, k1)" "n \<le> 0"
    and er: "os_ERR_get_error (os_ssl os) e1 k1 = (code, e2, k2)"
  shows "\<exists>w1. (\<forall>call. tlswriteA call c s (fx_conn fx) (fx_tls fx) w = waitA call c s (fx_conn fx) (si_fd (fx_site fx)) EPOLLOUT EPOLLET w1) \<and>
    elems w1 = elems w \<and> circs w1 = circs w \<and>
    running os fx p (of_nat (length the_request)) bs e2 k2 (io @ [SslWrite (tls_ssl p) the_request]) b w1"
proof (rule running_sees [OF r])
  fix cn :: tcpconnS assume o: "obj_as w as_tlsclientP (fx_tls fx) = Some p" "w_os w = os" "errno w = e" "kern w = k"
    "sees as_file f_data (fx_conn fx) (fileS.truncate cn) \<lparr>s_blob = fx_blob fx, s_size = of_nat (length the_request)\<rparr> bs w"
    "f_fd (fileS.truncate cn) = si_fd (fx_site fx)"
  let ?w = "called SslError e2 k2 (called (SslWrite (tls_ssl p) the_request) e1 k1 w)"
  have "length bs = TL_CHUNK" "epollflags p = EPOLLET" using r by (simp_all add: https_defs)
  then have "tlswriteA call c s (fx_conn fx) (fx_tls fx) w = waitA call c s (fx_conn fx) (si_fd (fx_site fx)) EPOLLOUT EPOLLET ?w" for call
    using o t wr er request_int length_request_bytes(2)
    by (simp add: tlswriteA_def load_as_bind sees_def load_blob_bind Let_def ssl_called error_called SSL_ERROR_WANT_WRITE_def)
  moreover have "running os fx p (of_nat (length the_request)) bs e2 k2 (io @ [SslWrite (tls_ssl p) the_request]) b ?w"
    by (rule running_called [OF running_sent [OF r]]) simp
  ultimately show ?thesis by (intro exI [of _ ?w]) simp
qed

text \<open>\<open>tlsreadA\<close>: a piece of the answer, or nothing.\<close>

lemma chunk_int [simp]: "to_int (of_nat TL_CHUNK) = int TL_CHUNK"
  by (simp add: to_int_def TL_CHUNK_def)

lemma read_gets:
  assumes r: "running os fx p sz bs e k io b w"
    and rd: "os_SSL_read (os_ssl os) (tls_ssl p) (int TL_CHUNK) e k = ((int (length m), m), e1, k1)" "m \<noteq> []" "length m \<le> TL_CHUNK"
  shows "\<exists>w1. (\<forall>call. tlsreadA call c s (fx_conn fx) (fx_tls fx) w = returnA call c s (fx_conn fx) w1) \<and>
    elems w1 = elems w \<and> circs w1 = circs w \<and> running os fx p (of_nat (length m)) (refilled m bs) e1 k1 io b w1"
proof (rule running_sees [OF r])
  fix cn :: tcpconnS assume o: "obj_as w as_tlsclientP (fx_tls fx) = Some p" "w_os w = os" "errno w = e" "kern w = k"
    "sees as_file f_data (fx_conn fx) (fileS.truncate cn) \<lparr>s_blob = fx_blob fx, s_size = sz\<rparr> bs w"
    "f_data (fileS.truncate cn) = fx_data fx" "fx_data fx \<noteq> fx_tls fx" "fx_data fx \<noteq> fx_conn fx"
  let ?w1 = "called (SslRead (tls_ssl p)) e1 k1 w"
  let ?w2 = "?w1\<lparr>blobs := put_cell (fx_blob fx) (refilled m bs) (blobs w)\<rparr>"
  let ?w3 = "?w2\<lparr>objs := put_cell (fx_data fx) (O_string \<lparr>s_blob = fx_blob fx, s_size = of_nat (length m)\<rparr>) (objs w)\<rparr>"
  have p: "readsize p = of_nat TL_CHUNK" "length bs = TL_CHUNK" using r by (simp_all add: https_defs)
  have w2: "obj_as ?w2 as_string (fx_data fx) = Some \<lparr>s_blob = fx_blob fx, s_size = sz\<rparr>"
    using o(5,6) by (simp add: sees_def obj_as_def)
  have "tlsreadA call c s (fx_conn fx) (fx_tls fx) w = mthen (set_size (fx_data fx) (of_int (int (length m))))
      (returnA call c s (fx_conn fx)) ?w2" for call
    using o rd p by (simp add: tlsreadA_def load_as_bind sees_def ssl_called load_blob_bind store_blob_then refilled_def)
  then have "tlsreadA call c s (fx_conn fx) (fx_tls fx) w = returnA call c s (fx_conn fx) ?w3" for call
    using set_size_then [OF w2, of "of_nat (length m)" "returnA call c s (fx_conn fx)"] by simp
  moreover have "running os fx p sz bs e1 k1 io b ?w1" by (rule running_called [OF r]) simp
  then have "running os fx p (of_nat (length m)) (refilled m bs) e1 k1 io b ?w3"
    using o(7,8) rd(3) p(2) by (simp add: https_defs ev_ok_def)
  ultimately show ?thesis by (intro exI [of _ ?w3]) simp
qed

lemma tls_read_waits:
  assumes r: "running os fx p sz bs e k io b w"
    and rd: "os_SSL_read (os_ssl os) (tls_ssl p) (int TL_CHUNK) e k = ((n, []), e1, k1)" "n \<le> 0"
    and er: "os_ERR_get_error (os_ssl os) e1 k1 = (code, e2, k2)"
  shows "\<exists>w1. (\<forall>call. tlsreadA call c s (fx_conn fx) (fx_tls fx) w = waitA call c s (fx_conn fx) (si_fd (fx_site fx)) EPOLLIN EPOLLET w1) \<and>
    elems w1 = elems w \<and> circs w1 = circs w \<and> running os fx p sz bs e2 k2 io b w1"
proof (rule running_sees [OF r])
  fix cn :: tcpconnS assume o: "obj_as w as_tlsclientP (fx_tls fx) = Some p" "w_os w = os" "errno w = e" "kern w = k"
    "sees as_file f_data (fx_conn fx) (fileS.truncate cn) \<lparr>s_blob = fx_blob fx, s_size = sz\<rparr> bs w"
    "f_fd (fileS.truncate cn) = si_fd (fx_site fx)"
  let ?w = "called SslError e2 k2 (called (SslRead (tls_ssl p)) e1 k1 w)"
  have p: "readsize p = of_nat TL_CHUNK" "epollflags p = EPOLLET" using r by (simp_all add: https_defs)
  have "?w = w\<lparr>kern := k2, trace := trace w @ [SslRead (tls_ssl p), SslError], errno := e2\<rparr>"
    by (simp add: called_def after_call_def)
  then have "tlsreadA call c s (fx_conn fx) (fx_tls fx) w = waitA call c s (fx_conn fx) (si_fd (fx_site fx)) EPOLLIN EPOLLET ?w" for call
    using tlsreadA_no_data [OF o(1), of "fx_conn fx" "fileS.truncate cn" "\<lparr>s_blob = fx_blob fx, s_size = sz\<rparr>" bs n e1 k1 code e2 k2 call c s]
      o rd er p by (simp add: sees_def)
  moreover have "running os fx p sz bs e2 k2 io b ?w" by (rule running_called [OF running_called [OF r]]) simp_all
  ultimately show ?thesis by (intro exI [of _ ?w]) simp
qed

text \<open>\<open>printA\<close>: the piece up to its first zero byte.\<close>

lemma piece_text:
  assumes "m \<noteq> []" and "length m < 2 ^ 31"
  shows "prec_text (to_int (of_nat (length m))) (refilled m bs) = Some (printed_part m)"
proof -
  have n: "to_int (of_nat (length m)) = int (length m)"
    using assms(2) by (simp add: to_int_def unsigned_of_nat take_bit_nat_eq_self signed_of_nat signed_take_bit_int_eq_self)
  show ?thesis
  proof (cases "0 \<in> set m")
    case True
    then have "takeWhile (\<lambda>b. b \<noteq> 0) (refilled m bs) = takeWhile (\<lambda>b. b \<noteq> 0) m"
      unfolding refilled_def by (intro takeWhile_append1) auto
    moreover have "length (takeWhile (\<lambda>b. b \<noteq> 0) m) < length m"
      using True by (metis (mono_tags, lifting) length_takeWhile_le nat_less_le takeWhile_eq_all_conv takeWhile_eq_take take_all_iff order_refl)
    ultimately show ?thesis by (simp add: prec_text_def Let_def n printed_part_def refilled_def)
  next
    case False
    then have "takeWhile (\<lambda>b. b \<noteq> 0) (refilled m bs) = m @ takeWhile (\<lambda>b. b \<noteq> 0) (drop (length m) bs)"
      and e: "takeWhile (\<lambda>b. b \<noteq> 0) m = m"
      unfolding refilled_def by (auto intro: takeWhile_append2 simp: takeWhile_eq_all_conv)
    then have "prec_text (int (length m)) (refilled m bs) = Some (chars m)" by (simp add: prec_text_def Let_def)
    then show ?thesis unfolding n printed_part_def e .
  qed
qed

lemma piece_printed:
  assumes r: "running os fx p (of_nat (length m)) (refilled m bs) e k io b w" and m: "m \<noteq> []" "length m \<le> TL_CHUNK"
  shows "\<exists>w1. (\<forall>call. tls_printA call c s (fx_conn fx) w = returnA call c s (fx_conn fx) w1) \<and>
    elems w1 = elems w \<and> circs w1 = circs w \<and> running os fx p 0 (refilled m bs) e k (io @ [SysStdout (printed_part m)]) b w1"
proof (rule running_sees [OF r])
  fix cn :: tcpconnS assume o: "f_data (fileS.truncate cn) = fx_data fx" "fx_data fx \<noteq> fx_tls fx" "fx_data fx \<noteq> fx_conn fx"
    "sees as_file f_data (fx_conn fx) (fileS.truncate cn) \<lparr>s_blob = fx_blob fx, s_size = of_nat (length m)\<rparr> (refilled m bs) w"
  let ?w1 = "w\<lparr>trace := trace w @ [SysStdout (printed_part m)]\<rparr>"
  let ?w2 = "?w1\<lparr>objs := put_cell (fx_data fx) (O_string \<lparr>s_blob = fx_blob fx, s_size = 0\<rparr>) (objs w)\<rparr>"
  have l: "length m < 2 ^ 31" using m(2) by (simp add: TL_CHUNK_def)
  have w1: "obj_as ?w1 as_string (fx_data fx) = Some \<lparr>s_blob = fx_blob fx, s_size = of_nat (length m)\<rparr>"
    using o(1,4) by (simp add: sees_def obj_as_def)
  have "tls_printA call c s (fx_conn fx) w = mthen (set_size (fx_data fx) 0) (returnA call c s (fx_conn fx)) ?w1" for call
    using o piece_text [OF m(1) l, of bs] by (simp add: tls_printA_def load_as_bind sees_def load_text_bind printf_then)
  then have "tls_printA call c s (fx_conn fx) w = returnA call c s (fx_conn fx) ?w2" for call
    using set_size_then [OF w1, of 0 "returnA call c s (fx_conn fx)"] by simp
  moreover have "running os fx p 0 (refilled m bs) e k (io @ [SysStdout (printed_part m)]) b ?w2"
    using r o(2,3) by (simp add: https_defs ev_ok_def)
  ultimately show ?thesis by (intro exI [of _ ?w2]) simp
qed

section \<open>The circuit\<close>

text \<open>A step whose arrow resumes the circuit, and one whose arrow waits.\<close>

lemma stands_running: "stands os fx i p sz bs e k io b w \<Longrightarrow> running os fx p sz bs e k io b w"
  by (simp add: stands_def)

lemma stands_frame:
  assumes "stands os fx i p sz bs e k io b w" and "elems w1 = elems w" and "circs w1 = circs w"
  shows "in_circuit fx w1" and "at_step w1 (fx_circ fx) (fx_ps fx) (https_circuit (fx_tls fx)) i"
  using assms by (simp_all add: stands_def in_circuit_def at_step_def)

lemma waits_at:
  assumes st: "stands os fx (step_of s) p' sz' bs' e k io b w"
    and run: "\<And>call. run_task https_program call (fst (steps (https_circuit (fx_tls fx)) ! step_of s)) (fx_circ fx) NULL (fx_conn fx)
      (snd (steps (https_circuit (fx_tls fx)) ! step_of s)) w =
      waitA call (fx_circ fx) NULL (fx_conn fx) (si_fd (fx_site fx)) op EPOLLET w1"
    and fr: "elems w1 = elems w" "circs w1 = circs w" and r: "running os fx p sz bs e1 k1 io1 b w1"
    and ar: "arms os (fx_site fx) op b e1 k1 e' k'" and f: "finds s p sz bs"
  shows "\<exists>w'. step_run fx (step_of s) (Suc n) w = Inr ((), w') \<and>
    fetch_at os fx \<lparr>er_stage = s, er_bag = b, er_errno = e', er_kern = k'\<rparr> io1 w'"
  using fetch_asleep [OF r ar f stands_frame [OF st fr], of "exec https_program n"] run [of "exec https_program n"]
  by (simp add: step_run_def Let_def)

lemma https_tasks [simp]:
  "user_task https_program 0 call c s d q = httpreqA call c s d q"
  "user_task https_program (Suc 0) call c s d q = tls_printA call c s d"
  by (simp_all add: https_program_def)

lemma pieces_run:
  "pieces os ssl e k ms e' k' \<Longrightarrow> tls_ssl p = ssl \<Longrightarrow> stands os fx 4 p sz bs e k io b w \<Longrightarrow>
    \<exists>w' sz' bs'. step_run fx 4 (n + 2 * length ms) w = step_run fx 4 n w' \<and>
      stands os fx 4 p sz' bs' e' k' (io @ map (SysStdout \<circ> printed_part) ms) b w'"
proof (induction arbitrary: sz bs io w rule: pieces.induct)
  case (none e k)
  then show ?case by (intro exI [of _ w] exI [of _ sz] exI [of _ bs]) simp
next
  case (piece e k m e1 k1 ms e' k')
  have rd: "os_SSL_read (os_ssl os) (tls_ssl p) (int TL_CHUNK) e k = ((int (length m), m), e1, k1)"
    using piece.hyps(1) piece.prems(1) by simp
  obtain w1 where w1: "\<And>call. tlsreadA call (fx_circ fx) NULL (fx_conn fx) (fx_tls fx) w = returnA call (fx_circ fx) NULL (fx_conn fx) w1"
    "elems w1 = elems w" "circs w1 = circs w" "running os fx p (of_nat (length m)) (refilled m bs) e1 k1 io b w1"
    using read_gets [OF stands_running [OF piece.prems(2)] rd piece.hyps(2,3)] by blast
  obtain w2 where w2: "step_run fx 4 (Suc (Suc (n + 2 * length ms))) w = step_run fx 5 (Suc (n + 2 * length ms)) w2"
    "stands os fx 5 p (of_nat (length m)) (refilled m bs) e1 k1 io b w2"
    using moves [OF piece.prems(2) _ w1(2-4), of 5] w1(1) by auto
  obtain w3 where w3: "\<And>call. tls_printA call (fx_circ fx) NULL (fx_conn fx) w2 = returnA call (fx_circ fx) NULL (fx_conn fx) w3"
    "elems w3 = elems w2" "circs w3 = circs w2" "running os fx p 0 (refilled m bs) e1 k1 (io @ [SysStdout (printed_part m)]) b w3"
    using piece_printed [OF stands_running [OF w2(2)] piece.hyps(2,3)] by blast
  obtain w4 where w4: "step_run fx 5 (Suc (n + 2 * length ms)) w2 = step_run fx 4 (n + 2 * length ms) w4"
    "stands os fx 4 p 0 (refilled m bs) e1 k1 (io @ [SysStdout (printed_part m)]) b w4"
    using moves [OF w2(2) _ w3(2-4), of 4] w3(1) by auto
  obtain w' sz' bs' where "step_run fx 4 (n + 2 * length ms) w4 = step_run fx 4 n w'"
    "stands os fx 4 p sz' bs' e' k' ((io @ [SysStdout (printed_part m)]) @ map (SysStdout \<circ> printed_part) ms) b w'"
    using piece.IH [OF piece.prems(1) w4(2)] by blast
  with w2 w4 show ?case by (intro exI [of _ w'] exI [of _ sz'] exI [of _ bs']) (simp add: comp_def)
qed

lemma reading_runs:
  assumes "reading os (fx_site fx) ssl b d e k io' \<sigma>" and ssl: "tls_ssl p = ssl" and st: "stands os fx 4 p sz bs e k io b w"
  shows "\<exists>w'. step_run fx 4 d w = Inr ((), w') \<and> fetch_at os fx \<sigma> (io @ io') w'"
  using assms(1)
proof cases
  case (waits ms e1 k1 n e2 k2 code e3 k3 e4 k4)
  define m where "m = d - 2 * length ms - 1"
  have d: "d = Suc m + 2 * length ms" using waits(8) by (simp add: m_def)
  obtain w1 sz1 bs1 where w1: "step_run fx 4 d w = step_run fx 4 (Suc m) w1" "stands os fx 4 p sz1 bs1 e1 k1 (io @ io') b w1"
    using pieces_run [OF waits(3) ssl st, of "Suc m"] unfolding d waits(1) by blast
  obtain w2 where w2: "\<And>call. tlsreadA call (fx_circ fx) NULL (fx_conn fx) (fx_tls fx) w1 =
      waitA call (fx_circ fx) NULL (fx_conn fx) (si_fd (fx_site fx)) EPOLLIN EPOLLET w2"
    "elems w2 = elems w1" "circs w2 = circs w1" "running os fx p sz1 bs1 e3 k3 (io @ io') b w2"
    using tls_read_waits [OF stands_running [OF w1(2)], of n e2 k2 code e3 k3] waits(4-6) ssl by blast
  from waits_at [where s = "Reading ssl" and n = m, OF _ _ w2(2-4) waits(7)] w1 w2(1) ssl waits(2) show ?thesis by simp
qed

lemma sending_runs:
  assumes "sending os (fx_site fx) ssl b d e k io' \<sigma>" and ssl: "tls_ssl p = ssl"
    and t: "take (length the_request) bs = the_request" and st: "stands os fx 3 p (of_nat (length the_request)) bs e k io b w"
  shows "\<exists>w'. step_run fx 3 d w = Inr ((), w') \<and> fetch_at os fx \<sigma> (io @ io') w'"
  using assms(1)
proof cases
  case (sent n e1 k1 d' io1)
  obtain w1 where w1: "\<And>call. tlswriteA call (fx_circ fx) NULL (fx_conn fx) (fx_tls fx) w = returnA call (fx_circ fx) NULL (fx_conn fx) w1"
    "elems w1 = elems w" "circs w1 = circs w"
    "running os fx p (of_nat (length the_request)) bs e1 k1 (io @ [SslWrite ssl the_request]) b w1"
    using write_sends [OF stands_running [OF st] t, of n e1 k1] sent(3,4) ssl by blast
  obtain w2 where w2: "step_run fx 3 (Suc d') w = step_run fx 4 d' w2"
    "stands os fx 4 p (of_nat (length the_request)) bs e1 k1 (io @ [SslWrite ssl the_request]) b w2"
    using moves [OF st _ w1(2-4), of 4] w1(1) by auto
  from reading_runs [OF sent(5) ssl w2(2)] w2(1) sent(1,2) show ?thesis by auto
next
  case (blocked n e1 k1 code e2 k2 e3 k3 d')
  obtain w1 where w1: "\<And>call. tlswriteA call (fx_circ fx) NULL (fx_conn fx) (fx_tls fx) w =
      waitA call (fx_circ fx) NULL (fx_conn fx) (si_fd (fx_site fx)) EPOLLOUT EPOLLET w1"
    "elems w1 = elems w" "circs w1 = circs w"
    "running os fx p (of_nat (length the_request)) bs e2 k2 (io @ [SslWrite ssl the_request]) b w1"
    using write_waits [OF stands_running [OF st] t, of n e1 k1 code e2 k2] blocked(4-6) ssl by blast
  from waits_at [where s = "Sending ssl" and n = d', OF _ _ w1(2-4) blocked(7)] st w1(1) ssl t blocked(1-3) show ?thesis by simp
qed

section \<open>The end of an errand\<close>

text \<open>\<open>errorA\<close> logs, and the circuit is idle; no bag waits.\<close>

lemma gives_up:
  assumes r: "running os fx p sz bs e k io b w" and ci: "in_circuit fx w"
  shows "\<exists>w'. errorA (exec https_program (Suc n)) (fx_circ fx) s d (Some msg) w = Inr ((), w') \<and> ended fx io w' \<and> objs w' = objs w"
proof -
  obtain C where C: "cells (circs w) (fx_circ fx) = Some C" "c_err C = Some 0" using ci by (auto simp: in_circuit_def)
  let ?msg = "text_of (Some (take 1023 msg))"
  let ?w1 = "logged (log_line LOGGING_ERROR ''tlsclient.c'' 76 ''errorcb'' ?msg (log_errno LOGGING_ERROR w)) w"
  let ?w2 = "?w1\<lparr>usr := (usr w)\<lparr>tl_status := EXIT_FAILURE\<rparr>\<rparr>"
  have "log_works (w_os w) (logging_fd w)" "LOGGING_ERROR \<le> verbosity w"
    using r by (simp_all add: https_defs less_eq_logging_verbosity_def)
  then have "tls_errorcb (Some (take 1023 msg)) w = Inr ((), ?w2)"
    by (simp add: tls_errorcb_def logging_log_then on_usr_then mret_apply)
  then have "exec https_program (Suc n) (OnError 0 (fx_circ fx) s d (Some (take 1023 msg))) w = Inr ((), ?w2)"
    by (simp add: https_program_def)
  then have "errorA (exec https_program (Suc n)) (fx_circ fx) s d (Some msg) w = Inr ((), goto (fx_circ fx) NULL ?w2)"
    using errorA_eq [OF C(1), of "exec https_program (Suc n)" s d "Some msg"] C by (simp add: set_current_eq)
  moreover have "filter outward (map (SysPrint fd) ts) = []" for fd ts by (simp add: filter_map comp_def)
  then have "ended fx io (goto (fx_circ fx) NULL ?w2)"
    using r in_circuit_goto [of fx ?w2 NULL] ci by (simp add: ended_def https_defs ev_ok_def in_circuit_def)
  moreover have "objs (goto (fx_circ fx) NULL ?w2) = objs w" by simp
  ultimately show ?thesis by blast
qed

lemma handshaking_runs:
  assumes "handshaking os (fx_site fx) ssl b d e k io' res" and p: "tls_ssl p = ssl"
    and run: "\<And>call. tlsA call (fx_circ fx) NULL (fx_conn fx) (fx_tls fx) w = tls_handshake call (fx_circ fx) NULL (fx_conn fx) (fx_tls fx) w0"
    and fr: "elems w0 = elems w" "circs w0 = circs w" and r: "running os fx p sz bs e k io b w0"
    and st: "stands os fx 1 p' sz' bs' e' k' io'' b w" and connecting: "tls_status p = TLS_CONNECTING"
  shows "\<exists>w'. step_run fx 1 d w = Inr ((), w') \<and> comes_to os fx res (io @ io') w'"
  using assms(1)
proof cases
  case (agrees k1 d1 \<sigma>)
  obtain w1 where w1: "\<And>call. tls_handshake call (fx_circ fx) NULL (fx_conn fx) (fx_tls fx) w0 = returnA call (fx_circ fx) NULL (fx_conn fx) w1"
    "elems w1 = elems w" "circs w1 = circs w" "running os fx (p\<lparr>tls_status := TLS_CONNECTED\<rparr>) sz bs 0 k1 io b w1"
    using handshake_agrees [OF r, of k1] agrees(3) p fr by (metis (no_types, lifting))
  obtain w2 where w2: "step_run fx 1 (Suc (Suc d1)) w = step_run fx 2 (Suc d1) w2"
    "stands os fx 2 (p\<lparr>tls_status := TLS_CONNECTED\<rparr>) sz bs 0 k1 io b w2"
    using moves [where n = "Suc d1" and j = 2, OF st _ w1(2-4)] run w1(1) by auto
  obtain w3 where w3: "\<And>call. httpreqA call (fx_circ fx) NULL (fx_conn fx) (fx_tls fx) w2 = returnA call (fx_circ fx) NULL (fx_conn fx) w3"
    "elems w3 = elems w2" "circs w3 = circs w2"
    "running os fx (p\<lparr>tls_status := TLS_CONNECTED\<rparr>) (of_nat (length the_request)) (refilled (the_request @ [0]) bs) 0 k1 io b w3"
    using request_written [OF stands_running [OF w2(2)]] by blast
  obtain w4 where w4: "step_run fx 2 (Suc d1) w2 = step_run fx 3 d1 w4"
    "stands os fx 3 (p\<lparr>tls_status := TLS_CONNECTED\<rparr>) (of_nat (length the_request)) (refilled (the_request @ [0]) bs) 0 k1 io b w4"
    using moves [OF w2(2) _ w3(2-4), of 3] w3(1) by auto
  have "take (length the_request) (refilled (the_request @ [0]) bs) = the_request" by (simp add: refilled_def)
  from sending_runs [OF agrees(4) _ this w4(2)] p w2(1) w4(1) agrees(1,2) show ?thesis by (auto simp: comes_to_def)
next
  case (wants r' e1 k1 err e2 k2 op e3 k3 d1)
  obtain w1 where w1: "\<And>call. tls_handshake call (fx_circ fx) NULL (fx_conn fx) (fx_tls fx) w0 =
      waitA call (fx_circ fx) NULL (fx_conn fx) (si_fd (fx_site fx)) op EPOLLET w1"
    "elems w1 = elems w" "circs w1 = circs w" "running os fx p sz bs e2 k2 io b w1"
    using handshake_stops [OF r, of r' e1 k1 err e2 k2 "fx_circ fx" NULL] wants(4-7) p fr
    by (auto simp: SSL_ERROR_WANT_READ_def SSL_ERROR_WANT_WRITE_def OK_def)
  have "stands os fx (step_of (Handshaking ssl)) p' sz' bs' e' k' io'' b w" using st by simp
  from waits_at [where n = d1, OF this _ w1(2-4) wants(8)] run w1(1) p connecting wants(1-3)
  show ?thesis by (simp add: comes_to_def)
next
  case (fails r' e1 k1 err e2 k2 d1)
  obtain w1 where w1: "\<And>call. tls_handshake call (fx_circ fx) NULL (fx_conn fx) (fx_tls fx) w0 =
      errorA call (fx_circ fx) NULL (fx_conn fx) (Some (refusal err)) w1"
    "elems w1 = elems w" "circs w1 = circs w" "running os fx p sz bs e2 k2 io b w1"
    using handshake_stops [OF r, of r' e1 k1 err e2 k2 "fx_circ fx" NULL] fails(4-7) p fr by auto
  from gives_up [OF w1(4) stands_frame(1) [OF st w1(2,3)], of d1 NULL "fx_conn fx" "refusal err"] run w1(1) fails(1-3)
  show ?thesis by (auto simp: comes_to_def step_run_def)
qed

section \<open>Events\<close>

text \<open>Out of the table, and on at the step where the circuit is.\<close>

lemma fetch_woken:
  assumes "fetch_at os fx \<sigma> io w"
  shows "\<exists>p sz bs. finds (er_stage \<sigma>) p sz bs \<and>
      stands os fx (step_of (er_stage \<sigma>)) p sz bs (er_errno \<sigma>) (er_kern \<sigma>) io (Suc (er_bag \<sigma>)) (woken (er_bag \<sigma>) w)"
    and "waits_for (waiting_bag (si_fd (fx_site fx)) (fx_circ fx) NULL (fx_conn fx)) (er_bag \<sigma>) w" and "ev_ok w"
proof -
  let ?w = "woken (er_bag \<sigma>) w"
  have ob: "one_bag fx (er_bag \<sigma>) w" and pr: "https_process os fx (er_errno \<sigma>) (er_kern \<sigma>) io w"
    using assms by (simp_all add: fetch_at_def)
  then show wf: "waits_for (waiting_bag (si_fd (fx_site fx)) (fx_circ fx) NULL (fx_conn fx)) (er_bag \<sigma>) w" and ok: "ev_ok w"
    by (simp_all add: one_bag_def)
  obtain p sz bs where o: "https_objects fx p sz bs w" "finds (er_stage \<sigma>) p sz bs" using assms by (auto simp: fetch_at_def)
  have "no_bag (Suc (er_bag \<sigma>)) ?w"
    using woken_table(1,2) [OF ok wf] ob by (simp add: no_bag_def one_bag_def del_cell_def)
  moreover have "https_process os fx (er_errno \<sigma>) (er_kern \<sigma>) io ?w" using pr by (simp add: https_process_def) (simp add: woken_def)
  moreover have "https_objects fx p sz bs ?w" using o(1) by (simp add: https_objects_def)
  ultimately show "\<exists>p sz bs. finds (er_stage \<sigma>) p sz bs \<and>
      stands os fx (step_of (er_stage \<sigma>)) p sz bs (er_errno \<sigma>) (er_kern \<sigma>) io (Suc (er_bag \<sigma>)) ?w"
    using assms o(2) by (intro exI [of _ p] exI [of _ sz] exI [of _ bs])
      (simp add: stands_def running_def fetch_at_def in_circuit_def at_step_def)
qed

lemma stands_resumes:
  assumes "stands os fx i p sz bs e k io b w"
  shows "runA (exec https_program d) (fx_circ fx) NULL (fx_conn fx) w = step_run fx i d w"
  using assms runA_resume [of w "fx_circ fx" "fx_ps fx" "https_circuit (fx_tls fx)" i] by (simp add: stands_def step_run_def Let_def)

text \<open>The connection is there, or refused.\<close>

lemma connected_runs:
  assumes st: "stands os fx 0 p sz bs e k io b w" and p: "tc_status p = TC_CONNECTING" "tls_status p \<noteq> TLS_CONNECTING"
    and so: "os_so_error os (si_fd (fx_site fx)) k = (Inr 0, k1)" and na: "os_getsockname os (si_fd (fx_site fx)) k1 = (Inr sa, k2)"
    and pr: "prepared os (fx_site fx) ssl e k2 e3 k3" and hs: "handshaking os (fx_site fx) ssl b n e3 k3 io' res"
  shows "\<exists>w'. step_run fx 0 (Suc n) w = Inr ((), w') \<and> comes_to os fx res (io @ io') w'"
proof -
  obtain w1 where w1: "\<And>call. connectA call (fx_circ fx) NULL (fx_conn fx) (fx_tls fx) w = returnA call (fx_circ fx) NULL (fx_conn fx) w1"
    "elems w1 = elems w" "circs w1 = circs w" "running os fx (p\<lparr>tc_status := TC_CONNECTED\<rparr>) sz bs e k2 io b w1"
    using connect_completes [OF stands_running [OF st] p(1) so na] by blast
  obtain w2 where w2: "step_run fx 0 (Suc n) w = step_run fx 1 n w2" "stands os fx 1 (p\<lparr>tc_status := TC_CONNECTED\<rparr>) sz bs e k2 io b w2"
    using moves [where n = n and j = 1, OF st _ w1(2-4)] w1(1) by auto
  have "tls_status (p\<lparr>tc_status := TC_CONNECTED\<rparr>) \<noteq> TLS_CONNECTING" using p(2) by simp
  from tls_prepares [OF stands_running [OF w2(2)] this pr, of "fx_circ fx" NULL] obtain w3 where
    w3: "\<And>call. tlsA call (fx_circ fx) NULL (fx_conn fx) (fx_tls fx) w2 = tls_handshake call (fx_circ fx) NULL (fx_conn fx) (fx_tls fx) w3"
    "elems w3 = elems w2" "circs w3 = circs w2"
    "running os fx (p\<lparr>tc_status := TC_CONNECTED, tls_ssl := ssl, tls_status := TLS_CONNECTING\<rparr>) sz bs e3 k3 io b w3"
    by auto
  from handshaking_runs [OF hs _ w3 w2(2)] w2(1) show ?thesis by simp
qed

lemma ended_call:
  assumes "ended fx io w" and "\<not> outward sc"
  shows "ended fx io (w\<lparr>kern := k, trace := trace w @ [sc], errno := e\<rparr>)" and "ended fx io (w\<lparr>kern := k, trace := trace w @ [sc]\<rparr>)"
  using assms by (simp_all add: ended_def ev_ok_def in_circuit_def)

lemma ended_dearm:
  assumes "ended fx io w" and "obj_as w as_tcpconn q = Some cn"
  shows "\<exists>w'. mbind (load_as as_tcpconn q) (\<lambda>cn. mbind (meloop_ev_dearm (f_fd cn)) (\<lambda>_. mret ())) w = Inr ((), w') \<and>
    ended fx io w' \<and> objs w' = objs w"
proof -
  obtain r k where "os_epoll_ctl (w_os w) (epfd (ev w)) EPOLL_CTL_DEL (f_fd cn) 0 NULL (kern w) = (r, k)" by fastforce
  then show ?thesis
    using ended_call [where sc = "SysEpollCtl EPOLL_CTL_DEL (f_fd cn)" and k = k, OF assms(1)]
    unfolding load_as_bind [OF assms(2)]
    by (cases r) (auto simp: meloop_ev_dearm_def mdefs epoll_ctl_def syscall_def)
qed

lemma ended_close:
  assumes "ended fx io w" and "obj_as w as_tcpconn q = Some cn"
  shows "\<exists>w'. mbind (load_as as_tcpconn q) (\<lambda>cn. mbind (sys_close (f_fd cn)) (\<lambda>_. mret ())) w = Inr ((), w') \<and> ended fx io w'"
proof -
  obtain r k where "os_close (w_os w) (f_fd cn) (kern w) = (r, k)" by fastforce
  then show ?thesis
    using ended_call [where sc = "SysClose (f_fd cn)" and k = k, OF assms(1)]
    unfolding load_as_bind [OF assms(2)] by (cases r) (auto simp: mdefs sys_close_def syscall_def)
qed

lemma refused_runs:
  assumes st: "stands os fx 0 p sz bs e k io b w" and p: "tc_status p = TC_CONNECTING"
    and so: "os_so_error os (si_fd (fx_site fx)) k = (Inr err, k1)" "err \<noteq> 0"
  shows "\<exists>w'. step_run fx 0 (Suc (Suc n)) w = Inr ((), w') \<and> ended fx io w'"
proof (rule running_sees [OF stands_running [OF st]])
  fix cn :: tcpconnS assume o: "cells (objs w) (fx_tls fx) = Some (O_tlsclientP p)" "cells (objs w) (fx_conn fx) = Some (O_tcpconn cn)"
    "f_fd cn = si_fd (fx_site fx)" "w_os w = os" "kern w = k" "fx_conn fx \<noteq> fx_tls fx"
  let ?w1 = "after_call (SysSoError (f_fd cn)) k1 w"
  let ?w2 = "errno_set err (obj_set (fx_tls fx) (O_tlsclientP (p\<lparr>tc_status := TC_FAILED\<rparr>)) ?w1)"
  have "as_tcpclientP (O_tlsclientP p) = Some (tcpclientP.truncate p)" "tc_status (tcpclientP.truncate p) = TC_CONNECTING"
    using p by (simp_all add: tcpclientP.defs)
  then have run: "connectA call c s (fx_conn fx) (fx_tls fx) w = mseq [
      errorA call c s (fx_conn fx) (Some ''TCP connect''),
      mbind (load_as as_tcpconn (fx_conn fx)) (\<lambda>cn. mbind (meloop_ev_dearm (f_fd cn)) (\<lambda>_. mret ())),
      mbind (load_as as_tcpconn (fx_conn fx)) (\<lambda>cn. mbind (sys_close (f_fd cn)) (\<lambda>_. mret ()))] ?w2" for call c s
    using connectA_refused [OF o(1), of "tcpclientP.truncate p" "fx_conn fx" cn err k1 call c s] o so by (simp add: obj_as_def)
  have "running os fx p sz bs e k1 io b ?w1" by (rule running_call [OF stands_running [OF st]]) simp
  then have "running os fx (p\<lparr>tc_status := TC_FAILED\<rparr>) sz bs e k1 io b (obj_set (fx_tls fx) (O_tlsclientP (p\<lparr>tc_status := TC_FAILED\<rparr>)) ?w1)"
    by (rule running_set [where g = "\<lambda>p. p\<lparr>tc_status := TC_FAILED\<rparr>"]) simp_all
  then have r2: "running os fx (p\<lparr>tc_status := TC_FAILED\<rparr>) sz bs err k1 io b ?w2" unfolding errno_set_def by (rule running_errno)
  have "in_circuit fx ?w2" using st by (simp add: stands_def in_circuit_def errno_set_def)
  from gives_up [OF r2 this, of n NULL "fx_conn fx" "''TCP connect''"] obtain w3 where
    w3: "errorA (exec https_program (Suc n)) (fx_circ fx) NULL (fx_conn fx) (Some ''TCP connect'') ?w2 = Inr ((), w3)" "ended fx io w3" "objs w3 = objs ?w2" by blast
  obtain w4 where w4: "mbind (load_as as_tcpconn (fx_conn fx)) (\<lambda>cn. mbind (meloop_ev_dearm (f_fd cn)) (\<lambda>_. mret ())) w3 = Inr ((), w4)"
    "ended fx io w4" "objs w4 = objs w3"
    using ended_dearm [OF w3(2), of "fx_conn fx" cn] w3(3) o(2,6) by (auto simp: obj_as_def)
  obtain w5 where "mbind (load_as as_tcpconn (fx_conn fx)) (\<lambda>cn. mbind (sys_close (f_fd cn)) (\<lambda>_. mret ())) w4 = Inr ((), w5)"
    "ended fx io w5"
    using ended_close [OF w4(2), of "fx_conn fx" cn] w3(3) w4(3) o(2,6) by (auto simp: obj_as_def)
  then show ?thesis using run w3(1) w4(1) by (simp add: step_run_def mthen_apply mret_apply)
qed

lemma goes_on_runs:
  assumes "goes_on os (fx_site fx) d \<sigma> io' res" and f: "finds (er_stage \<sigma>) p sz bs"
    and st: "stands os fx (step_of (er_stage \<sigma>)) p sz bs (er_errno \<sigma>) (er_kern \<sigma>) io (Suc (er_bag \<sigma>)) w"
  shows "\<exists>w'. step_run fx (step_of (er_stage \<sigma>)) d w = Inr ((), w') \<and> comes_to os fx res (io @ io') w'"
  using assms(1)
proof cases
  case (connected n k1 sa k2 ssl e3 k3)
  then show ?thesis using connected_runs [OF _ _ _ connected(3,4,5,6)] st f by simp
next
  case (refused n err k1)
  then show ?thesis using refused_runs [OF _ _ refused(5,6), where n = n] st f by (simp add: comes_to_def)
next
  case (handshake ssl)
  then have p: "tls_ssl p = ssl" "tls_status p = TLS_CONNECTING" using f by simp_all
  have st1: "stands os fx 1 p sz bs (er_errno \<sigma>) (er_kern \<sigma>) io (Suc (er_bag \<sigma>)) w" using st handshake by simp
  have "tlsA call (fx_circ fx) NULL (fx_conn fx) (fx_tls fx) w = tls_handshake call (fx_circ fx) NULL (fx_conn fx) (fx_tls fx) w" for call
    by (rule tls_continues [OF stands_running [OF st1] p(2)])
  from handshaking_runs [OF handshake(2) p(1) this refl refl stands_running [OF st1] st1 p(2)] handshake(1) show ?thesis by simp
next
  case (send ssl \<sigma>')
  then show ?thesis using sending_runs [OF send(3)] st f by (auto simp: comes_to_def)
next
  case (read ssl \<sigma>')
  then show ?thesis using reading_runs [OF read(3)] st f by (auto simp: comes_to_def)
qed

lemma event_goes_on:
  assumes "fetch_at os fx \<sigma> io w" and "plain_event m" and "goes_on os (fx_site fx) d \<sigma> io' res"
  shows "\<exists>w'. handle_event (exec https_program d) (m, er_bag \<sigma>) w = Inr ((), w') \<and> comes_to os fx res (io @ io') w'"
proof -
  note wk = fetch_woken [OF assms(1)]
  obtain p sz bs where f: "finds (er_stage \<sigma>) p sz bs" and
    st: "stands os fx (step_of (er_stage \<sigma>)) p sz bs (er_errno \<sigma>) (er_kern \<sigma>) io (Suc (er_bag \<sigma>)) (woken (er_bag \<sigma>) w)"
    using wk(1) by blast
  from goes_on_runs [OF assms(3) f st] handle_plain [OF wk(3,2) assms(2), of "exec https_program d"]
    stands_resumes [OF st, of d] show ?thesis by simp
qed

text \<open>A hang-up or an error of the connection.\<close>

lemma event_ends:
  assumes "fetch_at os fx \<sigma> io w" and "\<not> plain_event m"
  shows "\<exists>w'. handle_event (exec https_program (Suc d)) (m, er_bag \<sigma>) w = Inr ((), w') \<and> ended fx io w'"
proof -
  note wk = fetch_woken [OF assms(1)]
  let ?fd = "si_fd (fx_site fx)" let ?b = "waiting_bag ?fd (fx_circ fx) NULL (fx_conn fx)"
  obtain p sz bs where
    st: "stands os fx (step_of (er_stage \<sigma>)) p sz bs (er_errno \<sigma>) (er_kern \<sigma>) io (Suc (er_bag \<sigma>)) (woken (er_bag \<sigma>) w)"
    using wk(1) by blast
  obtain r1 k1 r2 k2 where "os_epoll_ctl (w_os w) (epfd (ev w)) EPOLL_CTL_DEL (b_fd ?b) 0 NULL (kern w) = (r1, k1)"
    "os_close (w_os w) (b_fd ?b) k1 = (r2, k2)" by (metis surj_pair)
  from handle_broken [OF wk(3,2) assms(2) this, of "exec https_program (Suc d)"] obtain en msg where
    run: "handle_event (exec https_program (Suc d)) (m, er_bag \<sigma>) w = errorA (exec https_program (Suc d)) (fx_circ fx) NULL (fx_conn fx) (Some msg)
      ((woken (er_bag \<sigma>) w)\<lparr>kern := k2, trace := trace w @ [SysEpollCtl EPOLL_CTL_DEL ?fd, SysClose ?fd], errno := en\<rparr>)" by auto
  let ?w = "(woken (er_bag \<sigma>) w)\<lparr>kern := k2, trace := trace w @ [SysEpollCtl EPOLL_CTL_DEL ?fd, SysClose ?fd], errno := en\<rparr>"
  have "running os fx p sz bs en k2 io (Suc (er_bag \<sigma>)) ?w" using stands_running [OF st] by (simp add: https_defs ev_ok_def)
  moreover have "in_circuit fx ?w" using st by (simp add: stands_def in_circuit_def)
  ultimately show ?thesis using gives_up [of os fx p sz bs en k2 io "Suc (er_bag \<sigma>)" ?w d NULL "fx_conn fx" msg] run by auto
qed

section \<open>The event loop\<close>

abbreviation https_status :: "('k, https) world \<Rightarrow> int" where
  "https_status \<equiv> \<lambda>w. tl_status (usr w)"

lemma fetch_keeps_going:
  assumes "fetch_at os fx \<sigma> io w"
  shows "keeps_going (Some https_status) w"
proof -
  have pr: "https_process os fx (er_errno \<sigma>) (er_kern \<sigma>) io w" and b: "one_bag fx (er_bag \<sigma>) w" using assms by (simp_all add: fetch_at_def)
  have t: "table_ok (ev w)" using b by (simp add: one_bag_def ev_ok_def)
  have "waitingbags (ev w) \<noteq> 0" using reg.count_card [OF t] b by (simp add: one_bag_def)
  then show ?thesis using pr by (simp add: keeps_going_def https_process_def WORKING_def EXIT_FAILURE_def)
qed

lemma ended_stops: "ended fx io w \<Longrightarrow> \<not> keeps_going (Some https_status) w"
  by (simp add: keeps_going_def ended_def)

lemma fetch_waits:
  assumes at: "fetch_at os fx \<sigma> io w" and ep: "os_epoll_wait os (si_epfd (fx_site fx)) EV_MAXEVENTS (er_kern \<sigma>) = (Inr [(m, er_bag \<sigma>)], k)"
  shows "\<exists>w1. fetch_at os fx (\<sigma>\<lparr>er_kern := k\<rparr>) io w1 \<and> (\<forall>n call. meloop_io_loop (Suc n) call (Some https_status) w =
    mthen (handle_event call (m, er_bag \<sigma>)) (meloop_io_loop n call (Some https_status)) w1)"
proof -
  let ?w = "after_call SysEpollWait k w"
  have pr: "https_process os fx (er_errno \<sigma>) (er_kern \<sigma>) io w" using at by (simp add: fetch_at_def)
  have "meloop_ev_wait w = Inr (Inr [(m, er_bag \<sigma>)], ?w)"
    using ep pr by (simp add: meloop_ev_wait_def mdefs syscall_def https_process_def after_call_def EV_MAXEVENTS_def)
  then have "meloop_io_loop (Suc n) call (Some https_status) w =
      mthen (handle_event call (m, er_bag \<sigma>)) (meloop_io_loop n call (Some https_status)) ?w" for n call
    using fetch_keeps_going [OF at] by (simp add: mbind_apply mgets_apply handle_events_def mthen_mret)
  moreover have "fetch_at os fx (\<sigma>\<lparr>er_kern := k\<rparr>) io ?w"
    using at by (simp add: fetch_at_def https_process_def https_objects_def one_bag_def waits_for_def ev_ok_def in_circuit_def at_step_def)
      (simp add: after_call_def)
  ultimately show ?thesis by blast
qed

lemma fetching_runs:
  "fetching os (fx_site fx) d \<sigma> n io' res \<Longrightarrow> fetch_at os fx \<sigma> io w \<Longrightarrow>
    \<exists>w'. meloop_io_loop (n + m) (exec https_program d) (Some https_status) w =
        meloop_io_loop m (exec https_program d) (Some https_status) w' \<and> comes_to os fx res (io @ io') w'"
proof (induction arbitrary: io w rule: fetching.induct)
  case (start \<sigma>)
  then show ?case by (intro exI [of _ w]) (simp add: comes_to_def)
next
  case (round \<sigma> ev k io1 \<sigma>1 n io2 res)
  from fetch_waits [OF round.prems round.hyps(1)] obtain w1 where w1: "fetch_at os fx (\<sigma>\<lparr>er_kern := k\<rparr>) io w1"
    "meloop_io_loop (Suc (n + m)) (exec https_program d) (Some https_status) w =
      mthen (handle_event (exec https_program d) (ev, er_bag \<sigma>)) (meloop_io_loop (n + m) (exec https_program d) (Some https_status)) w1"
    by blast
  obtain w2 where w2: "handle_event (exec https_program d) (ev, er_bag \<sigma>) w1 = Inr ((), w2)" "fetch_at os fx \<sigma>1 (io @ io1) w2"
    using event_goes_on [OF w1(1) round.hyps(2,3)] by (auto simp: comes_to_def)
  from round.IH [OF w2(2)] obtain w' where "meloop_io_loop (n + m) (exec https_program d) (Some https_status) w2 =
      meloop_io_loop m (exec https_program d) (Some https_status) w'" "comes_to os fx res (io @ io1 @ io2) w'" by auto
  with w1(2) w2(1) show ?case by (intro exI [of _ w']) (simp add: mthen_apply)
next
  case (fails \<sigma> ev k io1)
  from fetch_waits [OF fails.prems fails.hyps(1)] obtain w1 where w1: "fetch_at os fx (\<sigma>\<lparr>er_kern := k\<rparr>) io w1"
    "meloop_io_loop (Suc m) (exec https_program d) (Some https_status) w =
      mthen (handle_event (exec https_program d) (ev, er_bag \<sigma>)) (meloop_io_loop m (exec https_program d) (Some https_status)) w1"
    by blast
  with event_goes_on [OF w1(1) fails.hyps(2,3)] show ?case by (auto simp: mthen_apply)
next
  case (hangup \<sigma> ev k)
  obtain d' where d: "d = Suc d'" using hangup.hyps(3) by (cases d) auto
  from fetch_waits [OF hangup.prems hangup.hyps(1)] obtain w1 where w1: "fetch_at os fx (\<sigma>\<lparr>er_kern := k\<rparr>) io w1"
    "meloop_io_loop (Suc m) (exec https_program d) (Some https_status) w =
      mthen (handle_event (exec https_program d) (ev, er_bag \<sigma>)) (meloop_io_loop m (exec https_program d) (Some https_status)) w1"
    by blast
  with event_ends [OF w1(1) hangup.hyps(2), of d'] show ?case by (auto simp: mthen_apply comes_to_def d)
qed

end
