(* ===== verification/Https_Life.thy ===== *)
theory Https_Life
  imports Https_Round
begin

text \<open>
  The life of the TLS client: from the start of \<open>main\<close> to the first wait, and from the end of the event
  loop to the exit status.
\<close>

section \<open>The start\<close>

text \<open>A process before \<open>main\<close>, and what the kernel and OpenSSL do from then on.\<close>

definition clean :: "('k, https) world \<Rightarrow> bool" where
  "clean w \<longleftrightarrow> malloc_total (w_os w) \<and> log_works (w_os w) (logging_fd w) \<and> ev w = static_ev \<and> bagh w = empty_store \<and>
     tl_status (usr w) = WORKING \<and> store_ok (elems w)"

lemma ctx_set_called: "os_SSL_CTX_set (os_ssl (w_os w)) st ctx (errno w) (kern w) = (r, e, k) \<Longrightarrow>
    mbind (ctx_set st ctx) K w = K r (called (SslCtxSet st) e k w)"
  unfolding ctx_set_def by (rule ssl_called)

lemma called_more [simp]:
  "ev (called sc e k w) = ev w" "bagh (called sc e k w) = bagh w" "usr (called sc e k w) = usr w"
  "verbosity (called sc e k w) = verbosity w" "logging_fd (called sc e k w) = logging_fd w"
  "trace (called sc e k w) = trace w @ [sc]"
  by (simp_all add: called_def after_call_def)

text \<open>\<open>same_but_calls w w'\<close>: between \<open>w\<close> and \<open>w'\<close> are only calls that are not seen outside.\<close>

definition same_but_calls :: "('k, 'u) world \<Rightarrow> ('k, 'u) world \<Rightarrow> bool" where
  "same_but_calls w w' \<longleftrightarrow> w_os w' = w_os w \<and> objs w' = objs w \<and> blobs w' = blobs w \<and> elems w' = elems w \<and> circs w' = circs w \<and>
     ev w' = ev w \<and> bagh w' = bagh w \<and> usr w' = usr w \<and> verbosity w' = verbosity w \<and> logging_fd w' = logging_fd w \<and>
     filter outward (trace w') = filter outward (trace w)"

lemma tls_initialised:
  assumes "equipped (w_os w) ctx (errno w) (kern w) e' k'"
  shows "\<exists>w'. meloop_tls_init w = Inr ((), w') \<and> same_but_calls w w' \<and> ssl_ctx w' = ctx \<and> errno w' = e' \<and> kern w' = k'"
  using assms
proof cases
  case (library e1 k1 e2 k2)
  let ?o = "os_ssl (w_os w)"
  from library(1) obtain r1 e0 k0 r2 where lib: "os_SSL_CTX_set ?o Library_init NULL (errno w) (kern w) = (r1, e0, k0)"
    "os_SSL_CTX_set ?o Load_error_strings NULL e0 k0 = (r2, e1, k1)" by (auto simp: takes_simps)
  from library(5) obtain r3 e3 k3 r4 e4 k4 r5 e5 k5 where sets: "os_SSL_CTX_set ?o Set_verify ctx e2 k2 = (r3, e3, k3)"
    "os_SSL_CTX_set ?o (Set_verify_depth TLS_VERIFY_DEPTH) ctx e3 k3 = (r4, e4, k4)"
    "os_SSL_CTX_set ?o Set_options ctx e4 k4 = (r5, e5, k5)"
    "os_SSL_CTX_set ?o (Load_verify_locations ''/etc/ssl/certs'') ctx e5 k5 = (1, e', k')"
    unfolding context_settings_def by (auto simp: takes_simps)
  let ?w1 = "(called SslCtxNew e2 k2 (called (SslCtxSet Load_error_strings) e1 k1 (called (SslCtxSet Library_init) e0 k0 w)))\<lparr>ssl_ctx := ctx\<rparr>"
  let ?w2 = "called (SslCtxSet (Load_verify_locations ''/etc/ssl/certs'')) e' k' (called (SslCtxSet Set_options) e5 k5
    (called (SslCtxSet (Set_verify_depth TLS_VERIFY_DEPTH)) e4 k4 (called (SslCtxSet Set_verify) e3 k3 ?w1)))"
  have "openssl_init w = mbind (ctx_set Set_verify ctx) (\<lambda>_. mbind (ctx_set (Set_verify_depth TLS_VERIFY_DEPTH) ctx) (\<lambda>_.
         mbind (ctx_set Set_options ctx) (\<lambda>_. mbind (ctx_set (Load_verify_locations ''/etc/ssl/certs'') ctx) (\<lambda>res.
         mthen (if res \<noteq> 1 then mbind ERR_get_error (\<lambda>sslerr. mbind (OPENSSL_REASON sslerr) (\<lambda>reason.
             logging_log LOGGING_ERROR ''meloop/openssl_helpers.c'' 164 ''openssl_init''
               (Some (''SSL_CTX_load_verify_locations: '' @ text_of reason)))) else mret ()) (mret 0))))) ?w1"
    using lib library(2-4) by (simp add: openssl_init_def ctx_set_called ssl_called mgets_bind mmod_then)
  then have "openssl_init w = Inr (0, ?w2)" using sets by (simp add: ctx_set_called mthen_ret mret_apply)
  then have "meloop_tls_init w = Inr ((), ?w2)" by (simp add: meloop_tls_init_def mbind_apply mret_apply)
  moreover have "same_but_calls w ?w2" by (simp add: same_but_calls_def)
  ultimately show ?thesis by (intro exI [of _ ?w2]) simp
qed

lemma https_cmds_ok: "build_ok 0 (https_cmds tls)" "appends (https_cmds tls) = 6"
  by (simp_all add: https_cmds_def)

text \<open>The variables and the circuit of \<open>main\<close>, and the first call of \<open>connectA\<close>.\<close>

definition first_errand :: "int \<Rightarrow> 'k \<Rightarrow> ('k, https) world \<Rightarrow> 'k errand" where
  "first_errand e k w = \<lparr>er_stage = Connecting, er_bag = brk (bagh w), er_errno = e, er_kern = k\<rparr>"

definition closing :: "ptr \<Rightarrow> ('k, https, int) wm" where
  "closing circ = mthen meloop_tls_deinit (mthen meloop_io_deinit (mthen (freeC circ) (mgets (\<lambda>w. tl_status (usr w)))))"

abbreviation https_serve :: "nat \<Rightarrow> ('k, https) calls \<Rightarrow> ('k, https, unit) wm" where
  "https_serve rounds call \<equiv> serve ''tlsclient.c'' 123 (\<lambda>st v. v\<lparr>tl_status := st\<rparr>) tl_status rounds call"

lemma https_dials:
  assumes os: "w_os w = os" and m: "malloc_total os" "log_works os (logging_fd w)" "store_ok (elems w)"
    and tb: "ev_ok w" "registered (ev w) = {}" and v: "verbosity w = LOGGING_DEBUG" "tl_status (usr w) = WORKING"
    and si: "si_log si = logging_fd w" "si_epfd si = epfd (ev w)" "si_flags si = epflags (ev w)"
    and eq: "equipped os (si_ctx si) (errno w) (kern w) e1 k1" and di: "dialled os si (brk (bagh w)) ((fed os ^^ 7) k1) e' k'"
  shows "\<exists>fx w'. fx_site fx = si \<and> fetch_at os fx (first_errand e' k' w) (filter outward (trace w)) w' \<and>
    https_rest (exec https_program (Suc d)) rounds w = mthen (https_serve rounds (exec https_program (Suc d))) (closing (fx_circ fx)) w'"
proof -
  obtain w1 where w1: "meloop_tls_init w = Inr ((), w1)" "same_but_calls w w1" "ssl_ctx w1 = si_ctx si" "errno w1 = e1" "kern w1 = k1"
    using tls_initialised [OF eq [folded os]] os by auto
  let ?io = "filter outward (trace w)" and ?call = "exec https_program (Suc d)"
  let ?b = "brk (blobs w1)" and ?q = "brk (objs w1)"
  let ?data = "O_string \<lparr>s_blob = ?b, s_size = 0\<rparr>"
  define cn :: tcpconnS where "cn = \<lparr>f_ptr = NULL, f_data = ?q, f_fd = 0, localaddr = \<lparr>sin_family = 0, sin_port = 0, sin_addr = 0\<rparr>,
     remoteaddr = \<lparr>sin_family = 0, sin_port = 0, sin_addr = 0\<rparr>\<rparr>"
  define w2 where "w2 = w1\<lparr>blobs := snd (new_cell (replicate TL_CHUNK 0) (blobs w1)),
     objs := snd (new_cell (O_tlsclientP https_tls) (snd (new_cell (O_tcpconn cn) (snd (new_cell ?data (objs w1))))))\<rparr>"
  have ok: "malloc_total (w_os w2)" "store_ok (elems w2)" using m w1(2) os by (simp_all add: w2_def same_but_calls_def)
  obtain c ps w3 w4 where b: "newC (Some 0) w2 = Inr (c, w3)" "build c [] (https_cmds (Suc (Suc ?q))) w3 = Inr (ps, w4)"
    "built (Some 0) 7 w2 c ps (https_circuit (Suc (Suc ?q))) w4"
    using circuit_built [OF ok https_built [of "Suc (Suc ?q)"] https_cmds_ok(1), of "Some 0"] https_cmds_ok(2) by auto
  define fx where "fx = \<lparr>fx_circ = c, fx_ps = ps, fx_tls = Suc (Suc ?q), fx_conn = Suc ?q, fx_data = ?q, fx_blob = ?b, fx_site = si\<rparr>"
  let ?w5 = "goto c (ps ! 0) w4"
  have two: "steps (https_circuit (Suc (Suc ?q))) \<noteq> []" "steps (https_circuit (Suc (Suc ?q))) ! 0 = (A_connect, Suc (Suc ?q))"
    by (simp_all add: https_circuit_def)
  note st = built_starts [OF b(3) two]
  have rest: "https_rest ?call rounds w = mthen (?call (Run A_connect c NULL (Suc ?q) (Suc (Suc ?q)))) (mthen (https_serve rounds ?call) (closing c)) ?w5"
  proof -
    have "https_rest ?call rounds w = mbind (newC (Some 0)) (\<lambda>circ. mbind (build circ [] (https_cmds (Suc (Suc ?q)))) (\<lambda>_.
       mthen (runA ?call circ NULL (Suc ?q)) (mthen (https_serve rounds ?call) (closing circ)))) w2"
      using w1(1) by (simp add: https_rest_def closing_def mthen_apply [of meloop_tls_init] array_variable_bind variable_bind w2_def cn_def
          new_cell_def)
    then show ?thesis using b(1,2) st(1) [of ?call NULL "Suc ?q"] by (simp add: mbind_apply mthen_apply)
  qed
  have sd: "objs w4 = objs w2" "blobs w4 = blobs w2" "usr w4 = usr w" "w_os w4 = os" "filter outward (trace w4) = ?io" "errno w4 = e1"
    "ev w4 = ev w" "bagh w4 = bagh w" "verbosity w4 = verbosity w" "logging_fd w4 = logging_fd w" "kern w4 = (fed os ^^ 7) k1" "ssl_ctx w4 = si_ctx si"
    using b(3) w1 os by (simp_all add: built_def same_data_def w2_def same_but_calls_def)
  have ob: "cells (objs ?w5) (Suc (Suc ?q)) = Some (O_tlsclientP https_tls)" "cells (objs ?w5) (Suc ?q) = Some (O_tcpconn cn)"
    "cells (objs ?w5) ?q = Some ?data" "cells (blobs ?w5) ?b = Some (replicate TL_CHUNK 0)"
    by (simp_all add: sd(1,2) w2_def new_cell_def)
  from di obtain a rest' k2 k3 k4 where d: "os_getaddrinfo os (tc_hostname https_tls) (tc_port https_tls) ((fed os ^^ 7) k1) = (Some (a # rest'), k2)"
    "os_socket os (ai_family a) (ai_socktype a OR SOCK_NONBLOCK) (ai_protocol a) k2 = (Inr (si_fd si), k3)" "0 \<le> si_fd si"
    "os_connect os (si_fd si) (ai_addr a) k3 = (Inl EINPROGRESS, k4)" "os_freeaddrinfo os EINPROGRESS = EINPROGRESS"
    "arms os si EPOLLOUT (brk (bagh w)) EINPROGRESS k4 e' k'" by (auto elim!: dialled.cases)
  let ?w6 = "obj_set (Suc (Suc ?q)) (with_status TC_CONNECTING (O_tlsclientP https_tls)) (errno_set EINPROGRESS (obj_set (Suc ?q)
    (O_tcpconn (cn\<lparr>remoteaddr := ai_addr a, f_fd := si_fd si\<rparr>)) (errno_set EINPROGRESS (attempted a (si_fd si) k4 ?w5))))"
  have "immediate ?w5 (tcpclientP.truncate https_tls) a (si_fd si) (Inl EINPROGRESS) k4"
    using d sd(4,11) by (auto simp: immediate_def tcpclientP.truncate_def)
  from connectA_in_progress [OF ob(1) _ _ _ ob(2) _ this] d(5) sd(4)
  have conn: "connectA call c s (Suc ?q) (Suc (Suc ?q)) ?w5 = waitA call c s (Suc ?q) (si_fd si) EPOLLOUT EPOLLET ?w6" for call s
    by (simp add: tcpclientP.defs ioP.defs https_tls_def TC_CONNECTING_def)
  have at5: "at_step ?w5 c ps (https_circuit (Suc (Suc ?q))) 0" by (rule st(2))
  obtain C where "cells (circs w4) c = Some C" "c_err C = Some 0" "c_nets C = hd ps"
    using b(3) by (auto simp: built_def circuit_at_def https_circuit_def split: if_splits)
  then have C: "\<exists>C. cells (circs ?w5) c = Some C \<and> c_err C = Some 0 \<and> c_nets C = hd ps" by (simp add: goto_def)
  have "elems ?w6 = elems ?w5" "circs ?w6 = circs ?w5" by (simp_all add: errno_set_def attempted_def)
  then have ci: "in_circuit fx ?w6" "at_step ?w6 (fx_circ fx) (fx_ps fx) (https_circuit (fx_tls fx)) (step_of Connecting)"
    using at5 C by (simp_all add: fx_def in_circuit_def at_step_def)
  have "running os fx (https_tls\<lparr>tc_status := TC_CONNECTING\<rparr>) 0 (replicate TL_CHUNK 0) EINPROGRESS k4 ?io (brk (bagh w)) ?w6"
  proof -
    have "https_objects fx (https_tls\<lparr>tc_status := TC_CONNECTING\<rparr>) 0 (replicate TL_CHUNK 0) ?w6"
      using ob by (simp add: https_objects_def fx_def https_tls_def cn_def) (simp add: obj_set_def errno_set_def attempted_def)
    moreover have "https_process os fx EINPROGRESS k4 ?io ?w6"
      using sd m v si by (simp add: https_process_def fx_def) (simp add: obj_set_def errno_set_def attempted_def goto_def)
    moreover have "no_bag (brk (bagh w)) ?w6"
      using tb sd by (simp add: no_bag_def ev_ok_def) (simp add: obj_set_def errno_set_def attempted_def goto_def)
    ultimately show ?thesis by (simp add: running_def)
  qed
  from fetch_asleep [OF this _ _ ci, of EPOLLOUT e' k' "exec https_program d"] d(6) obtain w7 where
    "waitA (exec https_program d) c NULL (Suc ?q) (si_fd si) EPOLLOUT EPOLLET ?w6 = Inr ((), w7)"
    "fetch_at os fx (first_errand e' k' w) ?io w7"
    by (auto simp: fx_def https_tls_def TLS_CONNECTING_def first_errand_def)
  then show ?thesis
    using rest conn [of "exec https_program d" NULL] by (intro exI [of _ fx] exI [of _ w7]) (simp add: mthen_apply fx_def)
qed

section \<open>The end\<close>

lemma https_closes:
  assumes "ev_ok w" and "in_circuit fx w"
  shows "\<exists>w'. closing (fx_circ fx) w = Inr (tl_status (usr w), w') \<and> filter outward (trace w') = filter outward (trace w)"
proof -
  obtain w1 where w1: "meloop_tls_deinit w = Inr ((), w1)" "same_but_calls w w1"
  proof (cases "ssl_ctx w = NULL")
    case True
    then show thesis using that [of w] by (simp add: meloop_tls_deinit_def openssl_deinit_def mbind_apply mgets_apply mret_apply same_but_calls_def)
  next
    case False
    obtain e k where "os_SSL_CTX_free (os_ssl (w_os w)) (ssl_ctx w) (errno w) (kern w) = ((), e, k)" by (cases "os_SSL_CTX_free (os_ssl (w_os w)) (ssl_ctx w) (errno w) (kern w)") auto
    then have "meloop_tls_deinit w = Inr ((), called SslCtxFree e k w)"
      using False ssl_called [of "\<lambda>ossl. os_SSL_CTX_free ossl (ssl_ctx w)" w "()" e k SslCtxFree mret]
      by (simp add: meloop_tls_deinit_def openssl_deinit_def mgets_bind mret_apply)
    then show thesis using that [of "called SslCtxFree e k w"] by (simp add: same_but_calls_def)
  qed
  have "ev_ok w1" using assms(1) w1(2) by (simp add: ev_ok_def same_but_calls_def)
  from deinit_runs [OF this] obtain w2 where w2: "meloop_io_deinit w1 = Inr ((), w2)" "usr w2 = usr w1" "circs w2 = circs w1"
    "elems w2 = elems w1" "trace w2 = trace w1 @ [SysClose (epfd (ev w1))]" by blast
  have "in_circuit fx w2" using assms(2) w1(2) w2(3,4) by (simp add: in_circuit_def same_but_calls_def)
  then obtain C where "cells (circs w2) (fx_circ fx) = Some C" "c_nets C = hd (fx_ps fx)" "circuit (elems w2) (fx_ps fx) (https_circuit (fx_tls fx))"
    by (auto simp: in_circuit_def)
  from freeC_element [OF this] obtain w3 where "freeC (fx_circ fx) w2 = Inr ((), w3)" "usr w3 = usr w2" "trace w3 = trace w2" by blast
  then show ?thesis using w1 w2 by (simp add: closing_def mthen_apply mgets_apply same_but_calls_def)
qed

text \<open>The circuit ended: whatever the error was, the exit status is a success.\<close>

lemma ended_succeeds:
  assumes "ended fx io w"
  shows "\<exists>w'. mthen (https_serve (Suc m) call) (closing (fx_circ fx)) w = Inr (0, w') \<and> filter outward (trace w') = io"
proof -
  let ?w = "w\<lparr>usr := (usr w)\<lparr>tl_status := 0\<rparr>\<rparr>"
  have "meloop_io_loop (Suc m) call (Some https_status) w = Inr (OK, w)"
    using ended_stops [OF assms] by (simp add: mbind_apply mgets_apply mret_apply)
  then have "https_serve (Suc m) call w = Inr ((), ?w)"
    unfolding serve_def by (simp add: mbind_apply on_usr_def mdefs OK_def del: meloop_io_loop.simps)
  moreover have "ev_ok ?w" "in_circuit fx ?w" using assms by (simp_all add: ended_def ev_ok_def in_circuit_def)
  from https_closes [OF this] obtain w' where "closing (fx_circ fx) ?w = Inr (0, w')" "filter outward (trace w') = filter outward (trace w)" by auto
  ultimately show ?thesis using assms by (simp add: mthen_apply ended_def)
qed

text \<open>\<open>epoll_wait\<close> fails.\<close>

lemma fetch_interrupted:
  assumes at: "fetch_at os fx \<sigma> io w" and ep: "os_epoll_wait os (si_epfd (fx_site fx)) EV_MAXEVENTS (er_kern \<sigma>) = (Inl e, k)"
  shows "\<exists>w'. mthen (https_serve (Suc m) call) (closing (fx_circ fx)) w = Inr (EXIT_FAILURE, w') \<and> filter outward (trace w') = io"
proof -
  have pr: "https_process os fx (er_errno \<sigma>) (er_kern \<sigma>) io w" and ok: "ev_ok w" using at by (simp_all add: fetch_at_def one_bag_def)
  let ?w1 = "w\<lparr>kern := k, trace := trace w @ [SysEpollWait], errno := e\<rparr>"
  let ?w2 = "logged (log_line LOGGING_ERROR ''tlsclient.c'' 123 ''main'' ''meloop_io_loop'' (log_errno LOGGING_ERROR ?w1)) ?w1"
  let ?w3 = "?w2\<lparr>usr := (usr w)\<lparr>tl_status := EXIT_FAILURE\<rparr>\<rparr>"
  have "meloop_io_loop (Suc m) call (Some https_status) w = Inr (ERR, ?w1)"
    using fetch_keeps_going [OF at] ep pr by (simp add: meloop_ev_wait_def mdefs syscall_def https_process_def)
  moreover have "log_works (w_os ?w1) (logging_fd ?w1)" "LOGGING_ERROR \<le> verbosity ?w1"
    using pr by (simp_all add: https_process_def less_eq_logging_verbosity_def)
  ultimately have "https_serve (Suc m) call w = Inr ((), ?w3)"
    unfolding serve_def by (simp add: mbind_apply [of "meloop_io_loop x y z" for x y z] logging_log_then on_usr_then mret_apply ERR_def
        del: meloop_io_loop.simps)
  moreover have "ev_ok ?w3" "in_circuit fx ?w3" using ok at by (simp_all add: fetch_at_def ev_ok_def in_circuit_def)
  moreover have "filter outward (map (SysPrint fd) ts) = []" for fd ts by (simp add: filter_map comp_def)
  then have "filter outward (trace ?w3) = io" using pr by (simp add: https_process_def)
  ultimately show ?thesis using https_closes [of ?w3 fx] by (auto simp: mthen_apply)
qed

end
