(* ===== verification/Https_Properties.thy ===== *)
theory Https_Properties
  imports Https_Life Demo_Programs
begin

text \<open>
  The TLS client from its start to its end.
\<close>

section \<open>The whole program\<close>

text \<open>What happens before the first wait, and a life: \<open>n\<close> rounds of the event loop in which \<open>io\<close> leaves the
  process, and the exit status.\<close>

inductive https_start :: "('k, https) world \<Rightarrow> site \<Rightarrow> 'k errand \<Rightarrow> bool" for w where
  starts: "os_sigaction (w_os w) (kern w) = (Inr (), k1) \<Longrightarrow> os_epoll_create1 (w_os w) 0 k1 = (Inr (si_epfd si), k2) \<Longrightarrow>
    0 \<le> si_epfd si \<Longrightarrow> si_flags si = EPOLLONESHOT OR EPOLLRDHUP OR EPOLLERR \<Longrightarrow> si_log si = logging_fd w \<Longrightarrow>
    equipped (w_os w) (si_ctx si) (errno w) k2 e3 k3 \<Longrightarrow> dialled (w_os w) si 1 ((fed (w_os w) ^^ 7) k3) e4 k4 \<Longrightarrow>
    https_start w si \<lparr>er_stage = Connecting, er_bag = 1, er_errno = e4, er_kern = k4\<rparr>"

inductive https_life :: "('k, https) world \<Rightarrow> nat \<Rightarrow> nat \<Rightarrow> sysev list \<Rightarrow> int \<Rightarrow> bool" for w d n where
  ends: "https_start w si \<sigma> \<Longrightarrow> fetching (w_os w) si (Suc d) \<sigma> n io None \<Longrightarrow> https_life w d n io 0"
| interrupted: "https_start w si \<sigma> \<Longrightarrow> fetching (w_os w) si (Suc d) \<sigma> n io (Some \<sigma>') \<Longrightarrow>
    os_epoll_wait (w_os w) (si_epfd si) EV_MAXEVENTS (er_kern \<sigma>') = (Inl e, k) \<Longrightarrow> https_life w d n io EXIT_FAILURE"

lemma https_main_waits:
  assumes c: "clean w" and s: "https_start w si \<sigma>"
  shows "\<exists>fx w'. fx_site fx = si \<and> fetch_at (w_os w) fx \<sigma> (filter outward (trace w)) w' \<and>
    https_main (Suc d) rounds w = mthen (https_serve rounds (exec https_program (Suc d))) (closing (fx_circ fx)) w'"
  using s
proof cases
  case (starts k1 k2 e3 k3 e4 k4)
  let ?w = "w\<lparr>verbosity := LOGGING_DEBUG, kern := k2, trace := trace w @ [SysSigaction, SysEpollCreate],
    ev := \<lparr>epfd = si_epfd si, epflags = si_flags si, waitingbags = 0, bags = replicate EV_MAXEVENTS NULL\<rparr>\<rparr>"
  have "https_main (Suc d) rounds w = https_rest (exec https_program (Suc d)) rounds ?w"
    using c starts by (simp add: clean_def https_main_def catch_signal_def meloop_io_init_def meloop_ev_init_def set_ev_def mdefs
        syscall_def res0_def resfd_def static_ev_def)
  moreover have "ev_ok ?w" by (rule static_ok) (use c in \<open>simp_all add: clean_def\<close>)
  moreover have "registered (ev ?w) = {}" by (auto simp: registered_def used_def)
  moreover have "brk (bagh ?w) = 1" using c by (simp add: clean_def empty_store_def)
  ultimately show ?thesis
    using https_dials [of ?w "w_os w" si e3 k3 e4 k4 d rounds] c starts
    by (simp add: clean_def first_errand_def)
qed

text \<open>C10: The TLS client fetches its page: from the start of the process \<open>main\<close> resolves the name, connects,
  shakes hands as OpenSSL asks for, sends the request, sends it once more while OpenSSL does not take it, and
  then prints every piece of the answer that it reads, up to the first zero byte of the piece, in order; nothing
  else leaves the process. When the circuit ends in an error (the connection is refused, the handshake fails, the
  server hangs up, with or without unread data) the exit status is \<open>EXIT_SUCCESS\<close>, although \<open>errorcb\<close> has set
  another one; it is a failure only when \<open>epoll_wait\<close> fails.\<close>

theorem https_client_fetches:
  assumes "clean w" and "https_life w d n io st"
  shows "(\<exists>w'. https_main (Suc d) (n + Suc m) w = Inr (st, w') \<and> filter outward (trace w') = filter outward (trace w) @ io) \<and>
    (\<exists>ssl j ms. io = replicate j (SslWrite ssl (bytes (request ''wttr.in''))) @
      map (\<lambda>m. SysStdout (chars (takeWhile (\<lambda>b. b \<noteq> 0) m))) ms)"
proof -
  obtain si \<sigma> res where s: "https_start w si \<sigma>" and f: "fetching (w_os w) si (Suc d) \<sigma> n io res"
    and r: "case res of None \<Rightarrow> st = 0 | Some \<sigma>' \<Rightarrow> st = EXIT_FAILURE \<and>
      (\<exists>e k. os_epoll_wait (w_os w) (si_epfd si) EV_MAXEVENTS (er_kern \<sigma>') = (Inl e, k))"
    using assms(2) by cases force+
  obtain fx w1 where w1: "fx_site fx = si" "fetch_at (w_os w) fx \<sigma> (filter outward (trace w)) w1"
    "https_main (Suc d) (n + Suc m) w = mthen (https_serve (n + Suc m) (exec https_program (Suc d))) (closing (fx_circ fx)) w1"
    using https_main_waits [OF assms(1) s] by blast
  obtain w2 where w2: "meloop_io_loop (n + Suc m) (exec https_program (Suc d)) (Some https_status) w1 =
      meloop_io_loop (Suc m) (exec https_program (Suc d)) (Some https_status) w2"
    "comes_to (w_os w) fx res (filter outward (trace w) @ io) w2"
    using fetching_runs [OF f [folded w1(1)] w1(2), of "Suc m"] by blast
  have "https_serve (n + Suc m) (exec https_program (Suc d)) w1 = https_serve (Suc m) (exec https_program (Suc d)) w2"
    unfolding serve_def using w2(1) by (simp only: mbind_apply)
  then have main: "https_main (Suc d) (n + Suc m) w =
      mthen (https_serve (Suc m) (exec https_program (Suc d))) (closing (fx_circ fx)) w2" using w1(3) by (simp add: mthen_apply)
  have "\<exists>w'. https_main (Suc d) (n + Suc m) w = Inr (st, w') \<and> filter outward (trace w') = filter outward (trace w) @ io"
    using ended_succeeds [of fx _ w2 m] fetch_interrupted [of "w_os w" fx _ _ w2 _ _ m] w1(1) w2(2) r
    unfolding main by (cases res) (fastforce simp: comes_to_def)+
  moreover have "er_stage \<sigma> = Connecting" using s by cases simp
  then have "\<exists>ssl j ms. io = exchange_of ssl j ms" using fetching_owes [OF f] by simp
  ultimately show ?thesis by (simp add: exchange_of_def the_request_def https_tls_def printed_part_def comp_def)
qed

text \<open>An errand on the demo kernel, with an OpenSSL that agrees at once and reads from the script: two pieces
  come in two events, and then the server hangs up behind a last piece, which is never read.\<close>

definition demo_ssl_read :: "ptr \<Rightarrow> int \<Rightarrow> int \<Rightarrow> demo \<Rightarrow> (int \<times> byte list) \<times> int \<times> demo" where
  "demo_ssl_read ssl n e k = (case d_input k of
     Inr m # rest \<Rightarrow> ((int (length m), m), e, k\<lparr>d_input := rest\<rparr>)
   | r \<Rightarrow> ((-1, []), e, k\<lparr>d_input := tl r\<rparr>))"

definition demo_tls_os :: "demo os" where
  "demo_tls_os = demo_os\<lparr>os_ssl := demo_ssl\<lparr>os_SSL_connect := (\<lambda>ssl e k. (1, e, k)), os_SSL_read := demo_ssl_read\<rparr>\<rparr>"

definition tls_kernel :: "(u32 \<times> ptr \<times> bool) option \<Rightarrow> (int \<times> u32) list list \<Rightarrow> (int + byte list) list \<Rightarrow> int \<Rightarrow> demo" where
  "tls_kernel ent rd inp fds = \<lparr>d_entries = (\<lambda>_. None)(4 := ent), d_ready = rd, d_input = inp, d_clients = [], d_fds = fds\<rparr>"

definition demo_answer :: "(int + byte list) list" where
  "demo_answer = [Inr (bytes ''hi''), Inl EAGAIN, Inr (bytes ''yo''), Inl EAGAIN, Inr (bytes ''!'')]"

definition demo_events :: "(int \<times> u32) list list" where
  "demo_events = [[(4, EPOLLOUT)], [(4, EPOLLIN)], [(4, EPOLLIN OR EPOLLRDHUP)]]"

definition demo_errand :: "(demo, https) world" where
  "demo_errand = (demo_world (tls_kernel None demo_events demo_answer 4) \<lparr>tl_status = WORKING\<rparr>)\<lparr>w_os := demo_tls_os, ev := static_ev\<rparr>"

definition demo_site :: site where
  "demo_site = \<lparr>si_fd = 4, si_epfd = 3, si_flags = EPOLLONESHOT OR EPOLLRDHUP OR EPOLLERR, si_log = 2, si_ctx = 1\<rparr>"

lemmas demo_tls = demo_tls_os_def demo_os_def demo_ssl_def demo_ctl_def demo_site_def tls_kernel_def

lemma demo_tls_quiet: "fed demo_tls_os k = k" "(fed demo_tls_os ^^ n) k = k" "shown demo_tls_os fd ts k = k"
proof -
  show f: "fed demo_tls_os k = k" for k by (simp add: fed_def demo_tls)
  show "(fed demo_tls_os ^^ n) k = k" by (induction n) (simp_all add: f)
  show "shown demo_tls_os fd ts k = k" by (induction ts) (simp_all add: shown_def demo_tls demo_ok_def)
qed

lemma demo_errand_clean: "clean demo_errand"
  by (simp add: clean_def demo_errand_def demo_world_def malloc_total_def log_works_def demo_tls demo_ok_def)

definition demo_mask :: "u32 \<Rightarrow> u32" where
  "demo_mask op = si_flags demo_site OR (op OR EPOLLET)"

lemma demo_first: "arms demo_tls_os demo_site op b e (tls_kernel None rd inp fds) 0 (tls_kernel (Some (demo_mask op, b, True)) rd inp fds)"
proof (rule arms.added)
  show "os_epoll_ctl demo_tls_os (si_epfd demo_site) EPOLL_CTL_MOD (si_fd demo_site) (si_flags demo_site OR (op OR EPOLLET)) b
      (fed demo_tls_os (tls_kernel None rd inp fds)) = (Inl ENOENT, tls_kernel None rd inp fds)"
    by (simp add: demo_tls_quiet) (simp add: demo_tls)
qed (simp add: demo_tls demo_mask_def)

lemma demo_again: "arms demo_tls_os demo_site op b e (tls_kernel (Some x) rd inp fds) e (tls_kernel (Some (demo_mask op, b, True)) rd inp fds)"
  by (rule arms.known) (simp add: demo_tls_quiet, simp add: demo_tls demo_mask_def)

lemma demo_wakes: "os_epoll_wait demo_tls_os (si_epfd demo_site) EV_MAXEVENTS (tls_kernel (Some (demo_mask op, b, True)) ([(4, m)] # rd) inp fds) =
    (Inr [(m, b)], tls_kernel (reported (Some (demo_mask op, b, True))) rd inp fds)"
  by (simp add: demo_tls demo_wait_def enabled_def EV_MAXEVENTS_def)

lemma demo_piece:
  assumes "m \<noteq> []" and "length m \<le> TL_CHUNK"
  shows "reading demo_tls_os demo_site 1 b (Suc (Suc (Suc d))) e (tls_kernel (Some x) rd (Inr m # Inl EAGAIN # inp) fds)
    [SysStdout (printed_part m)] \<lparr>er_stage = Reading 1, er_bag = b, er_errno = e, er_kern = tls_kernel (Some (demo_mask EPOLLIN, b, True)) rd inp fds\<rparr>"
proof -
  let ?k = "\<lambda>inp. tls_kernel (Some x) rd inp fds"
  have rd: "os_SSL_read (os_ssl demo_tls_os) 1 n e (?k (Inr m # inp')) = ((int (length m), m), e, ?k inp')"
    "os_SSL_read (os_ssl demo_tls_os) 1 n e (?k (Inl EAGAIN # inp')) = ((-1, []), e, ?k inp')" for n inp'
    by (simp_all add: demo_tls demo_ssl_read_def)
  have er: "os_ERR_get_error (os_ssl demo_tls_os) e k = (1, e, k)" for k by (simp add: demo_tls)
  have "pieces demo_tls_os 1 e (?k (Inr m # Inl EAGAIN # inp)) [m] e (?k (Inl EAGAIN # inp))"
    by (rule pieces.piece [OF rd(1) assms pieces.none])
  from reading.waits [OF this rd(2) _ er demo_again, of "Suc (Suc (Suc d))"] show ?thesis by simp
qed

lemma takes_all: "(\<And>st. put st e k = (1, e, k)) \<Longrightarrow> takes put sts e k e k"
proof (induction sts)
  case Nil
  show ?case by (rule takes.none)
next
  case (Cons x sts)
  then show ?case by (cases x) (auto intro: takes.setting)
qed

lemma demo_connects:
  assumes "m \<noteq> []" and "length m \<le> TL_CHUNK" and "er_stage \<sigma> = Connecting" and "er_kern \<sigma> = tls_kernel (Some x) rd (Inr m # Inl EAGAIN # inp) fds"
  shows "goes_on demo_tls_os demo_site 7 \<sigma> [SslWrite 1 the_request, SysStdout (printed_part m)] (Some
    \<lparr>er_stage = Reading 1, er_bag = Suc (er_bag \<sigma>), er_errno = 0, er_kern = tls_kernel (Some (demo_mask EPOLLIN, Suc (er_bag \<sigma>), True)) rd inp fds\<rparr>)"
proof -
  let ?k = "er_kern \<sigma>" let ?\<sigma> = "\<lparr>er_stage = Reading 1, er_bag = Suc (er_bag \<sigma>), er_errno = 0,
    er_kern = tls_kernel (Some (demo_mask EPOLLIN, Suc (er_bag \<sigma>), True)) rd inp fds\<rparr>"
  have os: "os_so_error demo_tls_os (si_fd demo_site) ?k = (Inr 0, ?k)"
    "os_getsockname demo_tls_os (si_fd demo_site) ?k = (Inr \<lparr>sin_family = 2, sin_port = 1, sin_addr = 0x0100007F\<rparr>, ?k)"
    "os_SSL_write (os_ssl demo_tls_os) 1 n bs e k = (int (length bs), e, k)"
    "os_SSL_connect (os_ssl demo_tls_os) 1 e ?k = (1, e, ?k)" for n bs e k
    by (simp_all add: demo_tls)
  have "prepared demo_tls_os demo_site 1 (er_errno \<sigma>) ?k (er_errno \<sigma>) ?k"
    by (rule prepared.session [of _ _ _ _ _ "er_errno \<sigma>" ?k], simp_all add: demo_tls) (rule takes_all, simp)
  moreover have "agreed demo_tls_os demo_site 1 (er_errno \<sigma>) ?k ?k"
    using agreed.established [OF os(4), of demo_site] by (simp add: demo_tls_quiet)
  moreover have "sending demo_tls_os demo_site 1 (Suc (er_bag \<sigma>)) 4 0 ?k [SslWrite 1 the_request, SysStdout (printed_part m)] ?\<sigma>"
    using sending.sent [OF os(3) _ demo_piece [OF assms(1,2), of "Suc (er_bag \<sigma>)" 0 0 x rd inp fds, folded assms(4)]]
      length_request_bytes(1) by (simp add: numeral_eq_Suc)
  ultimately have "handshaking demo_tls_os demo_site 1 (Suc (er_bag \<sigma>)) 6 (er_errno \<sigma>) ?k
      [SslWrite 1 the_request, SysStdout (printed_part m)] (Some ?\<sigma>)"
    using handshaking.agrees [of demo_tls_os demo_site 1 "er_errno \<sigma>" ?k ?k "Suc (er_bag \<sigma>)" 4] by (simp add: numeral_eq_Suc)
  with goes_on.connected [OF assms(3) _ os(1,2) \<open>prepared _ _ _ _ _ _ _\<close>, of 7 6] show ?thesis by simp
qed

lemma demo_socket: "os_socket demo_tls_os fa ty pr (tls_kernel None rd inp 4) = (Inr 4, tls_kernel None rd inp 5)"
  by (simp add: demo_tls demo_fd_def)

lemma demo_errand_starts: "https_start demo_errand demo_site
    \<lparr>er_stage = Connecting, er_bag = 1, er_errno = 0, er_kern = tls_kernel (Some (demo_mask EPOLLOUT, 1, True)) demo_events demo_answer 5\<rparr>"
proof -
  let ?k = "tls_kernel None demo_events demo_answer"
  have w: "w_os demo_errand = demo_tls_os" "kern demo_errand = ?k 4" "errno demo_errand = 0" "logging_fd demo_errand = 2"
    by (simp_all add: demo_errand_def demo_world_def)
  have "equipped demo_tls_os 1 0 (?k 4) 0 (?k 4)"
    by (rule equipped.library [of _ 0 "?k 4" 0 "?k 4" _ 0 "?k 4"], rule takes_all, simp_all add: demo_tls) (rule takes_all, simp)
  moreover have "dialled demo_tls_os demo_site 1 (?k 4) 0 (tls_kernel (Some (demo_mask EPOLLOUT, 1, True)) demo_events demo_answer 5)"
    by (rule dialled.on_the_way [OF _ _ _ _ _ demo_first, where ?k2.0 = "?k 5"])
      (use demo_socket in \<open>simp_all add: demo_site_def\<close>, simp_all add: demo_tls)
  ultimately show ?thesis
    by (intro https_start.starts [where ?k1.0 = "?k 4" and ?k2.0 = "?k 4"])
      (simp_all add: w demo_tls_quiet, simp_all add: demo_tls demo_ok_def)
qed

lemma demo_errand_lived: "https_life demo_errand 6 3 [SslWrite 1 the_request, SysStdout ''hi'', SysStdout ''yo''] 0"
proof -
  let ?m = "\<lambda>op b. Some (demo_mask op, b, True)" and ?yo = "[Inr (bytes ''yo''), Inl EAGAIN, Inr (bytes ''!'')]"
  let ?s0 = "\<lparr>er_stage = Connecting, er_bag = 1, er_errno = 0, er_kern = tls_kernel (?m EPOLLOUT 1) demo_events demo_answer 5\<rparr>"
  let ?s1 = "\<lparr>er_stage = Reading 1, er_bag = 2, er_errno = 0, er_kern = tls_kernel (?m EPOLLIN 2) (tl demo_events) ?yo 5\<rparr>"
  let ?s2 = "\<lparr>er_stage = Reading 1, er_bag = 3, er_errno = 0, er_kern = tls_kernel (?m EPOLLIN 3) (tl (tl demo_events)) [Inr (bytes ''!'')] 5\<rparr>"
  obtain x y where x: "reported (?m EPOLLOUT 1) = Some x" "reported (?m EPOLLIN 2) = Some y" by (simp add: reported_def)
  have hi: "bytes ''hi'' \<noteq> []" "length (bytes ''hi'') \<le> TL_CHUNK" "bytes ''yo'' \<noteq> []" "length (bytes ''yo'') \<le> TL_CHUNK"
    by (simp_all add: bytes_def TL_CHUNK_def)
  have shown: "printed_part (bytes ''hi'') = ''hi''" "printed_part (bytes ''yo'') = ''yo''" by code_simp+
  have last: "fetching demo_tls_os demo_site 7 ?s2 1 [] None"
  proof (rule fetching.hangup)
    show "os_epoll_wait demo_tls_os (si_epfd demo_site) EV_MAXEVENTS (er_kern ?s2) = (Inr [(EPOLLIN OR EPOLLRDHUP, er_bag ?s2)],
        tls_kernel (reported (?m EPOLLIN 3)) [] [Inr (bytes ''!'')] 5)"
      using demo_wakes [of EPOLLIN 3 "EPOLLIN OR EPOLLRDHUP" "[]" "[Inr (bytes ''!'')]" 5] by (simp add: demo_events_def)
  qed (simp_all add: plain_event_def EPOLLIN_def EPOLLRDHUP_def)
  have wake: "os_epoll_wait demo_tls_os (si_epfd demo_site) EV_MAXEVENTS (er_kern ?s1) = (Inr [(EPOLLIN, er_bag ?s1)],
      tls_kernel (Some y) (tl (tl demo_events)) ?yo 5)"
    using demo_wakes [of EPOLLIN 2 EPOLLIN "tl (tl demo_events)" ?yo 5] x by (simp add: demo_events_def)
  have read: "goes_on demo_tls_os demo_site 7 (?s1\<lparr>er_kern := tls_kernel (Some y) (tl (tl demo_events)) ?yo 5\<rparr>) [SysStdout ''yo''] (Some ?s2)"
    by (rule goes_on.read [of _ 1]) (use demo_piece [OF hi(3,4), of 3 4 0 y "tl (tl demo_events)" "[Inr (bytes ''!'')]" 5] shown in \<open>simp_all add: numeral_eq_Suc\<close>)
  note two = fetching.round [OF wake EPOLLIN_plain read last]
  have "os_epoll_wait demo_tls_os (si_epfd demo_site) EV_MAXEVENTS (er_kern ?s0) = (Inr [(EPOLLOUT, er_bag ?s0)],
      tls_kernel (Some x) (tl demo_events) demo_answer 5)"
    using demo_wakes [of EPOLLOUT 1 EPOLLOUT "tl demo_events" demo_answer 5] x by (simp add: demo_events_def)
  moreover have "plain_event EPOLLOUT" by (simp add: plain_event_def EPOLLOUT_def EPOLLRDHUP_def EPOLLERR_def)
  moreover have "goes_on demo_tls_os demo_site 7 (?s0\<lparr>er_kern := tls_kernel (Some x) (tl demo_events) demo_answer 5\<rparr>)
      [SslWrite 1 the_request, SysStdout ''hi''] (Some ?s1)"
    using demo_connects [OF hi(1,2), of "?s0\<lparr>er_kern := tls_kernel (Some x) (tl demo_events) demo_answer 5\<rparr>" x "tl demo_events" ?yo 5] shown(1)
    by (simp add: demo_answer_def numeral_2_eq_2)
  ultimately have "fetching demo_tls_os demo_site 7 ?s0 (Suc (Suc 1)) ([SslWrite 1 the_request, SysStdout ''hi''] @ [SysStdout ''yo''] @ []) None"
    using two by (rule fetching.round)
  then have "fetching (w_os demo_errand) demo_site (Suc 6) ?s0 3 [SslWrite 1 the_request, SysStdout ''hi'', SysStdout ''yo''] None"
    by (simp add: demo_errand_def demo_world_def numeral_eq_Suc)
  from https_life.ends [OF demo_errand_starts this] show ?thesis .
qed

lemma https_client_fetches_witness:
  "\<exists>w'. https_main 7 4 demo_errand = Inr (0, w') \<and>
    filter outward (trace w') = [SslWrite 1 (bytes (request ''wttr.in'')), SysStdout ''hi'', SysStdout ''yo'']"
  using https_client_fetches [OF demo_errand_clean demo_errand_lived, of 0]
  by (simp add: demo_errand_def demo_world_def the_request_def https_tls_def numeral_eq_Suc)

end
