(* ===== verification/Spec2Isabelle.thy ===== *)
theory Spec2Isabelle
  imports Circuit_Properties Event_Properties Arrow_Properties Net_Properties Example_Properties
    Signal_Properties Shared_Worker Typed_Programs Https_Properties
begin

text \<open>
  \<^bold>\<open>A verification library for meloop.\<close>

  meloop (\<open>src/meloop\<close>) is a C library for event-driven programs. A program puts its work into
  \<^emph>\<open>circuits\<close>: lists of \<^emph>\<open>arrows\<close>, functions that take a circuit, a state, some data and a private
  struct, and hand over to the next arrow with \<open>returnA\<close>, end the circuit with \<open>errorA\<close>, or park it
  with \<open>waitA\<close> until a descriptor is ready. A parked circuit is a \<^emph>\<open>bag\<close> (\<open>struct bagS\<close>) in a
  table of sixteen slots and in the epoll instance; \<open>meloop_io_loop\<close> takes the bags that epoll
  reports out of the table and runs their circuits. On top of this are arrows for reading, writing,
  pipes, timers, random bytes, TCP, TLS and tunnel devices, and a logger.

  \<^bold>\<open>The machine.\<close> \<open>Prelude\<close> has the monad of the C functions, from a state to a \<open>fault\<close> or a result
  and a state; faults are what C leaves undefined (null and dangling pointers, overflows, indeterminate
  values), \<open>abort\<close>-like exits, loops that do not end (\<open>Diverges\<close>) and a used-up bound (\<open>OutOfFuel\<close>).
  \<open>Store\<close> is a typed heap per kind of object whose addresses are never used twice, so an access
  after \<open>free\<close> is always seen. \<open>World\<close> has the structs of the headers as records, and the casts
  between structs that the code relies on. \<open>Machine\<close> has the constants of Linux on x86-64, the operating
  system and OpenSSL as records of functions over a kernel state \<open>'k\<close> (parameters of all that
  follows), and the state of a process: the heaps, the static variables of \<open>ev.c\<close>, \<open>addr.c\<close>,
  \<open>logging.c\<close> and \<open>tls.c\<close>, \<open>errno\<close>, the state \<open>'u\<close> of the program that uses the library, and the list of
  the system calls made so far. Words have the width of the C types (\<open>u32\<close>, \<open>u64\<close>); a C \<open>int\<close> is an
  \<open>int\<close> where it cannot overflow, and its overflow is a fault where it can (\<open>randencA\<close>).

  \<^bold>\<open>The components.\<close>
  \<^item> \<open>Circuit\<close>, \<open>Circuit_Refine\<close>: the lists of \<open>arrow.c\<close>, \<open>newC\<close>, \<open>appendA\<close>, \<open>bindA\<close>, \<open>loopA\<close>, \<open>freeE\<close>,
    \<open>freeC\<close>, as walks over the heap (\<open>partial_function\<close>, where \<open>None\<close> is a walk without end), and
    their refinement of abstract circuits \<open>acirc\<close>: a list of steps and where the last one leads.
  \<^item> \<open>Arrow\<close>: \<open>returnA\<close>, \<open>errorA\<close>, \<open>runA\<close>, \<open>meloop_priv_ptr\<close>. A call through a function pointer is an
    \<open>invocation\<close>; what calls do is an argument. \<open>Program\<close> ties the knot: \<open>exec u n\<close> runs an
    invocation with at most \<open>n\<close> nested calls, for the arrows of the library and the program \<open>u\<close>.
  \<^item> \<open>Ev\<close>: the table of bags and epoll, \<open>ev.c\<close>. \<open>Io\<close>: \<open>waitA\<close>, \<open>readA\<close>, \<open>writeA\<close> and the loop, \<open>io.c\<close>.
  \<^item> \<open>Stream_Arrow\<close> (\<open>pipe.c\<close>, and what reading and writing arrows do), \<open>Timer_Arrow\<close> (\<open>timer.c\<close>),
    \<open>Random_Arrow\<close> (\<open>random.c\<close>), \<open>Addr\<close> (\<open>addr.c\<close>), \<open>Log\<close> (\<open>logging.c\<close>), \<open>Tcp\<close> (\<open>tcp.c\<close>), \<open>Tls\<close>
    (\<open>tls.c\<close>, \<open>openssl_helpers.c\<close>), \<open>Tuntap\<close> (\<open>tuntap.c\<close>).
  \<^item> \<open>Pipeline\<close> is the family of programs whose arrows only compute. \<open>Example_Runtime\<close> has what the programs
    under \<open>src/examples\<close> share: variables, formats, \<open>catch_signal\<close>, \<open>serve\<close> (the loop with the exit status) and
    the way from the start of a process to the loop.
  \<^item> \<open>Echo_Server\<close>, \<open>Echo_Client\<close>, \<open>Echo_Shell\<close>, \<open>Random_Program\<close>, \<open>Tls_Client\<close>: the five programs
    \<open>echoserver.c\<close>, \<open>echoclient.c\<close>, \<open>echoshell.c\<close>, \<open>random.c\<close>, \<open>tlsclient.c\<close>, from their callbacks to \<open>main\<close>.
    \<open>main\<close> is split into what comes before the initialisation, \<open>*_rest\<close>, and \<open>*_end\<close> from the loop on.
  \<^item> \<open>Testing\<close> (\<open>src/tests/testing.h\<close>) and \<open>Circuit_Tests\<close> (\<open>src/tests/test_circuit_*.c\<close>) with the assertions.
  \<^item> \<open>Flow\<close> is a small-step view of a running circuit: \<open>flow\<close> is one arrow that resumes the circuit, \<open>walks\<close> a
    number of them between two conditions. \<open>Waiting\<close> is what parking a circuit and waking it do to a process.
    \<open>Setup\<close> is the start of a \<open>main\<close>: the circuits that were built, what they leave alone, the first call; and its end. \<open>Random_Round\<close>,
    \<open>Shell_Round\<close>, \<open>Client_Round\<close> say what the variables of the programs hold between two arrows and walk through a
    round of their loops.
  \<^item> \<open>Echo_Service\<close> is an abstract echo service: who waits for an event, which memory is handed out next, the kernel; a
    \<open>session\<close> is a number of rounds in which clients are attended and yields the messages with the descriptors they came from.
    \<open>Server_Round\<close> relates it to a process (\<open>echo_at\<close>: every waiter is a bag, every client a \<open>struct tcpconnS\<close> of its own) and
    shows that the handling of one event is one step of the service. \<open>Server_Life\<close> goes from there to the loop and to \<open>main\<close>.
  \<^item> \<open>Https_Service\<close> is the errand of the TLS client as a machine: what it waits for (the connection, the handshake, room to
    write, the answer) and what OpenSSL and the kernel say at each event. \<open>Https_Round\<close> follows the process through the six arrows
    and shows that an event is a step of the machine; \<open>Https_Life\<close> goes from the start of \<open>main\<close> to the first wait, and from
    the end of the loop to the exit.
  \<^item> \<open>Signals\<close> is the event loop of \<open>io.c\<close> as a machine of single steps, with calls of a signal handler between them
    (\<open>own\<close> is the next step of the loop, \<open>turns\<close> a schedule). \<open>Alike\<close> compares two runs of the same code on
    processes that differ in the variables of the program only.
  \<^item> \<open>Typing\<close> is a type system for the pointers: facts about addresses as the type of a memory, a judgement for the
    functions of the monad, and the prototypes of the headers (\<open>takes\<close>). \<open>Typed_Arrows\<close> types the library,
    \<open>Typed_Programs\<close> three of the programs.

  \<^bold>\<open>Interfaces.\<close> \<open>memory\<close> (the heap, interpreted by the stores), \<open>walk\<close> (the pointer walks),
  \<open>bag_registry\<close> (the table, interpreted by the arrays of \<open>ev.c\<close>), \<open>stream_reader\<close> and \<open>stream_writer\<close>
  (shared by \<open>io.c\<close> and \<open>pipe.c\<close>), \<open>process_invariant\<close> and \<open>loop_invariant\<close> (what an invariant of
  the process must survive to hold throughout the loop), \<open>user_code\<close> and \<open>kept_program\<close> (what a
  program must promise), \<open>started\<close> (what a \<open>main\<close> relies on after the initialisation), \<open>blind_program\<close> (a program
  whose functions do the same on related variables), \<open>stoppable\<close> (a status that is never set back), \<open>typed_calls\<close> and \<open>typed_program\<close>
  (functions that are called through pointers, and those of a program, do what their types say), and for the example
  programs one locale each per contract (\<open>echo_invariant\<close>, \<open>echo_started\<close>, \<open>echo_relation\<close> and so on). Each has interpretations on the model of the code.

  \<^bold>\<open>What is shown.\<close> \<open>Circuit_Properties\<close>: building circuits is right, and on which circuits the
  functions of \<open>arrow.c\<close> never return; running goes step by step; a closed circuit needs an arrow that
  waits. \<open>Event_Properties\<close>: for an epoll that behaves as documented (\<open>epoll_spec\<close>) no bag is used after it
  was freed, whatever the program, if it keeps to the library; the counter of waiting bags is right
  for every kernel; what one event does; the table and its limit. \<open>Arrow_Properties\<close> and
  \<open>Net_Properties\<close>: the arrows, branch by branch, among them the places where the code does not do
  what it seems to mean. \<open>Example_Properties\<close>: the five programs respect the event module from the first to the
  last call; the random generator, the shell and the client do a round of their loop as one would say it
  in words, call by call; the tests of the repository pass. \<open>Server_Properties\<close>: from the start of the process to its exit the echo server
  writes back what it reads, to whom it came from and in order, as the abstract service does (\<open>life\<close> says what the kernel
  answers: clients that come and go, messages in whatever order, a kernel that takes every answer). \<open>Shared_Worker\<close>: what
  comes of a client that does not take its answer. \<open>Https_Properties\<close>: from the start of the process to its exit the TLS client
  sends its request and prints the answer piece by piece, as the errand does (\<open>https_life\<close> says what the outside answers:
  a connection that is on its way, accepted or refused, a handshake in as many steps as OpenSSL wants, an answer in whatever pieces, a server that hangs up). \<open>Signal_Properties\<close>: the machine of single steps is \<open>meloop_io_loop\<close>; whenever
  signals arrive no freed bag is used and the server stops within a round, unless the signal comes right before \<open>epoll_wait\<close>;
  the moment of a signal makes no difference to what an event does. \<open>Typed_Programs\<close>: no run of the echo server,
  the shell or the TLS client, on whatever kernel, uses a pointer as something it does not point to. Every property with a hypothesis has a witness that runs on the small
  operating system of \<open>Demo_Kernel\<close> and the processes of \<open>Demo_States\<close> and \<open>Demo_Programs\<close>.

  \<^bold>\<open>Bounds.\<close> The call depth of \<open>exec\<close> stands for the C stack and the rounds of \<open>meloop_io_loop\<close> for the
  time it runs. A result other than \<open>OutOfFuel\<close> is the same for every larger depth (\<open>exec_mono\<close>),
  so a depth that is enough once is enough; the invariants hold for every depth and every number of
  rounds. A circuit of \<open>n\<close> computing arrows needs depth \<open>n\<close> (\<open>open_circuit_runs\<close>), a looped one
  has no depth that is enough (\<open>closed_circuit_never_returns\<close>).

  The walk through a round of a program uses as many nested calls as it has arrows, so a round
  that never waits makes the C stack deeper by that number: the theorems of the rounds say so.

  \<^bold>\<open>Not modelled.\<close> Types of circuits whose arrows take different data, as those of \<open>random.c\<close> and \<open>echoclient.c\<close>:
  their steps are proved one by one instead. A signal in the middle of the handling of one event: \<open>Signals\<close> has them between the steps of
  the loop, and \<open>signal_moment_irrelevant\<close> says why the handling does not depend on it;
  \<open>struct forkE\<close>, which no function uses; IPv6 results of \<open>getaddrinfo\<close>; the padding of
  \<open>struct sockaddr_in\<close>; partial lines of the logger when a single \<open>dprintf\<close> of it fails; the text that \<open>err\<close> prints
  before it ends the process. Fields of a new \<open>malloc\<close>ed struct that the code does not set
  are zero in the model. \<open>errorA\<close> takes the finished message: the C code formats it with \<open>vsnprintf\<close>. The standard
  output is a list of texts, not their buffering.
\<close>

end
